(* ===== verification/Prelude.thy ===== *)
theory Prelude
  imports Main "HOL-Library.Word" "HOL-Library.Monad_Syntax"
begin

text \<open>
  Shared vocabulary of the development: machine integer types, measurement counters,
  the outcome predicate for code that may run into undefined behaviour, and the generic
  list and map facts the component theories use.

  Every C function that can follow an invalid pointer is modelled as a function into
  \<open>option\<close>: \<open>None\<close> is undefined behaviour (a NULL dereference, an access to a freed
  element, the unlinking of an element that is in no list), \<open>Some\<close> of the result and
  the new state is an ordinary return. A safety statement therefore says
  \<open>ok P (f s)\<close>: the call returns, and its outcome satisfies \<open>P\<close>.
\<close>

unbundle bit_operations_syntax

section \<open>Types\<close>

type_synonym ulong = "32 word"
type_synonym uint = "32 word"

text \<open>
  The measurement block \<open>meas.ds_cntr\<close> has one counter per name. Its declaration
  (\<open>ipni_fe_cntrs.h\<close>) is not part of the repository, so the width of the counters is not
  known: they are natural numbers here, one per field name.
\<close>

type_synonym meas = "string \<Rightarrow> nat"

definition inc :: "string \<Rightarrow> meas \<Rightarrow> meas" where
  "inc c m = m(c := Suc (m c))"

definition zero_meas :: meas where
  "zero_meas = (\<lambda>_. 0)"

text \<open>The return code that most functions share.\<close>

datatype status = SUCCESS | FAILURE

named_theorems wp \<open>rules that compute \<open>ok P (f s)\<close>\<close>
named_theorems frame \<open>which parts of the state an operation leaves alone\<close>

section \<open>Outcomes\<close>

definition ok :: "('a \<Rightarrow> bool) \<Rightarrow> 'a option \<Rightarrow> bool" where
  "ok P r = (case r of None \<Rightarrow> False | Some x \<Rightarrow> P x)"

lemma ok_Some [simp, wp]: "ok P (Some x) = P x"
  by (simp add: ok_def)

lemma ok_None [simp, wp]: "\<not> ok P None"
  by (simp add: ok_def)

lemma ok_bind [simp, wp]: "ok P (Option.bind m f) = ok (\<lambda>x. ok P (f x)) m"
  by (cases m) (simp_all add: ok_def)

lemma ok_if [wp]: "ok P (if b then x else y) = (if b then ok P x else ok P y)"
  by simp

lemma ok_mono: "ok P r \<Longrightarrow> (\<And>x. P x \<Longrightarrow> Q x) \<Longrightarrow> ok Q r"
  by (cases r) (simp_all add: ok_def)

lemma ok_conj: "ok (\<lambda>x. P x \<and> Q x) r \<longleftrightarrow> ok P r \<and> ok Q r"
  by (cases r) (simp_all add: ok_def)

lemma ok_iff: "ok P r \<longleftrightarrow> (\<exists>x. r = Some x \<and> P x)"
  by (cases r) (simp_all add: ok_def)

lemma ok_SomeD: "ok P r \<Longrightarrow> r = Some x \<Longrightarrow> P x"
  by (simp add: ok_def)

lemma ok_split: "ok P r \<Longrightarrow> (\<And>x. r = Some x \<Longrightarrow> P x \<Longrightarrow> Q x) \<Longrightarrow> ok Q r"
  by (cases r) (simp_all add: ok_def)

section \<open>Counters\<close>

lemma inc_same [simp]: "inc c m c = Suc (m c)"
  by (simp add: inc_def)

lemma inc_other [simp]: "c \<noteq> d \<Longrightarrow> inc c m d = m d"
  by (simp add: inc_def)

lemma inc_apply: "inc c m d = (if d = c then Suc (m d) else m d)"
  by (simp add: inc_def)

lemma inc_mono: "m d \<le> inc c m d"
  by (simp add: inc_def)

section \<open>Lists\<close>

text \<open>
  The tail queues of \<open>sys/queue.h\<close> are lists of element indices.
  \<open>tailq_remove\<close> is \<open>TAILQ_REMOVE\<close>: unlinking an element that is not in the list
  is undefined. \<open>tailq_next\<close> reads an element's forward link.
\<close>

definition tailq_insert_tail :: "'a \<Rightarrow> 'a list \<Rightarrow> 'a list" where
  "tailq_insert_tail x xs = xs @ [x]"

definition tailq_remove :: "'a \<Rightarrow> 'a list \<Rightarrow> 'a list option" where
  "tailq_remove x xs = (if x \<in> set xs then Some (remove1 x xs) else None)"

definition tailq_first :: "'a list \<Rightarrow> 'a option" where
  "tailq_first xs = (case xs of [] \<Rightarrow> None | x # _ \<Rightarrow> Some x)"

fun tailq_next :: "'a \<Rightarrow> 'a list \<Rightarrow> 'a option" where
  "tailq_next x [] = None"
| "tailq_next x (y # ys) = (if x = y then tailq_first ys else tailq_next x ys)"

lemma tailq_first_simps [simp]:
  "tailq_first [] = None" "tailq_first (x # xs) = Some x"
  by (simp_all add: tailq_first_def)

lemma ok_tailq_remove [wp]: "ok P (tailq_remove x xs) \<longleftrightarrow> x \<in> set xs \<and> P (remove1 x xs)"
  by (simp add: tailq_remove_def)

lemma tailq_next_in: "tailq_next x xs = Some y \<Longrightarrow> y \<in> set xs"
  by (induction xs) (auto split: if_splits list.splits simp: tailq_first_def)

lemma tailq_next_notin: "x \<notin> set xs \<Longrightarrow> tailq_next x xs = None"
  by (induction xs) auto

lemma tailq_next_append:
  "distinct (as @ x # bs) \<Longrightarrow> tailq_next x (as @ x # bs) = tailq_first bs"
  by (induction as) auto

lemma set_remove1_distinct [simp]: "distinct xs \<Longrightarrow> set (remove1 x xs) = set xs - {x}"
  by (rule set_remove1_eq)

end
