(* ===== verification/Fsm.thy ===== *)
theory Fsm
  imports Prelude
begin

text \<open>
  The Credit-Control Application server state machine of
  \<open>diameter-session-manager/dsm_fsm.c\<close> and \<open>dsm_fsm.h\<close>: its enumerations, the state
  transition table \<open>stt\<close>, the name tables, and the life cycle the table gives a session.
\<close>

section \<open>Enumerations\<close>

datatype app_sm = APP_SM_UNDEF | APP_SM_CCAS

datatype state_ccas =
    STATE_CCAS_UNDEF
  | STATE_CCAS_DISCONTINUING
  | STATE_CCAS_IDLE
  | STATE_CCAS_OPEN
  | STATE_CCAS_PROC_REQ
  | STATE_CCAS_PROC_REQ_FINAL
  | STATE_CCAS_REPORTING_ERROR

datatype event_ccas =
    EVENT_CCAS_UNDEF
  | EVENT_CCAS_DQ_DIAM_CCR_UPDATE
  | EVENT_CCAS_DQ_DIAM_CCR_TERM
  | EVENT_CCAS_DQ_DIAM_STR
  | EVENT_CCAS_EXP_TCC
  | EVENT_CCAS_EXP_TG
  | EVENT_CCAS_RX_DIAM_ASA
  | EVENT_CCAS_RX_DIAM_CCR_EVENT
  | EVENT_CCAS_RX_DIAM_CCR_EVENT_T
  | EVENT_CCAS_RX_DIAM_CCR_INIT
  | EVENT_CCAS_RX_DIAM_CCR_INIT_T
  | EVENT_CCAS_RX_DIAM_CCR_TERM
  | EVENT_CCAS_RX_DIAM_CCR_TERM_T
  | EVENT_CCAS_RX_DIAM_CCR_UPDATE
  | EVENT_CCAS_RX_DIAM_CCR_UPDATE_T
  | EVENT_CCAS_RX_DIAM_MSG_VALID
  | EVENT_CCAS_RX_DIAM_RAA
  | EVENT_CCAS_RX_DIAM_STR
  | EVENT_CCAS_RX_DIAM_STR_T
  | EVENT_CCAS_RX_DIAMCTX_GDI_FAIL
  | EVENT_CCAS_RX_GDI_ABORT
  | EVENT_CCAS_RX_GDI_ASR
  | EVENT_CCAS_RX_GDI_CCA_EVENT_FAIL
  | EVENT_CCAS_RX_GDI_CCA_EVENT_SUCC
  | EVENT_CCAS_RX_GDI_CCA_INIT_FAIL
  | EVENT_CCAS_RX_GDI_CCA_INIT_SUCC
  | EVENT_CCAS_RX_GDI_CCA_TERM_FAIL
  | EVENT_CCAS_RX_GDI_CCA_TERM_SUCC
  | EVENT_CCAS_RX_GDI_CCA_UPDATE_FAIL
  | EVENT_CCAS_RX_GDI_CCA_UPDATE_SUCC
  | EVENT_CCAS_RX_GDI_DIM_CLOSE
  | EVENT_CCAS_RX_GDI_RAR
  | EVENT_CCAS_RX_GDI_STA_FAIL
  | EVENT_CCAS_RX_GDI_STA_SUCC
  | EVENT_CCAS_RX_QMSG_FE_UNAVAIL
  | EVENT_CCAS_RX_QMSG_UP_CP

datatype action_ccas =
    ACTION_CCAS_UNDEF
  | ACTION_CCAS_CLOSE_GDI_TRANS
  | ACTION_CCAS_DISC_GDI_MSG
  | ACTION_CCAS_QUE_DIAM_MSG
  | ACTION_CCAS_STOP_TG
  | ACTION_CCAS_TX_DIAM_ASR_01
  | ACTION_CCAS_TX_DIAM_ASR_02
  | ACTION_CCAS_TX_DIAM_CCA_01
  | ACTION_CCAS_TX_DIAM_CCA_02
  | ACTION_CCAS_TX_DIAM_CCA_03
  | ACTION_CCAS_TX_DIAM_RAR_01
  | ACTION_CCAS_TX_DIAM_RAR_02
  | ACTION_CCAS_TX_DIAM_STA
  | ACTION_CCAS_TX_GDI_ASA
  | ACTION_CCAS_TX_GDI_CCR_01
  | ACTION_CCAS_TX_GDI_CCR_02
  | ACTION_CCAS_TX_GDI_RAA
  | ACTION_CCAS_TX_GDI_REPTERR
  | ACTION_CCAS_TX_GDI_STR_01
  | ACTION_CCAS_TX_GDI_STR_02
  | ACTION_CCAS_UP_US

text \<open>A state transition entry: the new state and the action.\<close>

record ste =
  ste_state :: state_ccas
  ste_action :: action_ccas

section \<open>The state transition table\<close>

text \<open>
  One function per case of the outer \<open>switch (state)\<close>; \<open>None\<close> is the \<open>default\<close> label
  of the inner \<open>switch (event)\<close>.
\<close>

definition ste_of :: "state_ccas \<Rightarrow> action_ccas \<Rightarrow> ste option" where
  "ste_of st a = Some \<lparr>ste_state = st, ste_action = a\<rparr>"

definition stt_idle :: "event_ccas \<Rightarrow> ste option" where
  "stt_idle event = (case event of
     EVENT_CCAS_RX_DIAM_CCR_INIT \<Rightarrow> ste_of STATE_CCAS_PROC_REQ ACTION_CCAS_TX_GDI_CCR_01
   | EVENT_CCAS_RX_DIAM_CCR_EVENT \<Rightarrow> ste_of STATE_CCAS_PROC_REQ_FINAL ACTION_CCAS_TX_GDI_CCR_01
   | EVENT_CCAS_RX_GDI_ABORT \<Rightarrow> ste_of STATE_CCAS_IDLE ACTION_CCAS_CLOSE_GDI_TRANS
   | EVENT_CCAS_RX_QMSG_FE_UNAVAIL \<Rightarrow> ste_of STATE_CCAS_DISCONTINUING ACTION_CCAS_TX_GDI_STR_01
   | _ \<Rightarrow> None)"

definition stt_proc_req :: "event_ccas \<Rightarrow> ste option" where
  "stt_proc_req event = (case event of
     EVENT_CCAS_RX_GDI_CCA_INIT_SUCC \<Rightarrow> ste_of STATE_CCAS_OPEN ACTION_CCAS_TX_DIAM_CCA_02
   | EVENT_CCAS_RX_GDI_CCA_UPDATE_SUCC \<Rightarrow> ste_of STATE_CCAS_OPEN ACTION_CCAS_TX_DIAM_CCA_02
   | EVENT_CCAS_RX_DIAM_MSG_VALID \<Rightarrow> ste_of STATE_CCAS_PROC_REQ ACTION_CCAS_QUE_DIAM_MSG
   | EVENT_CCAS_RX_GDI_RAR \<Rightarrow> ste_of STATE_CCAS_PROC_REQ ACTION_CCAS_TX_DIAM_RAR_02
   | EVENT_CCAS_RX_GDI_ASR \<Rightarrow> ste_of STATE_CCAS_PROC_REQ ACTION_CCAS_TX_DIAM_ASR_02
   | EVENT_CCAS_EXP_TG \<Rightarrow> ste_of STATE_CCAS_REPORTING_ERROR ACTION_CCAS_TX_DIAM_CCA_03
   | EVENT_CCAS_RX_GDI_CCA_INIT_FAIL \<Rightarrow> ste_of STATE_CCAS_IDLE ACTION_CCAS_TX_DIAM_CCA_01
   | EVENT_CCAS_RX_GDI_CCA_UPDATE_FAIL \<Rightarrow> ste_of STATE_CCAS_IDLE ACTION_CCAS_TX_DIAM_CCA_01
   | EVENT_CCAS_RX_QMSG_UP_CP \<Rightarrow> ste_of STATE_CCAS_PROC_REQ ACTION_CCAS_UP_US
   | EVENT_CCAS_RX_DIAMCTX_GDI_FAIL \<Rightarrow> ste_of STATE_CCAS_REPORTING_ERROR ACTION_CCAS_TX_GDI_REPTERR
   | EVENT_CCAS_RX_GDI_ABORT \<Rightarrow> ste_of STATE_CCAS_PROC_REQ ACTION_CCAS_CLOSE_GDI_TRANS
   | EVENT_CCAS_RX_QMSG_FE_UNAVAIL \<Rightarrow> ste_of STATE_CCAS_DISCONTINUING ACTION_CCAS_TX_GDI_STR_01
   | EVENT_CCAS_RX_DIAM_CCR_INIT_T \<Rightarrow> ste_of STATE_CCAS_PROC_REQ ACTION_CCAS_UP_US
   | EVENT_CCAS_RX_DIAM_CCR_EVENT_T \<Rightarrow> ste_of STATE_CCAS_PROC_REQ ACTION_CCAS_UP_US
   | EVENT_CCAS_RX_DIAM_CCR_UPDATE_T \<Rightarrow> ste_of STATE_CCAS_PROC_REQ ACTION_CCAS_UP_US
   | EVENT_CCAS_RX_DIAM_CCR_TERM_T \<Rightarrow> ste_of STATE_CCAS_PROC_REQ ACTION_CCAS_UP_US
   | EVENT_CCAS_RX_DIAM_STR_T \<Rightarrow> ste_of STATE_CCAS_PROC_REQ ACTION_CCAS_UP_US
   | _ \<Rightarrow> None)"

definition stt_open :: "event_ccas \<Rightarrow> ste option" where
  "stt_open event = (case event of
     EVENT_CCAS_RX_GDI_RAR \<Rightarrow> ste_of STATE_CCAS_OPEN ACTION_CCAS_TX_DIAM_RAR_01
   | EVENT_CCAS_RX_GDI_ASR \<Rightarrow> ste_of STATE_CCAS_OPEN ACTION_CCAS_TX_DIAM_ASR_01
   | EVENT_CCAS_RX_DIAM_RAA \<Rightarrow> ste_of STATE_CCAS_OPEN ACTION_CCAS_TX_GDI_RAA
   | EVENT_CCAS_RX_DIAM_ASA \<Rightarrow> ste_of STATE_CCAS_OPEN ACTION_CCAS_TX_GDI_ASA
   | EVENT_CCAS_EXP_TCC \<Rightarrow> ste_of STATE_CCAS_DISCONTINUING ACTION_CCAS_TX_GDI_STR_01
   | EVENT_CCAS_DQ_DIAM_CCR_TERM \<Rightarrow> ste_of STATE_CCAS_PROC_REQ_FINAL ACTION_CCAS_TX_GDI_CCR_02
   | EVENT_CCAS_RX_DIAM_CCR_TERM \<Rightarrow> ste_of STATE_CCAS_PROC_REQ_FINAL ACTION_CCAS_TX_GDI_CCR_02
   | EVENT_CCAS_DQ_DIAM_STR \<Rightarrow> ste_of STATE_CCAS_PROC_REQ_FINAL ACTION_CCAS_TX_GDI_STR_02
   | EVENT_CCAS_RX_DIAM_STR \<Rightarrow> ste_of STATE_CCAS_PROC_REQ_FINAL ACTION_CCAS_TX_GDI_STR_02
   | EVENT_CCAS_DQ_DIAM_CCR_UPDATE \<Rightarrow> ste_of STATE_CCAS_PROC_REQ ACTION_CCAS_TX_GDI_CCR_02
   | EVENT_CCAS_RX_DIAM_CCR_UPDATE \<Rightarrow> ste_of STATE_CCAS_PROC_REQ ACTION_CCAS_TX_GDI_CCR_02
   | EVENT_CCAS_RX_DIAMCTX_GDI_FAIL \<Rightarrow> ste_of STATE_CCAS_REPORTING_ERROR ACTION_CCAS_TX_GDI_REPTERR
   | EVENT_CCAS_RX_GDI_ABORT \<Rightarrow> ste_of STATE_CCAS_OPEN ACTION_CCAS_CLOSE_GDI_TRANS
   | EVENT_CCAS_RX_QMSG_FE_UNAVAIL \<Rightarrow> ste_of STATE_CCAS_DISCONTINUING ACTION_CCAS_TX_GDI_STR_01
   | _ \<Rightarrow> None)"

definition stt_proc_req_final :: "event_ccas \<Rightarrow> ste option" where
  "stt_proc_req_final event = (case event of
     EVENT_CCAS_RX_GDI_CCA_EVENT_SUCC \<Rightarrow> ste_of STATE_CCAS_IDLE ACTION_CCAS_TX_DIAM_CCA_01
   | EVENT_CCAS_RX_GDI_CCA_EVENT_FAIL \<Rightarrow> ste_of STATE_CCAS_IDLE ACTION_CCAS_TX_DIAM_CCA_01
   | EVENT_CCAS_RX_GDI_CCA_TERM_SUCC \<Rightarrow> ste_of STATE_CCAS_IDLE ACTION_CCAS_TX_DIAM_CCA_01
   | EVENT_CCAS_RX_GDI_CCA_TERM_FAIL \<Rightarrow> ste_of STATE_CCAS_IDLE ACTION_CCAS_TX_DIAM_CCA_01
   | EVENT_CCAS_RX_GDI_STA_SUCC \<Rightarrow> ste_of STATE_CCAS_IDLE ACTION_CCAS_TX_DIAM_STA
   | EVENT_CCAS_RX_GDI_STA_FAIL \<Rightarrow> ste_of STATE_CCAS_IDLE ACTION_CCAS_TX_DIAM_STA
   | EVENT_CCAS_EXP_TG \<Rightarrow> ste_of STATE_CCAS_REPORTING_ERROR ACTION_CCAS_TX_DIAM_CCA_03
   | EVENT_CCAS_RX_QMSG_UP_CP \<Rightarrow> ste_of STATE_CCAS_PROC_REQ_FINAL ACTION_CCAS_UP_US
   | EVENT_CCAS_RX_DIAMCTX_GDI_FAIL \<Rightarrow> ste_of STATE_CCAS_REPORTING_ERROR ACTION_CCAS_TX_GDI_REPTERR
   | EVENT_CCAS_RX_GDI_ABORT \<Rightarrow> ste_of STATE_CCAS_PROC_REQ_FINAL ACTION_CCAS_CLOSE_GDI_TRANS
   | EVENT_CCAS_RX_QMSG_FE_UNAVAIL \<Rightarrow> ste_of STATE_CCAS_DISCONTINUING ACTION_CCAS_TX_GDI_STR_01
   | EVENT_CCAS_RX_DIAM_CCR_INIT_T \<Rightarrow> ste_of STATE_CCAS_PROC_REQ_FINAL ACTION_CCAS_UP_US
   | EVENT_CCAS_RX_DIAM_CCR_EVENT_T \<Rightarrow> ste_of STATE_CCAS_PROC_REQ_FINAL ACTION_CCAS_UP_US
   | EVENT_CCAS_RX_DIAM_CCR_UPDATE_T \<Rightarrow> ste_of STATE_CCAS_PROC_REQ_FINAL ACTION_CCAS_UP_US
   | EVENT_CCAS_RX_DIAM_CCR_TERM_T \<Rightarrow> ste_of STATE_CCAS_PROC_REQ_FINAL ACTION_CCAS_UP_US
   | EVENT_CCAS_RX_DIAM_STR_T \<Rightarrow> ste_of STATE_CCAS_PROC_REQ_FINAL ACTION_CCAS_UP_US
   | _ \<Rightarrow> None)"

definition stt_reporting_error :: "event_ccas \<Rightarrow> ste option" where
  "stt_reporting_error event = (case event of
     EVENT_CCAS_RX_GDI_CCA_INIT_SUCC \<Rightarrow> ste_of STATE_CCAS_REPORTING_ERROR ACTION_CCAS_DISC_GDI_MSG
   | EVENT_CCAS_RX_GDI_CCA_INIT_FAIL \<Rightarrow> ste_of STATE_CCAS_REPORTING_ERROR ACTION_CCAS_DISC_GDI_MSG
   | EVENT_CCAS_RX_GDI_CCA_EVENT_SUCC \<Rightarrow> ste_of STATE_CCAS_REPORTING_ERROR ACTION_CCAS_DISC_GDI_MSG
   | EVENT_CCAS_RX_GDI_CCA_EVENT_FAIL \<Rightarrow> ste_of STATE_CCAS_REPORTING_ERROR ACTION_CCAS_DISC_GDI_MSG
   | EVENT_CCAS_RX_GDI_CCA_UPDATE_SUCC \<Rightarrow> ste_of STATE_CCAS_REPORTING_ERROR ACTION_CCAS_DISC_GDI_MSG
   | EVENT_CCAS_RX_GDI_CCA_UPDATE_FAIL \<Rightarrow> ste_of STATE_CCAS_REPORTING_ERROR ACTION_CCAS_DISC_GDI_MSG
   | EVENT_CCAS_RX_GDI_CCA_TERM_SUCC \<Rightarrow> ste_of STATE_CCAS_REPORTING_ERROR ACTION_CCAS_DISC_GDI_MSG
   | EVENT_CCAS_RX_GDI_CCA_TERM_FAIL \<Rightarrow> ste_of STATE_CCAS_REPORTING_ERROR ACTION_CCAS_DISC_GDI_MSG
   | EVENT_CCAS_RX_GDI_STA_SUCC \<Rightarrow> ste_of STATE_CCAS_REPORTING_ERROR ACTION_CCAS_DISC_GDI_MSG
   | EVENT_CCAS_RX_GDI_STA_FAIL \<Rightarrow> ste_of STATE_CCAS_REPORTING_ERROR ACTION_CCAS_DISC_GDI_MSG
   | EVENT_CCAS_RX_GDI_DIM_CLOSE \<Rightarrow> ste_of STATE_CCAS_IDLE ACTION_CCAS_STOP_TG
   | EVENT_CCAS_EXP_TG \<Rightarrow> ste_of STATE_CCAS_IDLE ACTION_CCAS_STOP_TG
   | EVENT_CCAS_RX_DIAMCTX_GDI_FAIL \<Rightarrow> ste_of STATE_CCAS_REPORTING_ERROR ACTION_CCAS_TX_GDI_REPTERR
   | EVENT_CCAS_RX_QMSG_UP_CP \<Rightarrow> ste_of STATE_CCAS_REPORTING_ERROR ACTION_CCAS_UP_US
   | EVENT_CCAS_RX_GDI_ABORT \<Rightarrow> ste_of STATE_CCAS_REPORTING_ERROR ACTION_CCAS_CLOSE_GDI_TRANS
   | EVENT_CCAS_RX_QMSG_FE_UNAVAIL \<Rightarrow> ste_of STATE_CCAS_DISCONTINUING ACTION_CCAS_TX_GDI_STR_01
   | _ \<Rightarrow> None)"

definition stt_discontinuing :: "event_ccas \<Rightarrow> ste option" where
  "stt_discontinuing event = (case event of
     EVENT_CCAS_RX_GDI_STA_SUCC \<Rightarrow> ste_of STATE_CCAS_IDLE ACTION_CCAS_STOP_TG
   | EVENT_CCAS_RX_GDI_STA_FAIL \<Rightarrow> ste_of STATE_CCAS_IDLE ACTION_CCAS_STOP_TG
   | EVENT_CCAS_EXP_TG \<Rightarrow> ste_of STATE_CCAS_IDLE ACTION_CCAS_STOP_TG
   | EVENT_CCAS_RX_DIAMCTX_GDI_FAIL \<Rightarrow> ste_of STATE_CCAS_REPORTING_ERROR ACTION_CCAS_TX_GDI_REPTERR
   | EVENT_CCAS_RX_GDI_ABORT \<Rightarrow> ste_of STATE_CCAS_DISCONTINUING ACTION_CCAS_CLOSE_GDI_TRANS
   | EVENT_CCAS_RX_QMSG_FE_UNAVAIL \<Rightarrow> ste_of STATE_CCAS_DISCONTINUING ACTION_CCAS_TX_GDI_STR_01
   | _ \<Rightarrow> None)"

text \<open>
  The \<open>default\<close> label of every inner switch counts the event and returns the undefined
  entry. The \<open>default\<close> label of the outer switch (a session whose state is still
  undefined) returns \<open>STATE_CCAS_IDLE\<close>; an unknown machine is counted and rejected.
  The flag \<open>flag_print_fsm\<close> only suppresses debug output and is not an argument here.
\<close>

definition ste_undef :: ste where
  "ste_undef = \<lparr>ste_state = STATE_CCAS_UNDEF, ste_action = ACTION_CCAS_UNDEF\<rparr>"

definition stt_case :: "ste option \<Rightarrow> meas \<Rightarrow> ste \<times> meas" where
  "stt_case r m = (case r of
     Some e \<Rightarrow> (e, m)
   | None \<Rightarrow> (ste_undef, inc ''ds_asm_event_invalid'' m))"

definition stt :: "app_sm \<Rightarrow> state_ccas \<Rightarrow> event_ccas \<Rightarrow> meas \<Rightarrow> ste \<times> meas" where
  "stt asm_id state event m = (case asm_id of
     APP_SM_CCAS \<Rightarrow> (case state of
         STATE_CCAS_IDLE \<Rightarrow> stt_case (stt_idle event) m
       | STATE_CCAS_PROC_REQ \<Rightarrow> stt_case (stt_proc_req event) m
       | STATE_CCAS_OPEN \<Rightarrow> stt_case (stt_open event) m
       | STATE_CCAS_PROC_REQ_FINAL \<Rightarrow> stt_case (stt_proc_req_final event) m
       | STATE_CCAS_REPORTING_ERROR \<Rightarrow> stt_case (stt_reporting_error event) m
       | STATE_CCAS_DISCONTINUING \<Rightarrow> stt_case (stt_discontinuing event) m
       | STATE_CCAS_UNDEF \<Rightarrow>
           (\<lparr>ste_state = STATE_CCAS_IDLE, ste_action = ACTION_CCAS_UNDEF\<rparr>, m))
   | APP_SM_UNDEF \<Rightarrow> (ste_undef, inc ''ds_asm_invalid'' m))"

section \<open>Enumeration order and name tables\<close>

text \<open>
  The enumerators of \<open>dsm_fsm.h\<close> start at \<open>DSM_UNDEF = -1\<close>; the lists below hold
  those from 0 on in the order of the header, and the \<open>_str\<close> tables their names.
\<close>

definition state_ccas_list :: "state_ccas list" where
  "state_ccas_list =
  [STATE_CCAS_DISCONTINUING,
   STATE_CCAS_IDLE,
   STATE_CCAS_OPEN,
   STATE_CCAS_PROC_REQ,
   STATE_CCAS_PROC_REQ_FINAL,
   STATE_CCAS_REPORTING_ERROR]"

definition state_ccas_str :: "string list" where
  "state_ccas_str =
  [''Discontinuing'',
   ''Idle'',
   ''Open'',
   ''Processing Request'',
   ''Processing Final Request'',
   ''Reporting Error'']"

definition event_ccas_list :: "event_ccas list" where
  "event_ccas_list =
  [EVENT_CCAS_DQ_DIAM_CCR_UPDATE,
   EVENT_CCAS_DQ_DIAM_CCR_TERM,
   EVENT_CCAS_DQ_DIAM_STR,
   EVENT_CCAS_EXP_TCC,
   EVENT_CCAS_EXP_TG,
   EVENT_CCAS_RX_DIAM_ASA,
   EVENT_CCAS_RX_DIAM_CCR_EVENT,
   EVENT_CCAS_RX_DIAM_CCR_EVENT_T,
   EVENT_CCAS_RX_DIAM_CCR_INIT,
   EVENT_CCAS_RX_DIAM_CCR_INIT_T,
   EVENT_CCAS_RX_DIAM_CCR_TERM,
   EVENT_CCAS_RX_DIAM_CCR_TERM_T,
   EVENT_CCAS_RX_DIAM_CCR_UPDATE,
   EVENT_CCAS_RX_DIAM_CCR_UPDATE_T,
   EVENT_CCAS_RX_DIAM_MSG_VALID,
   EVENT_CCAS_RX_DIAM_RAA,
   EVENT_CCAS_RX_DIAM_STR,
   EVENT_CCAS_RX_DIAM_STR_T,
   EVENT_CCAS_RX_DIAMCTX_GDI_FAIL,
   EVENT_CCAS_RX_GDI_ABORT,
   EVENT_CCAS_RX_GDI_ASR,
   EVENT_CCAS_RX_GDI_CCA_EVENT_FAIL,
   EVENT_CCAS_RX_GDI_CCA_EVENT_SUCC,
   EVENT_CCAS_RX_GDI_CCA_INIT_FAIL,
   EVENT_CCAS_RX_GDI_CCA_INIT_SUCC,
   EVENT_CCAS_RX_GDI_CCA_TERM_FAIL,
   EVENT_CCAS_RX_GDI_CCA_TERM_SUCC,
   EVENT_CCAS_RX_GDI_CCA_UPDATE_FAIL,
   EVENT_CCAS_RX_GDI_CCA_UPDATE_SUCC,
   EVENT_CCAS_RX_GDI_DIM_CLOSE,
   EVENT_CCAS_RX_GDI_RAR,
   EVENT_CCAS_RX_GDI_STA_FAIL,
   EVENT_CCAS_RX_GDI_STA_SUCC,
   EVENT_CCAS_RX_QMSG_FE_UNAVAIL,
   EVENT_CCAS_RX_QMSG_UP_CP]"

definition event_ccas_str :: "string list" where
  "event_ccas_str =
  [''Dequeued Diam-CCR update'',
   ''Dequeued Diam-CCR termination'',
   ''Dequeued Diam-STR'',
   ''Expired Tcc'',
   ''Expired Tg'',
   ''Received Diam-ASA'',
   ''Received Diam-CCR event'',
   ''Received Diam-CCR event ('T' bit set)'',
   ''Received Diam-CCR initial'',
   ''Received Diam-CCR initial ('T' bit set)'',
   ''Received Diam-CCR termination'',
   ''Received Diam-CCR termination ('T' bit set)'',
   ''Received Diam-CCR update'',
   ''Received Diam-CCR update ('T' bit set)'',
   ''Received valid Diam message'',
   ''Received Diam-RAA'',
   ''Received Diam-STR'',
   ''Received Diam-STR ('T' bit set)'',
   ''Received DiamCtx GDI (failure)'',
   ''Received GDI-Abort'',
   ''Received GDI-ASR'',
   ''Received GDI-CCA event (failure)'',
   ''Received GDI-CCA event (success)'',
   ''Received GDI-CCA initial (failure)'',
   ''Received GDI-CCA initial (success)'',
   ''Received GDI-CCA termination (failure)'',
   ''Received GDI-CCA termination (success)'',
   ''Received GDI-CCA update (failure)'',
   ''Received GDI-CCA update (success)'',
   ''Received GDI-DIM_Close'',
   ''Received GDI-RAR'',
   ''Received GDI-STA (failure)'',
   ''Received GDI-STA (success)'',
   ''Received qmsg FE unavailable'',
   ''Received qmsg update CP'']"

definition action_ccas_list :: "action_ccas list" where
  "action_ccas_list =
  [ACTION_CCAS_CLOSE_GDI_TRANS,
   ACTION_CCAS_DISC_GDI_MSG,
   ACTION_CCAS_QUE_DIAM_MSG,
   ACTION_CCAS_STOP_TG,
   ACTION_CCAS_TX_DIAM_ASR_01,
   ACTION_CCAS_TX_DIAM_ASR_02,
   ACTION_CCAS_TX_DIAM_CCA_01,
   ACTION_CCAS_TX_DIAM_CCA_02,
   ACTION_CCAS_TX_DIAM_CCA_03,
   ACTION_CCAS_TX_DIAM_RAR_01,
   ACTION_CCAS_TX_DIAM_RAR_02,
   ACTION_CCAS_TX_DIAM_STA,
   ACTION_CCAS_TX_GDI_ASA,
   ACTION_CCAS_TX_GDI_CCR_01,
   ACTION_CCAS_TX_GDI_CCR_02,
   ACTION_CCAS_TX_GDI_RAA,
   ACTION_CCAS_TX_GDI_REPTERR,
   ACTION_CCAS_TX_GDI_STR_01,
   ACTION_CCAS_TX_GDI_STR_02,
   ACTION_CCAS_UP_US]"

definition action_ccas_str :: "string list" where
  "action_ccas_str =
  [''Close GDI transaction'',
   ''Discard GDI message'',
   ''Queue Diam message'',
   ''Stop Tg'',
   ''Send Diam-ASR, Maintain Tcc'',
   ''Send Diam-ASR, (Re)start Tg'',
   ''Send Diam-CCA, Stop Tg'',
   ''Send Diam-CCA, Stop Tg, Start Tcc'',
   ''Send Diam-CCA (DIAMETER_TOO_BUSY), Send GDI-DIM_ReportError, Discard queued messages, Start Tg'',
   ''Send Diam-RAR, Maintain Tcc'',
   ''Send Diam-RAR, (Re)start Tg'',
   ''Send Diam-STA, Stop Tg'',
   ''Send GDI-ASA, Restart Tcc'',
   ''Send GDI-CCR, Start Tg'',
   ''Send GDI-CCR, Stop Tcc, Start Tg'',
   ''Send GDI-RAA, Restart Tcc'',
   ''Send GDI-DIM_ReportError, Discard queued messages, Start Tg'',
   ''Send GDI-STR, Start Tg'',
   ''Send GDI-STR, Stop Tcc, Start Tg'',
   ''Update US'']"

definition app_sm_str :: "string list" where
  "app_sm_str = [''CCA Server'']"

definition DSM_UNDEF_STR :: string where
  "DSM_UNDEF_STR = ''Undefined''"

text \<open>The \<open>_ITOA\<close> macros: a name for an index in range, \<open>Undefined\<close> otherwise.\<close>

definition table_itoa :: "string list \<Rightarrow> int \<Rightarrow> string" where
  "table_itoa tab i = (if 0 \<le> i \<and> i < int (length tab) then tab ! nat i else DSM_UNDEF_STR)"

definition STATE_CCAS_ITOA :: "int \<Rightarrow> string" where
  "STATE_CCAS_ITOA = table_itoa state_ccas_str"

definition EVENT_CCAS_ITOA :: "int \<Rightarrow> string" where
  "EVENT_CCAS_ITOA = table_itoa event_ccas_str"

definition ACTION_CCAS_ITOA :: "int \<Rightarrow> string" where
  "ACTION_CCAS_ITOA = table_itoa action_ccas_str"

text \<open>The integer values of the enumerators: position in the list, -1 for the undefined one.\<close>

fun enum_index :: "'a list \<Rightarrow> 'a \<Rightarrow> int" where
  "enum_index [] x = -1"
| "enum_index (y # ys) x =
     (if x = y then 0 else let i = enum_index ys x in if i < 0 then -1 else i + 1)"

definition state_ccas_num :: "state_ccas \<Rightarrow> int" where
  "state_ccas_num = enum_index state_ccas_list"

definition event_ccas_num :: "event_ccas \<Rightarrow> int" where
  "event_ccas_num = enum_index event_ccas_list"

definition action_ccas_num :: "action_ccas \<Rightarrow> int" where
  "action_ccas_num = enum_index action_ccas_list"

text \<open>
  \<open>print_fsm\<close>: with its debug mask on, it walks all states and events, looks every pair up
  with \<open>stt\<close> and prints one row per pair. The rows are the numbers it prints; the counters
  are those \<open>stt\<close> leaves behind.
\<close>

fun print_row :: "state_ccas \<Rightarrow> event_ccas list \<Rightarrow> meas \<Rightarrow> (int \<times> int \<times> int \<times> int) list \<times> meas" where
  "print_row st [] m = ([], m)"
| "print_row st (ev # evs) m =
     (let (e, m) = stt APP_SM_CCAS st ev m;
          (rows, m) = print_row st evs m
      in ((state_ccas_num st, event_ccas_num ev,
           action_ccas_num (ste_action e), state_ccas_num (ste_state e)) # rows, m))"

fun print_rows :: "state_ccas list \<Rightarrow> meas \<Rightarrow> (int \<times> int \<times> int \<times> int) list \<times> meas" where
  "print_rows [] m = ([], m)"
| "print_rows (st # sts) m =
     (let (r, m) = print_row st event_ccas_list m;
          (rs, m) = print_rows sts m
      in (r @ rs, m))"

definition print_fsm :: "bool \<Rightarrow> meas \<Rightarrow> (int \<times> int \<times> int \<times> int) list \<times> meas" where
  "print_fsm debug_on m = (if debug_on then print_rows state_ccas_list m else ([], m))"

section \<open>Enumerability\<close>

instantiation state_ccas :: enum
begin

definition enum_state_ccas :: "state_ccas list" where
  "enum_state_ccas = STATE_CCAS_UNDEF # state_ccas_list"

definition enum_all_state_ccas :: "(state_ccas \<Rightarrow> bool) \<Rightarrow> bool" where
  "enum_all_state_ccas P = list_all P (STATE_CCAS_UNDEF # state_ccas_list)"

definition enum_ex_state_ccas :: "(state_ccas \<Rightarrow> bool) \<Rightarrow> bool" where
  "enum_ex_state_ccas P = list_ex P (STATE_CCAS_UNDEF # state_ccas_list)"

instance
proof
  show univ: "(UNIV :: state_ccas set) = set enum_class.enum"
    unfolding enum_state_ccas_def state_ccas_list_def
    by (auto intro: state_ccas.exhaust)
  show "distinct (enum_class.enum :: state_ccas list)"
    by (simp add: enum_state_ccas_def state_ccas_list_def)
  show "enum_class.enum_all P \<longleftrightarrow> Ball UNIV P" for P :: "state_ccas \<Rightarrow> bool"
    by (simp add: univ enum_all_state_ccas_def enum_state_ccas_def list_all_iff)
  show "enum_class.enum_ex P \<longleftrightarrow> Bex UNIV P" for P :: "state_ccas \<Rightarrow> bool"
    by (simp add: univ enum_ex_state_ccas_def enum_state_ccas_def list_ex_iff)
qed

end

instantiation event_ccas :: enum
begin

definition enum_event_ccas :: "event_ccas list" where
  "enum_event_ccas = EVENT_CCAS_UNDEF # event_ccas_list"

definition enum_all_event_ccas :: "(event_ccas \<Rightarrow> bool) \<Rightarrow> bool" where
  "enum_all_event_ccas P = list_all P (EVENT_CCAS_UNDEF # event_ccas_list)"

definition enum_ex_event_ccas :: "(event_ccas \<Rightarrow> bool) \<Rightarrow> bool" where
  "enum_ex_event_ccas P = list_ex P (EVENT_CCAS_UNDEF # event_ccas_list)"

instance
proof
  show univ: "(UNIV :: event_ccas set) = set enum_class.enum"
  proof (rule UNIV_eq_I)
    fix x :: event_ccas
    show "x \<in> set enum_class.enum"
      by (cases x) (simp_all add: enum_event_ccas_def event_ccas_list_def)
  qed
  show "distinct (enum_class.enum :: event_ccas list)"
    by (simp add: enum_event_ccas_def event_ccas_list_def)
  show "enum_class.enum_all P \<longleftrightarrow> Ball UNIV P" for P :: "event_ccas \<Rightarrow> bool"
    by (simp add: univ enum_all_event_ccas_def enum_event_ccas_def list_all_iff)
  show "enum_class.enum_ex P \<longleftrightarrow> Bex UNIV P" for P :: "event_ccas \<Rightarrow> bool"
    by (simp add: univ enum_ex_event_ccas_def enum_event_ccas_def list_ex_iff)
qed

end

section \<open>Facts about the table\<close>

lemmas stt_defs = stt_def stt_case_def ste_undef_def ste_of_def stt_idle_def stt_proc_req_def
  stt_open_def stt_proc_req_final_def stt_reporting_error_def stt_discontinuing_def

text \<open>The next state of an accepted event; \<open>None\<close> when the table rejects it.\<close>

definition asm_next :: "state_ccas \<Rightarrow> event_ccas \<Rightarrow> state_ccas option" where
  "asm_next st ev = (let e = fst (stt APP_SM_CCAS st ev zero_meas)
     in if ste_action e = ACTION_CCAS_UNDEF then None else Some (ste_state e))"

text \<open>The entry \<open>stt\<close> returns does not depend on the counters.\<close>

lemma stt_entry_meas: "fst (stt a st ev m) = fst (stt a st ev m')"
  by (cases a; cases st) (simp_all add: stt_def stt_case_def split: option.split)

lemma asm_next_stt:
  "asm_next st ev = (let e = fst (stt APP_SM_CCAS st ev m)
     in if ste_action e = ACTION_CCAS_UNDEF then None else Some (ste_state e))"
  unfolding asm_next_def using stt_entry_meas by metis

lemma asm_next_UNDEF [simp]: "asm_next STATE_CCAS_UNDEF ev = None"
  by (simp add: asm_next_def stt_def Let_def)

lemma asm_next_IDLE: "asm_next STATE_CCAS_IDLE ev = map_option ste_state (stt_idle ev)"
  by (cases ev) (simp_all add: asm_next_def stt_def stt_case_def stt_idle_def ste_of_def ste_undef_def)

lemma asm_next_PROC_REQ: "asm_next STATE_CCAS_PROC_REQ ev = map_option ste_state (stt_proc_req ev)"
  by (cases ev) (simp_all add: asm_next_def stt_def stt_case_def stt_proc_req_def ste_of_def ste_undef_def)

lemma asm_next_OPEN: "asm_next STATE_CCAS_OPEN ev = map_option ste_state (stt_open ev)"
  by (cases ev) (simp_all add: asm_next_def stt_def stt_case_def stt_open_def ste_of_def ste_undef_def)

lemma asm_next_PROC_REQ_FINAL:
  "asm_next STATE_CCAS_PROC_REQ_FINAL ev = map_option ste_state (stt_proc_req_final ev)"
  by (cases ev)
    (simp_all add: asm_next_def stt_def stt_case_def stt_proc_req_final_def ste_of_def ste_undef_def)

lemma asm_next_REPORTING_ERROR:
  "asm_next STATE_CCAS_REPORTING_ERROR ev = map_option ste_state (stt_reporting_error ev)"
  by (cases ev)
    (simp_all add: asm_next_def stt_def stt_case_def stt_reporting_error_def ste_of_def ste_undef_def)

lemma asm_next_DISCONTINUING:
  "asm_next STATE_CCAS_DISCONTINUING ev = map_option ste_state (stt_discontinuing ev)"
  by (cases ev)
    (simp_all add: asm_next_def stt_def stt_case_def stt_discontinuing_def ste_of_def ste_undef_def)

lemmas asm_next_cases = asm_next_IDLE asm_next_PROC_REQ asm_next_OPEN asm_next_PROC_REQ_FINAL
  asm_next_REPORTING_ERROR asm_next_DISCONTINUING stt_idle_def stt_proc_req_def stt_open_def
  stt_proc_req_final_def stt_reporting_error_def stt_discontinuing_def ste_of_def

section \<open>Runs of a machine\<close>

text \<open>
  A run feeds a list of events to a machine and stops at the first rejected one. The locale
  states what a session that has started to close promises: from a closing state every
  accepted event stays in closing states or ends in the idle state.
\<close>

fun run :: "('s \<Rightarrow> 'e \<Rightarrow> 's option) \<Rightarrow> 's \<Rightarrow> 'e list \<Rightarrow> 's option" where
  "run nxt s [] = Some s"
| "run nxt s (e # es) = do { t \<leftarrow> nxt s e; run nxt t es }"

locale closing_machine =
  fixes nxt :: "'s \<Rightarrow> 'e \<Rightarrow> 's option"
    and idle :: "'s"
    and closing :: "'s set"
  assumes closing_step: "s \<in> closing \<Longrightarrow> nxt s e = Some t \<Longrightarrow> t \<in> insert idle closing"
begin

lemma closing_leaves_by_idle:
  "s \<in> closing \<Longrightarrow> run nxt s es = Some t \<Longrightarrow> t \<notin> closing \<Longrightarrow>
   \<exists>as bs. es = as @ bs \<and> as \<noteq> [] \<and> run nxt s as = Some idle"
proof (induction es arbitrary: s)
  case Nil
  then show ?case by simp
next
  case (Cons e es)
  from Cons.prems(2) obtain u where u: "nxt s e = Some u" and rest: "run nxt u es = Some t"
    by (auto simp: bind_eq_Some_conv)
  show ?case
  proof (cases "u = idle")
    case True
    with u have "e # es = [e] @ es \<and> [e] \<noteq> [] \<and> run nxt s [e] = Some idle" by simp
    then show ?thesis by blast
  next
    case False
    with closing_step [OF Cons.prems(1) u] have "u \<in> closing" by simp
    from Cons.IH [OF this rest Cons.prems(3)] obtain as bs
      where "es = as @ bs" "as \<noteq> []" "run nxt u as = Some idle" by blast
    with u have "e # es = (e # as) @ bs \<and> e # as \<noteq> [] \<and> run nxt s (e # as) = Some idle" by simp
    then show ?thesis by blast
  qed
qed

end

definition ccas_closing :: "state_ccas set" where
  "ccas_closing = {STATE_CCAS_PROC_REQ_FINAL, STATE_CCAS_REPORTING_ERROR, STATE_CCAS_DISCONTINUING}"

interpretation ccas: closing_machine asm_next STATE_CCAS_IDLE ccas_closing
proof
  fix s e t
  assume "s \<in> ccas_closing" and "asm_next s e = Some t"
  then show "t \<in> insert STATE_CCAS_IDLE ccas_closing"
    unfolding ccas_closing_def
    by (cases e) (auto simp: asm_next_cases)
qed

section \<open>Properties of the state machine\<close>

text \<open>
  The table never half-accepts an event. In every defined state of the CCA server, an event
  has an action exactly when it has a next state, the pair is counted as invalid exactly when
  it has neither, and no other counter moves; so a handler that has checked the action
  (\<open>check_asm_state\<close>) can rely on the next state (\<open>set_asm_state\<close>).
\<close>

theorem stt_action_iff_state:
  "state \<noteq> STATE_CCAS_UNDEF \<Longrightarrow> stt APP_SM_CCAS state event m = (e, m') \<Longrightarrow>
     (ste_action e = ACTION_CCAS_UNDEF \<longleftrightarrow> ste_state e = STATE_CCAS_UNDEF) \<and>
     m' = (if ste_action e = ACTION_CCAS_UNDEF then inc ''ds_asm_event_invalid'' m else m)"
  by (cases state; cases event) (auto simp: stt_defs)

theorem stt_action_iff_state_witness:
  "ste_action (fst (stt APP_SM_CCAS STATE_CCAS_OPEN EVENT_CCAS_EXP_TG zero_meas)) = ACTION_CCAS_UNDEF
   \<and> ste_state (fst (stt APP_SM_CCAS STATE_CCAS_OPEN EVENT_CCAS_EXP_TG zero_meas)) = STATE_CCAS_UNDEF"
  using stt_action_iff_state [of STATE_CCAS_OPEN EVENT_CCAS_EXP_TG zero_meas ste_undef
      "inc ''ds_asm_event_invalid'' zero_meas"]
  by (simp add: stt_defs)

text \<open>
  C14: Closing is one-way. Once a session is processing its final request, reporting an error
  or discontinuing, every accepted sequence of events that takes it to any other kind of state
  first takes it through \<open>STATE_CCAS_IDLE\<close>, where the session ends; it can never return to
  \<open>STATE_CCAS_OPEN\<close> or \<open>STATE_CCAS_PROC_REQ\<close> directly.
\<close>

theorem closing_is_one_way:
  "st \<in> ccas_closing \<Longrightarrow> run asm_next st evs = Some st' \<Longrightarrow> st' \<notin> ccas_closing \<Longrightarrow>
   \<exists>before after. evs = before @ after \<and> before \<noteq> [] \<and>
     run asm_next st before = Some STATE_CCAS_IDLE"
  by (rule ccas.closing_leaves_by_idle)

theorem closing_is_one_way_witness:
  "\<exists>before after. [EVENT_CCAS_EXP_TG, EVENT_CCAS_EXP_TG, EVENT_CCAS_RX_DIAM_CCR_INIT] = before @ after
     \<and> before \<noteq> [] \<and> run asm_next STATE_CCAS_PROC_REQ_FINAL before = Some STATE_CCAS_IDLE"
  by (rule closing_is_one_way [of _ _ STATE_CCAS_PROC_REQ]) (simp_all add: ccas_closing_def asm_next_cases)

definition timer_events :: "state_ccas \<Rightarrow> event_ccas list" where
  "timer_events st = (case st of
     STATE_CCAS_OPEN \<Rightarrow> [EVENT_CCAS_EXP_TCC, EVENT_CCAS_EXP_TG]
   | STATE_CCAS_PROC_REQ \<Rightarrow> [EVENT_CCAS_EXP_TG, EVENT_CCAS_EXP_TG]
   | STATE_CCAS_PROC_REQ_FINAL \<Rightarrow> [EVENT_CCAS_EXP_TG, EVENT_CCAS_EXP_TG]
   | STATE_CCAS_REPORTING_ERROR \<Rightarrow> [EVENT_CCAS_EXP_TG]
   | STATE_CCAS_DISCONTINUING \<Rightarrow> [EVENT_CCAS_EXP_TG]
   | _ \<Rightarrow> [])"



definition retransmissions :: "event_ccas set" where
  "retransmissions = {EVENT_CCAS_RX_DIAM_CCR_INIT_T, EVENT_CCAS_RX_DIAM_CCR_EVENT_T,
     EVENT_CCAS_RX_DIAM_CCR_UPDATE_T, EVENT_CCAS_RX_DIAM_CCR_TERM_T, EVENT_CCAS_RX_DIAM_STR_T}"

text \<open>
  Events that only update a session keep its state. A GDI-Abort is accepted in every
  defined state and leaves it; an update-CP message and a retransmitted request ('T' bit set)
  leave the state wherever they are accepted, and a retransmission is accepted exactly while
  a request is outstanding.
\<close>

theorem update_events_keep_state:
  "state \<noteq> STATE_CCAS_UNDEF \<Longrightarrow>
     asm_next state EVENT_CCAS_RX_GDI_ABORT = Some state \<and>
     asm_next state EVENT_CCAS_RX_QMSG_UP_CP \<in> {None, Some state} \<and>
     (\<forall>ev \<in> retransmissions. asm_next state ev =
        (if state \<in> {STATE_CCAS_PROC_REQ, STATE_CCAS_PROC_REQ_FINAL} then Some state else None))"
  by (cases state) (simp_all add: retransmissions_def asm_next_cases)

theorem update_events_keep_state_witness:
  "asm_next STATE_CCAS_REPORTING_ERROR EVENT_CCAS_RX_GDI_ABORT = Some STATE_CCAS_REPORTING_ERROR"
  using update_events_keep_state [of STATE_CCAS_REPORTING_ERROR] by simp

lemma print_row_meas:
  "st \<noteq> STATE_CCAS_UNDEF \<Longrightarrow>
   snd (print_row st evs m) ''ds_asm_event_invalid'' =
     m ''ds_asm_event_invalid'' + length (filter (\<lambda>ev. asm_next st ev = None) evs)
   \<and> length (fst (print_row st evs m)) = length evs"
proof (induction evs arbitrary: m)
  case Nil
  then show ?case by simp
next
  case (Cons ev evs)
  obtain e m' where e: "stt APP_SM_CCAS st ev m = (e, m')" by fastforce
  have "asm_next st ev = None \<longleftrightarrow> ste_action e = ACTION_CCAS_UNDEF"
    using e by (simp add: asm_next_stt [of st ev m] Let_def)
  moreover have "m' = (if ste_action e = ACTION_CCAS_UNDEF then inc ''ds_asm_event_invalid'' m else m)"
    using e \<open>st \<noteq> STATE_CCAS_UNDEF\<close>
    by (cases st; cases ev) (auto simp: stt_defs)
  ultimately show ?case
    using Cons.IH [of m'] Cons.prems e by (simp add: case_prod_beta Let_def)
qed

lemma rejected_per_state:
  "length (filter (\<lambda>ev. asm_next STATE_CCAS_DISCONTINUING ev = None) event_ccas_list) = 29"
  "length (filter (\<lambda>ev. asm_next STATE_CCAS_IDLE ev = None) event_ccas_list) = 31"
  "length (filter (\<lambda>ev. asm_next STATE_CCAS_OPEN ev = None) event_ccas_list) = 21"
  "length (filter (\<lambda>ev. asm_next STATE_CCAS_PROC_REQ ev = None) event_ccas_list) = 18"
  "length (filter (\<lambda>ev. asm_next STATE_CCAS_PROC_REQ_FINAL ev = None) event_ccas_list) = 19"
  "length (filter (\<lambda>ev. asm_next STATE_CCAS_REPORTING_ERROR ev = None) event_ccas_list) = 19"
  by (simp_all add: event_ccas_list_def asm_next_cases)

text \<open>
  \<open>print_fsm\<close> is not a pure print. With its debug mask on it prints all 210 pairs of state
  and event, and every one of the 137 pairs the table rejects is added to the counter
  \<open>ds_asm_event_invalid\<close>, which is meant to count events that occurred.
\<close>

theorem print_fsm_counts_rejected_pairs:
  "length (fst (print_fsm True m)) = 210 \<and>
   snd (print_fsm True m) ''ds_asm_event_invalid'' = m ''ds_asm_event_invalid'' + 137"
  by (simp add: print_fsm_def state_ccas_list_def Let_def case_prod_beta print_row_meas
      rejected_per_state) (simp add: event_ccas_list_def)

end
