(* ===== verification/Dsm_State.thy ===== *)
theory Dsm_State
  imports Prelude Fsm
begin

text \<open>
  The data of the Diameter session manager: the structures of \<open>dsm.h\<close>, \<open>dsm_tdb.h\<close> and
  \<open>dsm_ccdb.h\<close>, the Diameter context the process exchanges with the DGC task, the state of the
  whole process, and the services of the surrounding system, which the code calls and which are
  parameters here.

  Pointers into the static arrays \<open>fepmem_list_callout\<close>, \<open>fepmem_list_user_session\<close> and
  \<open>fepmem_list_dgc_qmsg\<close> are indices; a pointer that may be NULL is an \<open>option\<close>. The target is
  32-bit (\<open>MASK_TID_FE\<close> fills \<open>ulong\<close>), so \<open>ulong\<close> is \<open>32 word\<close>. Small signed fields that are
  only copied and compared are \<open>int\<close>.
\<close>

section \<open>Constants\<close>

definition ID_UNDEF :: ulong where
  "ID_UNDEF = 0"

definition ID_TO_INDEX :: "ulong \<Rightarrow> nat" where
  "ID_TO_INDEX i = unat (i - 1)"

definition INDEX_TO_ID :: "nat \<Rightarrow> ulong" where
  "INDEX_TO_ID i = of_nat (i + 1)"

definition USER_SESSION_BITS :: nat where
  "USER_SESSION_BITS = 18"

definition USER_SESSION_SIZE :: nat where
  "USER_SESSION_SIZE = 262144"

definition USER_SESSION_MASK :: uint where
  "USER_SESSION_MASK = 262143"

text \<open>\<open>USER_SESSION_ID_VALID\<close>, \<open>CALLOUT_ID_VALID\<close> and \<open>DGC_QMSG_ID_VALID\<close> are the same test.\<close>

definition ID_VALID :: "ulong \<Rightarrow> bool" where
  "ID_VALID i \<longleftrightarrow> 1 \<le> i \<and> i \<le> 262144"

definition CALLWHEELBITS :: nat where
  "CALLWHEELBITS = 16"

definition CALLWHEELSIZE :: int where
  "CALLWHEELSIZE = 65536"

definition CALLWHEELMASK :: int where
  "CALLWHEELMASK = 65535"

definition CALLOUTTIMER :: int where
  "CALLOUTTIMER = 10"

definition MS_PER_SEC :: int where
  "MS_PER_SEC = 1000"

lemmas dsm_consts = ID_UNDEF_def USER_SESSION_BITS_def USER_SESSION_SIZE_def
  USER_SESSION_MASK_def CALLWHEELBITS_def CALLWHEELSIZE_def CALLWHEELMASK_def CALLOUTTIMER_def
  MS_PER_SEC_def

section \<open>Timers\<close>

text \<open>The callback functions a callout can name.\<close>

datatype timeout_t = Process_expire_tg | Process_expire_tcc | Driver_timer_callback

text \<open>The link field \<open>tqe\<close> is the element's place in the list of its wheel slot.\<close>

record callout =
  co_id :: ulong
  co_head :: "nat option"
  c_func :: "timeout_t option"
  c_arg :: "nat option"
  c_time :: int
  c_period :: int

section \<open>Diameter and GDI data\<close>

text \<open>
  Enumerations whose numeric values are in headers outside the repository. A request and its
  answer share a command code (the comments at the \<open>case\<close> labels say so).
\<close>

datatype command_code =
    DIAM_CMD_CCR | DIAM_CMD_ASA | DIAM_CMD_RAA | DIAM_CMD_STR | DIAM_CMD_OTHER int

abbreviation DIAM_CMD_CCA :: command_code where "DIAM_CMD_CCA \<equiv> DIAM_CMD_CCR"
abbreviation DIAM_CMD_ASR :: command_code where "DIAM_CMD_ASR \<equiv> DIAM_CMD_ASA"
abbreviation DIAM_CMD_RAR :: command_code where "DIAM_CMD_RAR \<equiv> DIAM_CMD_RAA"
abbreviation DIAM_CMD_STA :: command_code where "DIAM_CMD_STA \<equiv> DIAM_CMD_STR"

datatype cc_request_type =
    DIAM_CC_INITIAL_REQUEST | DIAM_CC_UPDATE_REQUEST | DIAM_CC_TERMINATION_REQUEST
  | DIAM_CC_EVENT_REQUEST | DIAM_CC_OTHER int

datatype diamctx_type =
    DIAMCTX_DIAM | DIAMCTX_GDI | DIAMCTX_GDI_INT_STR | DIAMCTX_TG_EXP
  | DIAMCTX_GDI_DIM_CLOSE | DIAMCTX_US_REMOVE | DIAMCTX_OTHER int

datatype package_type =
    PACKAGE_TYPE_UNDEF | PACKAGE_TYPE_REQUEST | PACKAGE_TYPE_CONV | PACKAGE_TYPE_RESPONSE
  | PACKAGE_TYPE_ABORT | PACKAGE_TYPE_OTHER int

text \<open>The command flag bits R, P, E and T.\<close>

record cmd_flags =
  DIAM_CMD_FLAG_R :: bool
  DIAM_CMD_FLAG_P :: bool
  DIAM_CMD_FLAG_E :: bool
  DIAM_CMD_FLAG_T :: bool

text \<open>What the processing functions return.\<close>

datatype result =
    R_SUCCESS | SUCCESS_QUEUED | DIAMETER_UNABLE_TO_COMPLY | DIAMETER_UNKNOWN_SESSION_ID
  | DIAMETER_COMMAND_UNSUPPORTED | DIAMETER_INVALID_AVP_VALUE | DIAMETER_TOO_BUSY

type_synonym bytes = "nat \<Rightarrow> 8 word"

text \<open>\<open>memcpy\<close> of \<open>n\<close> bytes, and \<open>memcmp (\<dots>) == 0\<close>.\<close>

definition memcpy :: "(nat \<Rightarrow> 'a) \<Rightarrow> (nat \<Rightarrow> 'a) \<Rightarrow> nat \<Rightarrow> (nat \<Rightarrow> 'a)" where
  "memcpy dst src n = (\<lambda>i. if i < n then src i else dst i)"

definition memeq :: "(nat \<Rightarrow> 'a) \<Rightarrow> (nat \<Rightarrow> 'a) \<Rightarrow> nat \<Rightarrow> bool" where
  "memeq a b n = list_all (\<lambda>i. a i = b i) [0..<n]"

text \<open>
  \<open>DiamCtx_t\<close> (declared in \<open>diam_msg.h\<close>, outside the repository): the fields the code reads and
  writes. The context lies at the start of a buffer, so the data of the buffer is part of it.
  \<open>errorString\<close> holds log text only and is left out.
\<close>

record diamctx =
  diamctx_type :: diamctx_type
  sessionIdOffset :: nat
  sessionIdLength :: int
  result_code :: int
  dc_version :: int
  commandCode :: command_code
  hopByHopId :: ulong
  endToEndId :: ulong
  applId :: ulong
  flags :: cmd_flags
  dc_proxy_count :: int
  dc_proxy_host :: "nat \<Rightarrow> int"
  dc_proxy_state_len :: "nat \<Rightarrow> int"
  dc_proxy_states :: bytes
  subIdType :: int
  subId :: string
  originHost :: int
  originRealm :: int
  originStateId :: ulong
  destHost :: int
  destRealm :: int
  destStateId :: ulong
  ccRequestType :: cc_request_type
  ccRequestNumber :: ulong
  authAppId :: ulong
  localTid :: ulong
  remoteTid :: ulong
  packageType :: package_type
  timer :: int
  dc_origSysId :: int
  dc_receiverId :: int
  dc_invokeId :: int
  dc_trap :: bool
  no_diam :: bool
  no_gdi :: bool
  dc_cp :: int
  dc_npk_config :: int
  buf_off :: int
  buf_len :: int
  buf_data :: bytes

definition FEP_BUF_SID :: "diamctx \<Rightarrow> bytes" where
  "FEP_BUF_SID c = (\<lambda>i. buf_data c (sessionIdOffset c + i))"

section \<open>User sessions\<close>

record us_call_context =
  asm_id :: app_sm
  asm_state :: state_ccas
  tcc_id :: ulong
  tcc_expiry :: int
  tg_id :: ulong
  tg_expiry :: int
  version :: int
  time_start :: ulong
  time_last :: ulong
  ref_count :: ulong
  cp :: int
  npk_config :: int
  peer_fe :: int
  trap :: bool

text \<open>\<open>dgc_queue\<close> is the tail queue \<open>dgc_qmsg\<close> of messages waiting for the session.\<close>

record us_diameter =
  diam_version :: int
  command_code :: command_code
  command_flags :: cmd_flags
  app_id :: ulong
  hop_by_hop :: ulong
  end_to_end :: ulong
  session_id :: bytes
  session_id_len :: int
  cc_request_type :: cc_request_type
  cc_request_number :: ulong
  auth_app_id :: ulong
  local_host :: int
  local_realm :: int
  local_state :: ulong
  remote_host :: int
  remote_realm :: int
  remote_state :: ulong
  sub_id_type :: int
  sub_id :: string
  proxy_count :: int
  proxy_host :: "nat \<Rightarrow> int"
  proxy_state_len :: "nat \<Rightarrow> int"
  proxy_states :: bytes
  dgc_queue :: "nat list"

record us_gdi =
  package_type :: package_type
  package_type_asr :: package_type
  package_type_rar :: package_type
  tid_local :: ulong
  tid_remote :: ulong
  tid_remote_asr :: ulong
  tid_remote_rar :: ulong
  origSysId :: int
  receiverId :: int
  invokeId :: int

text \<open>\<open>us_head\<close> is the hash list the session is in; the two link fields are list positions.\<close>

record user_session =
  us_id :: ulong
  us_head :: "nat option"
  call_context :: us_call_context
  diameter :: us_diameter
  gdi :: us_gdi

text \<open>A queued message: the session whose queue it is in (\<open>head\<close>) and the message words.\<close>

type_synonym fep_qmsg_t = "nat \<Rightarrow> ulong"

record dgc_qmsg =
  dq_id :: ulong
  dq_head :: "nat option"
  qmsg :: fep_qmsg_t

record trap_data =
  trap_time_start :: ulong
  trap_sub_id :: string
  trap_us :: "nat option"

text \<open>\<open>struct driver_timer\<close> and the flag and static variables of the timer test driver.\<close>

record driver_state =
  drv_index :: "nat \<Rightarrow> int"
  drv_timer :: "nat \<Rightarrow> int"
  drv_id :: "nat \<Rightarrow> ulong"
  num_timers :: int
  do_nothing :: bool
  first_time :: bool
  start_time :: ulong

section \<open>The state of the process\<close>

text \<open>
  \<open>world\<close> is the state of everything outside the process. The buffers are the shared message
  memory; \<open>non_us_id\<close> is the static variable of \<open>set_tid_local\<close>.
\<close>

record 'w dsm =
  world :: 'w
  meas :: meas
  shutdown :: bool
  callouts :: "nat \<Rightarrow> callout"
  callwheel :: "nat \<Rightarrow> nat list"
  wheel_index :: int
  sessions :: "nat \<Rightarrow> user_session"
  ccdb_lists :: "nat \<Rightarrow> nat list"
  ccdb_time :: "nat list"
  ccdb_trap :: trap_data
  ccdb_tg_expiry :: int
  dgc_qmsgs :: "nat \<Rightarrow> dgc_qmsg"
  non_us_id :: ulong
  bufs :: "nat \<Rightarrow> diamctx"
  driver :: driver_state

section \<open>Services outside the repository\<close>

text \<open>
  The three private memory pools are fixed arrays; \<open>new_private\<close> hands out an element of one or
  NULL. A buffer travels as a pointer inside a task and as a parameter in a message.
  \<open>tell_dgc\<close> and \<open>tell_fem\<close> send a message and report whether they could.
\<close>

datatype pool = Callout_pool | User_session_pool | Dgc_qmsg_pool

record 'w env =
  fep_create_private :: "pool \<Rightarrow> 'w \<Rightarrow> 'w"
  new_private :: "pool \<Rightarrow> 'w \<Rightarrow> nat option \<times> 'w"
  delete_private :: "pool \<Rightarrow> nat \<Rightarrow> 'w \<Rightarrow> 'w"
  fep_alloc_buffer :: "'w \<Rightarrow> nat option \<times> 'w"
  fep_free_buffer :: "nat option \<Rightarrow> 'w \<Rightarrow> 'w"
  parm_to_buf :: "ulong \<Rightarrow> 'w \<Rightarrow> nat option"
  buf_to_parm :: "nat option \<Rightarrow> 'w \<Rightarrow> int \<times> 'w"
  tell_dgc :: "ulong \<Rightarrow> int \<Rightarrow> ulong \<Rightarrow> ulong \<Rightarrow> 'w \<Rightarrow> status \<times> 'w"
  tell_fem :: "ulong \<Rightarrow> ulong \<Rightarrow> ulong \<Rightarrow> ulong \<Rightarrow> 'w \<Rightarrow> status \<times> 'w"
  time_now :: "'w \<Rightarrow> ulong \<times> 'w"
  conf_get_fe_number :: "'w \<Rightarrow> int"
  conf_get_associate :: "int \<Rightarrow> 'w \<Rightarrow> int option"
  conf_get_csi_number :: "'w \<Rightarrow> int"
  conf_ready :: "'w \<Rightarrow> bool"
  conf_get_local_state_id :: "'w \<Rightarrow> ulong"
  DIAM_RC_SUCCESS :: "int \<Rightarrow> bool"
  char_to_uint :: "8 word \<Rightarrow> uint"
  MAX_SZ_OCTETSTRING :: int
  MSG_DIAMCTX :: ulong
  APP_ID_CCA :: ulong
  UNINITIALIZED :: int
  TG_DEF :: int
  TG_MIN :: ulong
  status_code :: "status \<Rightarrow> ulong"
  result_value :: "result \<Rightarrow> ulong"
  c_rand :: "'w \<Rightarrow> int \<times> 'w"

section \<open>Access to the state\<close>

definition cnt :: "string \<Rightarrow> 'w dsm \<Rightarrow> 'w dsm" where
  "cnt c s = s\<lparr>meas := inc c (meas s)\<rparr>"

definition upd_co :: "nat \<Rightarrow> (callout \<Rightarrow> callout) \<Rightarrow> 'w dsm \<Rightarrow> 'w dsm" where
  "upd_co i f s = s\<lparr>callouts := (callouts s)(i := f (callouts s i))\<rparr>"

definition upd_us :: "nat \<Rightarrow> (user_session \<Rightarrow> user_session) \<Rightarrow> 'w dsm \<Rightarrow> 'w dsm" where
  "upd_us p f s = s\<lparr>sessions := (sessions s)(p := f (sessions s p))\<rparr>"

definition upd_cc :: "nat \<Rightarrow> (us_call_context \<Rightarrow> us_call_context) \<Rightarrow> 'w dsm \<Rightarrow> 'w dsm" where
  "upd_cc p f = upd_us p (call_context_update f)"

definition upd_diam :: "nat \<Rightarrow> (us_diameter \<Rightarrow> us_diameter) \<Rightarrow> 'w dsm \<Rightarrow> 'w dsm" where
  "upd_diam p f = upd_us p (diameter_update f)"

definition upd_gdi :: "nat \<Rightarrow> (us_gdi \<Rightarrow> us_gdi) \<Rightarrow> 'w dsm \<Rightarrow> 'w dsm" where
  "upd_gdi p f = upd_us p (gdi_update f)"

definition upd_dq :: "nat \<Rightarrow> (dgc_qmsg \<Rightarrow> dgc_qmsg) \<Rightarrow> 'w dsm \<Rightarrow> 'w dsm" where
  "upd_dq i f s = s\<lparr>dgc_qmsgs := (dgc_qmsgs s)(i := f (dgc_qmsgs s i))\<rparr>"

definition upd_buf :: "nat \<Rightarrow> (diamctx \<Rightarrow> diamctx) \<Rightarrow> 'w dsm \<Rightarrow> 'w dsm" where
  "upd_buf b f s = s\<lparr>bufs := (bufs s)(b := f (bufs s b))\<rparr>"

definition cc :: "'w dsm \<Rightarrow> nat \<Rightarrow> us_call_context" where
  "cc s p = call_context (sessions s p)"

definition diam :: "'w dsm \<Rightarrow> nat \<Rightarrow> us_diameter" where
  "diam s p = diameter (sessions s p)"

definition gd :: "'w dsm \<Rightarrow> nat \<Rightarrow> us_gdi" where
  "gd s p = gdi (sessions s p)"

definition upd_world :: "('w \<Rightarrow> 'w) \<Rightarrow> 'w dsm \<Rightarrow> 'w dsm" where
  "upd_world f s = s\<lparr>world := f (world s)\<rparr>"

text \<open>A call of a service that returns a value.\<close>

definition call :: "('w \<Rightarrow> 'a \<times> 'w) \<Rightarrow> 'w dsm \<Rightarrow> 'a \<times> 'w dsm" where
  "call f s = (let (x, w) = f (world s) in (x, s\<lparr>world := w\<rparr>))"

section \<open>Frame facts\<close>

text \<open>Every access function leaves the other components of the state alone.\<close>

lemmas upd_defs = cnt_def upd_co_def upd_us_def upd_cc_def upd_diam_def upd_gdi_def upd_dq_def
  upd_buf_def upd_world_def call_def cc_def diam_def gd_def

lemma frame_cnt [simp, frame]:
  "world (cnt c s) = world s" "shutdown (cnt c s) = shutdown s"
  "callouts (cnt c s) = callouts s" "callwheel (cnt c s) = callwheel s"
  "wheel_index (cnt c s) = wheel_index s" "sessions (cnt c s) = sessions s"
  "ccdb_lists (cnt c s) = ccdb_lists s" "ccdb_time (cnt c s) = ccdb_time s"
  "ccdb_trap (cnt c s) = ccdb_trap s" "ccdb_tg_expiry (cnt c s) = ccdb_tg_expiry s"
  "dgc_qmsgs (cnt c s) = dgc_qmsgs s" "non_us_id (cnt c s) = non_us_id s"
  "bufs (cnt c s) = bufs s"
  "driver (cnt c s) = driver s"
  by (simp_all add: upd_defs case_prod_beta)

lemma frame_co [simp, frame]:
  "world (upd_co i f s) = world s" "meas (upd_co i f s) = meas s"
  "shutdown (upd_co i f s) = shutdown s" "callwheel (upd_co i f s) = callwheel s"
  "wheel_index (upd_co i f s) = wheel_index s" "sessions (upd_co i f s) = sessions s"
  "ccdb_lists (upd_co i f s) = ccdb_lists s" "ccdb_time (upd_co i f s) = ccdb_time s"
  "ccdb_trap (upd_co i f s) = ccdb_trap s" "ccdb_tg_expiry (upd_co i f s) = ccdb_tg_expiry s"
  "dgc_qmsgs (upd_co i f s) = dgc_qmsgs s" "non_us_id (upd_co i f s) = non_us_id s"
  "bufs (upd_co i f s) = bufs s"
  "driver (upd_co i f s) = driver s"
  by (simp_all add: upd_defs case_prod_beta)

lemma frame_us [simp, frame]:
  "world (upd_us p u s) = world s" "meas (upd_us p u s) = meas s"
  "shutdown (upd_us p u s) = shutdown s" "callouts (upd_us p u s) = callouts s"
  "callwheel (upd_us p u s) = callwheel s" "wheel_index (upd_us p u s) = wheel_index s"
  "ccdb_lists (upd_us p u s) = ccdb_lists s" "ccdb_time (upd_us p u s) = ccdb_time s"
  "ccdb_trap (upd_us p u s) = ccdb_trap s" "ccdb_tg_expiry (upd_us p u s) = ccdb_tg_expiry s"
  "dgc_qmsgs (upd_us p u s) = dgc_qmsgs s" "non_us_id (upd_us p u s) = non_us_id s"
  "bufs (upd_us p u s) = bufs s"
  "driver (upd_us p u s) = driver s"
  by (simp_all add: upd_defs case_prod_beta)

lemma frame_cc [simp, frame]:
  "world (upd_cc p g s) = world s" "meas (upd_cc p g s) = meas s"
  "shutdown (upd_cc p g s) = shutdown s" "callouts (upd_cc p g s) = callouts s"
  "callwheel (upd_cc p g s) = callwheel s" "wheel_index (upd_cc p g s) = wheel_index s"
  "ccdb_lists (upd_cc p g s) = ccdb_lists s" "ccdb_time (upd_cc p g s) = ccdb_time s"
  "ccdb_trap (upd_cc p g s) = ccdb_trap s" "ccdb_tg_expiry (upd_cc p g s) = ccdb_tg_expiry s"
  "dgc_qmsgs (upd_cc p g s) = dgc_qmsgs s" "non_us_id (upd_cc p g s) = non_us_id s"
  "bufs (upd_cc p g s) = bufs s"
  "driver (upd_cc p g s) = driver s"
  by (simp_all add: upd_defs case_prod_beta)

lemma frame_diam [simp, frame]:
  "world (upd_diam p d s) = world s" "meas (upd_diam p d s) = meas s"
  "shutdown (upd_diam p d s) = shutdown s" "callouts (upd_diam p d s) = callouts s"
  "callwheel (upd_diam p d s) = callwheel s" "wheel_index (upd_diam p d s) = wheel_index s"
  "ccdb_lists (upd_diam p d s) = ccdb_lists s" "ccdb_time (upd_diam p d s) = ccdb_time s"
  "ccdb_trap (upd_diam p d s) = ccdb_trap s" "ccdb_tg_expiry (upd_diam p d s) = ccdb_tg_expiry s"
  "dgc_qmsgs (upd_diam p d s) = dgc_qmsgs s" "non_us_id (upd_diam p d s) = non_us_id s"
  "bufs (upd_diam p d s) = bufs s"
  "driver (upd_diam p d s) = driver s"
  by (simp_all add: upd_defs case_prod_beta)

lemma frame_gdi [simp, frame]:
  "world (upd_gdi p e s) = world s" "meas (upd_gdi p e s) = meas s"
  "shutdown (upd_gdi p e s) = shutdown s" "callouts (upd_gdi p e s) = callouts s"
  "callwheel (upd_gdi p e s) = callwheel s" "wheel_index (upd_gdi p e s) = wheel_index s"
  "ccdb_lists (upd_gdi p e s) = ccdb_lists s" "ccdb_time (upd_gdi p e s) = ccdb_time s"
  "ccdb_trap (upd_gdi p e s) = ccdb_trap s" "ccdb_tg_expiry (upd_gdi p e s) = ccdb_tg_expiry s"
  "dgc_qmsgs (upd_gdi p e s) = dgc_qmsgs s" "non_us_id (upd_gdi p e s) = non_us_id s"
  "bufs (upd_gdi p e s) = bufs s"
  "driver (upd_gdi p e s) = driver s"
  by (simp_all add: upd_defs case_prod_beta)

lemma frame_dq [simp, frame]:
  "world (upd_dq i q s) = world s" "meas (upd_dq i q s) = meas s"
  "shutdown (upd_dq i q s) = shutdown s" "callouts (upd_dq i q s) = callouts s"
  "callwheel (upd_dq i q s) = callwheel s" "wheel_index (upd_dq i q s) = wheel_index s"
  "sessions (upd_dq i q s) = sessions s" "ccdb_lists (upd_dq i q s) = ccdb_lists s"
  "ccdb_time (upd_dq i q s) = ccdb_time s" "ccdb_trap (upd_dq i q s) = ccdb_trap s"
  "ccdb_tg_expiry (upd_dq i q s) = ccdb_tg_expiry s" "non_us_id (upd_dq i q s) = non_us_id s"
  "bufs (upd_dq i q s) = bufs s"
  "driver (upd_dq i q s) = driver s"
  by (simp_all add: upd_defs case_prod_beta)

lemma frame_buf [simp, frame]:
  "world (upd_buf b x s) = world s" "meas (upd_buf b x s) = meas s"
  "shutdown (upd_buf b x s) = shutdown s" "callouts (upd_buf b x s) = callouts s"
  "callwheel (upd_buf b x s) = callwheel s" "wheel_index (upd_buf b x s) = wheel_index s"
  "sessions (upd_buf b x s) = sessions s" "ccdb_lists (upd_buf b x s) = ccdb_lists s"
  "ccdb_time (upd_buf b x s) = ccdb_time s" "ccdb_trap (upd_buf b x s) = ccdb_trap s"
  "ccdb_tg_expiry (upd_buf b x s) = ccdb_tg_expiry s" "dgc_qmsgs (upd_buf b x s) = dgc_qmsgs s"
  "non_us_id (upd_buf b x s) = non_us_id s" "driver (upd_buf b x s) = driver s"
  by (simp_all add: upd_defs case_prod_beta)

lemma frame_world [simp, frame]:
  "meas (upd_world w s) = meas s" "shutdown (upd_world w s) = shutdown s"
  "callouts (upd_world w s) = callouts s" "callwheel (upd_world w s) = callwheel s"
  "wheel_index (upd_world w s) = wheel_index s" "sessions (upd_world w s) = sessions s"
  "ccdb_lists (upd_world w s) = ccdb_lists s" "ccdb_time (upd_world w s) = ccdb_time s"
  "ccdb_trap (upd_world w s) = ccdb_trap s" "ccdb_tg_expiry (upd_world w s) = ccdb_tg_expiry s"
  "dgc_qmsgs (upd_world w s) = dgc_qmsgs s" "non_us_id (upd_world w s) = non_us_id s"
  "bufs (upd_world w s) = bufs s"
  "driver (upd_world w s) = driver s"
  by (simp_all add: upd_defs case_prod_beta)

lemma frame_call [simp, frame]:
  "meas (snd (call k s)) = meas s" "shutdown (snd (call k s)) = shutdown s"
  "callouts (snd (call k s)) = callouts s" "callwheel (snd (call k s)) = callwheel s"
  "wheel_index (snd (call k s)) = wheel_index s" "sessions (snd (call k s)) = sessions s"
  "ccdb_lists (snd (call k s)) = ccdb_lists s" "ccdb_time (snd (call k s)) = ccdb_time s"
  "ccdb_trap (snd (call k s)) = ccdb_trap s" "ccdb_tg_expiry (snd (call k s)) = ccdb_tg_expiry s"
  "dgc_qmsgs (snd (call k s)) = dgc_qmsgs s" "non_us_id (snd (call k s)) = non_us_id s"
  "bufs (snd (call k s)) = bufs s"
  "driver (snd (call k s)) = driver s"
  by (simp_all add: upd_defs case_prod_beta)

lemma own_upd [simp]:
  "meas (cnt c s) = inc c (meas s)"
  "callouts (upd_co i f s) = (callouts s)(i := f (callouts s i))"
  "sessions (upd_us p u s) = (sessions s)(p := u (sessions s p))"
  "sessions (upd_cc p g s) = (sessions s)(p := call_context_update g (sessions s p))"
  "sessions (upd_diam p d s) = (sessions s)(p := diameter_update d (sessions s p))"
  "sessions (upd_gdi p e s) = (sessions s)(p := gdi_update e (sessions s p))"
  "dgc_qmsgs (upd_dq i q s) = (dgc_qmsgs s)(i := q (dgc_qmsgs s i))"
  "bufs (upd_buf b x s) = (bufs s)(b := x (bufs s b))"
  "world (upd_world w s) = w (world s)"
  by (simp_all add: upd_defs)

text \<open>Reading a session's parts.\<close>

lemma cc_upd [simp]:
  "cc (cnt c s) p = cc s p" "cc (upd_co i f s) p = cc s p" "cc (upd_dq i q s) p = cc s p"
  "cc (upd_buf b x s) p = cc s p" "cc (upd_world w s) p = cc s p"
  "cc (snd (call k s)) p = cc s p"
  "cc (upd_cc r g s) p = (if p = r then g (cc s p) else cc s p)"
  "cc (upd_diam r d s) p = cc s p" "cc (upd_gdi r e s) p = cc s p"
  by (simp_all add: cc_def)

lemma diam_upd [simp]:
  "diam (cnt c s) p = diam s p" "diam (upd_co i f s) p = diam s p"
  "diam (upd_dq i q s) p = diam s p" "diam (upd_buf b x s) p = diam s p"
  "diam (upd_world w s) p = diam s p" "diam (snd (call k s)) p = diam s p"
  "diam (upd_diam r d s) p = (if p = r then d (diam s p) else diam s p)"
  "diam (upd_cc r g s) p = diam s p" "diam (upd_gdi r e s) p = diam s p"
  by (simp_all add: diam_def)

lemma gd_upd [simp]:
  "gd (cnt c s) p = gd s p" "gd (upd_co i f s) p = gd s p" "gd (upd_dq i q s) p = gd s p"
  "gd (upd_buf b x s) p = gd s p" "gd (upd_world w s) p = gd s p"
  "gd (snd (call k s)) p = gd s p"
  "gd (upd_gdi r e s) p = (if p = r then e (gd s p) else gd s p)"
  "gd (upd_cc r g s) p = gd s p" "gd (upd_diam r d s) p = gd s p"
  by (simp_all add: gd_def)

lemma us_head_upd [simp]:
  "us_head (sessions (upd_cc r g s) p) = us_head (sessions s p)"
  "us_head (sessions (upd_diam r d s) p) = us_head (sessions s p)"
  "us_head (sessions (upd_gdi r e s) p) = us_head (sessions s p)"
  "us_id (sessions (upd_cc r g s) p) = us_id (sessions s p)"
  "us_id (sessions (upd_diam r d s) p) = us_id (sessions s p)"
  "us_id (sessions (upd_gdi r e s) p) = us_id (sessions s p)"
  by simp_all

lemma fst_call [simp]: "fst (call k s) = fst (k (world s))"
  and world_call [simp]: "world (snd (call k s)) = snd (k (world s))"
  by (simp_all add: call_def case_prod_beta)

section \<open>Identifiers\<close>

lemma ID_TO_INDEX_bound: "ID_VALID i \<Longrightarrow> ID_TO_INDEX i < USER_SESSION_SIZE"
  unfolding ID_VALID_def ID_TO_INDEX_def USER_SESSION_SIZE_def by unat_arith

lemma unat_INDEX_TO_ID: "i < USER_SESSION_SIZE \<Longrightarrow> unat (INDEX_TO_ID i) = i + 1"
  unfolding INDEX_TO_ID_def USER_SESSION_SIZE_def
  by (simp only: unat_of_nat) (simp add: take_bit_nat_eq_self)

lemma ID_roundtrip [simp]: "i < USER_SESSION_SIZE \<Longrightarrow> ID_TO_INDEX (INDEX_TO_ID i) = i"
  unfolding INDEX_TO_ID_def ID_TO_INDEX_def USER_SESSION_SIZE_def
  by (simp add: unat_of_nat take_bit_nat_eq_self)

lemma ID_VALID_INDEX_TO_ID [simp]: "i < USER_SESSION_SIZE \<Longrightarrow> ID_VALID (INDEX_TO_ID i)"
  unfolding ID_VALID_def by (simp add: word_le_nat_alt unat_INDEX_TO_ID) (simp add: USER_SESSION_SIZE_def)

lemma INDEX_TO_ID_roundtrip: "ID_VALID i \<Longrightarrow> INDEX_TO_ID (ID_TO_INDEX i) = i"
  unfolding ID_VALID_def ID_TO_INDEX_def INDEX_TO_ID_def by simp

lemma ID_VALID_ID_UNDEF [simp]: "\<not> ID_VALID ID_UNDEF"
  by (simp add: ID_VALID_def ID_UNDEF_def)

end
