(* ===== verification/Sample.thy ===== *)
theory Sample
  imports Dsm_State
begin

text \<open>
  The contract of the private memory pools, and a concrete surrounding system that meets it. The
  concrete system is used by the witnesses only: it shows that the hypotheses the theorems make
  about the services can hold.
\<close>

section \<open>The contract of the pools\<close>

text \<open>
  \<open>live P w\<close> is the set of elements of pool \<open>P\<close> that are handed out. \<open>new_private\<close> returns an
  element that is not, or NULL; \<open>delete_private\<close> takes one back; no other service touches the
  pools.
\<close>

definition pool_size :: "pool \<Rightarrow> nat" where
  "pool_size P = USER_SESSION_SIZE"

definition pool_contract :: "'w env \<Rightarrow> (pool \<Rightarrow> 'w \<Rightarrow> nat set) \<Rightarrow> bool" where
  "pool_contract E live \<longleftrightarrow>
     (\<forall>P w q. fst (new_private E P w) = Some q \<longrightarrow> q < pool_size P \<and> q \<notin> live P w
        \<and> (\<forall>P'. live P' (snd (new_private E P w))
                = (if P' = P then insert q (live P w) else live P' w)))
   \<and> (\<forall>P w. fst (new_private E P w) = None \<longrightarrow> (\<forall>P'. live P' (snd (new_private E P w)) = live P' w))
   \<and> (\<forall>P q w P'. live P' (delete_private E P q w)
                = (if P' = P then live P w - {q} else live P' w))
   \<and> (\<forall>P w. live P (snd (fep_alloc_buffer E w)) = live P w)
   \<and> (\<forall>P b w. live P (fep_free_buffer E b w) = live P w)
   \<and> (\<forall>P b w. live P (snd (buf_to_parm E b w)) = live P w)
   \<and> (\<forall>P a b c d w. live P (snd (tell_dgc E a b c d w)) = live P w)
   \<and> (\<forall>P a b c d w. live P (snd (tell_fem E a b c d w)) = live P w)
   \<and> (\<forall>P w. live P (snd (time_now E w)) = live P w)
   \<and> (\<forall>P w. live P (snd (c_rand E w)) = live P w)"

section \<open>A concrete surrounding system\<close>

record sample_world =
  live_list :: "pool \<Rightarrow> nat list"
  next_buf :: nat
  sent :: "(ulong \<times> int \<times> ulong \<times> ulong) list"
  clock :: ulong

text \<open>The least index from \<open>k\<close> on that is not in the list.\<close>

function first_free :: "nat \<Rightarrow> nat list \<Rightarrow> nat option" where
  "first_free k xs =
     (if k < USER_SESSION_SIZE then if k \<in> set xs then first_free (k + 1) xs else Some k else None)"
  by pat_completeness auto
termination by (relation "measure (\<lambda>(k, xs). USER_SESSION_SIZE - k)") auto

declare first_free.simps [simp del]

definition sample_env :: "sample_world env" where
  "sample_env = \<lparr>
     fep_create_private = (\<lambda>P w. w\<lparr>live_list := (live_list w)(P := [])\<rparr>),
     new_private = (\<lambda>P w. case first_free 0 (live_list w P) of
        None \<Rightarrow> (None, w)
      | Some q \<Rightarrow> (Some q, w\<lparr>live_list := (live_list w)(P := q # live_list w P)\<rparr>)),
     delete_private = (\<lambda>P q w. w\<lparr>live_list := (live_list w)(P := removeAll q (live_list w P))\<rparr>),
     fep_alloc_buffer = (\<lambda>w. (Some (next_buf w), w\<lparr>next_buf := next_buf w + 1\<rparr>)),
     fep_free_buffer = (\<lambda>b w. w),
     parm_to_buf = (\<lambda>p w. Some (unat p)),
     buf_to_parm = (\<lambda>b w. (case b of None \<Rightarrow> -1 | Some i \<Rightarrow> int i, w)),
     tell_dgc = (\<lambda>a b c d w. (SUCCESS, w\<lparr>sent := sent w @ [(a, b, c, d)]\<rparr>)),
     tell_fem = (\<lambda>a b c d w. (SUCCESS, w)),
     time_now = (\<lambda>w. (clock w, w)),
     conf_get_fe_number = (\<lambda>w. 1),
     conf_get_associate = (\<lambda>n w. Some 2),
     conf_get_csi_number = (\<lambda>w. 1),
     conf_ready = (\<lambda>w. True),
     conf_get_local_state_id = (\<lambda>w. 7),
     DIAM_RC_SUCCESS = (\<lambda>r. 2000 \<le> r \<and> r < 3000),
     char_to_uint = (\<lambda>c. ucast c),
     MAX_SZ_OCTETSTRING = 128,
     MSG_DIAMCTX = 100,
     APP_ID_CCA = 4,
     UNINITIALIZED = -1,
     TG_DEF = 60000,
     TG_MIN = 1000,
     status_code = (\<lambda>r. if r = SUCCESS then 0 else 1),
     result_value = (\<lambda>r. case r of R_SUCCESS \<Rightarrow> 0 | SUCCESS_QUEUED \<Rightarrow> 1
        | DIAMETER_UNABLE_TO_COMPLY \<Rightarrow> 5012 | DIAMETER_UNKNOWN_SESSION_ID \<Rightarrow> 5002
        | DIAMETER_COMMAND_UNSUPPORTED \<Rightarrow> 3001 | DIAMETER_INVALID_AVP_VALUE \<Rightarrow> 5004
        | DIAMETER_TOO_BUSY \<Rightarrow> 3004),
     c_rand = (\<lambda>w. (5, w))\<rparr>"

definition sample_live :: "pool \<Rightarrow> sample_world \<Rightarrow> nat set" where
  "sample_live P w = set (live_list w P)"

definition sample_w0 :: sample_world where
  "sample_w0 = \<lparr>live_list = (\<lambda>_. []), next_buf = 0, sent = [], clock = 1000\<rparr>"

lemma first_free_spec: "first_free k xs = Some q \<Longrightarrow> q < USER_SESSION_SIZE \<and> q \<notin> set xs"
  by (induction k xs rule: first_free.induct) (metis first_free.simps option.distinct(1) option.inject)

lemma sample_pool_contract: "pool_contract sample_env sample_live"
  unfolding pool_contract_def sample_env_def sample_live_def pool_size_def
  by (auto split: option.splits simp: first_free_spec)

text \<open>Blank records, the contents of zeroed static memory.\<close>

definition callout0 :: callout where
  "callout0 = \<lparr>co_id = 0, co_head = None, c_func = None, c_arg = None, c_time = 0, c_period = 0\<rparr>"

definition cmd_flags0 :: cmd_flags where
  "cmd_flags0 = \<lparr>DIAM_CMD_FLAG_R = False, DIAM_CMD_FLAG_P = False, DIAM_CMD_FLAG_E = False,
     DIAM_CMD_FLAG_T = False\<rparr>"

definition diamctx0 :: diamctx where
  "diamctx0 = \<lparr>diamctx_type = DIAMCTX_OTHER 0, sessionIdOffset = 0, sessionIdLength = 0,
     result_code = 0, dc_version = 0, commandCode = DIAM_CMD_OTHER 0, hopByHopId = 0,
     endToEndId = 0, applId = 0, flags = cmd_flags0, dc_proxy_count = 0,
     dc_proxy_host = (\<lambda>_. 0), dc_proxy_state_len = (\<lambda>_. 0), dc_proxy_states = (\<lambda>_. 0),
     subIdType = 0, subId = [], originHost = 0, originRealm = 0, originStateId = 0,
     destHost = 0, destRealm = 0, destStateId = 0, ccRequestType = DIAM_CC_OTHER 0,
     ccRequestNumber = 0, authAppId = 0, localTid = 0, remoteTid = 0,
     packageType = PACKAGE_TYPE_UNDEF, timer = 0, dc_origSysId = 0, dc_receiverId = 0,
     dc_invokeId = 0, dc_trap = False, no_diam = False, no_gdi = False, dc_cp = 0,
     dc_npk_config = 0, buf_off = 0, buf_len = 0, buf_data = (\<lambda>_. 0)\<rparr>"

definition user_session0 :: user_session where
  "user_session0 = \<lparr>us_id = 0, us_head = None,
     call_context = \<lparr>asm_id = APP_SM_UNDEF, asm_state = STATE_CCAS_UNDEF, tcc_id = 0, tcc_expiry = 0,
       tg_id = 0, tg_expiry = 0, version = 0, time_start = 0, time_last = 0, ref_count = 0,
       cp = 0, npk_config = 0, peer_fe = 0, trap = False\<rparr>,
     diameter = \<lparr>diam_version = 0, command_code = DIAM_CMD_OTHER 0, command_flags = cmd_flags0,
       app_id = 0, hop_by_hop = 0, end_to_end = 0, session_id = (\<lambda>_. 0), session_id_len = 0,
       cc_request_type = DIAM_CC_OTHER 0, cc_request_number = 0, auth_app_id = 0,
       local_host = 0, local_realm = 0, local_state = 0, remote_host = 0, remote_realm = 0,
       remote_state = 0, sub_id_type = 0, sub_id = [], proxy_count = 0,
       proxy_host = (\<lambda>_. 0), proxy_state_len = (\<lambda>_. 0), proxy_states = (\<lambda>_. 0),
       dgc_queue = []\<rparr>,
     gdi = \<lparr>package_type = PACKAGE_TYPE_UNDEF, package_type_asr = PACKAGE_TYPE_UNDEF,
       package_type_rar = PACKAGE_TYPE_UNDEF, tid_local = 0, tid_remote = 0,
       tid_remote_asr = 0, tid_remote_rar = 0, origSysId = 0, receiverId = 0, invokeId = 0\<rparr>\<rparr>"

definition dgc_qmsg0 :: dgc_qmsg where
  "dgc_qmsg0 = \<lparr>dq_id = 0, dq_head = None, qmsg = (\<lambda>_. 0)\<rparr>"

definition driver_state0 :: driver_state where
  "driver_state0 = \<lparr>drv_index = (\<lambda>_. 0), drv_timer = (\<lambda>_. 0), drv_id = (\<lambda>_. 0),
     num_timers = 0, do_nothing = False, first_time = True, start_time = 0\<rparr>"

text \<open>
  The process after its start: every element numbered, every list empty. The arrays end at
  \<open>USER_SESSION_SIZE\<close> in the code and are total functions here.
\<close>

definition dsm0 :: "sample_world dsm" where
  "dsm0 = \<lparr>world = sample_w0, meas = zero_meas, shutdown = False,
     callouts = (\<lambda>q. callout0\<lparr>co_id := INDEX_TO_ID q\<rparr>), callwheel = (\<lambda>_. []), wheel_index = 0,
     sessions = (\<lambda>p. user_session0\<lparr>us_id := INDEX_TO_ID p\<rparr>), ccdb_lists = (\<lambda>_. []),
     ccdb_time = [],
     ccdb_trap = \<lparr>trap_time_start = 0, trap_sub_id = [], trap_us = None\<rparr>,
     ccdb_tg_expiry = 60000, dgc_qmsgs = (\<lambda>q. dgc_qmsg0\<lparr>dq_id := INDEX_TO_ID q\<rparr>),
     non_us_id = 262145, bufs = (\<lambda>_. diamctx0), driver = driver_state0\<rparr>"

end
