(* ===== verification/Ccdb_Set.thy ===== *)
theory Ccdb_Set
  imports Sample
begin

text \<open>
  The small decisions of \<open>dsm_ccdb.c\<close> about one session: peer, GDI package type, local
  transaction identifier, state machine and its next state, the trap flag, and the check whether an
  event may occur. A pointer to a session that may be NULL is a \<open>nat option\<close>; \<open>p->head\<close> is
  \<open>us_head\<close>.

  A local transaction identifier packs four fields into 32 bits: the session identifier (23 bits),
  the CSI (1), the peer and the own front end (4 each). For a transaction without a session the
  code embeds a running number above the largest session identifier. The round trip theorem says
  that the fields can be read back, and that a number made for no session never decodes to one.
\<close>

section \<open>Operations\<close>

definition MASK_TID_CC :: ulong where
  "MASK_TID_CC = 0x007FFFFF"

definition MASK_TID_CSI :: ulong where
  "MASK_TID_CSI = 0x00800000"

definition MASK_TID_FE_PEER :: ulong where
  "MASK_TID_FE_PEER = 0x0F000000"

definition MASK_TID_FE :: ulong where
  "MASK_TID_FE = 0xF0000000"

definition SHIFT_TID_CC :: nat where
  "SHIFT_TID_CC = 0"

definition SHIFT_TID_CSI :: nat where
  "SHIFT_TID_CSI = 23 + SHIFT_TID_CC"

definition SHIFT_TID_FE_PEER :: nat where
  "SHIFT_TID_FE_PEER = 1 + SHIFT_TID_CSI"

definition SHIFT_TID_FE :: nat where
  "SHIFT_TID_FE = 4 + SHIFT_TID_FE_PEER"

definition set_peer_fe :: "'w env \<Rightarrow> 'w dsm \<Rightarrow> int \<times> 'w dsm" where
  "set_peer_fe E s =
     (let fe = conf_get_fe_number E (world s)
      in if fe \<le> 0
         then (UNINITIALIZED E,
               cnt ''ds_ccdb_set_peer_fe_fail'' (cnt ''ds_api_conf_get_fe_number_fail'' s))
         else case conf_get_associate E fe (world s) of
           None \<Rightarrow> (UNINITIALIZED E,
               cnt ''ds_ccdb_set_peer_fe_fail'' (cnt ''ds_api_conf_get_associate_fail'' s))
         | Some next_associate \<Rightarrow> (next_associate, cnt ''ds_ccdb_set_peer_fe_succ'' s))"

text \<open>The part of \<open>set_package_type\<close> after its argument checks.\<close>

definition package_type_of :: "user_session \<Rightarrow> package_type option" where
  "package_type_of u =
     (let tl = tid_local (gdi u); tr = tid_remote (gdi u)
      in if DIAM_CMD_FLAG_R (command_flags (diameter u)) then
           if tl \<le> 0 \<and> tr \<le> 0 then Some PACKAGE_TYPE_REQUEST
           else if tl > 0 \<and> tr > 0 then Some PACKAGE_TYPE_CONV
           else None
         else if tl > 0 \<and> tr > 0 then
           (case command_code (diameter u) of
              DIAM_CMD_ASA \<Rightarrow>
                if package_type_asr (gdi u) \<noteq> PACKAGE_TYPE_CONV then None else Some PACKAGE_TYPE_CONV
            | DIAM_CMD_RAA \<Rightarrow>
                if package_type_rar (gdi u) \<noteq> PACKAGE_TYPE_CONV then None else Some PACKAGE_TYPE_CONV
            | _ \<Rightarrow> None)
         else None)"

definition set_package_type :: "nat option \<Rightarrow> 'w dsm \<Rightarrow> package_type \<times> 'w dsm" where
  "set_package_type q s = (case q of
     None \<Rightarrow> (PACKAGE_TYPE_UNDEF, cnt ''ds_ccdb_set_package_type_fail'' (cnt ''ds_us_null'' s))
   | Some p \<Rightarrow>
       if us_head (sessions s p) = None
       then (PACKAGE_TYPE_UNDEF, cnt ''ds_ccdb_set_package_type_fail'' (cnt ''ds_us_list_null'' s))
       else case package_type_of (sessions s p) of
         None \<Rightarrow> (PACKAGE_TYPE_UNDEF, cnt ''ds_ccdb_set_package_type_fail'' s)
       | Some t \<Rightarrow> (t, cnt ''ds_ccdb_set_package_type_succ'' s))"

text \<open>
  \<open>set_tid_local\<close>: one missing identifier makes the call fail for a session, and counts as 0 for a
  transaction without one. \<open>tid_part\<close> is that choice, \<open>None\<close> for the early return.
\<close>

definition tid_part :: "bool \<Rightarrow> bool \<Rightarrow> int \<Rightarrow> int option" where
  "tid_part bad us v = (if bad then (if us then None else Some 0) else Some v)"

definition tid_compose :: "int \<Rightarrow> int \<Rightarrow> int \<Rightarrow> ulong \<Rightarrow> ulong" where
  "tid_compose fe pfe csi i =
     (let t = 0 OR push_bit SHIFT_TID_FE (of_int fe);
          t = t OR push_bit SHIFT_TID_FE_PEER (of_int pfe);
          t = t OR push_bit SHIFT_TID_CSI (of_int csi)
      in t OR push_bit SHIFT_TID_CC i)"

definition next_non_us_id :: "ulong \<Rightarrow> ulong" where
  "next_non_us_id n = (if n + 1 > MASK_TID_CC then of_nat USER_SESSION_SIZE + 1 else n + 1)"

definition set_tid_local :: "'w env \<Rightarrow> int \<Rightarrow> ulong \<Rightarrow> 'w dsm \<Rightarrow> ulong \<times> 'w dsm" where
  "set_tid_local E pfe i s =
    (let us = ID_VALID i;
         fe = conf_get_fe_number E (world s);
         s = (if fe \<le> 0 then cnt ''ds_api_conf_get_fe_number_fail'' s else s)
     in case tid_part (fe \<le> 0) us fe of
       None \<Rightarrow> (0, cnt ''ds_ccdb_set_tid_local_fail'' s)
     | Some fe \<Rightarrow>
         let s = (if pfe \<le> 0 then cnt ''ds_ccdb_set_tid_local_peer_fe_invalid'' s else s)
         in case tid_part (pfe \<le> 0) us pfe of
           None \<Rightarrow> (0, cnt ''ds_ccdb_set_tid_local_fail'' s)
         | Some pfe \<Rightarrow>
             let csi = conf_get_csi_number E (world s);
                 s = (if csi < 0 then cnt ''ds_api_conf_get_csi_number_fail'' s else s)
             in case tid_part (csi < 0) us csi of
               None \<Rightarrow> (0, cnt ''ds_ccdb_set_tid_local_fail'' s)
             | Some csi \<Rightarrow>
                 if us
                 then (tid_compose fe pfe csi i, cnt ''ds_ccdb_set_tid_local_succ'' s)
                 else (tid_compose fe pfe csi (non_us_id s),
                   cnt ''ds_ccdb_set_tid_local_succ'' (s\<lparr>non_us_id := next_non_us_id (non_us_id s)\<rparr>)))"

definition set_asm_id :: "'w env \<Rightarrow> nat option \<Rightarrow> 'w dsm \<Rightarrow> app_sm \<times> 'w dsm" where
  "set_asm_id E q s = (case q of
     None \<Rightarrow> (APP_SM_UNDEF, cnt ''ds_ccdb_set_asm_id_fail'' (cnt ''ds_us_null'' s))
   | Some p \<Rightarrow>
       if us_head (sessions s p) = None
       then (APP_SM_UNDEF, cnt ''ds_ccdb_set_asm_id_fail'' (cnt ''ds_us_list_null'' s))
       else if app_id (diam s p) = APP_ID_CCA E
       then (APP_SM_CCAS, cnt ''ds_ccdb_set_asm_id_succ'' s)
       else (APP_SM_UNDEF,
             cnt ''ds_ccdb_set_asm_id_fail'' (cnt ''ds_ccdb_set_asm_id_app_id_invalid'' s)))"

text \<open>\<open>stt\<close> on the state machine of session \<open>p\<close>.\<close>

definition stt_of :: "nat \<Rightarrow> event_ccas \<Rightarrow> 'w dsm \<Rightarrow> ste \<times> 'w dsm" where
  "stt_of p asm_event s =
     (let (e, m) = stt (asm_id (cc s p)) (asm_state (cc s p)) asm_event (meas s)
      in (e, s\<lparr>meas := m\<rparr>))"

definition set_asm_state :: "nat option \<Rightarrow> event_ccas \<Rightarrow> 'w dsm \<Rightarrow> state_ccas \<times> 'w dsm" where
  "set_asm_state q asm_event s = (case q of
     None \<Rightarrow> (STATE_CCAS_UNDEF, cnt ''ds_ccdb_set_asm_state_fail'' (cnt ''ds_us_null'' s))
   | Some p \<Rightarrow>
       if us_head (sessions s p) = None
       then (STATE_CCAS_UNDEF, cnt ''ds_ccdb_set_asm_state_fail'' (cnt ''ds_us_list_null'' s))
       else let (e, s) = stt_of p asm_event s
            in (ste_state e, cnt ''ds_ccdb_set_asm_state_succ'' s))"

definition set_flags_trap :: "nat option \<Rightarrow> 'w dsm \<Rightarrow> bool \<times> 'w dsm" where
  "set_flags_trap q s = (case q of
     None \<Rightarrow> (False, cnt ''ds_us_null'' s)
   | Some p \<Rightarrow>
       if us_head (sessions s p) = None then (False, cnt ''ds_us_list_null'' s)
       else if trap_time_start (ccdb_trap s) \<le> 0 then (False, s)
       else if sub_id (diam s p) \<noteq> trap_sub_id (ccdb_trap s) then (False, s)
       else (True, cnt ''ds_us_trap'' (s\<lparr>ccdb_trap := (ccdb_trap s)\<lparr>trap_us := Some p\<rparr>\<rparr>)))"

definition check_asm_state :: "nat option \<Rightarrow> event_ccas \<Rightarrow> 'w dsm \<Rightarrow> status \<times> 'w dsm" where
  "check_asm_state q asm_event s = (case q of
     None \<Rightarrow> (FAILURE, cnt ''ds_ccdb_check_asm_state_fail'' (cnt ''ds_us_null'' s))
   | Some p \<Rightarrow>
       let (e, s) = stt_of p asm_event s
       in if ste_action e = ACTION_CCAS_UNDEF
          then (FAILURE, cnt ''ds_ccdb_check_asm_state_fail'' s)
          else (SUCCESS, cnt ''ds_ccdb_check_asm_state_succ'' s))"

section \<open>Reading a transaction identifier back\<close>

definition tid_cc :: "ulong \<Rightarrow> ulong" where
  "tid_cc t = t AND MASK_TID_CC"

definition tid_csi :: "ulong \<Rightarrow> ulong" where
  "tid_csi t = drop_bit SHIFT_TID_CSI (t AND MASK_TID_CSI)"

definition tid_fe_peer :: "ulong \<Rightarrow> ulong" where
  "tid_fe_peer t = drop_bit SHIFT_TID_FE_PEER (t AND MASK_TID_FE_PEER)"

definition tid_fe :: "ulong \<Rightarrow> ulong" where
  "tid_fe t = drop_bit SHIFT_TID_FE (t AND MASK_TID_FE)"

lemmas tid_consts = MASK_TID_CC_def MASK_TID_CSI_def MASK_TID_FE_PEER_def MASK_TID_FE_def
  SHIFT_TID_CC_def SHIFT_TID_CSI_def SHIFT_TID_FE_PEER_def SHIFT_TID_FE_def

lemma bit_below:
  assumes "uint (w :: ulong) < 2 ^ k" "bit w n"
  shows "n < k"
proof -
  have "bit (uint w) n" using assms(2) bit_imp_le_length [OF assms(2)] by (simp add: bit_uint_iff)
  moreover have "take_bit k (uint w) = uint w" using assms(1) by (simp add: take_bit_int_eq_self_iff)
  ultimately show ?thesis by (metis bit_take_bit_iff)
qed

lemma tid_masks:
  "(0x007FFFFF :: ulong) = mask 23" "(0x00800000 :: ulong) = push_bit 23 (mask 1)"
  "(0x0F000000 :: ulong) = push_bit 24 (mask 4)" "(0xF0000000 :: ulong) = push_bit 28 (mask 4)"
  by (simp_all add: mask_eq_exp_minus_1)

lemma tid_fields:
  fixes f g c i :: ulong
  assumes "uint f < 2 ^ 4" "uint g < 2 ^ 4" "uint c < 2 ^ 1" "uint i < 2 ^ 23"
  defines "t \<equiv> push_bit 28 f OR push_bit 24 g OR push_bit 23 c OR i"
  shows "t AND mask 23 = i" "drop_bit 23 (t AND push_bit 23 (mask 1)) = c"
    "drop_bit 24 (t AND push_bit 24 (mask 4)) = g" "drop_bit 28 (t AND push_bit 28 (mask 4)) = f"
proof -
  have b: "bit f n \<Longrightarrow> n < 4" "bit g n \<Longrightarrow> n < 4" "bit c n \<Longrightarrow> n < 1" "bit i n \<Longrightarrow> n < 23" for n
    using bit_below [OF assms(1)] bit_below [OF assms(2)] bit_below [OF assms(3)]
      bit_below [OF assms(4)] by auto
  show "t AND mask 23 = i"
    by (rule bit_word_eqI) (auto simp: t_def bit_simps dest: b)
  show "drop_bit 23 (t AND push_bit 23 (mask 1)) = c"
    by (rule bit_word_eqI) (auto simp: t_def bit_simps dest: b)
  show "drop_bit 24 (t AND push_bit 24 (mask 4)) = g"
    by (rule bit_word_eqI) (auto simp: t_def bit_simps dest: b)
  show "drop_bit 28 (t AND push_bit 28 (mask 4)) = f"
    by (rule bit_word_eqI) (auto simp: t_def bit_simps dest: b)
qed

lemma tid_compose_fields:
  assumes "0 \<le> fe" "fe < 16" "0 \<le> pfe" "pfe < 16" "0 \<le> csi" "csi < 2" "uint i < 2 ^ 23"
  shows "tid_cc (tid_compose fe pfe csi i) = i" "tid_csi (tid_compose fe pfe csi i) = of_int csi"
    "tid_fe_peer (tid_compose fe pfe csi i) = of_int pfe" "tid_fe (tid_compose fe pfe csi i) = of_int fe"
proof -
  have u: "uint (of_int v :: ulong) = v" if "0 \<le> v" "v < 16" for v
    using that by (simp add: uint_word_of_int)
  have a: "uint (of_int fe :: ulong) < 2 ^ 4" "uint (of_int pfe :: ulong) < 2 ^ 4"
    "uint (of_int csi :: ulong) < 2 ^ 1"
    using assms by (simp_all add: u)
  have c: "tid_compose fe pfe csi i
      = push_bit 28 (of_int fe) OR push_bit 24 (of_int pfe) OR push_bit 23 (of_int csi) OR i"
    by (simp add: tid_compose_def Let_def tid_consts or.assoc)
  show "tid_cc (tid_compose fe pfe csi i) = i" "tid_csi (tid_compose fe pfe csi i) = of_int csi"
    "tid_fe_peer (tid_compose fe pfe csi i) = of_int pfe" "tid_fe (tid_compose fe pfe csi i) = of_int fe"
    unfolding c tid_cc_def tid_csi_def tid_fe_peer_def tid_fe_def tid_consts tid_masks
    using tid_fields [OF a assms(7)] by simp_all
qed

lemma uint_valid_id: "ID_VALID i \<Longrightarrow> uint i < 2 ^ 23 \<and> i \<noteq> 0"
  unfolding ID_VALID_def word_le_def by auto

text \<open>The running number for transactions without a session stays above the session identifiers.\<close>

definition non_us_id_ok :: "ulong \<Rightarrow> bool" where
  "non_us_id_ok n \<longleftrightarrow> 262145 \<le> n \<and> n \<le> 0x007FFFFF"

lemma next_non_us_id_ok: "non_us_id_ok n \<Longrightarrow> non_us_id_ok (next_non_us_id n)"
proof -
  assume a: "non_us_id_ok n"
  hence "unat n \<le> 0x007FFFFF" "262145 \<le> unat n"
    unfolding non_us_id_ok_def word_le_nat_alt by simp_all
  moreover from this have "unat (n + 1) = unat n + 1" by (simp add: unat_word_ariths)
  ultimately show ?thesis
    unfolding non_us_id_ok_def next_non_us_id_def MASK_TID_CC_def USER_SESSION_SIZE_def
    by (simp add: word_le_nat_alt word_less_nat_alt)
qed

lemma non_us_id_invalid: "non_us_id_ok n \<Longrightarrow> \<not> ID_VALID n \<and> uint n < 2 ^ 23"
  unfolding non_us_id_ok_def ID_VALID_def word_le_def by auto

text \<open>
  C21: A local transaction identifier can be read back. With front end, peer and CSI numbers that
  fit their fields, \<open>set_tid_local\<close> for a session succeeds, its identifier is not zero and its
  fields are the session's identifier, the CSI, the peer and the front end.
\<close>

theorem tid_roundtrip:
  assumes "ID_VALID i" "0 < pfe" "pfe < 16"
    "0 < conf_get_fe_number E (world s)" "conf_get_fe_number E (world s) < 16"
    "0 \<le> conf_get_csi_number E (world s)" "conf_get_csi_number E (world s) < 2"
  defines "t \<equiv> fst (set_tid_local E pfe i s)"
  shows "t \<noteq> 0 \<and> tid_cc t = i \<and> tid_csi t = of_int (conf_get_csi_number E (world s))
    \<and> tid_fe_peer t = of_int pfe \<and> tid_fe t = of_int (conf_get_fe_number E (world s))"
proof -
  have t: "t = tid_compose (conf_get_fe_number E (world s)) pfe (conf_get_csi_number E (world s)) i"
    using assms by (simp add: t_def set_tid_local_def tid_part_def Let_def)
  have f: "tid_cc t = i \<and> tid_csi t = of_int (conf_get_csi_number E (world s))
    \<and> tid_fe_peer t = of_int pfe \<and> tid_fe t = of_int (conf_get_fe_number E (world s))"
    unfolding t using assms uint_valid_id [OF assms(1)] by (simp add: tid_compose_fields)
  hence "t \<noteq> 0" using uint_valid_id [OF assms(1)] by (auto simp: tid_cc_def)
  thus ?thesis using f by simp
qed

theorem tid_roundtrip_witness:
  "tid_cc (fst (set_tid_local sample_env 2 5 dsm0)) = 5"
  using tid_roundtrip [of 5 2 sample_env dsm0] by (simp add: sample_env_def ID_VALID_def)

text \<open>
  C22: An identifier made for a transaction without a session never decodes to a session: while
  the running number is in its range it stays there, and the session field of the identifier is
  not a valid session identifier.
\<close>

theorem tid_without_session:
  assumes "\<not> ID_VALID i" "non_us_id_ok (non_us_id s)" "pfe < 16"
    "conf_get_fe_number E (world s) < 16" "conf_get_csi_number E (world s) < 2"
  shows "\<not> ID_VALID (tid_cc (fst (set_tid_local E pfe i s)))
    \<and> fst (set_tid_local E pfe i s) \<noteq> 0
    \<and> non_us_id_ok (non_us_id (snd (set_tid_local E pfe i s)))"
proof -
  let ?f = "\<lambda>v. if v \<le> 0 then 0 else v :: int" and ?c = "\<lambda>v. if v < 0 then 0 else v :: int"
  let ?t = "tid_compose (?f (conf_get_fe_number E (world s))) (?f pfe)
    (?c (conf_get_csi_number E (world s))) (non_us_id s)"
  have t: "fst (set_tid_local E pfe i s) = ?t"
    "non_us_id (snd (set_tid_local E pfe i s)) = next_non_us_id (non_us_id s)"
    using assms(1) by (simp_all add: set_tid_local_def tid_part_def Let_def)
  have "tid_cc ?t = non_us_id s"
    using assms non_us_id_invalid [OF assms(2)] by (intro tid_compose_fields(1)) auto
  moreover have "non_us_id s \<noteq> 0" using assms(2) by (auto simp: non_us_id_ok_def)
  ultimately show ?thesis
    using non_us_id_invalid [OF assms(2)] next_non_us_id_ok [OF assms(2)]
    unfolding t by (auto simp: tid_cc_def)
qed

theorem tid_without_session_witness:
  "\<not> ID_VALID (tid_cc (fst (set_tid_local sample_env 2 ID_UNDEF dsm0)))"
  using tid_without_session [of ID_UNDEF dsm0 2 sample_env]
  by (simp add: non_us_id_ok_def dsm0_def sample_env_def)

end
