(* ===== verification/Ccdb_Save.thy ===== *)
theory Ccdb_Save
  imports Ccdb_Set
begin

text \<open>
  \<open>user_session_save\<close> of \<open>dsm_ccdb.c\<close>: the transfer of the data of a Diameter context, which lies
  in buffer \<open>b\<close>, into the session \<open>p\<close>. The function is cut along the branches of the code: the
  retransmitted request, the abort and the close, the new session, the Diameter message and the
  GDI message by command code. The lengths that come from outside (session id, proxies) are not
  checked against the array sizes by the code here, and the arrays are total functions in the
  model.
\<close>

section \<open>Operations\<close>

definition save_fail :: "'w dsm \<Rightarrow> status \<times> 'w dsm" where
  "save_fail s = (FAILURE, cnt ''ds_ccdb_us_save_fail'' s)"

definition save_succ :: "'w dsm \<Rightarrow> status \<times> 'w dsm" where
  "save_succ s = (SUCCESS, cnt ''ds_ccdb_us_save_succ'' s)"

text \<open>\<open>p->call_context.flags.trap = set_flags_trap (p)\<close>\<close>

definition save_trap :: "nat \<Rightarrow> 'w dsm \<Rightarrow> 'w dsm" where
  "save_trap p s = (let (t, s) = set_flags_trap (Some p) s in upd_cc p (trap_update (\<lambda>_. t)) s)"

definition proxy_bytes :: "(nat \<Rightarrow> int) \<Rightarrow> int \<Rightarrow> nat" where
  "proxy_bytes lens n = nat (sum_list (map lens [0..<nat n]))"

definition save_proxies :: "diamctx \<Rightarrow> us_diameter \<Rightarrow> us_diameter" where
  "save_proxies c d = (let n = dc_proxy_count c in d\<lparr>
     proxy_count := n,
     proxy_host := memcpy (proxy_host d) (dc_proxy_host c) (nat n),
     proxy_state_len := memcpy (proxy_state_len d) (dc_proxy_state_len c) (nat n),
     proxy_states := memcpy (proxy_states d) (dc_proxy_states c)
       (proxy_bytes (dc_proxy_state_len c) n)\<rparr>)"

text \<open>A request with the T bit whose answer is still awaited.\<close>

definition is_retransmit :: "diamctx \<Rightarrow> user_session \<Rightarrow> bool" where
  "is_retransmit c u \<longleftrightarrow> DIAM_CMD_FLAG_T (flags c) \<and> endToEndId c = end_to_end (diameter u)
     \<and> ID_VALID (tg_id (call_context u))"

definition save_retransmit :: "diamctx \<Rightarrow> nat \<Rightarrow> 'w dsm \<Rightarrow> status \<times> 'w dsm" where
  "save_retransmit c p s =
     (let s = upd_diam p (\<lambda>d. save_proxies c (d\<lparr>hop_by_hop := hopByHopId c\<rparr>)) s
      in save_succ (save_trap p s))"

definition save_abort :: "diamctx \<Rightarrow> nat \<Rightarrow> 'w dsm \<Rightarrow> status \<times> 'w dsm" where
  "save_abort c p s =
     (let s = upd_gdi p (\<lambda>g. g\<lparr>package_type := packageType c,
            tid_local := (if diamctx_type c = DIAMCTX_GDI_DIM_CLOSE then 0 else tid_local g),
            tid_remote := 0, tid_remote_asr := 0, tid_remote_rar := 0\<rparr>) s
      in save_succ (save_trap p s))"

definition valid_command :: "command_code \<Rightarrow> bool" where
  "valid_command c = (case c of DIAM_CMD_OTHER _ \<Rightarrow> False | _ \<Rightarrow> True)"

definition is_new_us :: "diamctx \<Rightarrow> bool" where
  "is_new_us c \<longleftrightarrow> commandCode c = DIAM_CMD_CCR
     \<and> (ccRequestType c = DIAM_CC_INITIAL_REQUEST \<or> ccRequestType c = DIAM_CC_EVENT_REQUEST)"

text \<open>The part for a new session; the first component tells whether to go on.\<close>

definition save_new_us :: "'w env \<Rightarrow> diamctx \<Rightarrow> nat \<Rightarrow> 'w dsm \<Rightarrow> bool \<times> 'w dsm" where
  "save_new_us E c p s =
    (let (t, s) = call (time_now E) s;
         s = upd_cc p (\<lambda>u. u\<lparr>time_start := t, version := 0\<rparr>) s;
         s = upd_diam p (\<lambda>d. d\<lparr>
               session_id := memcpy (session_id d) (FEP_BUF_SID c) (nat (sessionIdLength c)),
               session_id_len := sessionIdLength c, app_id := applId c\<rparr>) s;
         (a, s) = set_asm_id E (Some p) s;
         s = upd_cc p (asm_id_update (\<lambda>_. a)) s
     in if a = APP_SM_UNDEF then (False, s)
        else let (st, s) = set_asm_state (Some p) EVENT_CCAS_UNDEF s;
                 s = upd_cc p (asm_state_update
                       (\<lambda>_. if st = STATE_CCAS_UNDEF then STATE_CCAS_IDLE else st)) s
             in (True, upd_gdi p (\<lambda>g. g\<lparr>tid_local := 0, tid_remote := 0, tid_remote_asr := 0,
                   tid_remote_rar := 0, package_type_asr := PACKAGE_TYPE_UNDEF,
                   package_type_rar := PACKAGE_TYPE_UNDEF\<rparr>) s))"

text \<open>
  The local transaction identifier of a Diameter message; \<open>None\<close> in the middle means the
  \<open>break\<close>s of the code, the last case is its \<open>default\<close> label.
\<close>

definition save_new_tid :: "'w env \<Rightarrow> nat \<Rightarrow> 'w dsm \<Rightarrow> bool \<times> 'w dsm" where
  "save_new_tid E p s =
     (let (t, s) = set_tid_local E (peer_fe (cc s p)) (us_id (sessions s p)) s;
          s = upd_gdi p (tid_local_update (\<lambda>_. t)) s
      in (t > 0, s))"

definition save_tid_local :: "'w env \<Rightarrow> nat \<Rightarrow> 'w dsm \<Rightarrow> bool \<times> 'w dsm" where
  "save_tid_local E p s =
    (if command_code (diam s p) = DIAM_CMD_ASA \<or> command_code (diam s p) = DIAM_CMD_RAA then
       if package_type (gd s p) = PACKAGE_TYPE_RESPONSE then
         if tid_local (gd s p) \<le> 0 then (True, s)
         else (True, upd_gdi p (tid_local_update (\<lambda>_. 0)) (cnt ''ds_us_tid_local_invalid'' s))
       else if package_type (gd s p) = PACKAGE_TYPE_CONV then
         if tid_local (gd s p) > 0 then (True, s)
         else save_new_tid E p (cnt ''ds_us_tid_local_invalid'' s)
       else save_new_tid E p s
     else save_new_tid E p s)"

definition save_diam_avps :: "'w env \<Rightarrow> diamctx \<Rightarrow> nat \<Rightarrow> 'w dsm \<Rightarrow> 'w dsm" where
  "save_diam_avps E c p s =
    (let s = upd_cc p (tg_expiry_update (\<lambda>_. ccdb_tg_expiry s)) s;
         s = save_trap p s;
         st = conf_get_local_state_id E (world s)
     in upd_diam p (\<lambda>d. save_proxies c (d\<lparr>
          diam_version := dc_version c, app_id := applId c, hop_by_hop := hopByHopId c,
          end_to_end := endToEndId c, cc_request_type := ccRequestType c,
          cc_request_number := ccRequestNumber c, auth_app_id := authAppId c,
          local_host := destHost c, local_realm := destRealm c, local_state := st,
          remote_host := originHost c, remote_realm := originRealm c,
          remote_state := originStateId c, sub_id_type := subIdType c, sub_id := subId c\<rparr>)) s)"

definition save_diam :: "'w env \<Rightarrow> diamctx \<Rightarrow> nat \<Rightarrow> 'w dsm \<Rightarrow> status \<times> 'w dsm" where
  "save_diam E c p s =
    (if \<not> conf_ready E (world s) then save_fail (cnt ''ds_api_conf_get_state_fail'' s)
     else let (go, s) = (if is_new_us c then save_new_us E c p s else (True, s))
     in if \<not> go then save_fail s
     else let s = upd_diam p (\<lambda>d. d\<lparr>command_code := commandCode c, command_flags := flags c\<rparr>) s;
              (f, s) = set_peer_fe E s;
              s = upd_cc p (peer_fe_update (\<lambda>_. f)) s
     in if f \<le> 0 then save_fail s
     else let (t, s) = set_package_type (Some p) s;
              s = upd_gdi p (package_type_update (\<lambda>_. t)) s
     in if t = PACKAGE_TYPE_UNDEF then save_fail s
     else let (go, s) = save_tid_local E p s
     in if \<not> go then save_fail s
     else save_succ (save_diam_avps E c p s))"

definition clear_tids :: "us_gdi \<Rightarrow> us_gdi" where
  "clear_tids g = g\<lparr>tid_local := 0, tid_remote := 0, tid_remote_asr := 0, tid_remote_rar := 0\<rparr>"

definition save_gdi_cca :: "diamctx \<Rightarrow> nat \<Rightarrow> 'w dsm \<Rightarrow> 'w dsm" where
  "save_gdi_cca c p s =
    (let s = upd_gdi p (package_type_update (\<lambda>_. packageType c)) s;
         s = (case packageType c of
                PACKAGE_TYPE_CONV \<Rightarrow> upd_gdi p (tid_remote_update (\<lambda>_. remoteTid c)) s
              | PACKAGE_TYPE_RESPONSE \<Rightarrow> upd_gdi p clear_tids s
              | _ \<Rightarrow> s)
     in upd_cc p (tcc_expiry_update (\<lambda>_. timer c * MS_PER_SEC)) s)"

definition save_gdi_asr :: "diamctx \<Rightarrow> nat \<Rightarrow> 'w dsm \<Rightarrow> bool \<times> 'w dsm" where
  "save_gdi_asr c p s =
    (let s = upd_gdi p (package_type_asr_update (\<lambda>_. packageType c)) s
     in case packageType c of
          PACKAGE_TYPE_REQUEST \<Rightarrow> (True, upd_gdi p (tid_remote_asr_update (\<lambda>_. remoteTid c)) s)
        | PACKAGE_TYPE_CONV \<Rightarrow>
            (True, upd_gdi p (\<lambda>g. g\<lparr>tid_remote_asr := 0, tid_remote := remoteTid c\<rparr>) s)
        | _ \<Rightarrow> (False, cnt ''ds_dc_package_type_invalid'' s))"

definition save_gdi_rar :: "diamctx \<Rightarrow> nat \<Rightarrow> 'w dsm \<Rightarrow> bool \<times> 'w dsm" where
  "save_gdi_rar c p s =
    (let s = upd_gdi p (package_type_rar_update (\<lambda>_. packageType c)) s
     in case packageType c of
          PACKAGE_TYPE_REQUEST \<Rightarrow> (True, upd_gdi p (tid_remote_rar_update (\<lambda>_. remoteTid c)) s)
        | PACKAGE_TYPE_CONV \<Rightarrow>
            (True, upd_gdi p (\<lambda>g. g\<lparr>tid_remote_rar := 0, tid_remote := remoteTid c\<rparr>) s)
        | _ \<Rightarrow> (False, cnt ''ds_dc_package_type_invalid'' s))"

definition save_gdi_sta :: "diamctx \<Rightarrow> nat \<Rightarrow> 'w dsm \<Rightarrow> 'w dsm" where
  "save_gdi_sta c p s =
    (let s = upd_gdi p (package_type_update (\<lambda>_. packageType c)) s
     in if packageType c = PACKAGE_TYPE_RESPONSE then upd_gdi p clear_tids s else s)"

definition save_gdi :: "'w env \<Rightarrow> diamctx \<Rightarrow> nat \<Rightarrow> 'w dsm \<Rightarrow> status \<times> 'w dsm" where
  "save_gdi E c p s =
    (let (go, s) = (case commandCode c of
           DIAM_CMD_CCR \<Rightarrow> (True, save_gdi_cca c p s)
         | DIAM_CMD_ASA \<Rightarrow> save_gdi_asr c p s
         | DIAM_CMD_RAA \<Rightarrow> save_gdi_rar c p s
         | DIAM_CMD_STR \<Rightarrow> (True, save_gdi_sta c p s)
         | DIAM_CMD_OTHER _ \<Rightarrow> (False, cnt ''ds_dc_cc_invalid'' s))
     in if \<not> go then save_fail s
     else let s = save_trap p s;
              st = conf_get_local_state_id E (world s);
              s = upd_diam p (\<lambda>d. d\<lparr>command_code := commandCode c, command_flags := flags c,
                    cc_request_type := ccRequestType c, local_host := originHost c,
                    local_realm := originRealm c, local_state := st\<rparr>) s
     in save_succ (upd_gdi p (\<lambda>g. g\<lparr>origSysId := dc_origSysId c, receiverId := dc_receiverId c,
          invokeId := dc_invokeId c\<rparr>) s))"

definition user_session_save ::
  "'w env \<Rightarrow> nat option \<Rightarrow> nat option \<Rightarrow> 'w dsm \<Rightarrow> status \<times> 'w dsm" where
  "user_session_save E pbuf_cc q s = (case pbuf_cc of
     None \<Rightarrow> save_fail (cnt ''ds_dc_null'' s)
   | Some b \<Rightarrow> (case q of
       None \<Rightarrow> save_fail (cnt ''ds_us_null'' s)
     | Some p \<Rightarrow>
         let c = bufs s b
         in if us_head (sessions s p) = None then save_fail (cnt ''ds_us_list_null'' s)
         else if is_retransmit c (sessions s p) then save_retransmit c p s
         else if packageType c = PACKAGE_TYPE_ABORT \<or> diamctx_type c = DIAMCTX_GDI_DIM_CLOSE
         then save_abort c p s
         else if \<not> valid_command (commandCode c) then save_fail (cnt ''ds_dc_cc_invalid'' s)
         else case diamctx_type c of
           DIAMCTX_DIAM \<Rightarrow> save_diam E c p s
         | DIAMCTX_GDI \<Rightarrow> save_gdi E c p s
         | _ \<Rightarrow> save_fail (cnt ''ds_dc_invalid'' s)))"

end
