(* ===== verification/Ccdb_Construct.thy ===== *)
theory Ccdb_Construct
  imports Ccdb_Save "HOL-Library.Signed_Division"
begin

text \<open>
  \<open>qmsg_diamctx_construct\<close> of \<open>dsm_ccdb.c\<close>: the inverse direction of \<open>user_session_save\<close>. It
  fills the Diameter context in buffer \<open>b\<close> from the session, so that the DGC task can build a GDI
  or a Diameter message from it. \<open>flag_repterr\<close> asks for the identifiers of a GDI-DIM_ReportError.
\<close>

section \<open>Operations\<close>

text \<open>No session, or one that is in no list: a new transaction of its own.\<close>

definition construct_no_us :: "'w env \<Rightarrow> nat \<Rightarrow> 'w dsm \<Rightarrow> status \<times> 'w dsm" where
  "construct_no_us E b s =
    (let s = upd_buf b (packageType_update (\<lambda>_. PACKAGE_TYPE_REQUEST)) s;
         (f, s) = set_peer_fe E s;
         (t, s) = set_tid_local E f ID_UNDEF s;
         s = upd_buf b (\<lambda>c. c\<lparr>localTid := t, remoteTid := 0\<rparr>) s
     in (SUCCESS, cnt ''ds_ccdb_qmsg_diamctx_construct_succ'' (cnt ''ds_pkg_gdi_begin_xmit'' s)))"

text \<open>A local identifier for the error report: the session's, or a new one.\<close>

definition construct_tid_local :: "'w env \<Rightarrow> nat \<Rightarrow> nat \<Rightarrow> 'w dsm \<Rightarrow> 'w dsm" where
  "construct_tid_local E b p s =
    (if tid_local (gd s p) \<le> 0 then
       let (f, s) = set_peer_fe E s;
           (t, s) = set_tid_local E f ID_UNDEF s
       in upd_buf b (localTid_update (\<lambda>_. t)) (upd_gdi p (tid_local_update (\<lambda>_. t)) s)
     else upd_buf b (localTid_update (\<lambda>_. tid_local (gd s p))) s)"

definition construct_report_request :: "'w env \<Rightarrow> nat \<Rightarrow> nat \<Rightarrow> 'w dsm \<Rightarrow> 'w dsm" where
  "construct_report_request E b p s =
    (let s = upd_gdi p (package_type_update (\<lambda>_. PACKAGE_TYPE_REQUEST)) s;
         s = upd_buf b (packageType_update (\<lambda>_. PACKAGE_TYPE_REQUEST)) s;
         s = construct_tid_local E b p s;
         s = upd_gdi p (tid_remote_update (\<lambda>_. 0)) s
     in upd_buf b (remoteTid_update (\<lambda>_. 0)) s)"

definition construct_report_conv :: "'w env \<Rightarrow> nat \<Rightarrow> nat \<Rightarrow> 'w dsm \<Rightarrow> 'w dsm" where
  "construct_report_conv E b p s =
    (let s = upd_gdi p (package_type_update (\<lambda>_. PACKAGE_TYPE_CONV)) s;
         s = upd_buf b (packageType_update (\<lambda>_. PACKAGE_TYPE_CONV)) s
     in construct_tid_local E b p s)"

text \<open>
  The remote identifier for a Diameter message: that of the GDI request an ASA or RAA answers. The
  first component is false for an invalid package type of that request.
\<close>

definition construct_remote :: "nat \<Rightarrow> nat \<Rightarrow> 'w dsm \<Rightarrow> bool \<times> 'w dsm" where
  "construct_remote b p s =
    (let code = commandCode (bufs s b)
     in if code = DIAM_CMD_ASA \<or> code = DIAM_CMD_RAA then
          let package_type_req = (if code = DIAM_CMD_ASA then package_type_asr (gd s p)
                                  else package_type_rar (gd s p));
              tid_remote_req = (if code = DIAM_CMD_ASA then tid_remote_asr (gd s p)
                                else tid_remote_rar (gd s p))
          in case package_type_req of
               PACKAGE_TYPE_REQUEST \<Rightarrow> (True, upd_buf b (remoteTid_update (\<lambda>_. tid_remote_req)) s)
             | PACKAGE_TYPE_CONV \<Rightarrow> (True, upd_buf b (remoteTid_update (\<lambda>_. tid_remote (gd s p))) s)
             | _ \<Rightarrow> (False, cnt ''ds_ccdb_qmsg_diamctx_construct_fail''
                             (cnt ''ds_us_package_type_invalid'' s))
        else (True, upd_buf b (remoteTid_update (\<lambda>_. tid_remote (gd s p))) s))"

definition construct_diam :: "'w env \<Rightarrow> bool \<Rightarrow> nat \<Rightarrow> nat \<Rightarrow> 'w dsm \<Rightarrow> bool \<times> 'w dsm" where
  "construct_diam E flag_repterr b p s =
    (if flag_repterr then
       if tid_remote (gd s p) \<le> 0 then (True, construct_report_request E b p s)
       else construct_remote b p (construct_report_conv E b p s)
     else
       let s = upd_buf b (\<lambda>c. c\<lparr>packageType := package_type (gd s p), localTid := tid_local (gd s p)\<rparr>) s;
           (go, s) = construct_remote b p s
       in if \<not> go then (False, s)
          else (True, upd_buf b (\<lambda>c. c\<lparr>originHost := remote_host (diam s p),
                 originRealm := remote_realm (diam s p), originStateId := remote_state (diam s p)\<rparr>) s))"

definition construct_session_id :: "nat \<Rightarrow> nat \<Rightarrow> 'w dsm \<Rightarrow> 'w dsm" where
  "construct_session_id b p s =
     upd_buf b (\<lambda>c. c\<lparr>sessionIdOffset := 0, buf_off := 0,
       sessionIdLength := session_id_len (diam s p), buf_len := session_id_len (diam s p),
       buf_data := memcpy (buf_data c) (session_id (diam s p)) (nat (session_id_len (diam s p)))\<rparr>) s"

text \<open>The assignment to \<open>timer\<close> goes through a \<open>short\<close>.\<close>

definition to_short :: "int \<Rightarrow> int" where
  "to_short i = (i + 32768) mod 65536 - 32768"

definition construct_avps :: "us_call_context \<Rightarrow> us_diameter \<Rightarrow> diamctx \<Rightarrow> diamctx" where
  "construct_avps u d c = (let n = proxy_count d in c\<lparr>
     timer := to_short (tcc_expiry u sdiv MS_PER_SEC),
     dc_version := diam_version d, commandCode := command_code d, flags := command_flags d,
     hopByHopId := hop_by_hop d, endToEndId := end_to_end d, applId := app_id d,
     authAppId := auth_app_id d, ccRequestType := cc_request_type d,
     ccRequestNumber := cc_request_number d,
     dc_proxy_count := n,
     dc_proxy_host := memcpy (dc_proxy_host c) (proxy_host d) (nat n),
     dc_proxy_state_len := memcpy (dc_proxy_state_len c) (proxy_state_len d) (nat n),
     dc_proxy_states := memcpy (dc_proxy_states c) (proxy_states d) (proxy_bytes (proxy_state_len d) n),
     subIdType := sub_id_type d, subId := sub_id d\<rparr>)"

definition construct_hosts :: "'w env \<Rightarrow> us_diameter \<Rightarrow> diamctx \<Rightarrow> diamctx" where
  "construct_hosts E d c = (case diamctx_type c of
     DIAMCTX_GDI \<Rightarrow>
       if \<not> DIAM_CMD_FLAG_R (command_flags d)
       then c\<lparr>destHost := remote_host d, destRealm := remote_realm d, destStateId := remote_state d\<rparr>
       else c
   | DIAMCTX_GDI_INT_STR \<Rightarrow> c\<lparr>originHost := remote_host d, originRealm := remote_realm d,
       originStateId := remote_state d, destHost := local_host d, destRealm := local_realm d\<rparr>
   | DIAMCTX_TG_EXP \<Rightarrow> c\<lparr>originHost := UNINITIALIZED E, originRealm := UNINITIALIZED E,
       destHost := remote_host d, destRealm := remote_realm d, destStateId := remote_state d\<rparr>
   | _ \<Rightarrow> c)"

definition construct_us_data :: "'w env \<Rightarrow> nat \<Rightarrow> nat \<Rightarrow> 'w dsm \<Rightarrow> 'w dsm" where
  "construct_us_data E b p s =
    (let s = (if diamctx_type (bufs s b) \<noteq> DIAMCTX_GDI then construct_session_id b p s else s)
     in upd_buf b (\<lambda>c. construct_hosts E (diam s p) (construct_avps (cc s p) (diam s p) c)) s)"

definition construct_gdi :: "'w env \<Rightarrow> bool \<Rightarrow> nat \<Rightarrow> nat \<Rightarrow> 'w dsm \<Rightarrow> 'w dsm" where
  "construct_gdi E flag_repterr b p s =
    (if no_diam (bufs s b) then s
     else if flag_repterr then
       let s = (if tid_remote (gd s p) \<le> 0 then construct_report_request E b p s
                else let s = construct_report_conv E b p s
                     in upd_buf b (remoteTid_update (\<lambda>_. tid_remote (gd s p))) s)
       in if diamctx_type (bufs s b) \<noteq> DIAMCTX_TG_EXP then s else construct_us_data E b p s
     else
       let s = upd_buf b (\<lambda>c. c\<lparr>packageType := package_type (gd s p),
             localTid := tid_local (gd s p), remoteTid := tid_remote (gd s p)\<rparr>) s
       in construct_us_data E b p s)"

definition xmit_counter :: "package_type \<Rightarrow> string" where
  "xmit_counter t = (case t of
     PACKAGE_TYPE_REQUEST \<Rightarrow> ''ds_pkg_gdi_begin_xmit''
   | PACKAGE_TYPE_CONV \<Rightarrow> ''ds_pkg_gdi_continue_xmit''
   | PACKAGE_TYPE_RESPONSE \<Rightarrow> ''ds_pkg_gdi_end_xmit''
   | PACKAGE_TYPE_ABORT \<Rightarrow> ''ds_pkg_gdi_abort_xmit''
   | _ \<Rightarrow> ''ds_pkg_gdi_invalid_xmit'')"

definition construct_common :: "nat \<Rightarrow> nat \<Rightarrow> 'w dsm \<Rightarrow> status \<times> 'w dsm" where
  "construct_common b p s =
    (let (t, s) = set_flags_trap (Some p) s;
         s = upd_cc p (trap_update (\<lambda>_. t)) s;
         s = upd_buf b (\<lambda>c. c\<lparr>dc_trap := t, dc_cp := cp (cc s p), dc_npk_config := npk_config (cc s p),
               dc_origSysId := origSysId (gd s p), dc_receiverId := receiverId (gd s p),
               dc_invokeId := invokeId (gd s p)\<rparr>) s;
         s = cnt (xmit_counter (packageType (bufs s b))) s
     in (SUCCESS, cnt ''ds_ccdb_qmsg_diamctx_construct_succ'' s))"

definition qmsg_diamctx_construct ::
  "'w env \<Rightarrow> nat option \<Rightarrow> nat option \<Rightarrow> bool \<Rightarrow> 'w dsm \<Rightarrow> status \<times> 'w dsm" where
  "qmsg_diamctx_construct E pbuf_cc q flag_repterr s = (case pbuf_cc of
     None \<Rightarrow> (FAILURE, cnt ''ds_ccdb_qmsg_diamctx_construct_fail'' (cnt ''ds_dc_null'' s))
   | Some b \<Rightarrow> (case q of
       None \<Rightarrow> construct_no_us E b (cnt ''ds_us_null'' s)
     | Some p \<Rightarrow>
         if us_head (sessions s p) = None then construct_no_us E b (cnt ''ds_us_list_null'' s)
         else case diamctx_type (bufs s b) of
           DIAMCTX_DIAM \<Rightarrow>
             (let (go, s) = construct_diam E flag_repterr b p s
              in if go then construct_common b p s else (FAILURE, s))
         | DIAMCTX_GDI \<Rightarrow> construct_common b p (construct_gdi E flag_repterr b p s)
         | DIAMCTX_GDI_INT_STR \<Rightarrow> construct_common b p (construct_gdi E flag_repterr b p s)
         | DIAMCTX_TG_EXP \<Rightarrow> construct_common b p (construct_gdi E flag_repterr b p s)
         | _ \<Rightarrow> (FAILURE, cnt ''ds_ccdb_qmsg_diamctx_construct_fail'' (cnt ''ds_dc_invalid'' s))))"

end
