(* ===== verification/Tdb.thy ===== *)
theory Tdb
  imports Dsm_State
begin

text \<open>
  The timer database, \<open>dsm_tdb.c\<close>: a callout wheel of 65536 slots, one slot per 10 ms tick.
  A timer of \<open>n\<close> ticks is linked into the slot \<open>n mod 65536\<close> places after the current one, with
  \<open>n div 65536\<close> rotations to wait; \<open>process_timer\<close> turns the wheel one slot and visits the timers
  in it.

  The abstract view of the wheel is \<open>timers\<close>, a map from callouts to their callback, its argument
  and the number of ticks until it fires. The lemmas show how each operation changes that map:
  \<open>callout_set\<close> adds an entry, \<open>callout_unset\<close> deletes one, and a tick decrements every entry
  and fires those that stood at 1.
\<close>

section \<open>Operations\<close>

definition callout_init :: "nat option \<Rightarrow> 'w dsm \<Rightarrow> 'w dsm" where
  "callout_init p s = (case p of
     None \<Rightarrow> cnt ''ds_tdb_co_init_fail'' (cnt ''ds_co_null'' s)
   | Some i \<Rightarrow> cnt ''ds_tdb_co_init_succ''
       (upd_co i (\<lambda>c. c\<lparr>co_head := None, c_func := None, c_arg := None, c_time := 0,
          c_period := 0\<rparr>) s))"

text \<open>The two calls that give a callout back to its pool, repeated at each place in the code.\<close>

definition callout_free :: "'w env \<Rightarrow> nat \<Rightarrow> 'w dsm \<Rightarrow> 'w dsm" where
  "callout_free E i s = cnt ''ds_api_delete_private_co''
     (upd_world (delete_private E Callout_pool i) (callout_init (Some i) s))"

definition callwheel_slot_init :: "nat \<Rightarrow> 'w dsm \<Rightarrow> 'w dsm" where
  "callwheel_slot_init i s =
     cnt ''ds_co_list_tailq_init'' (s\<lparr>callwheel := (callwheel s)(i := [])\<rparr>)"

definition callout_slot_init :: "nat \<Rightarrow> 'w dsm \<Rightarrow> 'w dsm" where
  "callout_slot_init i s = callout_init (Some i) (upd_co i (co_id_update (\<lambda>_. INDEX_TO_ID i)) s)"

definition initialize_tdb :: "'w env \<Rightarrow> 'w dsm \<Rightarrow> 'w dsm" where
  "initialize_tdb E s =
     (let s = cnt ''ds_api_fep_create_private_co'' (upd_world (fep_create_private E Callout_pool) s);
          s = s\<lparr>callwheel := (\<lambda>_. []), wheel_index := 0\<rparr>;
          s = fold callwheel_slot_init [0..<nat CALLWHEELSIZE] s
      in fold callout_slot_init [0..<USER_SESSION_SIZE] s)"

text \<open>\<open>TAILQ_REMOVE\<close> of a slot's first element.\<close>

definition unlink_first :: "nat \<Rightarrow> 'w dsm \<Rightarrow> 'w dsm" where
  "unlink_first i s =
     cnt ''ds_co_tailq_remove'' (s\<lparr>callwheel := (callwheel s)(i := tl (callwheel s i))\<rparr>)"

lemma callwheel_callout_init [simp]: "callwheel (callout_init p s) = callwheel s"
  by (simp add: callout_init_def split: option.split)

lemma callwheel_callout_free [simp]: "callwheel (callout_free E q s) = callwheel s"
  by (simp add: callout_free_def)

function finalize_slot :: "'w env \<Rightarrow> nat \<Rightarrow> 'w dsm \<Rightarrow> 'w dsm" where
  "finalize_slot E i s = (case tailq_first (callwheel s i) of
     None \<Rightarrow> s
   | Some q \<Rightarrow> finalize_slot E i (callout_free E q (unlink_first i s)))"
  by pat_completeness auto
termination
  by (relation "measure (\<lambda>(E, i, s). length (callwheel s i))")
     (auto simp: unlink_first_def tailq_first_def split: list.splits)

declare finalize_slot.simps [simp del]

definition finalize_tdb :: "'w env \<Rightarrow> 'w dsm \<Rightarrow> 'w dsm" where
  "finalize_tdb E s = fold (finalize_slot E) [0..<nat CALLWHEELSIZE] s"

text \<open>The slot index of a timer, as the code computes it.\<close>

definition slot_index :: "int \<Rightarrow> int \<Rightarrow> int" where
  "slot_index index offset =
     (let i = index + offset
      in if i \<ge> CALLWHEELSIZE then offset - (CALLWHEELSIZE - index) else i)"

definition callout_insert :: "int \<Rightarrow> nat \<Rightarrow> 'w dsm \<Rightarrow> 'w dsm" where
  "callout_insert i new s = cnt ''ds_co_tailq_insert_tail''
     ((upd_co new (co_head_update (\<lambda>_. Some (nat i))) s)
        \<lparr>callwheel := (callwheel s)(nat i := tailq_insert_tail new (callwheel s (nat i)))\<rparr>)"

text \<open>\<open>callout_set\<close> clamps the expiry; \<open>callout_new\<close> is the rest of it.\<close>

definition callout_new ::
  "'w env \<Rightarrow> timeout_t option \<Rightarrow> nat option \<Rightarrow> int \<Rightarrow> 'w dsm \<Rightarrow> ulong \<times> 'w dsm" where
  "callout_new E func arg expiry s =
    (let (m, s) = call (new_private E Callout_pool) s
     in case m of
       None \<Rightarrow> (ID_UNDEF, cnt ''ds_tdb_co_set_fail'' (cnt ''ds_api_new_private_fail_co'' s))
     | Some new \<Rightarrow>
         let s = cnt ''ds_api_new_private_succ_co'' s;
             s = upd_co new (\<lambda>c. c\<lparr>c_func := func, c_arg := arg, c_time := expiry,
                   c_period := drop_bit CALLWHEELBITS (expiry div CALLOUTTIMER)\<rparr>) s;
             offset = (expiry div CALLOUTTIMER) AND CALLWHEELMASK;
             i = slot_index (wheel_index s) offset
         in if i < 0 \<or> i \<ge> CALLWHEELSIZE
            then (ID_UNDEF, cnt ''ds_tdb_co_set_fail''
                              (callout_free E new (cnt ''ds_co_list_invalid'' s)))
            else let s = callout_insert i new s
                 in (co_id (callouts s new), cnt ''ds_tdb_co_set_succ'' s))"

definition callout_set ::
  "'w env \<Rightarrow> timeout_t option \<Rightarrow> nat option \<Rightarrow> int \<Rightarrow> 'w dsm \<Rightarrow> ulong \<times> 'w dsm" where
  "callout_set E func arg expiry s =
    (if expiry \<le> 0
     then (ID_UNDEF, cnt ''ds_tdb_co_set_fail'' (cnt ''ds_tdb_co_set_expiry_invalid'' s))
     else if expiry < CALLOUTTIMER
     then callout_new E func arg CALLOUTTIMER (cnt ''ds_tdb_co_set_expiry_invalid'' s)
     else callout_new E func arg expiry s)"

text \<open>
  The argument \<open>idp\<close> is the identifier the pointer points to, \<open>None\<close> for a NULL pointer; the
  result is the identifier afterwards.
\<close>

definition callout_unset ::
  "'w env \<Rightarrow> ulong option \<Rightarrow> 'w dsm \<Rightarrow> (ulong option \<times> 'w dsm) option" where
  "callout_unset E idp s = (case idp of
     None \<Rightarrow> Some (None, cnt ''ds_tdb_co_unset_fail'' (cnt ''ds_co_id_null'' s))
   | Some i \<Rightarrow>
       if \<not> ID_VALID i
       then Some (Some ID_UNDEF, cnt ''ds_tdb_co_unset_fail'' (cnt ''ds_co_id_invalid'' s))
       else let p = ID_TO_INDEX i in
         case co_head (callouts s p) of
           None \<Rightarrow> Some (Some ID_UNDEF, cnt ''ds_tdb_co_unset_fail'' (cnt ''ds_co_list_null'' s))
         | Some l \<Rightarrow> do {
             xs \<leftarrow> tailq_remove p (callwheel s l);
             let s = cnt ''ds_co_tailq_remove'' (s\<lparr>callwheel := (callwheel s)(l := xs)\<rparr>);
             let s = callout_free E p s;
             Some (Some ID_UNDEF, cnt ''ds_tdb_co_unset_succ'' s)
           })"

text \<open>
  \<open>process_timer\<close> calls the callback of every expired callout; the callbacks are a parameter here
  and are supplied where they are defined. The loop reads the link to the next element before it
  calls back, so a callback that frees that element leaves the loop with a dangling pointer: the
  visit of an element that is no longer in the slot's list is undefined.
\<close>

type_synonym 'w handler = "timeout_t \<Rightarrow> nat option \<Rightarrow> 'w dsm \<Rightarrow> 'w dsm option"

definition expire_callout :: "'w env \<Rightarrow> 'w handler \<Rightarrow> nat \<Rightarrow> nat \<Rightarrow> 'w dsm \<Rightarrow> 'w dsm option" where
  "expire_callout E h p r s = do {
     let s = cnt ''ds_co_expire'' s;
     xs \<leftarrow> tailq_remove r (callwheel s p);
     let s = cnt ''ds_co_tailq_remove'' (s\<lparr>callwheel := (callwheel s)(p := xs)\<rparr>);
     s \<leftarrow> (case c_func (callouts s r) of
            Some f \<Rightarrow> h f (c_arg (callouts s r)) s
          | None \<Rightarrow> Some (cnt ''ds_co_callback_null'' s));
     Some (callout_free E r s)
   }"

partial_function (option) timer_loop ::
  "'w env \<Rightarrow> 'w handler \<Rightarrow> nat \<Rightarrow> nat option \<Rightarrow> 'w dsm \<Rightarrow> 'w dsm option" where
  "timer_loop E h p q s = (case q of
     None \<Rightarrow> Some s
   | Some r \<Rightarrow>
       if r \<notin> set (callwheel s p) then None
       else if c_period (callouts s r) \<le> 0
       then Option.bind (expire_callout E h p r s)
              (\<lambda>s'. timer_loop E h p (tailq_next r (callwheel s p)) s')
       else timer_loop E h p (tailq_next r (callwheel s p))
              (upd_co r (c_period_update (\<lambda>n. n - 1)) s))"

definition wheel_advance :: "'w dsm \<Rightarrow> 'w dsm" where
  "wheel_advance s =
     (let s = s\<lparr>wheel_index := wheel_index s + 1\<rparr>
      in if wheel_index s \<ge> CALLWHEELSIZE then s\<lparr>wheel_index := 0\<rparr> else s)"

definition process_timer :: "'w env \<Rightarrow> 'w handler \<Rightarrow> 'w dsm \<Rightarrow> 'w dsm option" where
  "process_timer E h s =
     (let s = wheel_advance s; p = nat (wheel_index s)
      in timer_loop E h p (tailq_first (callwheel s p)) s)"

section \<open>The wheel invariant and the abstract view\<close>

text \<open>
  \<open>wf_tdb D\<close>: every slot is a list without duplicates of callouts that point back to it, and a
  callout that names a slot is in that slot's list, except those in \<open>D\<close>, which are unlinked but
  not yet freed (the callout whose callback is running).
\<close>

definition wf_slot :: "'w dsm \<Rightarrow> nat \<Rightarrow> bool" where
  "wf_slot s i \<longleftrightarrow> distinct (callwheel s i) \<and>
     (\<forall>q \<in> set (callwheel s i). q < USER_SESSION_SIZE \<and> co_head (callouts s q) = Some i
        \<and> 0 \<le> c_period (callouts s q))"

definition wf_tdb :: "nat set \<Rightarrow> 'w dsm \<Rightarrow> bool" where
  "wf_tdb D s \<longleftrightarrow> 0 \<le> wheel_index s \<and> wheel_index s < CALLWHEELSIZE
     \<and> (\<forall>i. wf_slot s i)
     \<and> (\<forall>q i. co_head (callouts s q) = Some i \<longrightarrow> i < 65536 \<and> (q \<in> set (callwheel s i)) = (q \<notin> D))
     \<and> (\<forall>q < USER_SESSION_SIZE. co_id (callouts s q) = INDEX_TO_ID q)"

text \<open>The number of ticks until a callout in slot \<open>i\<close> fires.\<close>

definition remaining :: "int \<Rightarrow> nat \<Rightarrow> int \<Rightarrow> int" where
  "remaining index i period = period * CALLWHEELSIZE + (int i - index - 1) mod CALLWHEELSIZE + 1"

definition timers :: "'w dsm \<Rightarrow> nat \<rightharpoonup> timeout_t option \<times> nat option \<times> int" where
  "timers s q = (case co_head (callouts s q) of
     None \<Rightarrow> None
   | Some i \<Rightarrow>
       if q \<in> set (callwheel s i)
       then Some (c_func (callouts s q), c_arg (callouts s q),
                  remaining (wheel_index s) i (c_period (callouts s q)))
       else None)"

lemma remaining_pos: "0 \<le> p \<Longrightarrow> 1 \<le> remaining w i p"
  unfolding remaining_def CALLWHEELSIZE_def by simp

lemma wf_tdbD:
  assumes "wf_tdb D s"
  shows "0 \<le> wheel_index s" "wheel_index s < CALLWHEELSIZE"
    "distinct (callwheel s i)"
    "q \<in> set (callwheel s i) \<Longrightarrow> q < USER_SESSION_SIZE"
    "q \<in> set (callwheel s i) \<Longrightarrow> co_head (callouts s q) = Some i"
    "q \<in> set (callwheel s i) \<Longrightarrow> 0 \<le> c_period (callouts s q)"
    "q \<in> set (callwheel s i) \<Longrightarrow> i < 65536"
    "q \<in> set (callwheel s i) \<Longrightarrow> q \<notin> D"
    "co_head (callouts s q) = Some i \<Longrightarrow> q \<notin> D \<Longrightarrow> q \<in> set (callwheel s i)"
    "q < USER_SESSION_SIZE \<Longrightarrow> co_id (callouts s q) = INDEX_TO_ID q"
  using assms unfolding wf_tdb_def wf_slot_def by metis+

lemma wf_tdbI:
  assumes "0 \<le> wheel_index s" "wheel_index s < CALLWHEELSIZE"
    "\<And>i. distinct (callwheel s i)"
    "\<And>i q. q \<in> set (callwheel s i) \<Longrightarrow>
       q < USER_SESSION_SIZE \<and> co_head (callouts s q) = Some i \<and> 0 \<le> c_period (callouts s q)"
    "\<And>i q. co_head (callouts s q) = Some i \<Longrightarrow> i < 65536 \<and> (q \<in> set (callwheel s i)) = (q \<notin> D)"
    "\<And>q. q < USER_SESSION_SIZE \<Longrightarrow> co_id (callouts s q) = INDEX_TO_ID q"
  shows "wf_tdb D s"
  unfolding wf_tdb_def wf_slot_def
proof (intro conjI allI impI ballI)
  fix q i
  assume "co_head (callouts s q) = Some i"
  thus "i < 65536" "(q \<in> set (callwheel s i)) = (q \<notin> D)" using assms(5) [of q i] by auto
next
  fix i q
  assume "q \<in> set (callwheel s i)"
  thus "q < USER_SESSION_SIZE" "co_head (callouts s q) = Some i" "0 \<le> c_period (callouts s q)"
    using assms(4) [of q i] by auto
qed (fact assms(1) assms(2) assms(3) assms(6) | erule assms(6))+

lemma timers_eq:
  assumes "wf_tdb D s"
  shows "timers s q = (case co_head (callouts s q) of
     None \<Rightarrow> None
   | Some i \<Rightarrow> if q \<in> D then None else
       Some (c_func (callouts s q), c_arg (callouts s q),
             remaining (wheel_index s) i (c_period (callouts s q))))"
  using assms by (auto simp: timers_def wf_tdb_def split: option.splits)

text \<open>An operation that leaves the wheel alone leaves the invariant and the view alone.\<close>

definition same_tdb :: "'w dsm \<Rightarrow> 'w dsm \<Rightarrow> bool" where
  "same_tdb s s' \<longleftrightarrow> callouts s' = callouts s \<and> callwheel s' = callwheel s
     \<and> wheel_index s' = wheel_index s"

lemma same_tdb_wf: "same_tdb s s' \<Longrightarrow> wf_tdb D s' = wf_tdb D s"
  by (simp add: same_tdb_def wf_tdb_def wf_slot_def)

lemma same_tdb_timers: "same_tdb s s' \<Longrightarrow> timers s' = timers s"
  by (simp add: same_tdb_def timers_def fun_eq_iff cong: option.case_cong if_cong)

lemma wf_tdb_cnt [simp]: "wf_tdb D (cnt c s) = wf_tdb D s"
  by (simp add: wf_tdb_def wf_slot_def)

lemma timers_cnt [simp]: "timers (cnt c s) = timers s"
  by (simp add: timers_def fun_eq_iff cong: option.case_cong if_cong)

lemma wf_tdb_world [simp]: "wf_tdb D (upd_world w s) = wf_tdb D s"
  by (simp add: wf_tdb_def wf_slot_def)

lemma timers_world [simp]: "timers (upd_world w s) = timers s"
  by (simp add: timers_def fun_eq_iff cong: option.case_cong if_cong)

lemma wf_tdb_call [simp]: "wf_tdb D (snd (call k s)) = wf_tdb D s"
  by (simp add: wf_tdb_def wf_slot_def)

lemma timers_call [simp]: "timers (snd (call k s)) = timers s"
  by (simp add: timers_def fun_eq_iff cong: option.case_cong if_cong)

section \<open>Setting a timer\<close>

lemma slot_index_eq:
  assumes "0 \<le> w" "w < CALLWHEELSIZE" "0 \<le> n"
  shows "slot_index w (n AND CALLWHEELMASK) = (w + n) mod CALLWHEELSIZE"
proof -
  have a: "n AND CALLWHEELMASK = n mod CALLWHEELSIZE"
    using take_bit_eq_mask [of 16 n]
    by (simp add: CALLWHEELMASK_def CALLWHEELSIZE_def take_bit_eq_mod mask_eq_exp_minus_1)
  show ?thesis
  proof (cases "w + n mod CALLWHEELSIZE < CALLWHEELSIZE")
    case True
    hence "(w + n mod CALLWHEELSIZE) mod CALLWHEELSIZE = w + n mod CALLWHEELSIZE"
      using assms by (intro mod_pos_pos_trivial) (simp_all add: CALLWHEELSIZE_def)
    thus ?thesis using True by (simp add: a slot_index_def Let_def mod_simps)
  next
    case False
    have "n mod CALLWHEELSIZE < CALLWHEELSIZE" by (simp add: CALLWHEELSIZE_def)
    hence "(w + n mod CALLWHEELSIZE - CALLWHEELSIZE) mod CALLWHEELSIZE
        = w + n mod CALLWHEELSIZE - CALLWHEELSIZE"
      using assms False by (intro mod_pos_pos_trivial) (simp_all add: CALLWHEELSIZE_def)
    thus ?thesis using False by (simp add: a slot_index_def Let_def mod_simps)
  qed
qed

text \<open>
  The number of ticks \<open>callout_set\<close> makes of an expiry in milliseconds: the expiry in whole
  ticks, at least one, and a whole rotation more when it is a multiple of the rotation.
\<close>

definition delay_ticks :: "int \<Rightarrow> int" where
  "delay_ticks expiry =
     (let n = max expiry CALLOUTTIMER div CALLOUTTIMER
      in if n mod CALLWHEELSIZE = 0 then n + CALLWHEELSIZE else n)"

lemma div_mod_decr:
  "(n - 1) mod CALLWHEELSIZE = (if n mod CALLWHEELSIZE = 0 then CALLWHEELSIZE - 1
     else n mod CALLWHEELSIZE - 1)"
proof -
  have "(n - 1) mod CALLWHEELSIZE = (n mod CALLWHEELSIZE - 1) mod CALLWHEELSIZE"
    by (simp add: mod_simps)
  moreover have "0 \<le> n mod CALLWHEELSIZE" "n mod CALLWHEELSIZE < CALLWHEELSIZE"
    by (simp_all add: CALLWHEELSIZE_def)
  ultimately show ?thesis
    by (simp add: mod_pos_pos_trivial zmod_minus1 CALLWHEELSIZE_def split: if_splits)
qed

lemma remaining_set:
  assumes "0 \<le> w" "w < CALLWHEELSIZE" "0 \<le> n"
  shows "remaining w (nat ((w + n) mod CALLWHEELSIZE)) (drop_bit CALLWHEELBITS n)
       = (if n mod CALLWHEELSIZE = 0 then n + CALLWHEELSIZE else n)"
proof -
  have d: "drop_bit CALLWHEELBITS n = n div CALLWHEELSIZE"
    by (simp add: drop_bit_eq_div CALLWHEELBITS_def CALLWHEELSIZE_def)
  have "0 \<le> (w + n) mod CALLWHEELSIZE" by (simp add: CALLWHEELSIZE_def)
  hence "(int (nat ((w + n) mod CALLWHEELSIZE)) - w - 1) mod CALLWHEELSIZE
      = (n - 1) mod CALLWHEELSIZE"
    by (simp add: mod_simps algebra_simps)
  moreover have "n div CALLWHEELSIZE * CALLWHEELSIZE + (n - 1) mod CALLWHEELSIZE + 1
      = (if n mod CALLWHEELSIZE = 0 then n + CALLWHEELSIZE else n)"
    using div_mult_mod_eq [of n CALLWHEELSIZE] by (auto simp: div_mod_decr)
  ultimately show ?thesis by (simp add: remaining_def d)
qed

lemma frame_callout_init [simp]:
  "world (callout_init p s) = world s" "shutdown (callout_init p s) = shutdown s"
  "wheel_index (callout_init p s) = wheel_index s" "sessions (callout_init p s) = sessions s"
  "ccdb_lists (callout_init p s) = ccdb_lists s" "ccdb_time (callout_init p s) = ccdb_time s"
  "ccdb_trap (callout_init p s) = ccdb_trap s"
  "ccdb_tg_expiry (callout_init p s) = ccdb_tg_expiry s"
  "dgc_qmsgs (callout_init p s) = dgc_qmsgs s" "non_us_id (callout_init p s) = non_us_id s"
  "bufs (callout_init p s) = bufs s" "driver (callout_init p s) = driver s"
  by (simp_all add: callout_init_def split: option.split)

lemma frame_callout_free [simp]:
  "shutdown (callout_free E q s) = shutdown s"
  "wheel_index (callout_free E q s) = wheel_index s" "sessions (callout_free E q s) = sessions s"
  "ccdb_lists (callout_free E q s) = ccdb_lists s" "ccdb_time (callout_free E q s) = ccdb_time s"
  "ccdb_trap (callout_free E q s) = ccdb_trap s"
  "ccdb_tg_expiry (callout_free E q s) = ccdb_tg_expiry s"
  "dgc_qmsgs (callout_free E q s) = dgc_qmsgs s" "non_us_id (callout_free E q s) = non_us_id s"
  "bufs (callout_free E q s) = bufs s" "driver (callout_free E q s) = driver s"
  "world (callout_free E q s) = delete_private E Callout_pool q (world s)"
  by (simp_all add: callout_free_def upd_world_def cnt_def)

lemma frame_callout_insert [simp]:
  "world (callout_insert i q s) = world s" "shutdown (callout_insert i q s) = shutdown s"
  "wheel_index (callout_insert i q s) = wheel_index s"
  "sessions (callout_insert i q s) = sessions s"
  "ccdb_lists (callout_insert i q s) = ccdb_lists s"
  "ccdb_time (callout_insert i q s) = ccdb_time s"
  "ccdb_trap (callout_insert i q s) = ccdb_trap s"
  "ccdb_tg_expiry (callout_insert i q s) = ccdb_tg_expiry s"
  "dgc_qmsgs (callout_insert i q s) = dgc_qmsgs s"
  "non_us_id (callout_insert i q s) = non_us_id s"
  "bufs (callout_insert i q s) = bufs s" "driver (callout_insert i q s) = driver s"
  by (simp_all add: callout_insert_def cnt_def upd_co_def)

lemma own_callout_free:
  "callouts (callout_free E q s) = (callouts s)(q := (callouts s q)\<lparr>co_head := None,
     c_func := None, c_arg := None, c_time := 0, c_period := 0\<rparr>)"
  by (simp add: callout_free_def callout_init_def)

lemma frame_callout_new [simp]:
  "shutdown (snd (callout_new E f a e s)) = shutdown s"
  "wheel_index (snd (callout_new E f a e s)) = wheel_index s"
  "sessions (snd (callout_new E f a e s)) = sessions s"
  "ccdb_lists (snd (callout_new E f a e s)) = ccdb_lists s"
  "ccdb_time (snd (callout_new E f a e s)) = ccdb_time s"
  "ccdb_trap (snd (callout_new E f a e s)) = ccdb_trap s"
  "ccdb_tg_expiry (snd (callout_new E f a e s)) = ccdb_tg_expiry s"
  "dgc_qmsgs (snd (callout_new E f a e s)) = dgc_qmsgs s"
  "non_us_id (snd (callout_new E f a e s)) = non_us_id s"
  "bufs (snd (callout_new E f a e s)) = bufs s"
  "driver (snd (callout_new E f a e s)) = driver s"
  by (simp_all add: callout_new_def Let_def case_prod_beta split: option.split)

lemma frame_callout_set [simp]:
  "shutdown (snd (callout_set E f a e s)) = shutdown s"
  "wheel_index (snd (callout_set E f a e s)) = wheel_index s"
  "sessions (snd (callout_set E f a e s)) = sessions s"
  "ccdb_lists (snd (callout_set E f a e s)) = ccdb_lists s"
  "ccdb_time (snd (callout_set E f a e s)) = ccdb_time s"
  "ccdb_trap (snd (callout_set E f a e s)) = ccdb_trap s"
  "ccdb_tg_expiry (snd (callout_set E f a e s)) = ccdb_tg_expiry s"
  "dgc_qmsgs (snd (callout_set E f a e s)) = dgc_qmsgs s"
  "non_us_id (snd (callout_set E f a e s)) = non_us_id s"
  "bufs (snd (callout_set E f a e s)) = bufs s"
  "driver (snd (callout_set E f a e s)) = driver s"
  by (simp_all add: callout_set_def)

text \<open>What \<open>callout_set\<close> does to the wheel when the pool has a callout left.\<close>

lemma callout_new_Some:
  assumes "wf_tdb D s" "0 \<le> e" "fst (new_private E Callout_pool (world s)) = Some q"
  defines "n \<equiv> e div CALLOUTTIMER"
  defines "slot \<equiv> nat ((wheel_index s + n) mod CALLWHEELSIZE)"
  shows "fst (callout_new E f a e s) = co_id (callouts s q)"
    and "callwheel (snd (callout_new E f a e s))
       = (callwheel s)(slot := callwheel s slot @ [q])"
    and "callouts (snd (callout_new E f a e s)) = (callouts s)(q := (callouts s q)
       \<lparr>c_func := f, c_arg := a, c_time := e, c_period := drop_bit CALLWHEELBITS n,
        co_head := Some slot\<rparr>)"
    and "world (snd (callout_new E f a e s)) = snd (new_private E Callout_pool (world s))"
proof -
  have n: "0 \<le> n" using assms(2) by (simp add: n_def CALLOUTTIMER_def)
  have i: "slot_index (wheel_index s) (n AND CALLWHEELMASK) = (wheel_index s + n) mod CALLWHEELSIZE"
    using slot_index_eq [OF wf_tdbD(1,2) [OF assms(1)] n] .
  have r: "0 \<le> (wheel_index s + n) mod CALLWHEELSIZE"
    "(wheel_index s + n) mod CALLWHEELSIZE < CALLWHEELSIZE"
    by (simp_all add: CALLWHEELSIZE_def)
  note u = callout_new_def Let_def case_prod_beta n_def [symmetric] assms(3) i
    callout_insert_def slot_def tailq_insert_tail_def not_le not_less
  show "fst (callout_new E f a e s) = co_id (callouts s q)"
    and "callwheel (snd (callout_new E f a e s)) = (callwheel s)(slot := callwheel s slot @ [q])"
    and "callouts (snd (callout_new E f a e s)) = (callouts s)(q := (callouts s q)
       \<lparr>c_func := f, c_arg := a, c_time := e, c_period := drop_bit CALLWHEELBITS n,
        co_head := Some slot\<rparr>)"
    and "world (snd (callout_new E f a e s)) = snd (new_private E Callout_pool (world s))"
    using r by (simp_all add: u)
qed

lemma callout_set_Some:
  assumes "wf_tdb D s" "0 < e" "fst (new_private E Callout_pool (world s)) = Some q"
  defines "n \<equiv> max e CALLOUTTIMER div CALLOUTTIMER"
  defines "slot \<equiv> nat ((wheel_index s + n) mod CALLWHEELSIZE)"
  shows "fst (callout_set E f a e s) = co_id (callouts s q)"
    and "callwheel (snd (callout_set E f a e s))
       = (callwheel s)(slot := callwheel s slot @ [q])"
    and "callouts (snd (callout_set E f a e s)) = (callouts s)(q := (callouts s q)
       \<lparr>c_func := f, c_arg := a, c_time := max e CALLOUTTIMER,
        c_period := drop_bit CALLWHEELBITS n, co_head := Some slot\<rparr>)"
    and "world (snd (callout_set E f a e s)) = snd (new_private E Callout_pool (world s))"
proof -
  define s1 where "s1 = (if e < CALLOUTTIMER then cnt ''ds_tdb_co_set_expiry_invalid'' s else s)"
  have eq: "callout_set E f a e s = callout_new E f a (max e CALLOUTTIMER) s1"
    using assms(2) by (simp add: callout_set_def s1_def max_def)
  have s1: "wf_tdb D s1" "world s1 = world s" "callouts s1 = callouts s"
    "callwheel s1 = callwheel s" "wheel_index s1 = wheel_index s"
    using assms(1) by (simp_all add: s1_def)
  have e: "0 \<le> max e CALLOUTTIMER" by (simp add: CALLOUTTIMER_def)
  show "fst (callout_set E f a e s) = co_id (callouts s q)"
    and "callwheel (snd (callout_set E f a e s))
       = (callwheel s)(slot := callwheel s slot @ [q])"
    and "callouts (snd (callout_set E f a e s)) = (callouts s)(q := (callouts s q)
       \<lparr>c_func := f, c_arg := a, c_time := max e CALLOUTTIMER,
        c_period := drop_bit CALLWHEELBITS n, co_head := Some slot\<rparr>)"
    and "world (snd (callout_set E f a e s)) = snd (new_private E Callout_pool (world s))"
    using callout_new_Some [OF s1(1) e, of E q f a] assms(3)
    by (simp_all add: eq s1(2-) n_def slot_def)
qed

lemma callout_set_None:
  assumes "fst (new_private E Callout_pool (world s)) = None"
  shows "fst (callout_set E f a e s) = ID_UNDEF"
    "callouts (snd (callout_set E f a e s)) = callouts s"
    "callwheel (snd (callout_set E f a e s)) = callwheel s"
  using assms by (simp_all add: callout_set_def callout_new_def Let_def case_prod_beta)

lemma callout_set_nonpos:
  assumes "e \<le> 0"
  shows "callout_set E f a e s
    = (ID_UNDEF, cnt ''ds_tdb_co_set_fail'' (cnt ''ds_tdb_co_set_expiry_invalid'' s))"
  using assms by (simp add: callout_set_def)

text \<open>A callout the pool can hand out: it is in no list.\<close>

definition free_callout :: "'w dsm \<Rightarrow> nat \<Rightarrow> bool" where
  "free_callout s q \<longleftrightarrow> q < USER_SESSION_SIZE \<and> co_head (callouts s q) = None"

lemma callout_set_wf:
  assumes wf: "wf_tdb D s" and e: "0 < e" and q: "free_callout s q" "q \<notin> D"
    and new: "fst (new_private E Callout_pool (world s)) = Some q"
  shows "wf_tdb D (snd (callout_set E f a e s))"
proof (rule wf_tdbI, goal_cases)
  note set = callout_set_Some [OF wf e new, of f a]
  have qn: "q \<notin> set (callwheel s i)" for i
    using q wf_tdbD(5) [OF wf, of q i] by (auto simp: free_callout_def)
  define n where "n = max e CALLOUTTIMER div CALLOUTTIMER"
  have n: "0 \<le> drop_bit CALLWHEELBITS n" by (simp add: n_def CALLOUTTIMER_def)
  have slot: "nat ((wheel_index s + n) mod CALLWHEELSIZE) < 65536"
    by (simp add: CALLWHEELSIZE_def nat_less_iff)
  {
    case 1
    thus ?case using wf by (simp add: wf_tdb_def)
  next
    case 2
    thus ?case using wf by (simp add: wf_tdb_def)
  next
    case (3 i)
    thus ?case using wf_tdbD(3) [OF wf, of i] qn wf_tdbD(3) [OF wf] by (auto simp: set)
  next
    case (4 i p)
    thus ?case using wf_tdbD(4,5,6) [OF wf, of p i] q n
      by (auto simp: set n_def [symmetric] free_callout_def split: if_splits)
  next
    case (5 i p)
    show ?case
    proof (cases "p = q")
      case True
      thus ?thesis using 5 slot q by (auto simp: set n_def [symmetric])
    next
      case False
      hence "co_head (callouts s p) = Some i" using 5 by (simp add: set)
      hence "i < 65536 \<and> (p \<in> set (callwheel s i)) = (p \<notin> D)"
        using wf by (auto simp: wf_tdb_def)
      thus ?thesis using False by (auto simp: set)
    qed
  next
    case (6 p)
    thus ?case using wf_tdbD(10) [OF wf] by (simp add: set)
  }
qed

lemma callout_set_timers:
  assumes wf: "wf_tdb D s" and e: "0 < e" and q: "free_callout s q"
    and new: "fst (new_private E Callout_pool (world s)) = Some q"
  shows "timers (snd (callout_set E f a e s)) = (timers s)(q \<mapsto> (f, a, delay_ticks e))"
proof
  fix p
  note set = callout_set_Some [OF wf e new, of f a]
  define n where "n = max e CALLOUTTIMER div CALLOUTTIMER"
  have n: "0 \<le> n" by (simp add: n_def CALLOUTTIMER_def)
  have r: "remaining (wheel_index s) (nat ((wheel_index s + n) mod CALLWHEELSIZE))
      (drop_bit CALLWHEELBITS n) = delay_ticks e"
    using remaining_set [OF wf_tdbD(1,2) [OF wf] n] by (simp add: delay_ticks_def n_def Let_def)
  show "timers (snd (callout_set E f a e s)) p = ((timers s)(q \<mapsto> (f, a, delay_ticks e))) p"
  proof (cases "p = q")
    case True
    thus ?thesis using r by (simp add: timers_def set n_def [symmetric])
  next
    case False
    thus ?thesis by (auto simp: timers_def set split: option.splits)
  qed
qed

section \<open>Unlinking and freeing\<close>

definition unlinked :: "nat \<Rightarrow> nat \<Rightarrow> 'w dsm \<Rightarrow> 'w dsm" where
  "unlinked p r s = cnt ''ds_co_tailq_remove''
     (s\<lparr>callwheel := (callwheel s)(p := remove1 r (callwheel s p))\<rparr>)"

lemma frame_unlinked [simp]:
  "world (unlinked p r s) = world s" "shutdown (unlinked p r s) = shutdown s"
  "wheel_index (unlinked p r s) = wheel_index s" "sessions (unlinked p r s) = sessions s"
  "ccdb_lists (unlinked p r s) = ccdb_lists s" "ccdb_time (unlinked p r s) = ccdb_time s"
  "ccdb_trap (unlinked p r s) = ccdb_trap s"
  "ccdb_tg_expiry (unlinked p r s) = ccdb_tg_expiry s"
  "dgc_qmsgs (unlinked p r s) = dgc_qmsgs s" "non_us_id (unlinked p r s) = non_us_id s"
  "bufs (unlinked p r s) = bufs s" "driver (unlinked p r s) = driver s"
  "callouts (unlinked p r s) = callouts s"
  "callwheel (unlinked p r s) = (callwheel s)(p := remove1 r (callwheel s p))"
  by (simp_all add: unlinked_def cnt_def)

lemma wf_unlink:
  assumes wf: "wf_tdb D s" and r: "r \<in> set (callwheel s p)"
  shows "wf_tdb (insert r D) (unlinked p r s)"
proof (rule wf_tdbI, goal_cases)
  note D = wf_tdbD [OF wf]
  {
    case 1 thus ?case using D(1) by simp
  next
    case 2 thus ?case using D(2) by simp
  next
    case (3 i) thus ?case using D(3) by (simp add: distinct_remove1)
  next
    case (4 i q)
    hence "q \<in> set (callwheel s i)" using D(3) by (auto split: if_splits)
    thus ?case using D(4,5,6) by simp
  next
    case (5 i q)
    hence h: "co_head (callouts s q) = Some i" by simp
    hence "i < 65536 \<and> (q \<in> set (callwheel s i)) = (q \<notin> D)" using wf by (auto simp: wf_tdb_def)
    thus ?case using h D(3) D(5) [OF r] by (auto simp: set_remove1_distinct)
  next
    case (6 q) thus ?case using D(10) by simp
  }
qed

lemma timers_unlink:
  assumes wf: "wf_tdb D s" and r: "r \<in> set (callwheel s p)"
  shows "timers (unlinked p r s) = (timers s)(r := None)"
  using wf_tdbD(5) [OF wf] r
  by (auto simp: fun_eq_iff timers_def wf_tdbD(3) [OF wf] split: option.splits)

lemma wf_free:
  assumes wf: "wf_tdb D s" and r: "\<And>i. r \<notin> set (callwheel s i)"
  shows "wf_tdb (D - {r}) (callout_free E r s)"
proof (rule wf_tdbI, goal_cases)
  note D = wf_tdbD [OF wf]
  {
    case 1 thus ?case using D(1) by simp
  next
    case 2 thus ?case using D(2) by simp
  next
    case (3 i) thus ?case using D(3) by simp
  next
    case (4 i q)
    hence "q \<in> set (callwheel s i)" "q \<noteq> r" using r by auto
    thus ?case using D(4,5,6) by (simp add: own_callout_free)
  next
    case (5 i q)
    hence "co_head (callouts s q) = Some i" "q \<noteq> r"
      by (auto simp: own_callout_free split: if_splits)
    hence "i < 65536 \<and> (q \<in> set (callwheel s i)) = (q \<notin> D)" "q \<noteq> r"
      using wf by (auto simp: wf_tdb_def)
    thus ?case by simp
  next
    case (6 q) thus ?case using D(10) by (simp add: own_callout_free)
  }
qed

lemma timers_free:
  assumes "\<And>i. r \<notin> set (callwheel s i)"
  shows "timers (callout_free E r s) = timers s"
  using assms by (auto simp: fun_eq_iff timers_def own_callout_free split: option.splits)

lemma unlinked_gone:
  assumes wf: "wf_tdb D s" and r: "r \<in> set (callwheel s p)"
  shows "r \<notin> set (callwheel (unlinked p r s) i)"
  using wf_tdbD(3) [OF wf] wf_tdbD(5) [OF wf r] wf_tdbD(5) [OF wf, of r i] by auto

section \<open>Cancelling a timer\<close>

lemma frame_callout_unset:
  assumes "callout_unset E idp s = Some (x, s')"
  shows "shutdown s' = shutdown s" "wheel_index s' = wheel_index s" "sessions s' = sessions s"
    "ccdb_lists s' = ccdb_lists s" "ccdb_time s' = ccdb_time s" "ccdb_trap s' = ccdb_trap s"
    "ccdb_tg_expiry s' = ccdb_tg_expiry s" "dgc_qmsgs s' = dgc_qmsgs s"
    "non_us_id s' = non_us_id s" "bufs s' = bufs s" "driver s' = driver s"
    "x = (case idp of None \<Rightarrow> None | Some _ \<Rightarrow> Some ID_UNDEF)"
  using assms
  by (auto simp: callout_unset_def Let_def tailq_remove_def cnt_def
    split: option.splits if_splits bind_splits)

text \<open>
  Cancelling an identifier that names no pending timer changes nothing but the identifier and the
  counters; the code then reports a failure.
\<close>

lemma callout_unset_idle:
  assumes "\<not> ID_VALID i \<or> co_head (callouts s (ID_TO_INDEX i)) = None"
  shows "\<exists>c. callout_unset E (Some i) s
    = Some (Some ID_UNDEF, cnt ''ds_tdb_co_unset_fail'' (cnt c s))"
  using assms by (auto simp: callout_unset_def Let_def)

lemma callout_unset_linked:
  assumes "ID_VALID i" "co_head (callouts s (ID_TO_INDEX i)) = Some l"
    "ID_TO_INDEX i \<in> set (callwheel s l)"
  shows "callout_unset E (Some i) s = Some (Some ID_UNDEF,
    cnt ''ds_tdb_co_unset_succ'' (callout_free E (ID_TO_INDEX i) (unlinked l (ID_TO_INDEX i) s)))"
  using assms by (simp add: callout_unset_def Let_def tailq_remove_def unlinked_def)

lemma timers_SomeD:
  assumes "timers s q = Some t"
  obtains l where "co_head (callouts s q) = Some l" "q \<in> set (callwheel s l)"
    "t = (c_func (callouts s q), c_arg (callouts s q),
          remaining (wheel_index s) l (c_period (callouts s q)))"
  using assms by (auto simp: timers_def split: option.splits if_splits)

lemma callout_unset_ok:
  assumes wf: "wf_tdb D s" and i: "ID_VALID i" and q: "timers s (ID_TO_INDEX i) = Some t"
  shows "\<exists>s'. callout_unset E (Some i) s = Some (Some ID_UNDEF, s') \<and> wf_tdb D s'
    \<and> timers s' = (timers s)(ID_TO_INDEX i := None)
    \<and> world s' = delete_private E Callout_pool (ID_TO_INDEX i) (world s)"
proof -
  let ?q = "ID_TO_INDEX i"
  obtain l where l: "co_head (callouts s ?q) = Some l" "?q \<in> set (callwheel s l)"
    using timers_SomeD [OF q] .
  have D: "?q \<notin> D" by (rule wf_tdbD(8) [OF wf l(2)])
  show ?thesis
    using wf_free [OF wf_unlink [OF wf l(2)] unlinked_gone [OF wf l(2)], of E]
      timers_free [OF unlinked_gone [OF wf l(2)], of E] timers_unlink [OF wf l(2)] D
    by (simp add: callout_unset_linked [OF i l])
qed

section \<open>A tick\<close>

definition decr_callout :: "nat \<Rightarrow> 'w dsm \<Rightarrow> 'w dsm" where
  "decr_callout r = upd_co r (c_period_update (\<lambda>n. n - 1))"

lemma frame_decr_callout [simp]:
  "world (decr_callout r s) = world s" "shutdown (decr_callout r s) = shutdown s"
  "wheel_index (decr_callout r s) = wheel_index s" "callwheel (decr_callout r s) = callwheel s"
  "sessions (decr_callout r s) = sessions s" "meas (decr_callout r s) = meas s"
  "ccdb_lists (decr_callout r s) = ccdb_lists s" "ccdb_time (decr_callout r s) = ccdb_time s"
  "ccdb_trap (decr_callout r s) = ccdb_trap s"
  "ccdb_tg_expiry (decr_callout r s) = ccdb_tg_expiry s"
  "dgc_qmsgs (decr_callout r s) = dgc_qmsgs s" "non_us_id (decr_callout r s) = non_us_id s"
  "bufs (decr_callout r s) = bufs s" "driver (decr_callout r s) = driver s"
  "callouts (decr_callout r s)
     = (callouts s)(r := c_period_update (\<lambda>n. n - 1) (callouts s r))"
  by (simp_all add: decr_callout_def)

lemma wf_decr:
  assumes wf: "wf_tdb D s" and r: "0 < c_period (callouts s r)"
  shows "wf_tdb D (decr_callout r s)"
proof (rule wf_tdbI, goal_cases)
  note D = wf_tdbD [OF wf]
  {
    case 1 thus ?case using D(1) by simp
  next
    case 2 thus ?case using D(2) by simp
  next
    case (3 i) thus ?case using D(3) by simp
  next
    case (4 i q) thus ?case using D(4,5,6) r by auto
  next
    case (5 i q)
    hence "co_head (callouts s q) = Some i" by (auto split: if_splits)
    thus ?case using wf by (auto simp: wf_tdb_def)
  next
    case (6 q) thus ?case using D(10) by simp
  }
qed

lemma timers_decr:
  "timers (decr_callout r s) = (timers s)(r := (case timers s r of
     None \<Rightarrow> None | Some (f, a, n) \<Rightarrow> Some (f, a, n - CALLWHEELSIZE)))"
  by (auto simp: fun_eq_iff timers_def decr_callout_def remaining_def algebra_simps
    split: option.splits)

lemma timer_loop_visit:
  assumes "callwheel s p = as @ r # bs" "distinct (callwheel s p)"
  shows "timer_loop E h p (Some r) s =
    (if c_period (callouts s r) \<le> 0
     then Option.bind (expire_callout E h p r s) (timer_loop E h p (tailq_first bs))
     else timer_loop E h p (tailq_first bs) (decr_callout r s))"
  using assms tailq_next_append [of as r bs]
  by (subst timer_loop.simps) (simp add: decr_callout_def)

lemma timer_loop_end [simp]: "timer_loop E h p None s = Some s"
  by (subst timer_loop.simps) simp

text \<open>
  The contract of a client whose callbacks leave the wheel alone. For such a client the loop
  visits exactly the elements that were in the slot when the tick began, in their order, and a
  tick decrements every pending timer and fires those that had one tick left.
\<close>

fun visit_all :: "'w env \<Rightarrow> 'w handler \<Rightarrow> nat \<Rightarrow> nat list \<Rightarrow> 'w dsm \<Rightarrow> 'w dsm option" where
  "visit_all E h p [] s = Some s"
| "visit_all E h p (r # rs) s =
    (if c_period (callouts s r) \<le> 0
     then Option.bind (expire_callout E h p r s) (visit_all E h p rs)
     else visit_all E h p rs (decr_callout r s))"

definition tick :: "(nat \<rightharpoonup> 'f \<times> 'a \<times> int) \<Rightarrow> (nat \<rightharpoonup> 'f \<times> 'a \<times> int)" where
  "tick m q = (case m q of
     None \<Rightarrow> None
   | Some (f, a, n) \<Rightarrow> if n \<le> 1 then None else Some (f, a, n - 1))"

lemma frame_wheel_advance [simp]:
  "world (wheel_advance s) = world s" "shutdown (wheel_advance s) = shutdown s"
  "callouts (wheel_advance s) = callouts s" "callwheel (wheel_advance s) = callwheel s"
  "sessions (wheel_advance s) = sessions s" "meas (wheel_advance s) = meas s"
  "ccdb_lists (wheel_advance s) = ccdb_lists s" "ccdb_time (wheel_advance s) = ccdb_time s"
  "ccdb_trap (wheel_advance s) = ccdb_trap s"
  "ccdb_tg_expiry (wheel_advance s) = ccdb_tg_expiry s"
  "dgc_qmsgs (wheel_advance s) = dgc_qmsgs s" "non_us_id (wheel_advance s) = non_us_id s"
  "bufs (wheel_advance s) = bufs s" "driver (wheel_advance s) = driver s"
  "wheel_index (wheel_advance s)
     = (if wheel_index s + 1 \<ge> CALLWHEELSIZE then 0 else wheel_index s + 1)"
  by (simp_all add: wheel_advance_def Let_def)

lemma wf_tdb_cong:
  assumes "callouts s' = callouts s" "callwheel s' = callwheel s"
    "0 \<le> wheel_index s'" "wheel_index s' < CALLWHEELSIZE" "wf_tdb D s"
  shows "wf_tdb D s'"
  using assms(3-5) unfolding wf_tdb_def wf_slot_def assms(1,2) by blast

fun run_ticks :: "'w env \<Rightarrow> 'w handler \<Rightarrow> nat \<Rightarrow> 'w dsm \<Rightarrow> 'w dsm option" where
  "run_ticks E h 0 s = Some s"
| "run_ticks E h (Suc k) s = Option.bind (process_timer E h s) (run_ticks E h k)"

lemma funpow_tick:
  "(tick ^^ k) m q = (case m q of
     None \<Rightarrow> None
   | Some (f, a, n) \<Rightarrow>
       if k = 0 then Some (f, a, n) else if n \<le> int k then None else Some (f, a, n - int k))"
proof (induction k arbitrary: m)
  case (Suc k)
  have e: "(tick ^^ Suc k) m q = (tick ^^ k) (tick m) q" by (simp add: funpow_swap1)
  have t: "tick m q = (case m q of None \<Rightarrow> None
    | Some (f, a, n) \<Rightarrow> if n \<le> 1 then None else Some (f, a, n - 1))" by (simp add: tick_def)
  show ?case unfolding e Suc.IH t by (auto split: option.split)
qed (auto split: option.split)

lemma wf_advance: "wf_tdb D s \<Longrightarrow> wf_tdb D (wheel_advance s)"
  using wf_tdbD(1,2) [of D s]
  by (intro wf_tdb_cong [of "wheel_advance s" s]) (simp_all add: CALLWHEELSIZE_def)

lemma mod_advance:
  assumes "0 \<le> w" "w < CALLWHEELSIZE" "i < 65536"
  defines "w' \<equiv> (if w + 1 \<ge> CALLWHEELSIZE then 0 else w + 1)"
  shows "(int i - w' - 1) mod CALLWHEELSIZE =
    (if int i = w' then (int i - w - 1) mod CALLWHEELSIZE + CALLWHEELSIZE - 1
     else (int i - w - 1) mod CALLWHEELSIZE - 1)"
proof -
  have w': "w' mod CALLWHEELSIZE = (w + 1) mod CALLWHEELSIZE" "0 \<le> w'" "w' < CALLWHEELSIZE"
    using assms(1,2) by (cases "w = 65535"; simp add: w'_def CALLWHEELSIZE_def)+
  have z: "(int i - w - 1) mod CALLWHEELSIZE = (int i - w') mod CALLWHEELSIZE"
    using w'(1) by (metis (no_types) diff_diff_eq mod_diff_right_eq)
  have d: "(int i - w') mod CALLWHEELSIZE = 0 \<longleftrightarrow> int i = w'"
  proof
    assume "(int i - w') mod CALLWHEELSIZE = 0"
    hence "int i mod CALLWHEELSIZE = w' mod CALLWHEELSIZE" by (simp add: mod_eq_dvd_iff mod_eq_0_iff_dvd)
    thus "int i = w'" using w'(2,3) assms(3) by (simp add: CALLWHEELSIZE_def)
  qed simp
  have "(int i - w' - 1) mod CALLWHEELSIZE = (if int i = w' then CALLWHEELSIZE - 1
      else (int i - w') mod CALLWHEELSIZE - 1)"
    using div_mod_decr [of "int i - w'"] d by simp
  moreover have "int i = w' \<Longrightarrow> (int i - w - 1) mod CALLWHEELSIZE = 0" using z d by simp
  ultimately show ?thesis using z by (cases "int i = w'") (simp_all only: if_True if_False, simp)
qed

lemma timers_advance:
  assumes wf: "wf_tdb D s"
  shows "timers (wheel_advance s) q = (case timers s q of
     None \<Rightarrow> None
   | Some (f, a, n) \<Rightarrow> Some (f, a,
       if q \<in> set (callwheel s (nat (wheel_index (wheel_advance s))))
       then n + CALLWHEELSIZE - 1 else n - 1))"
proof (cases "timers s q")
  case None
  thus ?thesis by (auto simp: timers_def split: option.splits)
next
  case (Some t)
  then obtain l where l: "co_head (callouts s q) = Some l" "q \<in> set (callwheel s l)"
    "t = (c_func (callouts s q), c_arg (callouts s q),
          remaining (wheel_index s) l (c_period (callouts s q)))"
    by (rule timers_SomeD)
  let ?w = "wheel_index (wheel_advance s)"
  define v where "v = ?w"
  have w: "0 \<le> v" "v < CALLWHEELSIZE"
    using wf_tdbD(1,2) [OF wf_advance [OF wf]] by (simp_all only: v_def)
  have "q \<in> set (callwheel s (nat v)) \<longleftrightarrow> int l = v"
    using wf_tdbD(5) [OF wf l(2)] wf_tdbD(5) [OF wf, of q "nat v"] l(2) w by auto
  hence "q \<in> set (callwheel s (nat ?w)) \<longleftrightarrow> int l = ?w" by (simp only: v_def)
  moreover have "(int l - ?w - 1) mod CALLWHEELSIZE =
    (if int l = ?w then (int l - wheel_index s - 1) mod CALLWHEELSIZE + CALLWHEELSIZE - 1
     else (int l - wheel_index s - 1) mod CALLWHEELSIZE - 1)"
    using mod_advance [OF wf_tdbD(1,2) [OF wf], of l] wf_tdbD(7) [OF wf l(2)]
    by (simp del: mod_diff_left_eq mod_diff_right_eq)
  ultimately show ?thesis
    using l Some by (simp add: timers_def remaining_def)
qed

lemma expire_callout_eq:
  assumes "r \<in> set (callwheel s p)"
  shows "expire_callout E h p r s = Option.bind
    (case c_func (callouts s r) of
       Some f \<Rightarrow> h f (c_arg (callouts s r)) (unlinked p r (cnt ''ds_co_expire'' s))
     | None \<Rightarrow> Some (cnt ''ds_co_callback_null'' (unlinked p r (cnt ''ds_co_expire'' s))))
    (\<lambda>s. Some (callout_free E r s))"
  using assms
  by (simp add: expire_callout_def Let_def tailq_remove_def unlinked_def cong: option.case_cong)

text \<open>Every pending timer's callback is one of \<open>F\<close>.\<close>

definition callbacks_in :: "timeout_t set \<Rightarrow> 'w dsm \<Rightarrow> bool" where
  "callbacks_in F s \<longleftrightarrow> (\<forall>q f a n. timers s q = Some (Some f, a, n) \<longrightarrow> f \<in> F)"

lemma callbacks_inD:
  assumes "callbacks_in F s" "wf_tdb D s" "r \<in> set (callwheel s p)" "c_func (callouts s r) = Some f"
  shows "f \<in> F"
proof -
  have "timers s r = Some (Some f, c_arg (callouts s r),
      remaining (wheel_index s) p (c_period (callouts s r)))"
    using assms(3,4) wf_tdbD(5) [OF assms(2,3)] by (simp add: timers_def)
  thus ?thesis using assms(1) unfolding callbacks_in_def by blast
qed

lemma callbacks_in_advance:
  assumes "wf_tdb D s" "callbacks_in F s"
  shows "callbacks_in F (wheel_advance s)"
  unfolding callbacks_in_def
proof (intro allI impI)
  fix q f a n
  assume "timers (wheel_advance s) q = Some (Some f, a, n)"
  then obtain n' where "timers s q = Some (Some f, a, n')"
    by (auto simp: timers_advance [OF assms(1)] split: option.splits)
  thus "f \<in> F" using assms(2) unfolding callbacks_in_def by blast
qed

lemma callbacks_in_tick:
  assumes "callbacks_in F s" "timers s' = tick (timers s)"
  shows "callbacks_in F s'"
  unfolding callbacks_in_def
proof (intro allI impI)
  fix q f a n
  assume "timers s' q = Some (Some f, a, n)"
  then obtain n' where "timers s q = Some (Some f, a, n')"
    by (auto simp: assms(2) tick_def split: option.splits if_splits)
  thus "f \<in> F" using assms(1) unfolding callbacks_in_def by blast
qed

locale quiet_client =
  fixes h :: "'w handler" and F :: "timeout_t set"
  assumes quiet: "f \<in> F \<Longrightarrow> \<exists>s'. h f a s = Some s' \<and> same_tdb s s'"
begin

lemma expire_quiet:
  assumes wf: "wf_tdb {} s" and r: "r \<in> set (callwheel s p)" and F: "callbacks_in F s"
  shows "\<exists>s'. expire_callout E h p r s = Some s' \<and> wf_tdb {} s' \<and> timers s' = (timers s)(r := None)
    \<and> callwheel s' = (callwheel s)(p := remove1 r (callwheel s p))
    \<and> wheel_index s' = wheel_index s \<and> (\<forall>q. q \<noteq> r \<longrightarrow> callouts s' q = callouts s q)"
proof -
  define s1 where "s1 = unlinked p r (cnt ''ds_co_expire'' s)"
  have a: "wf_tdb {} (cnt ''ds_co_expire'' s)" "r \<in> set (callwheel (cnt ''ds_co_expire'' s) p)"
    using wf r by simp_all
  have wf1: "wf_tdb {r} s1" "timers s1 = (timers s)(r := None)"
    "\<And>i. r \<notin> set (callwheel s1 i)"
    using wf_unlink [OF a] timers_unlink [OF a] unlinked_gone [OF a]
    by (simp_all only: s1_def timers_cnt simp_thms)
  obtain s2 where s2: "(case c_func (callouts s r) of
       Some f \<Rightarrow> h f (c_arg (callouts s r)) s1
     | None \<Rightarrow> Some (cnt ''ds_co_callback_null'' s1)) = Some s2" "same_tdb s1 s2"
  proof (cases "c_func (callouts s r)")
    case None
    thus ?thesis
      by (intro that [of "cnt ''ds_co_callback_null'' s1"]) (simp_all add: same_tdb_def)
  next
    case (Some f)
    thus ?thesis using quiet [of f "c_arg (callouts s r)" s1] that callbacks_inD [OF F wf r Some]
      by auto
  qed
  have e: "expire_callout E h p r s = Some (callout_free E r s2)"
    by (simp only: expire_callout_eq [OF r] s1_def [symmetric] s2(1) bind.bind_lunit)
  have t: "wf_tdb {r} s2" "timers s2 = timers s1" "callwheel s2 = callwheel s1"
      "callouts s2 = callouts s1" "wheel_index s2 = wheel_index s1"
    using same_tdb_wf [OF s2(2)] same_tdb_timers [OF s2(2)] s2(2) wf1
    by (simp_all add: same_tdb_def)
  have f: "wf_tdb {} (callout_free E r s2)" "timers (callout_free E r s2) = timers s2"
    using wf_free [OF t(1), of r E] timers_free [of r s2 E] wf1(3) t(3) by simp_all
  show ?thesis
    by (intro exI [of _ "callout_free E r s2"])
      (simp add: e f t wf1(2), simp add: own_callout_free s1_def t)
qed

lemma loop_quiet:
  assumes "wf_tdb {} s" "callwheel s p = as @ bs" "callbacks_in F s"
  shows "timer_loop E h p (tailq_first bs) s = visit_all E h p bs s
    \<and> (\<exists>s'. visit_all E h p bs s = Some s' \<and> wf_tdb {} s' \<and> wheel_index s' = wheel_index s
      \<and> timers s' = (\<lambda>q. if q \<in> set bs then
          (case timers s q of None \<Rightarrow> None
           | Some (f, a, n) \<Rightarrow> if c_period (callouts s q) \<le> 0 then None
                                else Some (f, a, n - CALLWHEELSIZE)) else timers s q))"
    (is "?A bs s \<and> (\<exists>s'. ?B bs s s')")
  using assms
proof (induction bs arbitrary: as s)
  case Nil
  thus ?case by simp
next
  case (Cons r bs)
  note wf = \<open>wf_tdb {} s\<close> and cw = \<open>callwheel s p = as @ r # bs\<close> and F = \<open>callbacks_in F s\<close>
  have r: "r \<in> set (callwheel s p)" using cw by simp
  have d: "distinct (as @ r # bs)" using wf_tdbD(3) [OF wf, of p] cw by simp
  note v = timer_loop_visit [OF cw wf_tdbD(3) [OF wf]]
  show ?case
  proof (cases "c_period (callouts s r) \<le> 0")
    case True
    obtain s1 where s1: "expire_callout E h p r s = Some s1" "wf_tdb {} s1"
      "timers s1 = (timers s)(r := None)"
      "callwheel s1 = (callwheel s)(p := remove1 r (callwheel s p))"
      "wheel_index s1 = wheel_index s" "\<And>q. q \<noteq> r \<Longrightarrow> callouts s1 q = callouts s q"
      using expire_quiet [OF wf r F] by blast
    have "callwheel s1 p = as @ bs" using s1(4) cw d by (simp add: remove1_append)
    moreover have "callbacks_in F s1" using F by (auto simp: callbacks_in_def s1(3))
    ultimately obtain s' where IH: "?A bs s1" "?B bs s1 s'"
      using Cons.IH [OF s1(2)] by blast
    have "?A (r # bs) s" using v True s1(1) IH(1) by simp
    moreover have "?B (r # bs) s s'"
      using IH(2) True s1(1,3,5,6) d by (auto simp: fun_eq_iff split: option.splits)
    ultimately show ?thesis by blast
  next
    case False
    have w: "wf_tdb {} (decr_callout r s)" using wf_decr [OF wf] False by simp
    have "callwheel (decr_callout r s) p = (as @ [r]) @ bs" using cw by simp
    moreover have "callbacks_in F (decr_callout r s)"
      using F by (fastforce simp: callbacks_in_def timers_decr split: option.splits if_splits)
    ultimately obtain s' where
      IH: "?A bs (decr_callout r s)" "?B bs (decr_callout r s) s'"
      using Cons.IH [OF w] by blast
    have "?A (r # bs) s" using v False IH(1) by simp
    moreover have "?B (r # bs) s s'"
      using IH(2) False d
      by (auto simp: fun_eq_iff timers_decr split: option.splits)
    ultimately show ?thesis by blast
  qed
qed

text \<open>The tick of a quiet client, over the abstract timers.\<close>

lemma process_timer_visits:
  assumes wf: "wf_tdb {} s" and F: "callbacks_in F s"
  defines "p \<equiv> nat (wheel_index (wheel_advance s))"
  shows "process_timer E h s = visit_all E h p (callwheel s p) (wheel_advance s)"
  using loop_quiet [OF wf_advance [OF wf], of p "[]" "callwheel s p" E]
    callbacks_in_advance [OF wf F]
  by (simp add: process_timer_def Let_def p_def del: frame_wheel_advance(15))

lemma process_timer_tick:
  assumes wf: "wf_tdb {} s" and F: "callbacks_in F s"
  shows "\<exists>s'. process_timer E h s = Some s' \<and> wf_tdb {} s' \<and> timers s' = tick (timers s)"
proof -
  let ?s = "wheel_advance s" and ?p = "nat (wheel_index (wheel_advance s))"
  have w: "wf_tdb {} ?s" by (rule wf_advance [OF wf])
  from loop_quiet [OF w, of ?p "[]" "callwheel ?s ?p" E] callbacks_in_advance [OF wf F] obtain s' where s':
    "process_timer E h s = Some s'" "wf_tdb {} s'"
    "timers s' = (\<lambda>q. if q \<in> set (callwheel ?s ?p) then
          (case timers ?s q of None \<Rightarrow> None
           | Some (f, a, n) \<Rightarrow> if c_period (callouts ?s q) \<le> 0 then None
                                else Some (f, a, n - CALLWHEELSIZE)) else timers ?s q)"
    by (auto simp: process_timer_def Let_def simp del: frame_wheel_advance)
  have "timers s' q = tick (timers s) q" for q
  proof (cases "timers s q")
    case None
    thus ?thesis by (simp add: s'(3) timers_advance [OF wf] tick_def)
  next
    case (Some t)
    then obtain l where l: "co_head (callouts s q) = Some l" "q \<in> set (callwheel s l)"
      "t = (c_func (callouts s q), c_arg (callouts s q),
            remaining (wheel_index s) l (c_period (callouts s q)))"
      by (rule timers_SomeD)
    let ?P = "c_period (callouts s q)" and ?w = "wheel_index (wheel_advance s)"
    define v where "v = ?w"
    have v: "0 \<le> v" using wf_tdbD(1) [OF w] by (simp only: v_def)
    have P: "0 \<le> ?P" by (rule wf_tdbD(6) [OF wf l(2)])
    have n: "remaining v l ?P = (if q \<in> set (callwheel s (nat v))
        then remaining (wheel_index s) l ?P + CALLWHEELSIZE - 1
        else remaining (wheel_index s) l ?P - 1)"
      using timers_advance [OF wf, of q] l Some unfolding v_def by (simp add: timers_def)
    have "timers ?s q = Some (c_func (callouts s q), c_arg (callouts s q), remaining v l ?P)"
      using l unfolding v_def by (simp add: timers_def)
    hence t: "timers s' q = (if q \<in> set (callwheel s (nat v)) \<and> ?P \<le> 0 then None
        else Some (c_func (callouts s q), c_arg (callouts s q), remaining (wheel_index s) l ?P - 1))"
      using n unfolding v_def by (simp add: s'(3))
    show ?thesis
    proof (cases "q \<in> set (callwheel s (nat v))")
      case True
      hence "int l = v" using wf_tdbD(5) [OF wf l(2)] wf_tdbD(5) [OF wf True] v by auto
      hence "remaining v l ?P = ?P * CALLWHEELSIZE + CALLWHEELSIZE"
        by (simp add: remaining_def zmod_minus1 CALLWHEELSIZE_def)
      hence "remaining (wheel_index s) l ?P = ?P * CALLWHEELSIZE + 1" using n True by simp
      thus ?thesis using t True P Some l(3) by (auto simp: tick_def CALLWHEELSIZE_def)
    next
      case False
      thus ?thesis using t n remaining_pos [OF P, of v l] Some l(3) by (auto simp: tick_def)
    qed
  qed
  thus ?thesis using s'(1,2) by blast
qed

text \<open>A number of ticks in a row.\<close>

lemma run_ticks_quiet:
  assumes "wf_tdb {} s" "callbacks_in F s"
  shows "\<exists>s'. run_ticks E h k s = Some s' \<and> wf_tdb {} s' \<and> callbacks_in F s'
    \<and> timers s' = (tick ^^ k) (timers s)"
  using assms
proof (induction k arbitrary: s)
  case (Suc k)
  obtain s1 where s1: "process_timer E h s = Some s1" "wf_tdb {} s1" "timers s1 = tick (timers s)"
    using process_timer_tick [OF Suc.prems] by blast
  from Suc.IH [OF s1(2) callbacks_in_tick [OF Suc.prems(2) s1(3)]] show ?case
    by (auto simp: s1(1,3) funpow_swap1)
qed simp

end

section \<open>Start and end\<close>

lemma callwheel_slots_init:
  "callwheel (fold callwheel_slot_init xs s) = (\<lambda>i. if i \<in> set xs then [] else callwheel s i)"
  "callouts (fold callwheel_slot_init xs s) = callouts s"
  "wheel_index (fold callwheel_slot_init xs s) = wheel_index s"
  by (induction xs arbitrary: s) (auto simp: callwheel_slot_init_def fun_eq_iff)

lemma callouts_slot_init:
  "callwheel (fold callout_slot_init xs s) = callwheel s"
  "wheel_index (fold callout_slot_init xs s) = wheel_index s"
  "callouts (fold callout_slot_init xs s) = (\<lambda>q. if q \<in> set xs then
     (callouts s q)\<lparr>co_id := INDEX_TO_ID q, co_head := None, c_func := None, c_arg := None,
       c_time := 0, c_period := 0\<rparr> else callouts s q)"
  by (induction xs arbitrary: s) (auto simp: callout_slot_init_def callout_init_def fun_eq_iff)

lemma initialize_tdb_callouts:
  "callwheel (initialize_tdb E s) = (\<lambda>_. [])" "wheel_index (initialize_tdb E s) = 0"
  "callouts (initialize_tdb E s) = (\<lambda>q. if q < USER_SESSION_SIZE then
     (callouts s q)\<lparr>co_id := INDEX_TO_ID q, co_head := None, c_func := None, c_arg := None,
       c_time := 0, c_period := 0\<rparr> else callouts s q)"
  by (simp_all add: initialize_tdb_def Let_def callouts_slot_init callwheel_slots_init fun_eq_iff
    del: upt_conv_Cons)

text \<open>The storage of the array ends at \<open>USER_SESSION_SIZE\<close>; nothing beyond it is linked.\<close>

lemma initialize_tdb_wf:
  assumes "\<And>q. USER_SESSION_SIZE \<le> q \<Longrightarrow> co_head (callouts s q) = None"
  shows "wf_tdb {} (initialize_tdb E s)" "timers (initialize_tdb E s) = Map.empty"
proof -
  have h: "co_head (callouts (initialize_tdb E s) q) = None" for q
    using assms [of q] by (simp add: initialize_tdb_callouts)
  show "wf_tdb {} (initialize_tdb E s)"
    unfolding wf_tdb_def wf_slot_def
    by (simp add: h) (simp add: initialize_tdb_callouts CALLWHEELSIZE_def)
  show "timers (initialize_tdb E s) = Map.empty"
    by (simp add: fun_eq_iff timers_def h)
qed

lemma finalize_slot_empty:
  assumes "wf_tdb {} s"
  shows "wf_tdb {} (finalize_slot E i s) \<and> callwheel (finalize_slot E i s) = (callwheel s)(i := [])"
  using assms
proof (induction E i s rule: finalize_slot.induct)
  case (1 E i s)
  show ?case
  proof (cases "callwheel s i")
    case Nil
    thus ?thesis using 1(2) by (subst (1 2) finalize_slot.simps) (simp add: fun_upd_idem)
  next
    case (Cons q qs)
    have q: "q \<in> set (callwheel s i)" using Cons by simp
    have u: "unlink_first i s = unlinked i q s"
      using Cons by (simp add: unlink_first_def unlinked_def)
    have w: "wf_tdb {} (callout_free E q (unlink_first i s))"
      using wf_free [OF wf_unlink [OF 1(2) q] unlinked_gone [OF 1(2) q], of E] by (simp add: u)
    have e: "tailq_first (callwheel s i) = Some q" using Cons by simp
    have f: "finalize_slot E i s = finalize_slot E i (callout_free E q (unlink_first i s))"
      by (subst finalize_slot.simps) (simp add: e)
    show ?thesis using 1(1) [OF e w] by (auto simp: f u fun_eq_iff)
  qed
qed

lemma finalize_tdb_empty:
  assumes "wf_tdb {} s"
  shows "wf_tdb {} (finalize_tdb E s)" "timers (finalize_tdb E s) = Map.empty"
proof -
  have *: "wf_tdb {} (fold (finalize_slot E) xs s) \<and>
      callwheel (fold (finalize_slot E) xs s) = (\<lambda>i. if i \<in> set xs then [] else callwheel s i)"
    if "wf_tdb {} s" for xs and s :: "'a dsm"
    using that
  proof (induction xs arbitrary: s)
    case (Cons x xs)
    thus ?case using finalize_slot_empty [OF Cons.prems, of E x] by (auto simp: fun_eq_iff)
  qed simp
  have w: "wf_tdb {} (finalize_tdb E s)"
    and c: "callwheel (finalize_tdb E s) = (\<lambda>i. if i < 65536 then [] else callwheel s i)"
    using * [OF assms, of "[0..<nat CALLWHEELSIZE]"]
    by (simp_all add: finalize_tdb_def CALLWHEELSIZE_def fun_eq_iff del: upt_conv_Cons)
  show "wf_tdb {} (finalize_tdb E s)" by (rule w)
  have "callwheel s i = []" if "\<not> i < 65536" for i
    using that wf_tdbD(7) [OF assms, of "hd (callwheel s i)" i] by (cases "callwheel s i") auto
  thus "timers (finalize_tdb E s) = Map.empty"
    by (auto simp: fun_eq_iff timers_def c split: option.split)
qed

end
