(* ===== verification/Hash.thy ===== *)
theory Hash
  imports Sample
begin

text \<open>
  The general purpose hash functions of \<open>dsm_main.c\<close> and \<open>user_session_hash\<close> of
  \<open>dsm_ccdb.c\<close>, which picks the bucket of a session id. A string is a function from positions to
  bytes with a separate length, as in the code. \<open>uint\<close> arithmetic wraps at 32 bits;
  \<open>cu\<close> is the conversion of a \<open>char\<close> to \<open>uint\<close>, which sign-extends or not as the compiler
  decides.

  The contract the session database needs of a hash function is the locale \<open>hash_function\<close>: the
  value depends on the first \<open>n\<close> bytes only. All functions of the table meet it but \<open>hash_dek\<close>,
  which starts from \<open>strlen\<close> and so reads the string beyond its length.
\<close>

section \<open>The hash functions\<close>

definition hash_mask :: uint where
  "hash_mask = 0x7FFFFFFF"

definition hash_rs :: "(8 word \<Rightarrow> uint) \<Rightarrow> bytes \<Rightarrow> int \<Rightarrow> uint" where
  "hash_rs cu p n =
     fst (fold (\<lambda>i (h, a). (h * a + cu (p i), a * 378551)) [0..<nat n] (0, 63689)) AND hash_mask"

definition hash_js :: "(8 word \<Rightarrow> uint) \<Rightarrow> bytes \<Rightarrow> int \<Rightarrow> uint" where
  "hash_js cu p n =
     fold (\<lambda>i h. h XOR (push_bit 5 h + cu (p i) + drop_bit 2 h)) [0..<nat n] 1315423911 AND hash_mask"

definition pjw_step :: "uint \<Rightarrow> uint \<Rightarrow> uint" where
  "pjw_step c h =
     (let BitsInUnsignedInt = 32;
          ThreeQuarters = BitsInUnsignedInt * 3 div 4;
          OneEighth = BitsInUnsignedInt div 8;
          HighBits = push_bit (BitsInUnsignedInt - OneEighth) 0xFFFFFFFF;
          h = push_bit OneEighth h + c;
          test = h AND HighBits
      in if test \<noteq> 0 then (h XOR drop_bit ThreeQuarters test) AND NOT HighBits else h)"

definition hash_pjw :: "(8 word \<Rightarrow> uint) \<Rightarrow> bytes \<Rightarrow> int \<Rightarrow> uint" where
  "hash_pjw cu p n = fold (\<lambda>i. pjw_step (cu (p i))) [0..<nat n] 0 AND hash_mask"

definition elf_step :: "uint \<Rightarrow> uint \<Rightarrow> uint" where
  "elf_step c h =
     (let h = push_bit 4 h + c;
          x = h AND 0xF0000000
      in if x \<noteq> 0 then (h XOR drop_bit 24 x) AND NOT x else h)"

definition hash_elf :: "(8 word \<Rightarrow> uint) \<Rightarrow> bytes \<Rightarrow> int \<Rightarrow> uint" where
  "hash_elf cu p n = fold (\<lambda>i. elf_step (cu (p i))) [0..<nat n] 0 AND hash_mask"

definition hash_bkdr :: "(8 word \<Rightarrow> uint) \<Rightarrow> bytes \<Rightarrow> int \<Rightarrow> uint" where
  "hash_bkdr cu p n = fold (\<lambda>i h. h * 131 + cu (p i)) [0..<nat n] 0 AND hash_mask"

definition hash_sdbm :: "(8 word \<Rightarrow> uint) \<Rightarrow> bytes \<Rightarrow> int \<Rightarrow> uint" where
  "hash_sdbm cu p n =
     fold (\<lambda>i h. cu (p i) + push_bit 6 h + push_bit 16 h - h) [0..<nat n] 0 AND hash_mask"

definition hash_djb :: "(8 word \<Rightarrow> uint) \<Rightarrow> bytes \<Rightarrow> int \<Rightarrow> uint" where
  "hash_djb cu p n = fold (\<lambda>i h. push_bit 5 h + h + cu (p i)) [0..<nat n] 5381 AND hash_mask"

text \<open>\<open>strlen\<close> from position \<open>i\<close> on; it does not return when no byte is zero.\<close>

partial_function (option) strlen_from :: "bytes \<Rightarrow> nat \<Rightarrow> nat option" where
  "strlen_from p i = (if p i = 0 then Some i else strlen_from p (i + 1))"

definition hash_dek :: "(8 word \<Rightarrow> uint) \<Rightarrow> bytes \<Rightarrow> int \<Rightarrow> uint option" where
  "hash_dek cu p n = do {
     k \<leftarrow> strlen_from p 0;
     Some (fold (\<lambda>i h. (push_bit 5 h XOR drop_bit 27 h) XOR cu (p i)) [0..<nat n] (of_nat k)
       AND hash_mask)
   }"

definition hash_ap :: "(8 word \<Rightarrow> uint) \<Rightarrow> bytes \<Rightarrow> int \<Rightarrow> uint" where
  "hash_ap cu p n =
     fold (\<lambda>i h. if even i
                 then h XOR (push_bit 7 h XOR cu (p i) XOR drop_bit 3 h)
                 else h XOR NOT (push_bit 11 h XOR cu (p i) XOR drop_bit 5 h)) [0..<nat n] 0
       AND hash_mask"

section \<open>The bucket of a session id\<close>

text \<open>The first component is the result, \<open>-1\<close> (\<open>DSM_UNDEF\<close>) on failure.\<close>

definition user_session_hash :: "'w env \<Rightarrow> bytes option \<Rightarrow> int \<Rightarrow> 'w dsm \<Rightarrow> int \<times> 'w dsm" where
  "user_session_hash E sidp sid_len s = (case sidp of
     None \<Rightarrow> (-1, cnt ''ds_ccdb_us_hash_fail'' (cnt ''ds_ccdb_us_hash_sid_null'' s))
   | Some sid \<Rightarrow>
       if sid_len \<le> 0 \<or> sid_len > MAX_SZ_OCTETSTRING E - 1
       then (-1, cnt ''ds_ccdb_us_hash_fail'' (cnt ''ds_ccdb_us_hash_sid_invalid'' s))
       else let hash = hash_rs (char_to_uint E) sid sid_len;
                hash2 = hash AND USER_SESSION_MASK
            in (uint hash2, cnt ''ds_ccdb_us_hash_succ'' s))"

section \<open>The contract of a hash function\<close>

lemma memeq_iff: "memeq a b n \<longleftrightarrow> (\<forall>i < n. a i = b i)"
  by (auto simp: memeq_def list_all_iff)

lemma and_bucket: "(x :: uint) AND USER_SESSION_MASK \<le> 0x3FFFF"
  unfolding USER_SESSION_MASK_def by (simp add: word_and_le1)

lemma and_less: "(x :: uint) AND hash_mask < 0x80000000"
proof -
  have "x AND hash_mask \<le> 0x7FFFFFFF" unfolding hash_mask_def by (simp add: word_and_le1)
  thus ?thesis by (rule le_less_trans) simp
qed

lemma fold_prefix:
  assumes "memeq a b (nat n)" "\<And>i. a i = b i \<Longrightarrow> f i = g i"
  shows "fold f [0..<nat n] z = fold g [0..<nat n] z"
  using assms by (intro fold_cong) (auto simp: memeq_iff)

lemmas prefix_intros = arg_cong2 [of _ _ _ _ "(AND)"] arg_cong [of _ _ fst] fold_prefix

locale hash_function =
  fixes h :: "(8 word \<Rightarrow> uint) \<Rightarrow> bytes \<Rightarrow> int \<Rightarrow> uint"
  assumes masked: "\<exists>x. h cu p n = x AND hash_mask"
    and prefix: "memeq a b (nat n) \<Longrightarrow> h cu a n = h cu b n"
begin

lemma bound: "h cu p n < 0x80000000"
  using masked [of cu p n] and_less by auto

lemma bucket_bound: "0 \<le> uint (h cu p n AND USER_SESSION_MASK)
    \<and> uint (h cu p n AND USER_SESSION_MASK) < int USER_SESSION_SIZE"
  using and_bucket [of "h cu p n"] unfolding word_le_def USER_SESSION_SIZE_def by simp

lemma bucket_eq:
  "memeq a b (nat n) \<Longrightarrow> h cu a n AND USER_SESSION_MASK = h cu b n AND USER_SESSION_MASK"
  by (simp add: prefix)

end

interpretation rs: hash_function hash_rs
  by unfold_locales (auto simp: hash_rs_def intro!: prefix_intros)

interpretation js: hash_function hash_js
  by unfold_locales (auto simp: hash_js_def intro!: prefix_intros)

interpretation pjw: hash_function hash_pjw
  by unfold_locales (auto simp: hash_pjw_def intro!: prefix_intros)

interpretation elf: hash_function hash_elf
  by unfold_locales (auto simp: hash_elf_def intro!: prefix_intros)

interpretation bkdr: hash_function hash_bkdr
  by unfold_locales (auto simp: hash_bkdr_def intro!: prefix_intros)

interpretation sdbm: hash_function hash_sdbm
  by unfold_locales (auto simp: hash_sdbm_def intro!: prefix_intros)

interpretation djb: hash_function hash_djb
  by unfold_locales (auto simp: hash_djb_def intro!: prefix_intros)

interpretation ap: hash_function hash_ap
  by unfold_locales (auto simp: hash_ap_def intro!: prefix_intros)

section \<open>Properties\<close>

lemma clear_high_bits:
  assumes "\<And>n. n < 32 \<Longrightarrow> bit (m :: uint) n \<longleftrightarrow> 28 \<le> n"
  shows "(x XOR drop_bit 24 (x AND m)) AND NOT m = (x XOR drop_bit 24 (x AND m)) AND NOT (x AND m)"
proof (rule bit_word_eqI)
  fix n
  assume "n < LENGTH(32)"
  thus "bit ((x XOR drop_bit 24 (x AND m)) AND NOT m) n
      = bit ((x XOR drop_bit 24 (x AND m)) AND NOT (x AND m)) n"
    using assms [of n] bit_imp_le_length [of x "24 + n"] by (auto simp: bit_simps)
qed

lemma pjw_elf_step: "pjw_step c h = elf_step c h"
proof -
  have m: "(0xF0000000 :: uint) = NOT (mask 28)" by (simp add: mask_eq_exp_minus_1)
  have b: "bit (0xF0000000 :: uint) n \<longleftrightarrow> 28 \<le> n" if "n < 32" for n
    unfolding m using that by (auto simp: bit_not_iff bit_mask_iff)
  have hb: "push_bit (32 - 4) 0xFFFFFFFF = (0xF0000000 :: uint)" by simp
  have k: "32 div 8 = (4 :: nat)" "32 * 3 div 4 = (24 :: nat)" by simp_all
  show ?thesis
    unfolding pjw_step_def elf_step_def Let_def k hb
    by (simp only: clear_high_bits [OF b] refl)
qed

text \<open>
  C20: The hash function attributed to P. J. Weinberger and its variant for 32-bit processors are
  the same function on 32-bit words: the table of hash functions has eight members, not nine.
\<close>

theorem hash_pjw_eq_elf: "hash_pjw cu p n = hash_elf cu p n"
proof -
  have "pjw_step = elf_step" by (intro ext) (rule pjw_elf_step)
  thus ?thesis by (simp only: hash_pjw_def hash_elf_def)
qed

text \<open>
  \<open>user_session_hash\<close> returns a bucket index within the table exactly for a session id that
  is not NULL and whose length is positive and below the limit, the same for equal ids; otherwise
  it returns -1 and counts a failure.
\<close>

theorem user_session_hash_bucket:
  assumes "memeq a b (nat n)"
  shows "if n \<le> 0 \<or> n \<ge> MAX_SZ_OCTETSTRING E
    then fst (user_session_hash E (Some a) n s) = -1
      \<and> meas (snd (user_session_hash E (Some a) n s)) ''ds_ccdb_us_hash_fail''
        = Suc (meas s ''ds_ccdb_us_hash_fail'')
    else 0 \<le> fst (user_session_hash E (Some a) n s)
      \<and> fst (user_session_hash E (Some a) n s) < int USER_SESSION_SIZE
      \<and> fst (user_session_hash E (Some b) n s) = fst (user_session_hash E (Some a) n s)"
  using rs.bucket_bound [of "char_to_uint E" a n] rs.bucket_eq [OF assms, of "char_to_uint E"]
  by (auto simp: user_session_hash_def Let_def)

theorem user_session_hash_bucket_witness:
  "0 \<le> fst (user_session_hash sample_env (Some (\<lambda>_. 65)) 2 dsm0)
    \<and> fst (user_session_hash sample_env (Some (\<lambda>i. if i < 2 then 65 else 66)) 2 dsm0)
      = fst (user_session_hash sample_env (Some (\<lambda>_. 65)) 2 dsm0)"
  using user_session_hash_bucket [of "\<lambda>_. 65" "\<lambda>i. if i < 2 then 65 else 66" 2 sample_env dsm0]
  by (simp add: memeq_iff sample_env_def)

end
