(* ===== verification/Ccdb_Session.thy ===== *)
theory Ccdb_Session
  imports Ccdb_Construct Tdb Hash
begin

text \<open>
  The session database of \<open>dsm_ccdb.c\<close>: a hash table of sessions by Session-Id with a list of all
  sessions in the order of their creation, and for each session a queue of Diameter messages that
  wait for it. Both kinds of element come from private pools.
\<close>

section \<open>Queued messages\<close>

definition dgc_qmsg_init :: "nat option \<Rightarrow> 'w dsm \<Rightarrow> 'w dsm" where
  "dgc_qmsg_init q s = (case q of
     None \<Rightarrow> cnt ''ds_ccdb_dgc_qmsg_init_fail'' (cnt ''ds_dgc_qmsg_null'' s)
   | Some i \<Rightarrow> cnt ''ds_ccdb_dgc_qmsg_init_succ''
       (upd_dq i (\<lambda>m. m\<lparr>dq_head := None, qmsg := (\<lambda>_. 0)\<rparr>) s))"

definition dgc_qmsg_free :: "'w env \<Rightarrow> nat \<Rightarrow> 'w dsm \<Rightarrow> 'w dsm" where
  "dgc_qmsg_free E i s = cnt ''ds_api_delete_private_dgc_qmsg''
     (upd_world (delete_private E Dgc_qmsg_pool i) (dgc_qmsg_init (Some i) s))"

text \<open>
  The argument is a pointer to a pointer: \<open>None\<close> is a NULL pointer, \<open>Some None\<close> points to a NULL
  pointer. The result is the pointer afterwards.
\<close>

definition dgc_qmsg_remove ::
  "'w env \<Rightarrow> nat option option \<Rightarrow> 'w dsm \<Rightarrow> (nat option option \<times> 'w dsm) option" where
  "dgc_qmsg_remove E p2 s = (case p2 of
     None \<Rightarrow> Some (None, cnt ''ds_ccdb_dgc_qmsg_remove_fail'' (cnt ''ds_dgc_qmsg_ptr_null'' s))
   | Some None \<Rightarrow>
       Some (Some None, cnt ''ds_ccdb_dgc_qmsg_remove_fail'' (cnt ''ds_dgc_qmsg_null'' s))
   | Some (Some i) \<Rightarrow> (case dq_head (dgc_qmsgs s i) of
       None \<Rightarrow>
         Some (Some (Some i), cnt ''ds_ccdb_dgc_qmsg_remove_fail'' (cnt ''ds_dgc_qmsg_list_null'' s))
     | Some p \<Rightarrow> do {
         xs \<leftarrow> tailq_remove i (dgc_queue (diam s p));
         let s = cnt ''ds_dgc_qmsg_tailq_remove'' (upd_diam p (dgc_queue_update (\<lambda>_. xs)) s);
         let s = dgc_qmsg_free E i s;
         Some (Some None, cnt ''ds_ccdb_dgc_qmsg_remove_succ'' s)
       }))"

text \<open>\<open>++p->call_context.ref_count; p->call_context.time_last = time (NULL)\<close>\<close>

definition touch :: "'w env \<Rightarrow> nat \<Rightarrow> 'w dsm \<Rightarrow> 'w dsm" where
  "touch E p s =
     (let s = upd_cc p (ref_count_update (\<lambda>n. n + 1)) s;
          (t, s) = call (time_now E) s
      in upd_cc p (time_last_update (\<lambda>_. t)) s)"

definition dgc_qmsg_add ::
  "'w env \<Rightarrow> fep_qmsg_t \<Rightarrow> nat option \<Rightarrow> nat option \<Rightarrow> 'w dsm \<Rightarrow> status \<times> 'w dsm" where
  "dgc_qmsg_add E m pbuf_cc q s = (case pbuf_cc of
     None \<Rightarrow> (FAILURE, cnt ''ds_ccdb_dgc_qmsg_add_fail'' (cnt ''ds_dc_null'' s))
   | Some b \<Rightarrow> (case q of
       None \<Rightarrow> (FAILURE, cnt ''ds_ccdb_dgc_qmsg_add_fail'' (cnt ''ds_us_null'' s))
     | Some p \<Rightarrow>
         if us_head (sessions s p) = None
         then (FAILURE, cnt ''ds_ccdb_dgc_qmsg_add_fail'' (cnt ''ds_us_list_null'' s))
         else let (new, s) = call (new_private E Dgc_qmsg_pool) s
         in case new of
           None \<Rightarrow> (FAILURE, cnt ''ds_ccdb_dgc_qmsg_add_fail'' (cnt ''ds_api_new_private_fail_us'' s))
         | Some i \<Rightarrow>
             let s = cnt ''ds_api_new_private_succ_us'' s;
                 (parm, s) = call (buf_to_parm E (Some b)) s
             in if parm < 0
                then (FAILURE, cnt ''ds_ccdb_dgc_qmsg_add_fail''
                        (dgc_qmsg_free E i (cnt ''ds_api_buf_to_parm_fail'' s)))
                else let s = upd_dq i (\<lambda>d. d\<lparr>dq_head := Some p, qmsg := m(1 := of_int parm)\<rparr>) s;
                         s = upd_diam p (dgc_queue_update (tailq_insert_tail i)) s;
                         s = cnt ''ds_dgc_qmsg_tailq_insert_tail'' s
                     in (SUCCESS, cnt ''ds_ccdb_dgc_qmsg_add_succ'' (touch E p s))))"

section \<open>Sessions\<close>

text \<open>What \<open>user_session_init\<close> makes of a session: the link fields and the identifier stay.\<close>

definition us_blank :: "'w env \<Rightarrow> user_session \<Rightarrow> user_session" where
  "us_blank E u = u\<lparr>us_head := None,
     call_context := \<lparr>asm_id = APP_SM_UNDEF, asm_state = STATE_CCAS_UNDEF, tcc_id = ID_UNDEF,
       tcc_expiry = 0, tg_id = ID_UNDEF, tg_expiry = 0, version = 0, time_start = 0,
       time_last = 0, ref_count = 0, cp = UNINITIALIZED E, npk_config = UNINITIALIZED E,
       peer_fe = UNINITIALIZED E, trap = False\<rparr>,
     diameter := \<lparr>diam_version = 0, command_code = DIAM_CMD_OTHER 0,
       command_flags = \<lparr>DIAM_CMD_FLAG_R = False, DIAM_CMD_FLAG_P = False,
         DIAM_CMD_FLAG_E = False, DIAM_CMD_FLAG_T = False\<rparr>,
       app_id = 0, hop_by_hop = 0, end_to_end = 0, session_id = (\<lambda>_. 0), session_id_len = 0,
       cc_request_type = DIAM_CC_OTHER 0, cc_request_number = 0, auth_app_id = 0,
       local_host = UNINITIALIZED E, local_realm = UNINITIALIZED E, local_state = 0,
       remote_host = UNINITIALIZED E, remote_realm = UNINITIALIZED E, remote_state = 0,
       sub_id_type = UNINITIALIZED E, sub_id = [], proxy_count = 0, proxy_host = (\<lambda>_. 0),
       proxy_state_len = (\<lambda>_. 0), proxy_states = (\<lambda>_. 0), dgc_queue = []\<rparr>,
     gdi := \<lparr>package_type = PACKAGE_TYPE_UNDEF, package_type_asr = PACKAGE_TYPE_UNDEF,
       package_type_rar = PACKAGE_TYPE_UNDEF, tid_local = 0, tid_remote = 0,
       tid_remote_asr = 0, tid_remote_rar = 0, origSysId = 0, receiverId = 0, invokeId = 0\<rparr>\<rparr>"

definition user_session_init :: "'w env \<Rightarrow> nat option \<Rightarrow> 'w dsm \<Rightarrow> 'w dsm" where
  "user_session_init E q s = (case q of
     None \<Rightarrow> cnt ''ds_ccdb_us_init_fail'' (cnt ''ds_us_null'' s)
   | Some p \<Rightarrow> cnt ''ds_ccdb_us_init_succ''
       (cnt ''ds_dgc_qmsg_list_tailq_init'' (upd_us p (us_blank E) s)))"

definition user_session_free :: "'w env \<Rightarrow> nat \<Rightarrow> 'w dsm \<Rightarrow> 'w dsm" where
  "user_session_free E p s = cnt ''ds_api_delete_private_us''
     (upd_world (delete_private E User_session_pool p) (user_session_init E (Some p) s))"

text \<open>The report about one queued message that is discarded with its session.\<close>

definition discard_qmsg :: "'w env \<Rightarrow> nat \<Rightarrow> 'w dsm \<Rightarrow> 'w dsm" where
  "discard_qmsg E i s = (case parm_to_buf E (qmsg (dgc_qmsgs s i) 1) (world s) of
     None \<Rightarrow> cnt ''ds_api_parm_to_buf_fail'' s
   | Some b \<Rightarrow>
       let s = upd_buf b (\<lambda>c. c\<lparr>no_diam := True, no_gdi := True\<rparr>) s;
           (parm, s) = call (buf_to_parm E (Some b)) s
       in if parm < 0 then cnt ''ds_api_buf_to_parm_fail'' s
          else let (rv, s) = call (tell_dgc E (MSG_DIAMCTX E) parm (status_code E FAILURE)
                     (result_value E DIAMETER_UNABLE_TO_COMPLY)) s
               in if rv \<noteq> SUCCESS
                  then let s = cnt ''ds_api_tell_dgc_fail'' s
                       in cnt ''ds_api_fep_free_buffer''
                            (upd_world (fep_free_buffer E (parm_to_buf E (of_int parm) (world s))) s)
                  else cnt ''ds_api_tell_dgc_succ'' s)"

partial_function (option) drain_queue :: "'w env \<Rightarrow> nat \<Rightarrow> 'w dsm \<Rightarrow> 'w dsm option" where
  "drain_queue E p s = (case tailq_first (dgc_queue (diam s p)) of
     None \<Rightarrow> Some s
   | Some i \<Rightarrow> Option.bind (dgc_qmsg_remove E (Some (Some i)) (discard_qmsg E i s))
       (\<lambda>r. drain_queue E p (snd r)))"

definition unset_tcc :: "'w env \<Rightarrow> nat \<Rightarrow> 'w dsm \<Rightarrow> 'w dsm option" where
  "unset_tcc E p s = do {
     (i, s) \<leftarrow> callout_unset E (Some (tcc_id (cc s p))) s;
     Some (upd_cc p (tcc_id_update (\<lambda>_. the i)) s)
   }"

definition unset_tg :: "'w env \<Rightarrow> nat \<Rightarrow> 'w dsm \<Rightarrow> 'w dsm option" where
  "unset_tg E p s = do {
     (i, s) \<leftarrow> callout_unset E (Some (tg_id (cc s p))) s;
     Some (upd_cc p (tg_id_update (\<lambda>_. the i)) s)
   }"

definition unlink_us :: "nat \<Rightarrow> nat \<Rightarrow> 'w dsm \<Rightarrow> 'w dsm option" where
  "unlink_us p l s = do {
     ts \<leftarrow> tailq_remove p (ccdb_time s);
     let s = cnt ''ds_us_tailq_remove_time'' (s\<lparr>ccdb_time := ts\<rparr>);
     xs \<leftarrow> tailq_remove p (ccdb_lists s l);
     Some (cnt ''ds_us_tailq_remove'' (s\<lparr>ccdb_lists := (ccdb_lists s)(l := xs)\<rparr>))
   }"

text \<open>The result is the returned pointer, NULL when the session has been removed.\<close>

definition user_session_remove ::
  "'w env \<Rightarrow> nat option option \<Rightarrow> 'w dsm \<Rightarrow> (nat option \<times> 'w dsm) option" where
  "user_session_remove E p2 s = (case p2 of
     None \<Rightarrow> Some (None, cnt ''ds_ccdb_us_remove_fail'' (cnt ''ds_us_ptr_null'' s))
   | Some None \<Rightarrow> Some (None, cnt ''ds_ccdb_us_remove_fail'' (cnt ''ds_us_null'' s))
   | Some (Some p) \<Rightarrow> (case us_head (sessions s p) of
       None \<Rightarrow> Some (Some p, cnt ''ds_ccdb_us_remove_fail'' (cnt ''ds_us_list_null'' s))
     | Some l \<Rightarrow> do {
         s \<leftarrow> unset_tcc E p s;
         s \<leftarrow> unset_tg E p s;
         s \<leftarrow> drain_queue E p s;
         s \<leftarrow> unlink_us p l s;
         Some (None, cnt ''ds_ccdb_us_remove_succ'' (user_session_free E p s))
       }))"

definition ccdb_qmsg_slot_init :: "nat \<Rightarrow> 'w dsm \<Rightarrow> 'w dsm" where
  "ccdb_qmsg_slot_init i s = dgc_qmsg_init (Some i) (upd_dq i (dq_id_update (\<lambda>_. INDEX_TO_ID i)) s)"

definition ccdb_us_slot_init :: "'w env \<Rightarrow> nat \<Rightarrow> 'w dsm \<Rightarrow> 'w dsm" where
  "ccdb_us_slot_init E i s =
     (let s = user_session_init E (Some i) (upd_us i (us_id_update (\<lambda>_. INDEX_TO_ID i)) s)
      in cnt ''ds_us_list_tailq_init'' (s\<lparr>ccdb_lists := (ccdb_lists s)(i := [])\<rparr>))"

definition initialize_ccdb :: "'w env \<Rightarrow> 'w dsm \<Rightarrow> 'w dsm" where
  "initialize_ccdb E s =
     (let s = cnt ''ds_api_fep_create_private_dgc_qmsg''
            (upd_world (fep_create_private E Dgc_qmsg_pool) s);
          s = cnt ''ds_api_fep_create_private_us''
            (upd_world (fep_create_private E User_session_pool) s);
          s = s\<lparr>ccdb_trap := \<lparr>trap_time_start = 0, trap_sub_id = [], trap_us = None\<rparr>,
                ccdb_tg_expiry := TG_DEF E, ccdb_lists := (\<lambda>_. []), ccdb_time := []\<rparr>;
          s = cnt ''ds_us_list_tailq_init_time'' s;
          s = fold ccdb_qmsg_slot_init [0..<USER_SESSION_SIZE] s
      in fold (ccdb_us_slot_init E) [0..<USER_SESSION_SIZE] s)"

partial_function (option) finalize_ccdb :: "'w env \<Rightarrow> 'w dsm \<Rightarrow> 'w dsm option" where
  "finalize_ccdb E s = (case tailq_first (ccdb_time s) of
     None \<Rightarrow> Some s
   | Some p \<Rightarrow> Option.bind (user_session_remove E (Some (Some p)) s)
       (\<lambda>r. finalize_ccdb E (snd r)))"

section \<open>Lookup and insertion\<close>

definition us_matches :: "bytes \<Rightarrow> int \<Rightarrow> user_session \<Rightarrow> bool" where
  "us_matches sid n u \<longleftrightarrow> session_id_len (diameter u) = n
     \<and> memeq (session_id (diameter u)) sid (nat n)"

definition user_session_get ::
  "'w env \<Rightarrow> bytes option \<Rightarrow> int \<Rightarrow> int \<Rightarrow> 'w dsm \<Rightarrow> nat option \<times> 'w dsm" where
  "user_session_get E sidp n hash_index s = (case sidp of
     None \<Rightarrow> (None, cnt ''ds_ccdb_us_get_fail'' (cnt ''ds_ccdb_us_get_sid_null'' s))
   | Some sid \<Rightarrow>
       if n \<le> 0 \<or> n > MAX_SZ_OCTETSTRING E - 1
       then (None, cnt ''ds_ccdb_us_get_fail'' (cnt ''ds_ccdb_us_get_sid_invalid'' s))
       else if hash_index < 0 \<or> hash_index > uint USER_SESSION_MASK
       then (None, cnt ''ds_ccdb_us_get_fail'' (cnt ''ds_us_list_invalid'' s))
       else
         let l = nat hash_index;
             r = find (\<lambda>q. us_matches sid n (sessions s q)) (ccdb_lists s l);
             s = cnt ''ds_ccdb_us_get_succ'' s
         in case r of
              None \<Rightarrow> (None, s)
            | Some q \<Rightarrow>
                if us_head (sessions s q) = None
                then (Some q, upd_us q (us_head_update (\<lambda>_. Some l)) (cnt ''ds_us_list_null'' s))
                else (Some q, s))"

definition user_session_add ::
  "'w env \<Rightarrow> nat option \<Rightarrow> int \<Rightarrow> 'w dsm \<Rightarrow> nat option \<times> 'w dsm" where
  "user_session_add E pbuf_cc hash_index s = (case pbuf_cc of
     None \<Rightarrow> (None, cnt ''ds_ccdb_us_add_fail'' (cnt ''ds_dc_null'' s))
   | Some b \<Rightarrow>
       if hash_index < 0 \<or> hash_index > uint USER_SESSION_MASK
       then (None, cnt ''ds_ccdb_us_add_fail'' (cnt ''ds_us_list_invalid'' s))
       else let (new, s) = call (new_private E User_session_pool) s
       in case new of
         None \<Rightarrow> (None, cnt ''ds_ccdb_us_add_fail'' (cnt ''ds_api_new_private_fail_us'' s))
       | Some p \<Rightarrow>
           let l = nat hash_index;
               s = cnt ''ds_api_new_private_succ_us'' s;
               s = upd_us p (us_head_update (\<lambda>_. Some l)) s;
               (rv, s) = user_session_save E (Some b) (Some p) s
           in if rv \<noteq> SUCCESS
              then (None, cnt ''ds_ccdb_us_add_fail'' (user_session_free E p s))
              else let s = cnt ''ds_us_tailq_insert_tail_time''
                         (s\<lparr>ccdb_time := tailq_insert_tail p (ccdb_time s)\<rparr>);
                       s = cnt ''ds_us_tailq_insert_tail''
                         (s\<lparr>ccdb_lists := (ccdb_lists s)(l := tailq_insert_tail p (ccdb_lists s l))\<rparr>)
                   in (Some p, cnt ''ds_ccdb_us_add_succ'' s))"

end
