(* ===== verification/Ccdb_Inv.thy ===== *)
theory Ccdb_Inv
  imports Ccdb_Session
begin

text \<open>
  The invariant of the session manager, and which operations leave it alone. \<open>skel\<close> is the part of
  the state the invariant speaks about: the timer wheel, the lists of sessions and queued messages,
  and of each session its links, its timers, its state and its Session-Id. An operation that keeps
  \<open>skel\<close> keeps the invariant, and the rules in \<open>skel_simps\<close> say which do.
\<close>

section \<open>The skeleton of the state\<close>

type_synonym us_skel =
  "ulong \<times> nat option \<times> ulong \<times> ulong \<times> app_sm \<times> state_ccas \<times> nat list \<times> bytes \<times> int"

definition us_skel :: "user_session \<Rightarrow> us_skel" where
  "us_skel u = (us_id u, us_head u, tcc_id (call_context u), tg_id (call_context u),
     asm_id (call_context u), asm_state (call_context u), dgc_queue (diameter u),
     session_id (diameter u), session_id_len (diameter u))"

definition dq_skel :: "dgc_qmsg \<Rightarrow> ulong \<times> nat option \<times> fep_qmsg_t" where
  "dq_skel q = (dq_id q, dq_head q, qmsg q)"

definition skel where
  "skel live s = (callouts s, callwheel s, wheel_index s, ccdb_lists s, ccdb_time s,
     (\<lambda>p. us_skel (sessions s p)), (\<lambda>i. dq_skel (dgc_qmsgs s i)), (\<lambda>P. live P (world s)),
     (\<lambda>b. diamctx_type (bufs s b)))"

named_theorems skel_simps \<open>operations that keep the skeleton\<close>

lemma skel_cnt [simp, skel_simps]: "skel live (cnt c s) = skel live s"
  by (simp add: skel_def)

lemma skel_buf [simp, skel_simps]:
  "(\<And>c. diamctx_type (f c) = diamctx_type c) \<Longrightarrow> skel live (upd_buf b f s) = skel live s"
  by (simp add: skel_def fun_eq_iff)

lemma skel_gdi [simp, skel_simps]: "skel live (upd_gdi p f s) = skel live s"
  by (simp add: skel_def us_skel_def fun_eq_iff)

lemma skel_cc [simp, skel_simps]:
  "(\<And>c. tcc_id (f c) = tcc_id c \<and> tg_id (f c) = tg_id c \<and> asm_id (f c) = asm_id c
      \<and> asm_state (f c) = asm_state c)
   \<Longrightarrow> skel live (upd_cc p f s) = skel live s"
  by (simp add: skel_def us_skel_def fun_eq_iff)

lemma skel_diam [simp, skel_simps]:
  "(\<And>d. dgc_queue (f d) = dgc_queue d \<and> session_id (f d) = session_id d
      \<and> session_id_len (f d) = session_id_len d)
   \<Longrightarrow> skel live (upd_diam p f s) = skel live s"
  by (simp add: skel_def us_skel_def fun_eq_iff)

lemma skel_call: "(\<And>P w. live P (snd (k w)) = live P w) \<Longrightarrow> skel live (snd (call k s)) = skel live s"
  by (simp add: skel_def)

lemma skel_world: "(\<And>P w. live P (f w) = live P w) \<Longrightarrow> skel live (upd_world f s) = skel live s"
  by (simp add: skel_def upd_world_def)

lemma skel_meas [simp, skel_simps]: "skel live (s\<lparr>meas := m\<rparr>) = skel live s"
  by (simp add: skel_def)

lemma skel_trap [simp, skel_simps]: "skel live (s\<lparr>ccdb_trap := m\<rparr>) = skel live s"
  by (simp add: skel_def)

lemma skel_non_us [simp, skel_simps]: "skel live (s\<lparr>non_us_id := m\<rparr>) = skel live s"
  by (simp add: skel_def)

lemma pool_contractD:
  assumes "pool_contract E live"
  shows "fst (new_private E P w) = Some q \<Longrightarrow> q < USER_SESSION_SIZE \<and> q \<notin> live P w
      \<and> (\<forall>P'. live P' (snd (new_private E P w))
             = (if P' = P then insert q (live P w) else live P' w))"
    "fst (new_private E P w) = None \<Longrightarrow> live P' (snd (new_private E P w)) = live P' w"
    "live P' (delete_private E P q w) = (if P' = P then live P w - {q} else live P' w)"
    "live P (snd (fep_alloc_buffer E w)) = live P w" "live P (fep_free_buffer E b w) = live P w"
    "live P (snd (buf_to_parm E b w)) = live P w"
    "live P (snd (tell_dgc E m parm r1 r2 w)) = live P w"
    "live P (snd (tell_fem E m1 m2 m3 m4 w)) = live P w"
    "live P (snd (time_now E w)) = live P w" "live P (snd (c_rand E w)) = live P w"
  using assms unfolding pool_contract_def pool_size_def by simp_all

lemma skel_service [skel_simps]:
  assumes "pool_contract E live"
  shows "skel live (snd (call (fep_alloc_buffer E) s)) = skel live s"
    "skel live (snd (call (buf_to_parm E b) s)) = skel live s"
    "skel live (snd (call (tell_dgc E m parm r1 r2) s)) = skel live s"
    "skel live (snd (call (tell_fem E m1 m2 m3 m4) s)) = skel live s"
    "skel live (snd (call (time_now E) s)) = skel live s"
    "skel live (upd_world (fep_free_buffer E bo) s) = skel live s"
  by (simp_all add: skel_call skel_world pool_contractD [OF assms])

lemma skel_set_peer_fe [simp, skel_simps]: "skel live (snd (set_peer_fe E s)) = skel live s"
  by (simp add: set_peer_fe_def Let_def split: option.split)

lemma skel_set_package_type [simp, skel_simps]:
  "skel live (snd (set_package_type q s)) = skel live s"
  by (simp add: set_package_type_def split: option.split)

lemma skel_set_tid_local [simp, skel_simps]:
  "skel live (snd (set_tid_local E f i s)) = skel live s"
  by (simp add: set_tid_local_def Let_def split: option.split)

lemma skel_set_asm_id [simp, skel_simps]: "skel live (snd (set_asm_id E q s)) = skel live s"
  by (simp add: set_asm_id_def split: option.split)

lemma skel_stt_of [simp, skel_simps]: "skel live (snd (stt_of p e s)) = skel live s"
  by (simp add: stt_of_def case_prod_beta)

lemma skel_set_asm_state [simp, skel_simps]: "skel live (snd (set_asm_state q e s)) = skel live s"
  by (simp add: set_asm_state_def case_prod_beta split: option.split)

lemma skel_check_asm_state [simp, skel_simps]:
  "skel live (snd (check_asm_state q e s)) = skel live s"
  by (simp add: check_asm_state_def case_prod_beta Let_def split: option.split)

lemma skel_set_flags_trap [simp, skel_simps]: "skel live (snd (set_flags_trap q s)) = skel live s"
  by (simp add: set_flags_trap_def split: option.split)

lemma skel_user_session_hash [simp, skel_simps]:
  "skel live (snd (user_session_hash E sid n s)) = skel live s"
  by (simp add: user_session_hash_def Let_def split: option.split)

lemma skel_save_trap [simp, skel_simps]: "skel live (save_trap p s) = skel live s"
  by (simp add: save_trap_def case_prod_beta)

lemma skel_save_ends [simp, skel_simps]:
  "skel live (snd (save_fail s)) = skel live s" "skel live (snd (save_succ s)) = skel live s"
  by (simp_all add: save_fail_def save_succ_def)

lemma skel_touch [skel_simps]:
  "pool_contract E live \<Longrightarrow> skel live (touch E p s) = skel live s"
  by (simp add: touch_def Let_def case_prod_beta skel_service)

lemma skel_save_diam_avps [simp, skel_simps]: "skel live (save_diam_avps E c p s) = skel live s"
  by (simp add: save_diam_avps_def Let_def save_proxies_def)

lemma skel_save_new_tid [simp, skel_simps]: "skel live (snd (save_new_tid E p s)) = skel live s"
  by (simp add: save_new_tid_def case_prod_beta Let_def)

lemma skel_save_tid_local [simp, skel_simps]: "skel live (snd (save_tid_local E p s)) = skel live s"
  by (simp add: save_tid_local_def)

lemma skel_save_gdi [simp, skel_simps]: "skel live (snd (save_gdi E c p s)) = skel live s"
  by (simp add: save_gdi_def save_gdi_cca_def save_gdi_asr_def save_gdi_rar_def save_gdi_sta_def
      case_prod_beta Let_def split: command_code.split package_type.split)

lemma construct_type [simp]:
  "diamctx_type (construct_hosts E d c) = diamctx_type c"
  "diamctx_type (construct_avps u d c) = diamctx_type c"
  by (simp_all add: construct_hosts_def construct_avps_def Let_def split: diamctx_type.split)

lemma skel_construct [simp, skel_simps]:
  "skel live (snd (qmsg_diamctx_construct E b q f s)) = skel live s"
proof -
  have tl: "skel live (construct_tid_local E b p s) = skel live s" for b p s
    by (simp add: construct_tid_local_def case_prod_beta Let_def)
  have rr: "skel live (construct_report_request E b p s) = skel live s" for b p s
    by (simp add: construct_report_request_def Let_def tl)
  have rc: "skel live (construct_report_conv E b p s) = skel live s" for b p s
    by (simp add: construct_report_conv_def Let_def tl)
  have re: "skel live (snd (construct_remote b p s)) = skel live s" for b p s
    by (simp add: construct_remote_def Let_def split: package_type.split)
  have di: "skel live (snd (construct_diam E f b p s)) = skel live s" for b p s
    by (simp add: construct_diam_def Let_def case_prod_beta rr rc re)
  have ud: "skel live (construct_us_data E b p s) = skel live s" for b p s
    by (simp add: construct_us_data_def construct_session_id_def Let_def)
  have gd: "skel live (construct_gdi E f b p s) = skel live s" for b p s
    by (simp add: construct_gdi_def Let_def rr rc ud)
  have co: "skel live (snd (construct_common b p s)) = skel live s" for b p s
    by (simp add: construct_common_def Let_def case_prod_beta)
  have nu: "skel live (snd (construct_no_us E b s)) = skel live s" for b s
    by (simp add: construct_no_us_def Let_def case_prod_beta)
  show ?thesis
    by (simp add: qmsg_diamctx_construct_def Let_def case_prod_beta co di gd nu
        split: option.split diamctx_type.split)
qed

section \<open>Views of the state\<close>

text \<open>What the invariant reads: of a session \<open>p\<close>, of a queued message \<open>i\<close>, of a callout \<open>q\<close>.\<close>

definition uh :: "'w dsm \<Rightarrow> nat \<Rightarrow> nat option" where
  "uh s p = us_head (sessions s p)"

definition uid :: "'w dsm \<Rightarrow> nat \<Rightarrow> ulong" where
  "uid s p = us_id (sessions s p)"

definition tcc :: "'w dsm \<Rightarrow> nat \<Rightarrow> ulong" where
  "tcc s p = tcc_id (call_context (sessions s p))"

definition tg :: "'w dsm \<Rightarrow> nat \<Rightarrow> ulong" where
  "tg s p = tg_id (call_context (sessions s p))"

definition aid :: "'w dsm \<Rightarrow> nat \<Rightarrow> app_sm" where
  "aid s p = asm_id (call_context (sessions s p))"

definition ast :: "'w dsm \<Rightarrow> nat \<Rightarrow> state_ccas" where
  "ast s p = asm_state (call_context (sessions s p))"

definition que :: "'w dsm \<Rightarrow> nat \<Rightarrow> nat list" where
  "que s p = dgc_queue (diameter (sessions s p))"

definition sid :: "'w dsm \<Rightarrow> nat \<Rightarrow> bytes \<times> int" where
  "sid s p = (session_id (diameter (sessions s p)), session_id_len (diameter (sessions s p)))"

definition dqh :: "'w dsm \<Rightarrow> nat \<Rightarrow> nat option" where
  "dqh s i = dq_head (dgc_qmsgs s i)"

definition qms :: "'w dsm \<Rightarrow> nat \<Rightarrow> fep_qmsg_t" where
  "qms s i = qmsg (dgc_qmsgs s i)"

definition bty :: "'w dsm \<Rightarrow> nat \<Rightarrow> diamctx_type" where
  "bty s b = diamctx_type (bufs s b)"

definition coh :: "'w dsm \<Rightarrow> nat \<Rightarrow> nat option" where
  "coh s q = co_head (callouts s q)"

definition cof :: "'w dsm \<Rightarrow> nat \<Rightarrow> timeout_t option" where
  "cof s q = c_func (callouts s q)"

definition coa :: "'w dsm \<Rightarrow> nat \<Rightarrow> nat option" where
  "coa s q = c_arg (callouts s q)"

lemmas view_defs = uh_def uid_def tcc_def tg_def aid_def ast_def que_def sid_def dqh_def qms_def
  bty_def coh_def cof_def coa_def

text \<open>The views in terms of the state as the operations read it.\<close>

lemma view_fold:
  "us_head (sessions s p) = uh s p" "us_id (sessions s p) = uid s p" "tcc_id (cc s p) = tcc s p"
  "tg_id (cc s p) = tg s p" "asm_id (cc s p) = aid s p" "asm_state (cc s p) = ast s p"
  "dgc_queue (diam s p) = que s p" "dq_head (dgc_qmsgs s i) = dqh s i"
  "qmsg (dgc_qmsgs s i) = qms s i" "diamctx_type (bufs s b) = bty s b"
  "co_head (callouts s q) = coh s q" "c_func (callouts s q) = cof s q"
  "c_arg (callouts s q) = coa s q"
  by (simp_all add: view_defs cc_def diam_def)

lemma skel_views:
  assumes "skel live s' = skel live s"
  shows "uh s' = uh s" "uid s' = uid s" "tcc s' = tcc s" "tg s' = tg s" "aid s' = aid s"
    "ast s' = ast s" "que s' = que s" "sid s' = sid s" "dqh s' = dqh s" "coh s' = coh s"
    "cof s' = cof s" "coa s' = coa s" "callouts s' = callouts s" "callwheel s' = callwheel s"
    "wheel_index s' = wheel_index s" "ccdb_lists s' = ccdb_lists s" "ccdb_time s' = ccdb_time s"
    "live P (world s') = live P (world s)"
    "qms s' = qms s" "bty s' = bty s"
  using assms by (auto simp: skel_def us_skel_def dq_skel_def view_defs fun_eq_iff dest!: fun_cong)

lemma view_cnt [simp]:
  "uh (cnt c s) = uh s" "uid (cnt c s) = uid s" "tcc (cnt c s) = tcc s" "tg (cnt c s) = tg s"
  "aid (cnt c s) = aid s" "ast (cnt c s) = ast s" "que (cnt c s) = que s" "sid (cnt c s) = sid s"
  "dqh (cnt c s) = dqh s" "coh (cnt c s) = coh s" "cof (cnt c s) = cof s" "coa (cnt c s) = coa s"
  "qms (cnt c s) = qms s" "bty (cnt c s) = bty s"
  by (simp_all add: view_defs fun_eq_iff)

section \<open>The invariant\<close>

text \<open>
  A session is in the list its link names and in the list by age, exactly when it has a link.
\<close>

definition wf_us :: "'w dsm \<Rightarrow> bool" where
  "wf_us s \<longleftrightarrow> (\<forall>l. distinct (ccdb_lists s l)) \<and> distinct (ccdb_time s)
     \<and> (\<forall>p l. uh s p = Some l \<longleftrightarrow> p \<in> set (ccdb_lists s l))
     \<and> (\<forall>p. uh s p \<noteq> None \<longleftrightarrow> p \<in> set (ccdb_time s))
     \<and> (\<forall>p. uh s p \<noteq> None \<longrightarrow> p < USER_SESSION_SIZE)
     \<and> (\<forall>p < USER_SESSION_SIZE. uid s p = INDEX_TO_ID p)"

definition wf_queue :: "'w dsm \<Rightarrow> bool" where
  "wf_queue s \<longleftrightarrow> (\<forall>p. distinct (que s p)) \<and> (\<forall>i p. dqh s i = Some p \<longleftrightarrow> i \<in> set (que s p))
     \<and> (\<forall>p. uh s p = None \<longrightarrow> que s p = [])"

text \<open>The elements in use are those the pools have handed out.\<close>

definition wf_live :: "(pool \<Rightarrow> 'w \<Rightarrow> nat set) \<Rightarrow> 'w dsm \<Rightarrow> bool" where
  "wf_live live s \<longleftrightarrow> live User_session_pool (world s) = {p. uh s p \<noteq> None}
     \<and> live Dgc_qmsg_pool (world s) = {i. dqh s i \<noteq> None}
     \<and> live Callout_pool (world s) = {q. coh s q \<noteq> None}"

definition precedes :: "nat \<Rightarrow> nat \<Rightarrow> nat list \<Rightarrow> bool" where
  "precedes x y xs \<longleftrightarrow> y \<notin> set (takeWhile (\<lambda>z. z \<noteq> x) xs)"

text \<open>
  Timers belong to sessions: the identifiers a session holds are those of its own pending timers,
  and every pending timer is held by its session. When both timers of a session are in one slot,
  the supervision timer \<open>Tcc\<close> comes first: the callback of \<open>Tg\<close> may free it.
\<close>

definition tcc_owned :: "'w dsm \<Rightarrow> nat \<Rightarrow> bool" where
  "tcc_owned s p \<longleftrightarrow> (ID_VALID (tcc s p) \<longrightarrow> (let q = ID_TO_INDEX (tcc s p) in
     coh s q \<noteq> None \<and> cof s q = Some Process_expire_tcc \<and> coa s q = Some p))"

definition tg_owned :: "'w dsm \<Rightarrow> nat \<Rightarrow> bool" where
  "tg_owned s p \<longleftrightarrow> (ID_VALID (tg s p) \<longrightarrow> (let q = ID_TO_INDEX (tg s p) in
     coh s q \<noteq> None \<and> cof s q = Some Process_expire_tg \<and> coa s q = Some p))"

definition timer_held :: "'w dsm \<Rightarrow> nat \<Rightarrow> bool" where
  "timer_held s q \<longleftrightarrow> (\<exists>p. coa s q = Some p \<and> uh s p \<noteq> None \<and>
     (cof s q = Some Process_expire_tcc \<and> tcc s p = INDEX_TO_ID q
      \<or> cof s q = Some Process_expire_tg \<and> tg s p = INDEX_TO_ID q))"

definition tcc_first :: "'w dsm \<Rightarrow> nat \<Rightarrow> bool" where
  "tcc_first s p \<longleftrightarrow> (\<forall>l. ID_VALID (tcc s p) \<longrightarrow> ID_VALID (tg s p) \<longrightarrow>
     ID_TO_INDEX (tcc s p) \<in> set (callwheel s l) \<longrightarrow>
     ID_TO_INDEX (tg s p) \<in> set (callwheel s l) \<longrightarrow>
     precedes (ID_TO_INDEX (tcc s p)) (ID_TO_INDEX (tg s p)) (callwheel s l))"

definition own :: "nat set \<Rightarrow> 'w dsm \<Rightarrow> bool" where
  "own D s \<longleftrightarrow> (\<forall>p. uh s p \<noteq> None \<longrightarrow> tcc_owned s p \<and> tg_owned s p \<and> tcc_first s p)
     \<and> (\<forall>q. coh s q \<noteq> None \<longrightarrow> q \<notin> D \<longrightarrow> timer_held s q)
     \<and> (\<forall>p. uh s p = None \<longrightarrow> tcc s p = ID_UNDEF \<and> tg s p = ID_UNDEF)"

definition winv :: "(pool \<Rightarrow> 'w \<Rightarrow> nat set) \<Rightarrow> nat set \<Rightarrow> 'w dsm \<Rightarrow> bool" where
  "winv live D s \<longleftrightarrow> wf_tdb D s \<and> wf_us s \<and> wf_queue s \<and> wf_live live s \<and> own D s
     \<and> D \<subseteq> {q. coh s q \<noteq> None}"

lemma inv_skel:
  assumes "skel live s' = skel live s"
  shows "winv live D s' = winv live D s"
proof -
  note v = skel_views [OF assms]
  have "wf_tdb D s' = wf_tdb D s"
    by (rule same_tdb_wf) (simp add: same_tdb_def v)
  moreover have "wf_us s' = wf_us s" by (simp only: wf_us_def v)
  moreover have "wf_queue s' = wf_queue s" by (simp only: wf_queue_def v)
  moreover have "wf_live live s' = wf_live live s" by (simp only: wf_live_def v)
  moreover have "own D s' = own D s"
    by (simp only: own_def tcc_owned_def tg_owned_def timer_held_def tcc_first_def v)
  ultimately show ?thesis by (simp only: winv_def v)
qed

lemma invD:
  assumes "winv live D s"
  shows "wf_tdb D s" "wf_us s" "wf_queue s" "wf_live live s" "own D s" "D \<subseteq> {q. coh s q \<noteq> None}"
  using assms by (simp_all add: winv_def)

end
