(* ===== verification/Ccdb_Timers.thy ===== *)
theory Ccdb_Timers
  imports Ccdb_Inv
begin

text \<open>
  Setting and cancelling the timers of a session keeps the invariant: the two places where a
  session's timer identifier and the wheel change together.
\<close>

section \<open>Cancelling\<close>

lemma takeWhile_remove1:
  "z \<noteq> x \<Longrightarrow> set (takeWhile (\<lambda>a. a \<noteq> x) (remove1 z xs)) \<subseteq> set (takeWhile (\<lambda>a. a \<noteq> x) xs)"
proof (induction xs)
  case (Cons a xs)
  thus ?case by (cases "a = z"; cases "a = x") auto
qed simp

lemma precedes_remove1:
  assumes "precedes x y xs" "z \<noteq> x"
  shows "precedes x y (remove1 z xs)"
  using takeWhile_remove1 [OF assms(2), of xs] assms(1) unfolding precedes_def by blast

lemma precedes_append: "x \<in> set xs \<Longrightarrow> precedes x y xs \<Longrightarrow> precedes x y (xs @ ys)"
  unfolding precedes_def by (subst takeWhile_append1 [of x]) auto

lemma precedes_new: "x \<in> set xs \<Longrightarrow> y \<notin> set xs \<Longrightarrow> precedes x y (xs @ [y])"
  unfolding precedes_def by (subst takeWhile_append1 [of x]) (auto dest: set_takeWhileD)

text \<open>The views of a state in which the linked callout \<open>q\<close> has been unlinked and freed.\<close>

definition cancelled :: "'w env \<Rightarrow> nat \<Rightarrow> nat \<Rightarrow> 'w dsm \<Rightarrow> 'w dsm" where
  "cancelled E l q s = cnt ''ds_tdb_co_unset_succ'' (callout_free E q (unlinked l q s))"

lemma cancelled_views:
  "uh (cancelled E l q s) = uh s" "uid (cancelled E l q s) = uid s" "tcc (cancelled E l q s) = tcc s"
  "tg (cancelled E l q s) = tg s" "aid (cancelled E l q s) = aid s" "ast (cancelled E l q s) = ast s"
  "que (cancelled E l q s) = que s" "sid (cancelled E l q s) = sid s" "dqh (cancelled E l q s) = dqh s"
  "coh (cancelled E l q s) = (coh s)(q := None)" "cof (cancelled E l q s) = (cof s)(q := None)"
  "coa (cancelled E l q s) = (coa s)(q := None)"
  "callwheel (cancelled E l q s) = (callwheel s)(l := remove1 q (callwheel s l))"
  "ccdb_lists (cancelled E l q s) = ccdb_lists s" "ccdb_time (cancelled E l q s) = ccdb_time s"
  "world (cancelled E l q s) = delete_private E Callout_pool q (world s)"
  by (simp_all add: cancelled_def view_defs fun_eq_iff own_callout_free)

lemma cancelled_wf_tdb:
  assumes "wf_tdb D s" "q \<in> set (callwheel s l)"
  shows "wf_tdb D (cancelled E l q s)"
  using wf_free [OF wf_unlink [OF assms] unlinked_gone [OF assms], of E] wf_tdbD(8) [OF assms]
  by (simp add: cancelled_def)

definition set_tcc_id :: "nat \<Rightarrow> ulong \<Rightarrow> 'w dsm \<Rightarrow> 'w dsm" where
  "set_tcc_id p i = upd_cc p (tcc_id_update (\<lambda>_. i))"

definition set_tg_id :: "nat \<Rightarrow> ulong \<Rightarrow> 'w dsm \<Rightarrow> 'w dsm" where
  "set_tg_id p i = upd_cc p (tg_id_update (\<lambda>_. i))"

lemma set_tcc_id_views:
  "uh (set_tcc_id p i s) = uh s" "uid (set_tcc_id p i s) = uid s"
  "tcc (set_tcc_id p i s) = (tcc s)(p := i)"
  "tg (set_tcc_id p i s) = tg s" "aid (set_tcc_id p i s) = aid s" "ast (set_tcc_id p i s) = ast s"
  "que (set_tcc_id p i s) = que s" "sid (set_tcc_id p i s) = sid s" "dqh (set_tcc_id p i s) = dqh s"
  "coh (set_tcc_id p i s) = coh s" "cof (set_tcc_id p i s) = cof s" "coa (set_tcc_id p i s) = coa s"
  "callwheel (set_tcc_id p i s) = callwheel s" "callouts (set_tcc_id p i s) = callouts s"
  "wheel_index (set_tcc_id p i s) = wheel_index s"
  "ccdb_lists (set_tcc_id p i s) = ccdb_lists s" "ccdb_time (set_tcc_id p i s) = ccdb_time s"
  "world (set_tcc_id p i s) = world s"
  by (simp_all add: set_tcc_id_def view_defs fun_eq_iff)

lemma set_tg_id_views:
  "uh (set_tg_id p i s) = uh s" "uid (set_tg_id p i s) = uid s"
  "tcc (set_tg_id p i s) = tcc s"
  "tg (set_tg_id p i s) = (tg s)(p := i)" "aid (set_tg_id p i s) = aid s" "ast (set_tg_id p i s) = ast s"
  "que (set_tg_id p i s) = que s" "sid (set_tg_id p i s) = sid s" "dqh (set_tg_id p i s) = dqh s"
  "coh (set_tg_id p i s) = coh s" "cof (set_tg_id p i s) = cof s" "coa (set_tg_id p i s) = coa s"
  "callwheel (set_tg_id p i s) = callwheel s" "callouts (set_tg_id p i s) = callouts s"
  "wheel_index (set_tg_id p i s) = wheel_index s"
  "ccdb_lists (set_tg_id p i s) = ccdb_lists s" "ccdb_time (set_tg_id p i s) = ccdb_time s"
  "world (set_tg_id p i s) = world s"
  by (simp_all add: set_tg_id_def view_defs fun_eq_iff)

lemma wf_tdb_set_id [simp]:
  "wf_tdb D (set_tcc_id p i s) = wf_tdb D s" "wf_tdb D (set_tg_id p i s) = wf_tdb D s"
  by (rule same_tdb_wf, simp add: same_tdb_def set_tcc_id_views set_tg_id_views)+

lemma held_index:
  assumes "wf_tdb D s" "coh s q \<noteq> None" "q \<notin> D"
  shows "q < USER_SESSION_SIZE"
  using assms wf_tdbD(4,9) [OF assms(1), of q] by (auto simp: coh_def)

lemma in_wheel:
  assumes "wf_tdb D s"
  shows "q \<in> set (callwheel s l) \<Longrightarrow> coh s q = Some l" "coh s q = Some l \<Longrightarrow> q \<notin> D \<Longrightarrow> q \<in> set (callwheel s l)"
  using wf_tdbD(5,9) [OF assms, of q l] by (simp_all add: coh_def)

lemma own_cancel_tcc:
  assumes own: "own D s" and wf: "wf_tdb D s" and p: "uh s p \<noteq> None" and v: "ID_VALID (tcc s p)"
    and q: "q = ID_TO_INDEX (tcc s p)" "coh s q = Some l"
  shows "own D (set_tcc_id p ID_UNDEF (cancelled E l q s))"
proof -
  let ?s = "set_tcc_id p ID_UNDEF (cancelled E l q s)"
  note V = set_tcc_id_views cancelled_views
  have o: "tcc_owned s p'" "tg_owned s p'" "tcc_first s p'" if "uh s p' \<noteq> None" for p'
    using own that by (auto simp: own_def)
  have cp: "coa s q = Some p" "cof s q = Some Process_expire_tcc"
    using o(1) [OF p] v q by (auto simp: tcc_owned_def Let_def)
  have "tcc_owned ?s p' \<and> tg_owned ?s p' \<and> tcc_first ?s p'" if h: "uh s p' \<noteq> None" for p'
  proof -
    have "tcc_owned ?s p'" using o(1) [OF h] cp by (auto simp: tcc_owned_def Let_def V)
    moreover have "tg_owned ?s p'" using o(2) [OF h] cp by (auto simp: tg_owned_def Let_def V)
    moreover have "tcc_first ?s p'"
      unfolding tcc_first_def
    proof (intro allI impI)
      fix k
      assume a: "ID_VALID (tcc ?s p')" "ID_VALID (tg ?s p')"
        "ID_TO_INDEX (tcc ?s p') \<in> set (callwheel ?s k)" "ID_TO_INDEX (tg ?s p') \<in> set (callwheel ?s k)"
      hence ne: "p' \<noteq> p" and ne': "ID_TO_INDEX (tcc s p') \<noteq> q"
        using o(1) [OF h] cp by (auto simp: V tcc_owned_def Let_def split: if_splits)
      from a have "precedes (ID_TO_INDEX (tcc s p')) (ID_TO_INDEX (tg s p')) (callwheel s k)"
        using o(3) [OF h] ne by (auto simp: V tcc_first_def dest: notin_set_remove1 split: if_splits)
      thus "precedes (ID_TO_INDEX (tcc ?s p')) (ID_TO_INDEX (tg ?s p')) (callwheel ?s k)"
        using ne ne' by (auto simp: V intro: precedes_remove1)
    qed
    ultimately show ?thesis by blast
  qed
  moreover have "timer_held ?s q'" if h: "coh ?s q' \<noteq> None" "q' \<notin> D" for q'
  proof -
    have q': "q' \<noteq> q" "coh s q' \<noteq> None" using h(1) by (auto simp: V split: if_splits)
    have "timer_held s q'" using own q'(2) h(2) by (auto simp: own_def)
    moreover have "tcc s p = INDEX_TO_ID q' \<Longrightarrow> False"
      using held_index [OF wf q'(2) h(2)] q(1) q'(1) by simp
    ultimately show ?thesis using q'(1) by (auto simp: timer_held_def V)
  qed
  moreover have "tcc ?s p' = ID_UNDEF \<and> tg ?s p' = ID_UNDEF" if "uh s p' = None" for p'
    using own that by (auto simp: own_def V)
  ultimately show ?thesis unfolding own_def by (simp add: V)
qed

lemma own_cancel_tg:
  assumes own: "own D s" and wf: "wf_tdb D s" and p: "uh s p \<noteq> None" and v: "ID_VALID (tg s p)"
    and q: "q = ID_TO_INDEX (tg s p)" "coh s q = Some l"
  shows "own D (set_tg_id p ID_UNDEF (cancelled E l q s))"
proof -
  let ?s = "set_tg_id p ID_UNDEF (cancelled E l q s)"
  note V = set_tg_id_views cancelled_views
  have o: "tcc_owned s p'" "tg_owned s p'" "tcc_first s p'" if "uh s p' \<noteq> None" for p'
    using own that by (auto simp: own_def)
  have cp: "coa s q = Some p" "cof s q = Some Process_expire_tg"
    using o(2) [OF p] v q by (auto simp: tg_owned_def Let_def)
  have "tcc_owned ?s p' \<and> tg_owned ?s p' \<and> tcc_first ?s p'" if h: "uh s p' \<noteq> None" for p'
  proof -
    have "tcc_owned ?s p'" using o(1) [OF h] cp by (auto simp: tcc_owned_def Let_def V)
    moreover have "tg_owned ?s p'" using o(2) [OF h] cp by (auto simp: tg_owned_def Let_def V)
    moreover have "tcc_first ?s p'"
      unfolding tcc_first_def
    proof (intro allI impI)
      fix k
      assume a: "ID_VALID (tcc ?s p')" "ID_VALID (tg ?s p')"
        "ID_TO_INDEX (tcc ?s p') \<in> set (callwheel ?s k)" "ID_TO_INDEX (tg ?s p') \<in> set (callwheel ?s k)"
      hence ne: "p' \<noteq> p" and ne': "ID_TO_INDEX (tcc s p') \<noteq> q"
        using o(1) [OF h] cp by (auto simp: V tcc_owned_def Let_def split: if_splits)
      from a have "precedes (ID_TO_INDEX (tcc s p')) (ID_TO_INDEX (tg s p')) (callwheel s k)"
        using o(3) [OF h] ne by (auto simp: V tcc_first_def dest: notin_set_remove1 split: if_splits)
      thus "precedes (ID_TO_INDEX (tcc ?s p')) (ID_TO_INDEX (tg ?s p')) (callwheel ?s k)"
        using ne ne' by (auto simp: V intro: precedes_remove1)
    qed
    ultimately show ?thesis by blast
  qed
  moreover have "timer_held ?s q'" if h: "coh ?s q' \<noteq> None" "q' \<notin> D" for q'
  proof -
    have q': "q' \<noteq> q" "coh s q' \<noteq> None" using h(1) by (auto simp: V split: if_splits)
    have "timer_held s q'" using own q'(2) h(2) by (auto simp: own_def)
    moreover have "tg s p = INDEX_TO_ID q' \<Longrightarrow> False"
      using held_index [OF wf q'(2) h(2)] q(1) q'(1) by simp
    ultimately show ?thesis using q'(1) by (auto simp: timer_held_def V)
  qed
  moreover have "tcc ?s p' = ID_UNDEF \<and> tg ?s p' = ID_UNDEF" if "uh s p' = None" for p'
    using own that by (auto simp: own_def V)
  ultimately show ?thesis unfolding own_def by (simp add: V)
qed


lemma wf_us_views:
  assumes "uh s' = uh s" "uid s' = uid s" "ccdb_lists s' = ccdb_lists s"
    "ccdb_time s' = ccdb_time s"
  shows "wf_us s' = wf_us s"
  by (simp only: wf_us_def assms)

lemma wf_queue_views:
  assumes "uh s' = uh s" "que s' = que s" "dqh s' = dqh s"
  shows "wf_queue s' = wf_queue s"
  by (simp only: wf_queue_def assms)

lemma inv_cancel:
  assumes I: "winv live D s" and E: "pool_contract E live" and p: "uh s p \<noteq> None"
    and q: "coh s q = Some l" "q \<notin> D"
  shows "ID_VALID (tcc s p) \<Longrightarrow> q = ID_TO_INDEX (tcc s p)
      \<Longrightarrow> winv live D (set_tcc_id p ID_UNDEF (cancelled E l q s))"
    and "ID_VALID (tg s p) \<Longrightarrow> q = ID_TO_INDEX (tg s p)
      \<Longrightarrow> winv live D (set_tg_id p ID_UNDEF (cancelled E l q s))"
proof -
  note J = invD [OF I] and V = set_tcc_id_views set_tg_id_views cancelled_views
  have w: "wf_tdb D (cancelled E l q s)"
    by (rule cancelled_wf_tdb [OF J(1) in_wheel(2) [OF J(1) q]])
  have DL: "D \<subseteq> {r. ((coh s)(q := None)) r \<noteq> None}" using J(6) q(2) by auto
  have l: "wf_live live (cancelled E l q s)"
    using J(4) by (auto simp: wf_live_def V pool_contractD(3) [OF E])
  have l': "wf_live live (set_tcc_id p ID_UNDEF (cancelled E l q s))"
    "wf_live live (set_tg_id p ID_UNDEF (cancelled E l q s))"
    using l by (simp_all add: wf_live_def V)
  show "ID_VALID (tcc s p) \<Longrightarrow> q = ID_TO_INDEX (tcc s p)
      \<Longrightarrow> winv live D (set_tcc_id p ID_UNDEF (cancelled E l q s))"
    using w l' own_cancel_tcc [OF J(5,1) p _ _ q(1)] J(2,3) DL
      wf_us_views [of "set_tcc_id p ID_UNDEF (cancelled E l q s)" s]
      wf_queue_views [of "set_tcc_id p ID_UNDEF (cancelled E l q s)" s]
    by (simp add: winv_def V)
  show "ID_VALID (tg s p) \<Longrightarrow> q = ID_TO_INDEX (tg s p)
      \<Longrightarrow> winv live D (set_tg_id p ID_UNDEF (cancelled E l q s))"
    using w l' own_cancel_tg [OF J(5,1) p _ _ q(1)] J(2,3) DL
      wf_us_views [of "set_tg_id p ID_UNDEF (cancelled E l q s)" s]
      wf_queue_views [of "set_tg_id p ID_UNDEF (cancelled E l q s)" s]
    by (simp add: winv_def V)
qed

lemma ownD:
  assumes "own D s"
  shows "uh s p \<noteq> None \<Longrightarrow> tcc_owned s p" "uh s p \<noteq> None \<Longrightarrow> tg_owned s p"
    "uh s p \<noteq> None \<Longrightarrow> tcc_first s p" "coh s q \<noteq> None \<Longrightarrow> q \<notin> D \<Longrightarrow> timer_held s q"
    "uh s p = None \<Longrightarrow> tcc s p = ID_UNDEF" "uh s p = None \<Longrightarrow> tg s p = ID_UNDEF"
  using assms by (auto simp: own_def)

lemma ownI:
  assumes "\<And>p. uh s p \<noteq> None \<Longrightarrow> tcc_owned s p" "\<And>p. uh s p \<noteq> None \<Longrightarrow> tg_owned s p"
    "\<And>p. uh s p \<noteq> None \<Longrightarrow> tcc_first s p"
    "\<And>q. coh s q \<noteq> None \<Longrightarrow> q \<notin> D \<Longrightarrow> timer_held s q"
    "\<And>p. uh s p = None \<Longrightarrow> tcc s p = ID_UNDEF \<and> tg s p = ID_UNDEF"
  shows "own D s"
  unfolding own_def using assms by blast

text \<open>An identifier that names no held timer may be reset at any time.\<close>

lemma own_reset:
  assumes own: "own D s" and p: "\<And>q. coh s q \<noteq> None \<Longrightarrow> q \<notin> D' \<Longrightarrow> q \<notin> D \<and> i \<noteq> INDEX_TO_ID q"
  shows "tcc s p = i \<Longrightarrow> own D' (set_tcc_id p ID_UNDEF s)"
    and "tg s p = i \<Longrightarrow> own D' (set_tg_id p ID_UNDEF s)"
proof -
  note V = set_tcc_id_views set_tg_id_views and O = ownD [OF own]
  show "own D' (set_tcc_id p ID_UNDEF s)" if i: "tcc s p = i"
  proof (rule ownI)
    fix q
    assume q: "coh (set_tcc_id p ID_UNDEF s) q \<noteq> None" "q \<notin> D'"
    hence "timer_held s q" "i \<noteq> INDEX_TO_ID q" using O(4) p by (auto simp: V)
    thus "timer_held (set_tcc_id p ID_UNDEF s) q" using i by (auto simp: timer_held_def V)
  qed (use O in \<open>auto simp: V tcc_owned_def tg_owned_def tcc_first_def\<close>)
  show "own D' (set_tg_id p ID_UNDEF s)" if i: "tg s p = i"
  proof (rule ownI)
    fix q
    assume q: "coh (set_tg_id p ID_UNDEF s) q \<noteq> None" "q \<notin> D'"
    hence "timer_held s q" "i \<noteq> INDEX_TO_ID q" using O(4) p by (auto simp: V)
    thus "timer_held (set_tg_id p ID_UNDEF s) q" using i by (auto simp: timer_held_def V)
  qed (use O in \<open>auto simp: V tcc_owned_def tg_owned_def tcc_first_def\<close>)
qed

lemma inv_reset:
  assumes I: "winv live D s" and p: "\<And>q. coh s q \<noteq> None \<Longrightarrow> q \<notin> D \<Longrightarrow> i \<noteq> INDEX_TO_ID q"
  shows "tcc s p = i \<Longrightarrow> winv live D (set_tcc_id p ID_UNDEF s)"
    and "tg s p = i \<Longrightarrow> winv live D (set_tg_id p ID_UNDEF s)"
proof -
  note J = invD [OF I] and V = set_tcc_id_views set_tg_id_views
  have w: "wf_live live (set_tcc_id p ID_UNDEF s)" "wf_live live (set_tg_id p ID_UNDEF s)"
    using J(4) by (simp_all add: wf_live_def V)
  have w': "wf_us (set_tcc_id p ID_UNDEF s) = wf_us s" "wf_us (set_tg_id p ID_UNDEF s) = wf_us s"
    "wf_queue (set_tcc_id p ID_UNDEF s) = wf_queue s" "wf_queue (set_tg_id p ID_UNDEF s) = wf_queue s"
    by (intro wf_us_views wf_queue_views; simp add: V)+
  show "tcc s p = i \<Longrightarrow> winv live D (set_tcc_id p ID_UNDEF s)"
    using own_reset(1) [OF J(5), of D i p] p J w w' by (simp add: winv_def V)
  show "tg s p = i \<Longrightarrow> winv live D (set_tg_id p ID_UNDEF s)"
    using own_reset(2) [OF J(5), of D i p] p J w w' by (simp add: winv_def V)
qed

lemma invalid_not_held:
  assumes "winv live D s" "\<not> ID_VALID i" "coh s q \<noteq> None" "q \<notin> D"
  shows "i \<noteq> INDEX_TO_ID q"
  using held_index [OF invD(1) [OF assms(1)] assms(3,4)] assms(2) ID_VALID_INDEX_TO_ID by blast

text \<open>
  The two cancel operations on a session in the table. The result is given exactly: the timer
  found and removed, or only counters.
\<close>

lemma unset_tcc_cases:
  assumes I: "winv live D s" and E: "pool_contract E live" and p: "uh s p \<noteq> None"
    and D: "ID_VALID (tcc s p) \<Longrightarrow> ID_TO_INDEX (tcc s p) \<notin> D"
  obtains l where "ID_VALID (tcc s p)" "coh s (ID_TO_INDEX (tcc s p)) = Some l"
      "unset_tcc E p s = Some (set_tcc_id p ID_UNDEF (cancelled E l (ID_TO_INDEX (tcc s p)) s))"
      "winv live D (set_tcc_id p ID_UNDEF (cancelled E l (ID_TO_INDEX (tcc s p)) s))"
  | c where "\<not> ID_VALID (tcc s p)"
      "unset_tcc E p s = Some (set_tcc_id p ID_UNDEF (cnt ''ds_tdb_co_unset_fail'' (cnt c s)))"
      "winv live D (set_tcc_id p ID_UNDEF (cnt ''ds_tdb_co_unset_fail'' (cnt c s)))"
proof (cases "ID_VALID (tcc s p)")
  case True
  let ?q = "ID_TO_INDEX (tcc s p)"
  obtain l where l: "coh s ?q = Some l"
    using ownD(1) [OF invD(5) [OF I] p] True by (auto simp: tcc_owned_def Let_def)
  have "unset_tcc E p s = Some (set_tcc_id p ID_UNDEF (cancelled E l ?q s))"
    using callout_unset_linked [OF True, of s l E] l in_wheel(2) [OF invD(1) [OF I] l D [OF True]]
    by (simp add: unset_tcc_def view_fold set_tcc_id_def cancelled_def)
  thus ?thesis using that(1) [OF True l] inv_cancel(1) [OF I E p l D [OF True] True] by simp
next
  case False
  have u: "unset_tcc E p s
      = Some (set_tcc_id p ID_UNDEF (cnt ''ds_tdb_co_unset_fail'' (cnt ''ds_co_id_invalid'' s)))"
    using False by (simp add: unset_tcc_def callout_unset_def view_fold set_tcc_id_def)
  let ?s = "cnt ''ds_tdb_co_unset_fail'' (cnt ''ds_co_id_invalid'' s)"
  have I': "winv live D ?s" using I inv_skel [of live ?s s] by simp
  have "winv live D (set_tcc_id p ID_UNDEF ?s)"
    by (rule inv_reset(1) [OF I' invalid_not_held [OF I' False]]) simp_all
  thus ?thesis using that(2) [OF False u] by simp
qed

lemma unset_tg_cases:
  assumes I: "winv live D s" and E: "pool_contract E live" and p: "uh s p \<noteq> None"
    and D: "ID_VALID (tg s p) \<Longrightarrow> ID_TO_INDEX (tg s p) \<notin> D"
  obtains l where "ID_VALID (tg s p)" "coh s (ID_TO_INDEX (tg s p)) = Some l"
      "unset_tg E p s = Some (set_tg_id p ID_UNDEF (cancelled E l (ID_TO_INDEX (tg s p)) s))"
      "winv live D (set_tg_id p ID_UNDEF (cancelled E l (ID_TO_INDEX (tg s p)) s))"
  | c where "\<not> ID_VALID (tg s p)"
      "unset_tg E p s = Some (set_tg_id p ID_UNDEF (cnt ''ds_tdb_co_unset_fail'' (cnt c s)))"
      "winv live D (set_tg_id p ID_UNDEF (cnt ''ds_tdb_co_unset_fail'' (cnt c s)))"
proof (cases "ID_VALID (tg s p)")
  case True
  let ?q = "ID_TO_INDEX (tg s p)"
  obtain l where l: "coh s ?q = Some l"
    using ownD(2) [OF invD(5) [OF I] p] True by (auto simp: tg_owned_def Let_def)
  have "unset_tg E p s = Some (set_tg_id p ID_UNDEF (cancelled E l ?q s))"
    using callout_unset_linked [OF True, of s l E] l in_wheel(2) [OF invD(1) [OF I] l D [OF True]]
    by (simp add: unset_tg_def view_fold set_tg_id_def cancelled_def)
  thus ?thesis using that(1) [OF True l] inv_cancel(2) [OF I E p l D [OF True] True] by simp
next
  case False
  have u: "unset_tg E p s
      = Some (set_tg_id p ID_UNDEF (cnt ''ds_tdb_co_unset_fail'' (cnt ''ds_co_id_invalid'' s)))"
    using False by (simp add: unset_tg_def callout_unset_def view_fold set_tg_id_def)
  let ?s = "cnt ''ds_tdb_co_unset_fail'' (cnt ''ds_co_id_invalid'' s)"
  have I': "winv live D ?s" using I inv_skel [of live ?s s] by simp
  have "winv live D (set_tg_id p ID_UNDEF ?s)"
    by (rule inv_reset(2) [OF I' invalid_not_held [OF I' False]]) simp_all
  thus ?thesis using that(2) [OF False u] by simp
qed

section \<open>Setting\<close>

text \<open>
  \<open>p->call_context.tg_id = callout_set (process_expire_tg, p, (p->call_context.tg_expiry =
  ccdb.tg_expiry))\<close> and its counterpart for Tcc, which occur several times in the code.
\<close>

definition start_tg :: "'w env \<Rightarrow> nat \<Rightarrow> 'w dsm \<Rightarrow> 'w dsm" where
  "start_tg E p s =
    (let e = ccdb_tg_expiry s;
         s = upd_cc p (tg_expiry_update (\<lambda>_. e)) s;
         (i, s) = callout_set E (Some Process_expire_tg) (Some p) e s
     in upd_cc p (tg_id_update (\<lambda>_. i)) s)"

definition start_tcc :: "'w env \<Rightarrow> nat \<Rightarrow> 'w dsm \<Rightarrow> 'w dsm" where
  "start_tcc E p s =
    (let (i, s) = callout_set E (Some Process_expire_tcc) (Some p) (tcc_expiry (cc s p)) s
     in upd_cc p (tcc_id_update (\<lambda>_. i)) s)"

lemma view_callout_set:
  "uh (snd (callout_set E f a e s)) = uh s" "uid (snd (callout_set E f a e s)) = uid s"
  "tcc (snd (callout_set E f a e s)) = tcc s" "tg (snd (callout_set E f a e s)) = tg s"
  "aid (snd (callout_set E f a e s)) = aid s" "ast (snd (callout_set E f a e s)) = ast s"
  "que (snd (callout_set E f a e s)) = que s" "sid (snd (callout_set E f a e s)) = sid s"
  "dqh (snd (callout_set E f a e s)) = dqh s"
  by (simp_all add: view_defs fun_eq_iff)

text \<open>
  A new callout \<open>q\<close> in slot \<open>l\<close>: what it changes in the views. The slot is not named; a new
  element of the current slot has at least one rotation to wait.
\<close>

definition added :: "nat \<Rightarrow> nat \<Rightarrow> timeout_t \<Rightarrow> nat \<Rightarrow> 'w dsm \<Rightarrow> 'w dsm \<Rightarrow> bool" where
  "added q l f p s s' \<longleftrightarrow> coh s q = None \<and> q < USER_SESSION_SIZE
     \<and> coh s' = (coh s)(q := Some l) \<and> cof s' = (cof s)(q := Some f) \<and> coa s' = (coa s)(q := Some p)
     \<and> callwheel s' = (callwheel s)(l := callwheel s l @ [q])
     \<and> (\<forall>r. r \<noteq> q \<longrightarrow> callouts s' r = callouts s r)
     \<and> wheel_index s' = wheel_index s
     \<and> (int l = wheel_index s \<longrightarrow> 1 \<le> c_period (callouts s' q))"

lemma free_callout_iff:
  assumes "winv live D s" "pool_contract E live"
    "fst (new_private E Callout_pool (world s)) = Some q"
  shows "free_callout s q" "q \<notin> D" "coh s q = None"
proof -
  have n: "coh s q = None" "q < USER_SESSION_SIZE"
    using pool_contractD(1) [OF assms(2,3)] invD(4) [OF assms(1)] by (auto simp: wf_live_def)
  show "free_callout s q" "coh s q = None" using n by (simp_all add: free_callout_def coh_def)
  show "q \<notin> D" using invD(6) [OF assms(1)] n by auto
qed

lemma period_of_current:
  assumes "0 \<le> w" "w < CALLWHEELSIZE" "1 \<le> n" "(w + n) mod CALLWHEELSIZE = w"
  shows "1 \<le> drop_bit CALLWHEELBITS n"
proof -
  have d: "drop_bit CALLWHEELBITS n = n div CALLWHEELSIZE"
    by (simp add: drop_bit_eq_div CALLWHEELBITS_def CALLWHEELSIZE_def)
  have "n < CALLWHEELSIZE \<Longrightarrow> False"
  proof -
    assume n: "n < CALLWHEELSIZE"
    have "(w + n) mod CALLWHEELSIZE = w mod CALLWHEELSIZE" using assms by simp
    hence "CALLWHEELSIZE dvd n" by (simp add: mod_eq_dvd_iff)
    thus False using n assms(3) by (auto dest: zdvd_imp_le)
  qed
  hence "CALLWHEELSIZE \<le> n" by (cases "n < CALLWHEELSIZE") auto
  hence "CALLWHEELSIZE div CALLWHEELSIZE \<le> n div CALLWHEELSIZE"
    by (intro zdiv_mono1) (simp_all add: CALLWHEELSIZE_def)
  thus ?thesis by (simp add: d CALLWHEELSIZE_def)
qed

lemma callout_set_cases:
  assumes I: "winv live D s" and E: "pool_contract E live"
  obtains q l where "fst (callout_set E (Some f) (Some p) e s) = INDEX_TO_ID q"
      "added q l f p s (snd (callout_set E (Some f) (Some p) e s))"
      "wf_tdb D (snd (callout_set E (Some f) (Some p) e s))"
      "world (snd (callout_set E (Some f) (Some p) e s)) = snd (new_private E Callout_pool (world s))"
      "fst (new_private E Callout_pool (world s)) = Some q" "q \<notin> D"
  | "fst (callout_set E (Some f) (Some p) e s) = ID_UNDEF"
      "skel live (snd (callout_set E (Some f) (Some p) e s)) = skel live s"
proof (cases "e \<le> 0")
  case True
  thus ?thesis using that(2) by (simp add: callout_set_nonpos)
next
  case e: False
  hence e: "0 < e" by simp
  note wf = invD(1) [OF I]
  show ?thesis
  proof (cases "fst (new_private E Callout_pool (world s))")
    case None
    have "skel live (snd (callout_set E (Some f) (Some p) e s)) = skel live s"
      using None e pool_contractD(2) [OF E None]
      by (simp add: callout_set_def callout_new_def Let_def case_prod_beta skel_def)
    thus ?thesis using that(2) callout_set_None(1) [OF None] by blast
  next
    case (Some q)
    note F = free_callout_iff [OF I E Some] and S = callout_set_Some [OF wf e Some]
    define n where "n = max e CALLOUTTIMER div CALLOUTTIMER"
    define l where "l = nat ((wheel_index s + n) mod CALLWHEELSIZE)"
    have n: "1 \<le> n"
      using zdiv_mono1 [of CALLOUTTIMER "max e CALLOUTTIMER" CALLOUTTIMER]
      by (simp add: n_def CALLOUTTIMER_def)
    have "0 \<le> (wheel_index s + n) mod CALLWHEELSIZE" by (simp add: CALLWHEELSIZE_def)
    hence "int l = wheel_index s \<Longrightarrow> 1 \<le> drop_bit CALLWHEELBITS n"
      using period_of_current [OF wf_tdbD(1,2) [OF wf] n] by (simp add: l_def)
    hence a: "added q l f p s (snd (callout_set E (Some f) (Some p) e s))"
      using F unfolding added_def
      by (simp add: S n_def [symmetric] l_def [symmetric] free_callout_def coh_def cof_def coa_def fun_eq_iff)
    show ?thesis
      using that(1) [OF _ a] S(1,4) callout_set_wf [OF wf e F(1,2) Some] F Some
        wf_tdbD(10) [OF wf, of q] by (simp add: free_callout_def)
  qed
qed

lemma own_added:
  assumes own: "own D s" and wf: "wf_tdb D s" and p: "uh s p \<noteq> None"
    and ad: "added q l f p s s'" and q: "q \<notin> D"
    and fr: "uh s' = uh s" "tcc s' = tcc s" "tg s' = tg s"
  shows "f = Process_expire_tg \<Longrightarrow> \<not> ID_VALID (tg s p)
      \<Longrightarrow> own D (set_tg_id p (INDEX_TO_ID q) s')"
    and "f = Process_expire_tcc \<Longrightarrow> \<not> ID_VALID (tcc s p) \<Longrightarrow> \<not> ID_VALID (tg s p)
      \<Longrightarrow> own D (set_tcc_id p (INDEX_TO_ID q) s')"
proof -
  note O = ownD [OF own]
  note A = ad [unfolded added_def] and V = set_tcc_id_views set_tg_id_views
  have c: "coh s q = None" "q < USER_SESSION_SIZE" "coh s' = (coh s)(q := Some l)"
    "cof s' = (cof s)(q := Some f)" "coa s' = (coa s)(q := Some p)"
    "callwheel s' = (callwheel s)(l := callwheel s l @ [q])"
    using A by simp_all
  have qn: "q \<notin> set (callwheel s k)" for k using in_wheel(1) [OF wf, of q k] c(1) by auto
  have ne: "coh s r \<noteq> None \<Longrightarrow> r \<noteq> q" for r using c(1) by auto
  have tcc_ne: "ID_TO_INDEX (tcc s p') \<noteq> q" if "uh s p' \<noteq> None" "ID_VALID (tcc s p')" for p'
    using O(1) [OF that(1)] that(2) ne by (auto simp: tcc_owned_def Let_def)
  have tg_ne: "ID_TO_INDEX (tg s p') \<noteq> q" if "uh s p' \<noteq> None" "ID_VALID (tg s p')" for p'
    using O(2) [OF that(1)] that(2) ne by (auto simp: tg_owned_def Let_def)
  have first: "precedes (ID_TO_INDEX (tcc s p')) (ID_TO_INDEX (tg s p')) (callwheel s' k)"
    if "uh s p' \<noteq> None" "ID_VALID (tcc s p')" "ID_VALID (tg s p')"
      "ID_TO_INDEX (tcc s p') \<in> set (callwheel s' k)" "ID_TO_INDEX (tg s p') \<in> set (callwheel s' k)"
    for p' k
  proof -
    have m: "ID_TO_INDEX (tcc s p') \<in> set (callwheel s k)" "ID_TO_INDEX (tg s p') \<in> set (callwheel s k)"
      using that tcc_ne [OF that(1,2)] tg_ne [OF that(1,3)] by (auto simp: c split: if_splits)
    hence "precedes (ID_TO_INDEX (tcc s p')) (ID_TO_INDEX (tg s p')) (callwheel s k)"
      using O(3) [OF that(1)] that(2,3) by (simp add: tcc_first_def)
    thus ?thesis using precedes_append [OF m(1)] by (auto simp: c)
  qed
  have held: "timer_held s r" if "coh s' r \<noteq> None" "r \<notin> D" "r \<noteq> q" for r
    using O(4) that by (simp add: c)
  show "own D (set_tg_id p (INDEX_TO_ID q) s')"
    if f: "f = Process_expire_tg" and v: "\<not> ID_VALID (tg s p)"
  proof (rule ownI)
    fix p'
    assume "uh (set_tg_id p (INDEX_TO_ID q) s') p' \<noteq> None"
    hence h: "uh s p' \<noteq> None" by (simp add: V fr)
    show "tcc_owned (set_tg_id p (INDEX_TO_ID q) s') p'"
      using O(1) [OF h] tcc_ne [OF h] by (auto simp: tcc_owned_def Let_def V fr c)
    show "tg_owned (set_tg_id p (INDEX_TO_ID q) s') p'"
      using O(2) [OF h] tg_ne [OF h] c(2) f by (auto simp: tg_owned_def Let_def V fr c)
    show "tcc_first (set_tg_id p (INDEX_TO_ID q) s') p'"
    proof (cases "p' = p")
      case True
      thus ?thesis
        using c(2) tcc_ne [OF h] qn precedes_new [of "ID_TO_INDEX (tcc s p)" _ q]
        by (auto simp: tcc_first_def V fr c(6))
    next
      case False
      thus ?thesis using first [OF h] by (auto simp: tcc_first_def V fr)
    qed
  next
    fix r
    assume r: "coh (set_tg_id p (INDEX_TO_ID q) s') r \<noteq> None" "r \<notin> D"
    show "timer_held (set_tg_id p (INDEX_TO_ID q) s') r"
    proof (cases "r = q")
      case True
      thus ?thesis using p f by (simp add: timer_held_def V fr c)
    next
      case False
      have "tg s p = INDEX_TO_ID r \<Longrightarrow> False"
        using v held_index [OF wf, of r] r False by (auto simp: V c)
      thus ?thesis using held [of r] r False by (auto simp: timer_held_def V fr c)
    qed
  next
    fix p'
    assume "uh (set_tg_id p (INDEX_TO_ID q) s') p' = None"
    thus "tcc (set_tg_id p (INDEX_TO_ID q) s') p' = ID_UNDEF
        \<and> tg (set_tg_id p (INDEX_TO_ID q) s') p' = ID_UNDEF"
      using O(5,6) p by (auto simp: V fr)
  qed
  show "own D (set_tcc_id p (INDEX_TO_ID q) s')"
    if f: "f = Process_expire_tcc" and v: "\<not> ID_VALID (tcc s p)" "\<not> ID_VALID (tg s p)"
  proof (rule ownI)
    fix p'
    assume "uh (set_tcc_id p (INDEX_TO_ID q) s') p' \<noteq> None"
    hence h: "uh s p' \<noteq> None" by (simp add: V fr)
    show "tcc_owned (set_tcc_id p (INDEX_TO_ID q) s') p'"
      using O(1) [OF h] tcc_ne [OF h] c(2) f by (auto simp: tcc_owned_def Let_def V fr c)
    show "tg_owned (set_tcc_id p (INDEX_TO_ID q) s') p'"
      using O(2) [OF h] tg_ne [OF h] by (auto simp: tg_owned_def Let_def V fr c)
    show "tcc_first (set_tcc_id p (INDEX_TO_ID q) s') p'"
      using first [OF h] v(2) by (cases "p' = p") (auto simp: tcc_first_def V fr)
  next
    fix r
    assume r: "coh (set_tcc_id p (INDEX_TO_ID q) s') r \<noteq> None" "r \<notin> D"
    show "timer_held (set_tcc_id p (INDEX_TO_ID q) s') r"
    proof (cases "r = q")
      case True
      thus ?thesis using p f by (simp add: timer_held_def V fr c)
    next
      case False
      have "tcc s p = INDEX_TO_ID r \<Longrightarrow> False"
        using v held_index [OF wf, of r] r False by (auto simp: V c)
      thus ?thesis using held [of r] r False by (auto simp: timer_held_def V fr c)
    qed
  next
    fix p'
    assume "uh (set_tcc_id p (INDEX_TO_ID q) s') p' = None"
    thus "tcc (set_tcc_id p (INDEX_TO_ID q) s') p' = ID_UNDEF
        \<and> tg (set_tcc_id p (INDEX_TO_ID q) s') p' = ID_UNDEF"
      using O(5,6) p by (auto simp: V fr)
  qed
qed

lemma view_upd_cc:
  "uh (upd_cc p f s) = uh s" "uid (upd_cc p f s) = uid s" "que (upd_cc p f s) = que s"
  "sid (upd_cc p f s) = sid s" "dqh (upd_cc p f s) = dqh s" "coh (upd_cc p f s) = coh s"
  "cof (upd_cc p f s) = cof s" "coa (upd_cc p f s) = coa s"
  "tcc (upd_cc p f s) = (tcc s)(p := tcc_id (f (cc s p)))"
  "tg (upd_cc p f s) = (tg s)(p := tg_id (f (cc s p)))"
  "aid (upd_cc p f s) = (aid s)(p := asm_id (f (cc s p)))"
  "ast (upd_cc p f s) = (ast s)(p := asm_state (f (cc s p)))"
  by (simp_all add: view_defs fun_eq_iff cc_def)

lemma tcc_id_cc: "tcc_id (cc s p) = tcc s p" "tg_id (cc s p) = tg s p" "asm_id (cc s p) = aid s p"
  "asm_state (cc s p) = ast s p"
  by (simp_all add: view_defs cc_def)

lemma start_tg_views [simp]:
  "uh (start_tg E p s) = uh s" "uid (start_tg E p s) = uid s" "tcc (start_tg E p s) = tcc s"
  "aid (start_tg E p s) = aid s" "ast (start_tg E p s) = ast s" "que (start_tg E p s) = que s"
  "sid (start_tg E p s) = sid s" "dqh (start_tg E p s) = dqh s"
  "ccdb_lists (start_tg E p s) = ccdb_lists s" "ccdb_time (start_tg E p s) = ccdb_time s"
  "wheel_index (start_tg E p s) = wheel_index s" "bufs (start_tg E p s) = bufs s"
  by (simp_all add: start_tg_def case_prod_beta Let_def view_upd_cc view_callout_set tcc_id_cc
      fun_upd_idem)

lemma start_tcc_views [simp]:
  "uh (start_tcc E p s) = uh s" "uid (start_tcc E p s) = uid s" "tg (start_tcc E p s) = tg s"
  "aid (start_tcc E p s) = aid s" "ast (start_tcc E p s) = ast s" "que (start_tcc E p s) = que s"
  "sid (start_tcc E p s) = sid s" "dqh (start_tcc E p s) = dqh s"
  "ccdb_lists (start_tcc E p s) = ccdb_lists s" "ccdb_time (start_tcc E p s) = ccdb_time s"
  "wheel_index (start_tcc E p s) = wheel_index s" "bufs (start_tcc E p s) = bufs s"
  by (simp_all add: start_tcc_def case_prod_beta Let_def view_upd_cc view_callout_set tcc_id_cc
      fun_upd_idem)

lemma winv_added:
  assumes I: "winv live D s" and E: "pool_contract E live" and p: "uh s p \<noteq> None"
    and ad: "added q l f p s s'" and q: "q \<notin> D" and wf: "wf_tdb D s'"
    and new: "fst (new_private E Callout_pool (world s)) = Some q"
      "world s' = snd (new_private E Callout_pool (world s))"
    and fr: "uh s' = uh s" "tcc s' = tcc s" "tg s' = tg s" "uid s' = uid s" "aid s' = aid s"
      "que s' = que s" "dqh s' = dqh s" "ccdb_lists s' = ccdb_lists s" "ccdb_time s' = ccdb_time s"
  shows "f = Process_expire_tg \<Longrightarrow> \<not> ID_VALID (tg s p)
      \<Longrightarrow> winv live D (set_tg_id p (INDEX_TO_ID q) s')"
    and "f = Process_expire_tcc \<Longrightarrow> \<not> ID_VALID (tcc s p) \<Longrightarrow> \<not> ID_VALID (tg s p)
      \<Longrightarrow> winv live D (set_tcc_id p (INDEX_TO_ID q) s')"
proof -
  note J = invD [OF I] and V = set_tcc_id_views set_tg_id_views
  have c: "coh s' = (coh s)(q := Some l)" using ad by (simp add: added_def)
  have "wf_us s' = wf_us s" "wf_queue s' = wf_queue s"
    by (intro wf_us_views wf_queue_views; simp add: fr)+
  moreover have "wf_live live s'"
    using J(4) pool_contractD(1) [OF E new(1)] by (auto simp: wf_live_def new(2) fr c)
  moreover have "D \<subseteq> {r. coh s' r \<noteq> None}" using J(6) by (auto simp: c)
  ultimately have w: "wf_us s'" "wf_queue s'" "wf_live live s'" "D \<subseteq> {r. coh s' r \<noteq> None}"
    using J by simp_all
  have w': "wf_us (set_tcc_id p i s') = wf_us s'" "wf_us (set_tg_id p i s') = wf_us s'"
    "wf_queue (set_tcc_id p i s') = wf_queue s'" "wf_queue (set_tg_id p i s') = wf_queue s'" for i
    by (intro wf_us_views wf_queue_views; simp add: V)+
  have l': "wf_live live (set_tcc_id p i s') = wf_live live s'"
    "wf_live live (set_tg_id p i s') = wf_live live s'" for i
    by (simp_all add: wf_live_def V)
  show "winv live D (set_tg_id p (INDEX_TO_ID q) s')"
    if "f = Process_expire_tg" "\<not> ID_VALID (tg s p)"
    using own_added(1) [OF J(5,1) p ad q fr(1-3) that] w wf
    unfolding winv_def w' l' by (simp add: V)
  show "winv live D (set_tcc_id p (INDEX_TO_ID q) s')"
    if "f = Process_expire_tcc" "\<not> ID_VALID (tcc s p)" "\<not> ID_VALID (tg s p)"
    using own_added(2) [OF J(5,1) p ad q fr(1-3) that] w wf
    unfolding winv_def w' l' by (simp add: V)
qed

text \<open>
  What a callback may do to the wheel: add one callout for \<open>p\<close> at the end of a slot, or nothing.
\<close>

definition wheel_same :: "'w dsm \<Rightarrow> 'w dsm \<Rightarrow> bool" where
  "wheel_same s s' \<longleftrightarrow> callouts s' = callouts s \<and> callwheel s' = callwheel s \<and> wheel_index s' = wheel_index s"

lemma start_tg_cases:
  assumes I: "winv live D s" and E: "pool_contract E live" and p: "uh s p \<noteq> None"
    and v: "\<not> ID_VALID (tg s p)"
  shows "winv live D (start_tg E p s)
    \<and> ((\<exists>q l. tg (start_tg E p s) = (tg s)(p := INDEX_TO_ID q)
            \<and> added q l Process_expire_tg p s (start_tg E p s))
       \<or> tg (start_tg E p s) = (tg s)(p := ID_UNDEF) \<and> wheel_same s (start_tg E p s))"
proof -
  define s0 where "s0 = upd_cc p (tg_expiry_update (\<lambda>_. ccdb_tg_expiry s)) s"
  have sk: "skel live s0 = skel live s" by (simp add: s0_def)
  have I0: "winv live D s0" using I inv_skel [OF sk] by simp
  let ?c = "callout_set E (Some Process_expire_tg) (Some p) (ccdb_tg_expiry s) s0"
  have st: "start_tg E p s = set_tg_id p (fst ?c) (snd ?c)"
    by (simp add: start_tg_def Let_def case_prod_beta s0_def set_tg_id_def)
  note V0 = skel_views [OF sk] and V = set_tg_id_views
  show ?thesis
  proof (rule callout_set_cases [OF I0 E, of Process_expire_tg p "ccdb_tg_expiry s"], goal_cases)
    case (1 q l)
    have "winv live D (start_tg E p s)"
      using winv_added(1) [OF I0 E _ 1(2) 1(6,3,5,4)] p v by (simp add: st 1(1) view_callout_set V0)
    moreover have "added q l Process_expire_tg p s (start_tg E p s)"
      using 1(2) by (simp add: added_def st V V0)
    ultimately show ?thesis by (auto simp: st V 1(1) view_callout_set V0)
  next
    case 2
    note V2 = skel_views [OF 2(2)]
    have I2: "winv live D (snd ?c)" using I0 inv_skel [OF 2(2)] by simp
    have "winv live D (start_tg E p s)"
      unfolding st 2(1)
      by (rule inv_reset(2) [OF I2 invalid_not_held [OF I2]]) (use v in \<open>simp_all add: V2 V0\<close>)
    thus ?thesis by (simp add: st V 2(1) wheel_same_def V2 V0)
  qed
qed

lemma start_tcc_cases:
  assumes I: "winv live D s" and E: "pool_contract E live" and p: "uh s p \<noteq> None"
    and v: "\<not> ID_VALID (tcc s p)" "\<not> ID_VALID (tg s p)"
  shows "winv live D (start_tcc E p s)
    \<and> ((\<exists>q l. tcc (start_tcc E p s) = (tcc s)(p := INDEX_TO_ID q)
            \<and> added q l Process_expire_tcc p s (start_tcc E p s))
       \<or> tcc (start_tcc E p s) = (tcc s)(p := ID_UNDEF) \<and> wheel_same s (start_tcc E p s))"
proof -
  let ?c = "callout_set E (Some Process_expire_tcc) (Some p) (tcc_expiry (cc s p)) s"
  have st: "start_tcc E p s = set_tcc_id p (fst ?c) (snd ?c)"
    by (simp add: start_tcc_def Let_def case_prod_beta set_tcc_id_def)
  note V = set_tcc_id_views
  show ?thesis
  proof (rule callout_set_cases [OF I E, of Process_expire_tcc p "tcc_expiry (cc s p)"], goal_cases)
    case (1 q l)
    have "winv live D (start_tcc E p s)"
      using winv_added(2) [OF I E _ 1(2) 1(6,3,5,4)] p v by (simp add: st 1(1) view_callout_set)
    moreover have "added q l Process_expire_tcc p s (start_tcc E p s)"
      using 1(2) by (simp add: added_def st V)
    ultimately show ?thesis by (auto simp: st V 1(1) view_callout_set)
  next
    case 2
    note V2 = skel_views [OF 2(2)]
    have I2: "winv live D (snd ?c)" using I inv_skel [OF 2(2)] by simp
    have "winv live D (start_tcc E p s)"
      unfolding st 2(1)
      by (rule inv_reset(1) [OF I2 invalid_not_held [OF I2]]) (use v in \<open>simp_all add: V2\<close>)
    thus ?thesis by (simp add: st V 2(1) wheel_same_def V2)
  qed
qed

end
