(* ===== verification/Ccdb_Table.thy ===== *)
theory Ccdb_Table
  imports Ccdb_Timers
begin

text \<open>
  The operations on the session table and on the message queues keep the invariant and return:
  removing a queued message, discarding a session's queue, removing a session with everything that
  belongs to it, adding a session. \<open>get\<close> finds the session with a given Session-Id, if any.
\<close>

section \<open>Queued messages\<close>

definition q_frame :: "'w dsm \<Rightarrow> 'w dsm \<Rightarrow> bool" where
  "q_frame s s' \<longleftrightarrow> uh s' = uh s \<and> uid s' = uid s \<and> tcc s' = tcc s \<and> tg s' = tg s \<and> aid s' = aid s
     \<and> ast s' = ast s \<and> sid s' = sid s \<and> callouts s' = callouts s \<and> callwheel s' = callwheel s
     \<and> wheel_index s' = wheel_index s \<and> ccdb_lists s' = ccdb_lists s \<and> ccdb_time s' = ccdb_time s"

lemma q_frame_refl [simp]: "q_frame s s"
  by (simp add: q_frame_def)

lemma q_frame_trans: "q_frame s s' \<Longrightarrow> q_frame s' s'' \<Longrightarrow> q_frame s s''"
  by (simp add: q_frame_def)

lemma q_frame_skel:
  assumes "skel live s' = skel live s"
  shows "q_frame s s'"
  by (simp add: q_frame_def skel_views [OF assms])

lemma co_views:
  assumes "callouts s' = callouts s"
  shows "coh s' = coh s" "cof s' = cof s" "coa s' = coa s"
  using assms by (simp_all add: view_defs fun_eq_iff)

lemma q_frame_own: "q_frame s s' \<Longrightarrow> own D s' = own D s"
  unfolding own_def tcc_owned_def tg_owned_def timer_held_def tcc_first_def q_frame_def
  by (simp add: co_views [of s' s])

lemma winv_queue:
  assumes I: "winv live D s" and f: "q_frame s s'" and w: "wf_queue s'"
    and l: "live User_session_pool (world s') = live User_session_pool (world s)"
      "live Callout_pool (world s') = live Callout_pool (world s)"
      "live Dgc_qmsg_pool (world s') = {i. dqh s' i \<noteq> None}"
  shows "winv live D s'"
proof -
  note J = invD [OF I] and F = f [unfolded q_frame_def]
  have "wf_tdb D s'" using J(1) F by (subst same_tdb_wf [of s]) (simp_all add: same_tdb_def)
  moreover have "wf_us s'" using J(2) F wf_us_views [of s' s] by simp
  moreover have "wf_live live s'" using J(4) l F co_views [of s' s] by (simp add: wf_live_def)
  moreover have "own D s'" using J(5) q_frame_own [OF f] by simp
  moreover have "D \<subseteq> {q. coh s' q \<noteq> None}" using J(6) F co_views [of s' s] by simp
  ultimately show ?thesis using w by (simp add: winv_def)
qed

text \<open>What is needed of the state is only that the queues are well formed.\<close>

lemma dgc_qmsg_remove_wf:
  assumes Q: "wf_queue s" and i: "dqh s i = Some p"
  shows "\<exists>s'. dgc_qmsg_remove E (Some (Some i)) s = Some (Some None, s') \<and> wf_queue s'
    \<and> q_frame s s' \<and> que s' = (que s)(p := remove1 i (que s p)) \<and> dqh s' = (dqh s)(i := None)
    \<and> bufs s' = bufs s \<and> world s' = delete_private E Dgc_qmsg_pool i (world s)"
proof -
  have m: "i \<in> set (que s p)" and d: "\<And>p. distinct (que s p)"
    and iff: "\<And>i p. dqh s i = Some p \<longleftrightarrow> i \<in> set (que s p)"
    and e: "\<And>p. uh s p = None \<Longrightarrow> que s p = []"
    using Q i by (auto simp: wf_queue_def)
  define s' where "s' = cnt ''ds_ccdb_dgc_qmsg_remove_succ'' (dgc_qmsg_free E i
    (cnt ''ds_dgc_qmsg_tailq_remove'' (upd_diam p (dgc_queue_update (\<lambda>_. remove1 i (que s p))) s)))"
  have r: "dgc_qmsg_remove E (Some (Some i)) s = Some (Some None, s')"
    using i m by (simp add: dgc_qmsg_remove_def view_fold tailq_remove_def s'_def Let_def)
  have v: "que s' = (que s)(p := remove1 i (que s p))" "dqh s' = (dqh s)(i := None)"
    "uh s' = uh s" "uid s' = uid s" "tcc s' = tcc s" "tg s' = tg s" "aid s' = aid s"
    "ast s' = ast s" "sid s' = sid s" "callouts s' = callouts s" "callwheel s' = callwheel s"
    "wheel_index s' = wheel_index s" "ccdb_lists s' = ccdb_lists s" "ccdb_time s' = ccdb_time s"
    "bufs s' = bufs s" "world s' = delete_private E Dgc_qmsg_pool i (world s)"
    by (auto simp: s'_def dgc_qmsg_free_def dgc_qmsg_init_def view_defs fun_eq_iff upd_world_def)
  have "wf_queue s'"
    unfolding wf_queue_def v
  proof (intro conjI allI impI)
    fix p'
    show "distinct (((que s)(p := remove1 i (que s p))) p')" using d by simp
    show "uh s p' = None \<Longrightarrow> ((que s)(p := remove1 i (que s p))) p' = []"
      using e [of p'] e [of p] m by auto
    fix j
    show "(((dqh s)(i := None)) j = Some p') = (j \<in> set (((que s)(p := remove1 i (que s p))) p'))"
      using iff [of j p'] iff [of i p'] i d [of p] by auto
  qed
  thus ?thesis using r v by (auto simp: q_frame_def)
qed

lemma dgc_qmsg_remove_ok:
  assumes I: "winv live D s" and E: "pool_contract E live" and i: "dqh s i = Some p"
  shows "\<exists>s'. dgc_qmsg_remove E (Some (Some i)) s = Some (Some None, s') \<and> winv live D s'
    \<and> q_frame s s' \<and> que s' = (que s)(p := remove1 i (que s p)) \<and> dqh s' = (dqh s)(i := None)
    \<and> bufs s' = bufs s"
proof -
  obtain s' where s': "dgc_qmsg_remove E (Some (Some i)) s = Some (Some None, s')" "wf_queue s'"
    "q_frame s s'" "que s' = (que s)(p := remove1 i (que s p))" "dqh s' = (dqh s)(i := None)"
    "bufs s' = bufs s" "world s' = delete_private E Dgc_qmsg_pool i (world s)"
    using dgc_qmsg_remove_wf [OF invD(3) [OF I] i, of E] by blast
  have "live Dgc_qmsg_pool (world s') = {j. dqh s' j \<noteq> None}"
    using invD(4) [OF I] by (auto simp: wf_live_def s'(5,7) pool_contractD(3) [OF E])
  hence "winv live D s'"
    by (intro winv_queue [OF I s'(3,2)]) (simp_all add: s'(7) pool_contractD(3) [OF E])
  thus ?thesis using s' by blast
qed

lemma dgc_qmsg_free_again:
  assumes "dqh s i = None"
  shows "dgc_qmsg_remove E (Some (Some i)) s = Some (Some (Some i),
    cnt ''ds_ccdb_dgc_qmsg_remove_fail'' (cnt ''ds_dgc_qmsg_list_null'' s))"
  using assms by (simp add: dgc_qmsg_remove_def view_fold)

lemma skel_discard:
  assumes E: "pool_contract E live"
  shows "skel live (discard_qmsg E i s) = skel live s"
proof -
  have f: "skel live (upd_world (fep_free_buffer E b) t) = skel live t"
    and c: "skel live (snd (call (buf_to_parm E bo) t)) = skel live t"
      "skel live (snd (call (tell_dgc E m parm r1 r2) t)) = skel live t" for b bo m parm r1 r2 t
    by (simp_all add: skel_service [OF E])
  show ?thesis
    by (simp add: discard_qmsg_def Let_def case_prod_beta f c split: option.split)
qed

lemma drain_queue_gen:
  assumes "P s" and Q: "\<And>s. P s \<Longrightarrow> wf_queue s"
    and step: "\<And>s i. P s \<Longrightarrow> dqh s i = Some p \<Longrightarrow>
      \<exists>s'. dgc_qmsg_remove E (Some (Some i)) (discard_qmsg E i s) = Some (Some None, s') \<and> P s'
        \<and> q_frame s s' \<and> que s' = (que s)(p := remove1 i (que s p))"
  shows "\<exists>s'. drain_queue E p s = Some s' \<and> P s' \<and> q_frame s s' \<and> que s' = (que s)(p := [])"
  using assms(1)
proof (induction "length (que s p)" arbitrary: s)
  case 0
  thus ?case by (subst drain_queue.simps) (simp add: view_fold fun_upd_idem)
next
  case (Suc n)
  then obtain i js where q: "que s p = i # js" by (cases "que s p") auto
  have "dqh s i = Some p" using Q [OF Suc.prems] q by (auto simp: wf_queue_def)
  then obtain s1 where s1: "dgc_qmsg_remove E (Some (Some i)) (discard_qmsg E i s) = Some (Some None, s1)"
    "P s1" "q_frame s s1" "que s1 = (que s)(p := remove1 i (que s p))"
    using step [OF Suc.prems] by blast
  have q1: "que s1 = (que s)(p := js)" using s1(4) q by simp
  have "n = length (que s1 p)" using Suc.hyps(2) q q1 by simp
  from Suc.hyps(1) [OF this s1(2)] obtain s' where s': "drain_queue E p s1 = Some s'"
    "P s'" "q_frame s1 s'" "que s' = (que s1)(p := [])" by blast
  have "drain_queue E p s = Some s'"
    using q s1(1) s'(1) by (subst drain_queue.simps) (simp add: view_fold)
  thus ?case using s'(2,4) q1 q_frame_trans [OF s1(3) s'(3)] by auto
qed

lemma drain_queue_ok:
  assumes I: "winv live D s" and E: "pool_contract E live"
  shows "\<exists>s'. drain_queue E p s = Some s' \<and> winv live D s' \<and> q_frame s s'
    \<and> que s' = (que s)(p := [])"
proof (rule drain_queue_gen [of "winv live D", OF I invD(3)])
  fix s i assume I: "winv live D s" and i: "dqh s i = Some p"
  note sk = skel_discard [OF E, of i s] and v = skel_views [OF skel_discard [OF E, of i s]]
  have "winv live D (discard_qmsg E i s)" using I inv_skel [OF sk] by simp
  from dgc_qmsg_remove_ok [OF this E, of i p] obtain s' where
    "dgc_qmsg_remove E (Some (Some i)) (discard_qmsg E i s) = Some (Some None, s')" "winv live D s'"
    "q_frame (discard_qmsg E i s) s'" "que s' = (que s)(p := remove1 i (que s p))"
    using i v by auto
  thus "\<exists>s'. dgc_qmsg_remove E (Some (Some i)) (discard_qmsg E i s) = Some (Some None, s')
    \<and> winv live D s' \<and> q_frame s s' \<and> que s' = (que s)(p := remove1 i (que s p))"
    using q_frame_trans [OF q_frame_skel [OF sk]] by blast
qed

section \<open>Timers of a session\<close>

text \<open>The wheel without the callouts in \<open>X\<close>.\<close>

definition wheel_minus :: "nat set \<Rightarrow> 'w dsm \<Rightarrow> 'w dsm \<Rightarrow> bool" where
  "wheel_minus X s s' \<longleftrightarrow> (\<forall>l. callwheel s' l = filter (\<lambda>q. q \<notin> X) (callwheel s l))
     \<and> (\<forall>r. r \<notin> X \<longrightarrow> callouts s' r = callouts s r) \<and> wheel_index s' = wheel_index s"

lemma wheel_minus_trans:
  "wheel_minus X s s' \<Longrightarrow> wheel_minus Y s' s'' \<Longrightarrow> wheel_minus (X \<union> Y) s s''"
  by (auto simp: wheel_minus_def intro: filter_cong)

lemma wheel_minus_empty: "wheel_same s s' \<Longrightarrow> wheel_minus {} s s'"
  by (simp add: wheel_minus_def wheel_same_def)

definition held :: "ulong \<Rightarrow> nat set" where
  "held i = (if ID_VALID i then {ID_TO_INDEX i} else {})"

lemma held_UNDEF [simp]: "held ID_UNDEF = {}"
  by (simp add: held_def)

lemma filter_absent: "q \<notin> set xs \<Longrightarrow> filter (\<lambda>r. r \<noteq> q) xs = xs"
  by (rule filter_True) auto

lemma remove1_filter: "distinct xs \<Longrightarrow> remove1 q xs = filter (\<lambda>r. r \<noteq> q) xs"
  by (induction xs) (auto simp: filter_absent)

lemma cancelled_wheel:
  assumes wf: "wf_tdb D s" and q: "coh s q = Some l"
  shows "wheel_minus {q} s (cancelled E l q s)"
proof -
  have "callwheel (cancelled E l q s) k = filter (\<lambda>r. r \<noteq> q) (callwheel s k)" for k
  proof (cases "k = l")
    case True
    thus ?thesis
      using wf_tdbD(3) [OF wf, of l] by (simp add: cancelled_views remove1_filter)
  next
    case False
    hence "q \<notin> set (callwheel s k)" using in_wheel(1) [OF wf, of q k] q by auto
    thus ?thesis using False by (simp add: cancelled_views filter_absent)
  qed
  thus ?thesis by (auto simp: wheel_minus_def cancelled_def own_callout_free unlinked_def)
qed

text \<open>What cancelling a timer leaves alone.\<close>

definition us_frame :: "'w dsm \<Rightarrow> 'w dsm \<Rightarrow> bool" where
  "us_frame s s' \<longleftrightarrow> uh s' = uh s \<and> uid s' = uid s \<and> aid s' = aid s \<and> ast s' = ast s
     \<and> que s' = que s \<and> sid s' = sid s \<and> dqh s' = dqh s \<and> ccdb_lists s' = ccdb_lists s
     \<and> ccdb_time s' = ccdb_time s \<and> bufs s' = bufs s"

lemma us_frame_trans: "us_frame s s' \<Longrightarrow> us_frame s' s'' \<Longrightarrow> us_frame s s''"
  by (simp add: us_frame_def)

lemma unset_tcc_ok:
  assumes I: "winv live D s" and E: "pool_contract E live" and p: "uh s p \<noteq> None"
    and D: "held (tcc s p) \<inter> D = {}"
  shows "\<exists>s'. unset_tcc E p s = Some s' \<and> winv live D s' \<and> us_frame s s'
    \<and> tcc s' = (tcc s)(p := ID_UNDEF) \<and> tg s' = tg s \<and> wheel_minus (held (tcc s p)) s s'"
proof (rule unset_tcc_cases [OF I E p], goal_cases)
  case 1 thus ?case using D by (simp add: held_def)
next
  case (2 l)
  thus ?thesis
    using cancelled_wheel [OF invD(1) [OF I] 2(2)]
    by (simp add: us_frame_def set_tcc_id_views cancelled_views held_def wheel_minus_def)
       (simp add: set_tcc_id_def cancelled_def unlinked_def callout_free_def callout_init_def)
next
  case (3 c)
  thus ?thesis
    by (simp add: us_frame_def set_tcc_id_views held_def wheel_minus_def) (simp add: set_tcc_id_def)
qed

lemma unset_tg_ok:
  assumes I: "winv live D s" and E: "pool_contract E live" and p: "uh s p \<noteq> None"
    and D: "held (tg s p) \<inter> D = {}"
  shows "\<exists>s'. unset_tg E p s = Some s' \<and> winv live D s' \<and> us_frame s s'
    \<and> tg s' = (tg s)(p := ID_UNDEF) \<and> tcc s' = tcc s \<and> wheel_minus (held (tg s p)) s s'"
proof (rule unset_tg_cases [OF I E p], goal_cases)
  case 1 thus ?case using D by (simp add: held_def)
next
  case (2 l)
  thus ?thesis
    using cancelled_wheel [OF invD(1) [OF I] 2(2)]
    by (simp add: us_frame_def set_tg_id_views cancelled_views held_def wheel_minus_def)
       (simp add: set_tg_id_def cancelled_def unlinked_def callout_free_def callout_init_def)
next
  case (3 c)
  thus ?thesis
    by (simp add: us_frame_def set_tg_id_views held_def wheel_minus_def) (simp add: set_tg_id_def)
qed

section \<open>Removing a session\<close>

definition removed :: "nat \<Rightarrow> 'w dsm \<Rightarrow> 'w dsm \<Rightarrow> bool" where
  "removed p s s' \<longleftrightarrow> uh s' = (uh s)(p := None) \<and> uid s' = uid s
     \<and> aid s' p = APP_SM_UNDEF \<and> ast s' p = STATE_CCAS_UNDEF \<and> snd (sid s' p) = 0 \<and> que s' p = []
     \<and> tcc s' = (tcc s)(p := ID_UNDEF) \<and> tg s' = (tg s)(p := ID_UNDEF)
     \<and> (\<forall>r. r \<noteq> p \<longrightarrow> aid s' r = aid s r \<and> ast s' r = ast s r \<and> sid s' r = sid s r \<and> que s' r = que s r)
     \<and> (\<forall>l. ccdb_lists s' l = filter (\<lambda>r. r \<noteq> p) (ccdb_lists s l))
     \<and> ccdb_time s' = filter (\<lambda>r. r \<noteq> p) (ccdb_time s)
     \<and> wheel_minus (held (tcc s p) \<union> held (tg s p)) s s'"

text \<open>The last step, when the session has no timer and no queued message left.\<close>

definition freed :: "'w env \<Rightarrow> nat \<Rightarrow> nat \<Rightarrow> 'w dsm \<Rightarrow> 'w dsm" where
  "freed E p l s = cnt ''ds_ccdb_us_remove_succ'' (user_session_free E p (cnt ''ds_us_tailq_remove''
     ((cnt ''ds_us_tailq_remove_time'' (s\<lparr>ccdb_time := remove1 p (ccdb_time s)\<rparr>))
      \<lparr>ccdb_lists := (ccdb_lists s)(l := remove1 p (ccdb_lists s l))\<rparr>)))"

lemma freed_views:
  "uh (freed E p l s) = (uh s)(p := None)" "uid (freed E p l s) = uid s"
  "tcc (freed E p l s) = (tcc s)(p := ID_UNDEF)" "tg (freed E p l s) = (tg s)(p := ID_UNDEF)"
  "aid (freed E p l s) = (aid s)(p := APP_SM_UNDEF)"
  "ast (freed E p l s) = (ast s)(p := STATE_CCAS_UNDEF)"
  "que (freed E p l s) = (que s)(p := [])" "sid (freed E p l s) = (sid s)(p := (\<lambda>_. 0, 0))"
  "dqh (freed E p l s) = dqh s" "coh (freed E p l s) = coh s" "cof (freed E p l s) = cof s"
  "coa (freed E p l s) = coa s" "callouts (freed E p l s) = callouts s"
  "callwheel (freed E p l s) = callwheel s" "wheel_index (freed E p l s) = wheel_index s"
  "ccdb_lists (freed E p l s) = (ccdb_lists s)(l := remove1 p (ccdb_lists s l))"
  "ccdb_time (freed E p l s) = remove1 p (ccdb_time s)"
  "world (freed E p l s) = delete_private E User_session_pool p (world s)"
  by (simp_all add: freed_def user_session_free_def user_session_init_def us_blank_def view_defs
      fun_eq_iff)

lemma wf_usD:
  assumes "wf_us s"
  shows "distinct (ccdb_lists s l)" "distinct (ccdb_time s)"
    "uh s p = Some l \<longleftrightarrow> p \<in> set (ccdb_lists s l)" "uh s p \<noteq> None \<longleftrightarrow> p \<in> set (ccdb_time s)"
    "uh s p \<noteq> None \<Longrightarrow> p < USER_SESSION_SIZE"
    "p < USER_SESSION_SIZE \<Longrightarrow> uid s p = INDEX_TO_ID p"
  using assms unfolding wf_us_def by metis+

lemma wf_usI:
  assumes "\<And>l. distinct (ccdb_lists s l)" "distinct (ccdb_time s)"
    "\<And>p l. uh s p = Some l \<longleftrightarrow> p \<in> set (ccdb_lists s l)"
    "\<And>p. uh s p \<noteq> None \<longleftrightarrow> p \<in> set (ccdb_time s)"
    "\<And>p. uh s p \<noteq> None \<Longrightarrow> p < USER_SESSION_SIZE"
    "\<And>p. p < USER_SESSION_SIZE \<Longrightarrow> uid s p = INDEX_TO_ID p"
  shows "wf_us s"
  unfolding wf_us_def using assms by blast

lemma unlink_us_ok:
  assumes I: "wf_us s" and p: "uh s p = Some l"
  shows "unlink_us p l s = Some (cnt ''ds_us_tailq_remove''
     ((cnt ''ds_us_tailq_remove_time'' (s\<lparr>ccdb_time := remove1 p (ccdb_time s)\<rparr>))
      \<lparr>ccdb_lists := (ccdb_lists s)(l := remove1 p (ccdb_lists s l))\<rparr>))"
proof -
  have "p \<in> set (ccdb_time s)" "p \<in> set (ccdb_lists s l)" using I p by (auto simp: wf_us_def)
  thus ?thesis by (simp add: unlink_us_def tailq_remove_def Let_def)
qed

lemma wf_us_freed:
  assumes "wf_us s" "uh s p = Some l"
  shows "wf_us (freed E p l s)"
proof -
  note U = wf_usD [OF assms(1)]
  have o: "k \<noteq> l \<Longrightarrow> p \<notin> set (ccdb_lists s k)" for k using U(3) [of p k] assms(2) by simp
  show ?thesis
  proof (rule wf_usI, goal_cases)
    case (3 r k)
    thus ?case using U(1) [of l] U(3) [of r k] o [of k] by (auto simp: freed_views)
  next
    case (4 r)
    thus ?case using U(2) U(4) [of r] by (auto simp: freed_views)
  qed (use U in \<open>auto simp: freed_views split: if_splits\<close>)
qed

lemma winv_freed:
  assumes I: "winv live D s" and E: "pool_contract E live" and p: "uh s p = Some l"
    and t: "tcc s p = ID_UNDEF" "tg s p = ID_UNDEF" and q: "que s p = []"
  shows "winv live D (freed E p l s)"
proof -
  note J = invD [OF I] and V = freed_views [of E p l s] and O = ownD [OF J(5)]
  have "wf_tdb D (freed E p l s)"
    using J(1) by (subst same_tdb_wf [of s]) (simp_all add: same_tdb_def V)
  moreover have "wf_queue (freed E p l s)"
    using J(3) q by (auto simp: wf_queue_def V)
  moreover have "wf_live live (freed E p l s)"
    using J(4) by (auto simp: wf_live_def V pool_contractD(3) [OF E])
  moreover have "own D (freed E p l s)"
  proof (rule ownI)
    fix r assume r: "coh (freed E p l s) r \<noteq> None" "r \<notin> D"
    hence c: "coh s r \<noteq> None" by (simp add: V)
    have "ID_UNDEF \<noteq> INDEX_TO_ID r"
      using invalid_not_held [OF I ID_VALID_ID_UNDEF c r(2)] .
    moreover have "timer_held s r" using O(4) c r(2) by blast
    ultimately obtain a where "coa s r = Some a" "uh s a \<noteq> None" "a \<noteq> p"
      "cof s r = Some Process_expire_tcc \<and> tcc s a = INDEX_TO_ID r
        \<or> cof s r = Some Process_expire_tg \<and> tg s a = INDEX_TO_ID r"
      using t unfolding timer_held_def by metis
    thus "timer_held (freed E p l s) r"
      unfolding timer_held_def by (intro exI [of _ a]) (simp add: V)
  qed (use O in \<open>auto simp: V tcc_owned_def tg_owned_def tcc_first_def split: if_splits\<close>)
  moreover have "D \<subseteq> {r. coh (freed E p l s) r \<noteq> None}" using J(6) by (simp add: V)
  ultimately show ?thesis using wf_us_freed [OF J(2) p] by (simp add: winv_def)
qed

lemma q_frame_wheel: "q_frame s s' \<Longrightarrow> wheel_minus {} s s'"
  by (simp add: q_frame_def wheel_minus_def)

lemma user_session_remove_ok:
  assumes I: "winv live D s" and E: "pool_contract E live" and p: "uh s p = Some l"
    and D: "held (tcc s p) \<inter> D = {}" "held (tg s p) \<inter> D = {}"
  shows "\<exists>s'. user_session_remove E (Some (Some p)) s = Some (None, s') \<and> winv live D s'
    \<and> removed p s s'"
proof -
  have h: "us_head (sessions s p) = Some l" using p by (simp add: uh_def)
  obtain s1 where s1: "unset_tcc E p s = Some s1" "winv live D s1" "us_frame s s1"
    "tcc s1 = (tcc s)(p := ID_UNDEF)" "tg s1 = tg s" "wheel_minus (held (tcc s p)) s s1"
    using unset_tcc_ok [OF I E _ D(1)] p by auto
  note F1 = s1(3) [unfolded us_frame_def]
  obtain s2 where s2: "unset_tg E p s1 = Some s2" "winv live D s2" "us_frame s1 s2"
    "tg s2 = (tg s)(p := ID_UNDEF)" "tcc s2 = (tcc s)(p := ID_UNDEF)"
    "wheel_minus (held (tg s p)) s1 s2"
    using unset_tg_ok [OF s1(2) E, of p] F1 s1(4,5) p D(2) by auto
  note F2 = s2(3) [unfolded us_frame_def]
  obtain s3 where s3: "drain_queue E p s2 = Some s3" "winv live D s3" "q_frame s2 s3"
    "que s3 = (que s2)(p := [])"
    using drain_queue_ok [OF s2(2) E, of p] by blast
  note F3 = s3(3) [unfolded q_frame_def]
  have u3: "uh s3 p = Some l" using F1 F2 F3 p by simp
  have w3: "wf_us s3" using invD(2) [OF s3(2)] .
  have r: "user_session_remove E (Some (Some p)) s = Some (None, freed E p l s3)"
    using h s1(1) s2(1) s3(1) unlink_us_ok [OF w3 u3]
    by (simp add: user_session_remove_def freed_def)
  have wm: "wheel_minus (held (tcc s p) \<union> held (tg s p)) s s3"
    using wheel_minus_trans [OF wheel_minus_trans [OF s1(6) s2(6)] q_frame_wheel [OF s3(3)]] by simp
  have l3: "ccdb_lists s3 = ccdb_lists s" "ccdb_time s3 = ccdb_time s" using F1 F2 F3 by simp_all
  have d: "distinct (ccdb_lists s k)" "distinct (ccdb_time s)" for k
    using w3 l3 by (auto simp: wf_us_def)
  have "filter (\<lambda>r. r \<noteq> p) (ccdb_lists s k) = ccdb_lists s k" if "k \<noteq> l" for k
    using wf_usD(3) [OF invD(2) [OF I], of p k] p that by (intro filter_absent) simp
  hence "removed p s (freed E p l s3)"
    using wm l3 F1 F2 F3 s2(4,5) s3(4)
    by (simp add: removed_def freed_views wheel_minus_def remove1_filter [OF d(1)]
        remove1_filter [OF d(2)])
  thus ?thesis using r winv_freed [OF s3(2) E u3] F3 s2(4,5) s3(4) by simp
qed

end
