(* ===== verification/Session_Inv.thy ===== *)
theory Session_Inv
  imports Ccdb_Table
begin

text \<open>
  The invariant of the sessions: their state machine, their timers in each state, and the table by
  Session-Id; and the operations on sessions the message handlers are made of, each with what it
  does to this invariant.
\<close>

section \<open>The invariant\<close>

text \<open>
  A session in use runs the credit control state machine. (Only a Diameter context of package type
  ABORT, which is not what a Diameter message carries, makes a session without a state machine, and
  without a Session-Id.) An open session has no guard timer; only an open session and one that is
  reporting an error may have a supervision timer.
\<close>

definition sok :: "'w dsm \<Rightarrow> nat \<Rightarrow> bool" where
  "sok s p \<longleftrightarrow>
    (if uh s p = None
     then aid s p = APP_SM_UNDEF \<and> ast s p = STATE_CCAS_UNDEF \<and> snd (sid s p) = 0
     else (if aid s p = APP_SM_CCAS then ast s p \<noteq> STATE_CCAS_UNDEF
           else ast s p = STATE_CCAS_UNDEF \<and> snd (sid s p) = 0)
       \<and> (ast s p = STATE_CCAS_OPEN \<longrightarrow> \<not> ID_VALID (tg s p))
       \<and> (ID_VALID (tcc s p) \<longrightarrow> ast s p = STATE_CCAS_OPEN \<or> ast s p = STATE_CCAS_REPORTING_ERROR))"

definition unheld :: "nat set \<Rightarrow> 'w dsm \<Rightarrow> bool" where
  "unheld D s \<longleftrightarrow> (\<forall>p. held (tcc s p) \<inter> D = {} \<and> held (tg s p) \<inter> D = {})"

text \<open>The list a session is in is the one of its Session-Id, and no two have the same.\<close>

definition bucket :: "'w env \<Rightarrow> bytes \<Rightarrow> int \<Rightarrow> nat" where
  "bucket E a n = nat (uint (hash_rs (char_to_uint E) a n AND USER_SESSION_MASK))"

definition same_sid :: "bytes \<times> int \<Rightarrow> bytes \<times> int \<Rightarrow> bool" where
  "same_sid x y \<longleftrightarrow> snd x = snd y \<and> memeq (fst x) (fst y) (nat (snd y))"

definition named :: "'w dsm \<Rightarrow> nat \<Rightarrow> bool" where
  "named s p \<longleftrightarrow> uh s p \<noteq> None \<and> aid s p = APP_SM_CCAS"

definition tab :: "'w env \<Rightarrow> 'w dsm \<Rightarrow> bool" where
  "tab E s \<longleftrightarrow>
     (\<forall>p. named s p \<longrightarrow> 0 < snd (sid s p) \<and> snd (sid s p) \<le> MAX_SZ_OCTETSTRING E - 1
        \<and> uh s p = Some (bucket E (fst (sid s p)) (snd (sid s p))))
   \<and> (\<forall>p q. named s p \<longrightarrow> named s q \<longrightarrow> same_sid (sid s p) (sid s q) \<longrightarrow> p = q)"

text \<open>
  The invariant, except for the sessions in \<open>Q\<close>, whose state or timer is being changed; \<open>D\<close> is
  the callout whose callback is running.
\<close>

definition hinv ::
  "'w env \<Rightarrow> (pool \<Rightarrow> 'w \<Rightarrow> nat set) \<Rightarrow> nat set \<Rightarrow> nat set \<Rightarrow> 'w dsm \<Rightarrow> bool" where
  "hinv E live D Q s \<longleftrightarrow> winv live D s \<and> (\<forall>p. p \<notin> Q \<longrightarrow> sok s p) \<and> unheld D s \<and> tab E s"

lemma hinv_skel:
  assumes "skel live s' = skel live s"
  shows "hinv E live D Q s' = hinv E live D Q s"
  by (simp add: hinv_def inv_skel [OF assms] sok_def unheld_def tab_def named_def
      skel_views [OF assms])

lemma hinvD:
  assumes "hinv E live D Q s"
  shows "winv live D s" "p \<notin> Q \<Longrightarrow> sok s p" "held (tcc s p) \<inter> D = {}" "held (tg s p) \<inter> D = {}" "tab E s"
  using assms by (auto simp: hinv_def unheld_def)

lemma hinv_close: "hinv E live D (insert p Q) s \<Longrightarrow> sok s p \<Longrightarrow> hinv E live D Q s"
  by (auto simp: hinv_def)

lemma hinv_open: "hinv E live D Q s \<Longrightarrow> hinv E live D (insert p Q) s"
  by (auto simp: hinv_def)

lemma tab_views:
  assumes "uh s' = uh s" "aid s' = aid s" "sid s' = sid s"
  shows "tab E s' = tab E s"
  by (simp add: tab_def named_def assms)

section \<open>Timers and states\<close>

text \<open>What a step on the timers or the state of \<open>p\<close> leaves alone.\<close>

definition tframe :: "'w dsm \<Rightarrow> 'w dsm \<Rightarrow> bool" where
  "tframe s s' \<longleftrightarrow> uh s' = uh s \<and> aid s' = aid s \<and> sid s' = sid s \<and> que s' = que s
     \<and> dqh s' = dqh s \<and> qms s' = qms s \<and> bufs s' = bufs s"

lemma tframe_trans: "tframe s s' \<Longrightarrow> tframe s' s'' \<Longrightarrow> tframe s s''"
  by (simp add: tframe_def)

lemma hinv_unset_tcc:
  assumes I: "hinv E live D Q s" and E: "pool_contract E live" and p: "uh s p \<noteq> None"
  shows "\<exists>s'. unset_tcc E p s = Some s' \<and> hinv E live D Q s' \<and> us_frame s s'
    \<and> tcc s' = (tcc s)(p := ID_UNDEF) \<and> tg s' = tg s"
proof -
  note H = hinvD [OF I]
  obtain s' where s': "unset_tcc E p s = Some s'" "winv live D s'" "us_frame s s'"
    "tcc s' = (tcc s)(p := ID_UNDEF)" "tg s' = tg s"
    using unset_tcc_ok [OF H(1) E p H(3)] by blast
  note F = s'(3) [unfolded us_frame_def]
  have "sok s' r" if "r \<notin> Q" for r
    using H(2) [OF that] by (auto simp: sok_def F s'(4,5))
  moreover have "unheld D s'" using H(3,4) by (simp add: unheld_def s'(4,5))
  moreover have "tab E s'" using H(5) F tab_views [of s' s E] by simp
  ultimately show ?thesis using s' by (simp add: hinv_def)
qed

lemma hinv_unset_tg:
  assumes I: "hinv E live D Q s" and E: "pool_contract E live" and p: "uh s p \<noteq> None"
  shows "\<exists>s'. unset_tg E p s = Some s' \<and> hinv E live D Q s' \<and> us_frame s s'
    \<and> tg s' = (tg s)(p := ID_UNDEF) \<and> tcc s' = tcc s"
proof -
  note H = hinvD [OF I]
  obtain s' where s': "unset_tg E p s = Some s'" "winv live D s'" "us_frame s s'"
    "tg s' = (tg s)(p := ID_UNDEF)" "tcc s' = tcc s"
    using unset_tg_ok [OF H(1) E p H(4)] by blast
  note F = s'(3) [unfolded us_frame_def]
  have "sok s' r" if "r \<notin> Q" for r
    using H(2) [OF that] by (auto simp: sok_def F s'(4,5))
  moreover have "unheld D s'" using H(3,4) by (simp add: unheld_def s'(4,5))
  moreover have "tab E s'" using H(5) F tab_views [of s' s E] by simp
  ultimately show ?thesis using s' by (simp add: hinv_def)
qed

lemma held_INDEX_TO_ID: "q < USER_SESSION_SIZE \<Longrightarrow> held (INDEX_TO_ID q) = {q}"
  by (simp add: held_def)

lemma hinv_start_tg:
  assumes I: "hinv E live D Q s" and E: "pool_contract E live" and p: "uh s p \<noteq> None"
    and v: "\<not> ID_VALID (tg s p)"
  shows "hinv E live D (insert p Q) (start_tg E p s)"
proof -
  note H = hinvD [OF I]
  have w: "winv live D (start_tg E p s)" using start_tg_cases [OF H(1) E p v] by blast
  have t: "r \<noteq> p \<Longrightarrow> tg (start_tg E p s) r = tg s r" for r
    using start_tg_cases [OF H(1) E p v] by auto
  have "held (tg (start_tg E p s) p) \<inter> D = {}"
  proof -
    consider q l where "tg (start_tg E p s) = (tg s)(p := INDEX_TO_ID q)"
        "added q l Process_expire_tg p s (start_tg E p s)"
      | "tg (start_tg E p s) = (tg s)(p := ID_UNDEF)"
      using start_tg_cases [OF H(1) E p v] by blast
    thus ?thesis
    proof cases
      case 1
      hence "coh s q = None" "q < USER_SESSION_SIZE" by (simp_all add: added_def)
      moreover have "q \<notin> D" using invD(6) [OF H(1)] calculation(1) by auto
      ultimately show ?thesis by (simp add: 1 held_INDEX_TO_ID)
    qed simp
  qed
  hence "unheld D (start_tg E p s)"
    using H(3,4) t unfolding unheld_def by (metis start_tg_views(3))
  moreover have "sok (start_tg E p s) r" if "r \<notin> insert p Q" for r
    using H(2) [of r] that t [of r] by (simp add: sok_def)
  moreover have "tab E (start_tg E p s)" using H(5) tab_views [of "start_tg E p s" s E] by simp
  ultimately show ?thesis using w by (simp add: hinv_def)
qed

lemma hinv_start_tcc:
  assumes I: "hinv E live D Q s" and E: "pool_contract E live" and p: "uh s p \<noteq> None"
    and v: "\<not> ID_VALID (tcc s p)" "\<not> ID_VALID (tg s p)"
  shows "hinv E live D (insert p Q) (start_tcc E p s)"
proof -
  note H = hinvD [OF I] and C = start_tcc_cases [OF hinvD(1) [OF I] E p v]
  have w: "winv live D (start_tcc E p s)" using C by blast
  have t: "r \<noteq> p \<Longrightarrow> tcc (start_tcc E p s) r = tcc s r" for r using C by auto
  have "held (tcc (start_tcc E p s) p) \<inter> D = {}"
  proof -
    consider q l where "tcc (start_tcc E p s) = (tcc s)(p := INDEX_TO_ID q)"
        "added q l Process_expire_tcc p s (start_tcc E p s)"
      | "tcc (start_tcc E p s) = (tcc s)(p := ID_UNDEF)"
      using C by blast
    thus ?thesis
    proof cases
      case 1
      hence "coh s q = None" "q < USER_SESSION_SIZE" by (simp_all add: added_def)
      moreover have "q \<notin> D" using invD(6) [OF H(1)] calculation(1) by auto
      ultimately show ?thesis by (simp add: 1 held_INDEX_TO_ID)
    qed simp
  qed
  hence "unheld D (start_tcc E p s)"
    using H(3,4) t unfolding unheld_def by (metis start_tcc_views(3))
  moreover have "sok (start_tcc E p s) r" if "r \<notin> insert p Q" for r
    using H(2) [of r] that t [of r] by (simp add: sok_def)
  moreover have "tab E (start_tcc E p s)" using H(5) tab_views [of "start_tcc E p s" s E] by simp
  ultimately show ?thesis using w by (simp add: hinv_def)
qed

text \<open>What \<open>winv\<close> reads.\<close>

lemma winv_views:
  assumes "uh s' = uh s" "uid s' = uid s" "tcc s' = tcc s" "tg s' = tg s" "que s' = que s"
    "dqh s' = dqh s" "callouts s' = callouts s" "callwheel s' = callwheel s"
    "wheel_index s' = wheel_index s" "ccdb_lists s' = ccdb_lists s" "ccdb_time s' = ccdb_time s"
    "\<And>P. live P (world s') = live P (world s)"
  shows "winv live D s' = winv live D s"
proof -
  note c = co_views [OF assms(7)]
  have "wf_tdb D s' = wf_tdb D s"
    by (rule same_tdb_wf) (simp add: same_tdb_def assms)
  moreover have "wf_us s' = wf_us s" by (rule wf_us_views) (simp_all add: assms)
  moreover have "wf_queue s' = wf_queue s" by (rule wf_queue_views) (simp_all add: assms)
  moreover have "wf_live live s' = wf_live live s" by (simp add: wf_live_def assms c)
  moreover have "own D s' = own D s"
    by (simp add: own_def tcc_owned_def tg_owned_def timer_held_def tcc_first_def assms c)
  ultimately show ?thesis by (simp add: winv_def c)
qed

lemma hinv_state:
  assumes I: "hinv E live D Q s"
  shows "hinv E live D (insert p Q) (upd_cc p (asm_state_update (\<lambda>_. st)) s)"
proof -
  let ?s = "upd_cc p (asm_state_update (\<lambda>_. st)) s"
  have v: "tcc ?s = tcc s" "tg ?s = tg s" "aid ?s = aid s"
    by (simp_all add: view_defs fun_eq_iff)
  have "winv live D ?s = winv live D s"
    by (rule winv_views) (simp_all add: v view_upd_cc(1-8))
  moreover have "unheld D ?s = unheld D s" by (simp add: unheld_def v)
  moreover have "tab E ?s = tab E s" by (rule tab_views) (simp_all add: v view_upd_cc(1-8))
  moreover have "sok ?s r" if "r \<notin> insert p Q" for r
    using hinvD(2) [OF I, of r] that by (simp add: sok_def v view_upd_cc(1-8,12))
  ultimately show ?thesis using I by (simp add: hinv_def)
qed

lemma sok_state:
  assumes "uh s p \<noteq> None" "aid s p = APP_SM_CCAS" "st \<noteq> STATE_CCAS_UNDEF"
    "st = STATE_CCAS_OPEN \<Longrightarrow> \<not> ID_VALID (tg s p)"
    "ID_VALID (tcc s p) \<Longrightarrow> st = STATE_CCAS_OPEN \<or> st = STATE_CCAS_REPORTING_ERROR"
  shows "sok (upd_cc p (asm_state_update (\<lambda>_. st)) s) p"
  using assms by (simp add: sok_def view_upd_cc tcc_id_cc)

section \<open>The state machine\<close>

text \<open>The step the state machine allows, with the counters it changes left out.\<close>

definition next_state :: "'w dsm \<Rightarrow> nat \<Rightarrow> event_ccas \<Rightarrow> state_ccas" where
  "next_state s p e = ste_state (fst (stt (aid s p) (ast s p) e zero_meas))"

definition allowed :: "'w dsm \<Rightarrow> nat \<Rightarrow> event_ccas \<Rightarrow> bool" where
  "allowed s p e \<longleftrightarrow> ste_action (fst (stt (aid s p) (ast s p) e zero_meas)) \<noteq> ACTION_CCAS_UNDEF"

lemma stt_fst: "fst (stt a st e m) = fst (stt a st e zero_meas)"
  by (simp add: stt_def stt_case_def split: app_sm.split state_ccas.split option.split)

lemma fst_stt_of: "fst (stt_of p e s) = fst (stt (aid s p) (ast s p) e zero_meas)"
  by (simp add: stt_of_def case_prod_beta tcc_id_cc stt_fst [symmetric, of _ _ _ "meas s"])

lemma check_asm_state_result:
  "fst (check_asm_state (Some p) e s) = (if allowed s p e then SUCCESS else FAILURE)"
  by (simp add: check_asm_state_def case_prod_beta Let_def fst_stt_of allowed_def)

lemma set_asm_state_result:
  "uh s p \<noteq> None \<Longrightarrow> fst (set_asm_state (Some p) e s) = next_state s p e"
  by (auto simp: set_asm_state_def case_prod_beta Let_def fst_stt_of next_state_def view_fold)

lemma allowed_skel:
  assumes "aid s' p = aid s p" "ast s' p = ast s p"
  shows "allowed s' p e = allowed s p e" "next_state s' p e = next_state s p e"
  by (simp_all add: allowed_def next_state_def assms)

lemma allowed_running:
  assumes "sok s p" "uh s p \<noteq> None" "allowed s p e"
  shows "aid s p = APP_SM_CCAS" "ast s p \<noteq> STATE_CCAS_UNDEF"
  using assms by (cases "aid s p", auto simp: sok_def allowed_def stt_def ste_undef_def)+

lemmas stt_tables = stt_idle_def stt_proc_req_def stt_open_def stt_proc_req_final_def
  stt_reporting_error_def stt_discontinuing_def ste_of_def ste_undef_def

text \<open>Where an event leads when it is allowed.\<close>

lemma next_state_cases:
  assumes "aid s p = APP_SM_CCAS" "ast s p \<noteq> STATE_CCAS_UNDEF" "allowed s p e"
  shows "next_state s p e \<noteq> STATE_CCAS_UNDEF"
    and "next_state s p e = STATE_CCAS_OPEN \<Longrightarrow> (ast s p = STATE_CCAS_PROC_REQ \<and>
        (e = EVENT_CCAS_RX_GDI_CCA_INIT_SUCC \<or> e = EVENT_CCAS_RX_GDI_CCA_UPDATE_SUCC))
      \<or> (ast s p = STATE_CCAS_OPEN \<and> e \<in> {EVENT_CCAS_RX_GDI_RAR, EVENT_CCAS_RX_GDI_ASR,
           EVENT_CCAS_RX_DIAM_RAA, EVENT_CCAS_RX_DIAM_ASA, EVENT_CCAS_RX_GDI_ABORT})"
  using assms unfolding next_state_def allowed_def stt_def stt_case_def
  by (cases "ast s p"; cases e; simp add: stt_tables)+

section \<open>Removing a session\<close>

lemma tab_removed:
  assumes "tab E s" "\<And>r. named s' r \<Longrightarrow> named s r \<and> uh s' r = uh s r \<and> sid s' r = sid s r"
  shows "tab E s'"
  using assms unfolding tab_def by metis

lemma hinv_remove:
  assumes I: "hinv E live D Q s" and E: "pool_contract E live" and p: "uh s p \<noteq> None"
  shows "\<exists>s'. user_session_remove E (Some (Some p)) s = Some (None, s')
    \<and> hinv E live D (Q - {p}) s' \<and> removed p s s'"
proof -
  note H = hinvD [OF I]
  obtain l where l: "uh s p = Some l" using p by blast
  obtain s' where s': "user_session_remove E (Some (Some p)) s = Some (None, s')" "winv live D s'"
    "removed p s s'"
    using user_session_remove_ok [OF H(1) E l H(3,4)] by blast
  note R = s'(3) [unfolded removed_def]
  have "sok s' r" if "r \<notin> Q - {p}" for r
    using H(2) [of r] R that by (cases "r = p") (simp_all add: sok_def)
  moreover have "unheld D s'" using H(3,4) R by (simp add: unheld_def)
  moreover have "tab E s'"
  proof (rule tab_removed [OF H(5)])
    fix r assume "named s' r"
    thus "named s r \<and> uh s' r = uh s r \<and> sid s' r = sid s r"
      using R by (cases "r = p") (auto simp: named_def)
  qed
  ultimately show ?thesis using s' by (auto simp: hinv_def)
qed

section \<open>Saving data into a session\<close>

text \<open>A message for a session that exists changes none of what the invariant reads.\<close>

lemma skel_save_old:
  assumes "is_retransmit (bufs s b) (sessions s p) \<or> diamctx_type (bufs s b) \<noteq> DIAMCTX_DIAM
    \<or> \<not> is_new_us (bufs s b)"
  shows "skel live (snd (user_session_save E (Some b) (Some p) s)) = skel live s"
proof -
  have r: "skel live (snd (save_retransmit c p s)) = skel live s" for c
    by (simp add: save_retransmit_def save_proxies_def Let_def)
  have a: "skel live (snd (save_abort c p s)) = skel live s" for c
    by (simp add: save_abort_def Let_def)
  have d: "skel live (snd (save_diam E c p s)) = skel live s" if "\<not> is_new_us c" for c
    using that by (simp add: save_diam_def Let_def case_prod_beta)
  show ?thesis
    using assms
    by (auto simp: user_session_save_def Let_def r a d split: diamctx_type.split)
qed

lemma hinv_save_old:
  assumes "hinv E live D Q s" and "is_retransmit (bufs s b) (sessions s p)
    \<or> diamctx_type (bufs s b) \<noteq> DIAMCTX_DIAM \<or> \<not> is_new_us (bufs s b)"
  shows "hinv E live D Q (snd (user_session_save E (Some b) (Some p) s))"
  using assms(1) hinv_skel [OF skel_save_old [OF assms(2)]] by blast

text \<open>A new session: its machine, its state and its identifier are set, nothing else.\<close>

definition others :: "nat \<Rightarrow> (pool \<Rightarrow> 'w \<Rightarrow> nat set) \<Rightarrow> 'w dsm \<Rightarrow> 'w dsm \<Rightarrow> bool" where
  "others p live s s' \<longleftrightarrow> uh s' = uh s \<and> uid s' = uid s \<and> tcc s' = tcc s \<and> tg s' = tg s
     \<and> que s' = que s \<and> dqh s' = dqh s \<and> qms s' = qms s \<and> bufs s' = bufs s
     \<and> callouts s' = callouts s \<and> callwheel s' = callwheel s \<and> wheel_index s' = wheel_index s
     \<and> ccdb_lists s' = ccdb_lists s \<and> ccdb_time s' = ccdb_time s
     \<and> (\<forall>P. live P (world s') = live P (world s))
     \<and> (\<forall>r. r \<noteq> p \<longrightarrow> aid s' r = aid s r \<and> ast s' r = ast s r \<and> sid s' r = sid s r)"

lemma others_skel:
  assumes "others p live s s1" "skel live s2 = skel live s1" "bufs s2 = bufs s1"
  shows "others p live s s2"
  using assms(1,3) by (simp add: others_def skel_views [OF assms(2)])

lemma bufs_save [simp]:
  "bufs (snd (set_peer_fe E s)) = bufs s" "bufs (snd (set_package_type q s)) = bufs s"
  "bufs (snd (set_tid_local E f i s)) = bufs s" "bufs (snd (set_flags_trap q s)) = bufs s"
  "bufs (snd (set_asm_id E q s)) = bufs s" "bufs (snd (set_asm_state q e s)) = bufs s"
  by (simp_all add: set_peer_fe_def set_package_type_def set_tid_local_def set_flags_trap_def
      set_asm_id_def set_asm_state_def stt_of_def Let_def case_prod_beta split: option.split)

lemma bufs_save_diam:
  "bufs (snd (save_tid_local E p s)) = bufs s" "bufs (save_diam_avps E c p s) = bufs s"
  by (simp_all add: save_tid_local_def save_new_tid_def save_diam_avps_def save_trap_def Let_def
      case_prod_beta)

lemma set_asm_state_undef:
  assumes "uh s p \<noteq> None" "aid s p = APP_SM_CCAS"
  shows "fst (set_asm_state (Some p) EVENT_CCAS_UNDEF s) \<in> {STATE_CCAS_UNDEF, STATE_CCAS_IDLE}"
  using assms by (cases "ast s p") (auto simp: set_asm_state_result next_state_def stt_def
      stt_case_def stt_tables)

lemma save_new_us_spec:
  assumes p: "uh s p \<noteq> None" and E: "pool_contract E live"
  shows "others p live s (snd (save_new_us E c p s))
    \<and> (fst (save_new_us E c p s) \<longrightarrow> aid (snd (save_new_us E c p s)) p = APP_SM_CCAS
    \<and> ast (snd (save_new_us E c p s)) p = STATE_CCAS_IDLE
    \<and> sid (snd (save_new_us E c p s)) p = (memcpy (fst (sid s p)) (FEP_BUF_SID c)
          (nat (sessionIdLength c)), sessionIdLength c))"
proof -
  define s1 where "s1 = upd_diam p (\<lambda>d. d\<lparr>
      session_id := memcpy (session_id d) (FEP_BUF_SID c) (nat (sessionIdLength c)),
      session_id_len := sessionIdLength c, app_id := applId c\<rparr>)
    (upd_cc p (\<lambda>u. u\<lparr>time_start := fst (time_now E (world s)), version := 0\<rparr>)
      (snd (call (time_now E) s)))"
  define s2 where "s2 = snd (set_asm_id E (Some p) s1)"
  define a where "a = fst (set_asm_id E (Some p) s1)"
  define s3 where "s3 = upd_cc p (asm_id_update (\<lambda>_. a)) s2"
  have o1: "others p live s s1" "aid s1 = aid s" "ast s1 = ast s"
    "sid s1 p = (memcpy (fst (sid s p)) (FEP_BUF_SID c) (nat (sessionIdLength c)), sessionIdLength c)"
    by (auto simp: others_def s1_def view_defs fun_eq_iff pool_contractD [OF E])
  have k2: "skel live s2 = skel live s1" "bufs s2 = bufs s1" by (simp_all add: s2_def)
  have o2: "others p live s s2" by (rule others_skel [OF o1(1) k2])
  note V2 = skel_views [OF k2(1)]
  have v3: "uh s3 = uh s2" "sid s3 = sid s2" "aid s3 = (aid s2)(p := a)" "ast s3 = ast s2"
    by (simp_all add: s3_def view_defs fun_eq_iff)
  have o3: "others p live s s3"
    using o2 unfolding others_def s3_def by (auto simp: view_defs fun_eq_iff)
  have u: "save_new_us E c p s = (if a = APP_SM_UNDEF then (False, s3)
    else let (st, s) = set_asm_state (Some p) EVENT_CCAS_UNDEF s3;
             s = upd_cc p (asm_state_update
                   (\<lambda>_. if st = STATE_CCAS_UNDEF then STATE_CCAS_IDLE else st)) s
         in (True, upd_gdi p (\<lambda>g. g\<lparr>tid_local := 0, tid_remote := 0, tid_remote_asr := 0,
               tid_remote_rar := 0, package_type_asr := PACKAGE_TYPE_UNDEF,
               package_type_rar := PACKAGE_TYPE_UNDEF\<rparr>) s))"
    by (simp add: save_new_us_def Let_def case_prod_beta s3_def s2_def a_def s1_def)
  show ?thesis
  proof (cases "a = APP_SM_UNDEF")
    case True
    thus ?thesis using o3 by (simp add: u)
  next
    case False
    define st where "st = fst (set_asm_state (Some p) EVENT_CCAS_UNDEF s3)"
    define s4 where "s4 = snd (set_asm_state (Some p) EVENT_CCAS_UNDEF s3)"
    define s5 where "s5 = upd_gdi p (\<lambda>g. g\<lparr>tid_local := 0, tid_remote := 0, tid_remote_asr := 0,
         tid_remote_rar := 0, package_type_asr := PACKAGE_TYPE_UNDEF,
         package_type_rar := PACKAGE_TYPE_UNDEF\<rparr>)
       (upd_cc p (asm_state_update (\<lambda>_. if st = STATE_CCAS_UNDEF then STATE_CCAS_IDLE else st)) s4)"
    have a: "a = APP_SM_CCAS" using False by (cases a) simp_all
    have st: "st = STATE_CCAS_UNDEF \<or> st = STATE_CCAS_IDLE"
      using set_asm_state_undef [of s3 p] p o3 a v3(3) by (simp add: st_def others_def)
    have k4: "skel live s4 = skel live s3" "bufs s4 = bufs s3" by (simp_all add: s4_def)
    have o4: "others p live s s4" by (rule others_skel [OF o3 k4])
    note V4 = skel_views [OF k4(1)]
    have "others p live s s5"
      using o4 unfolding others_def s5_def by (auto simp: view_defs fun_eq_iff)
    moreover have "aid s5 p = APP_SM_CCAS" "ast s5 p = STATE_CCAS_IDLE" "sid s5 p = sid s1 p"
      using st a v3 V4 V2 by (auto simp: s5_def view_defs fun_eq_iff)
    moreover have "save_new_us E c p s = (True, s5)"
      using False by (simp add: u Let_def case_prod_beta s5_def st_def s4_def)
    ultimately show ?thesis using o1(4) by simp
  qed
qed

lemma others_refl [simp]: "others p live s s"
  by (simp add: others_def)

lemma save_diam_new:
  assumes p: "uh s p \<noteq> None" and E: "pool_contract E live" and n: "is_new_us c"
  shows "others p live s (snd (save_diam E c p s))
    \<and> (fst (save_diam E c p s) = SUCCESS \<longrightarrow> aid (snd (save_diam E c p s)) p = APP_SM_CCAS
    \<and> ast (snd (save_diam E c p s)) p = STATE_CCAS_IDLE
    \<and> sid (snd (save_diam E c p s)) p = (memcpy (fst (sid s p)) (FEP_BUF_SID c)
          (nat (sessionIdLength c)), sessionIdLength c))"
proof (cases "conf_ready E (world s)")
  case False
  have k: "skel live (snd (save_diam E c p s)) = skel live s" "bufs (snd (save_diam E c p s)) = bufs s"
    "fst (save_diam E c p s) = FAILURE"
    using False by (simp_all add: save_diam_def save_fail_def)
  show ?thesis using others_skel [OF others_refl k(1,2)] k(3) by simp
next
  case True
  obtain go s1 where s1: "save_new_us E c p s = (go, s1)" by fastforce
  note N = save_new_us_spec [OF p E, of c, unfolded s1 fst_conv snd_conv]
  have k: "skel live (snd (save_diam E c p s)) = skel live s1" "bufs (snd (save_diam E c p s)) = bufs s1"
    using True n s1
    by (simp_all add: save_diam_def Let_def case_prod_beta bufs_save_diam save_fail_def save_succ_def)
  have g: "fst (save_diam E c p s) = SUCCESS \<Longrightarrow> go"
    using True n s1 by (auto simp: save_diam_def save_fail_def split: if_splits)
  show ?thesis using others_skel [OF _ k] N g by (simp add: skel_views [OF k(1)])
qed

text \<open>
  The outcome for a session element that has just been allocated. An ABORT context is the one that
  is accepted without data.
\<close>

definition saved_new :: "'w env \<Rightarrow> diamctx \<Rightarrow> nat \<Rightarrow> 'w dsm \<Rightarrow> 'w dsm \<Rightarrow> bool" where
  "saved_new E c p s s' \<longleftrightarrow>
     (aid s' p = APP_SM_CCAS \<and> ast s' p = STATE_CCAS_IDLE \<and> sid s' p = (memcpy (fst (sid s p))
        (FEP_BUF_SID c) (nat (sessionIdLength c)), sessionIdLength c) \<and> packageType c \<noteq> PACKAGE_TYPE_ABORT)
   \<or> (aid s' p = aid s p \<and> ast s' p = ast s p \<and> sid s' p = sid s p
        \<and> packageType c = PACKAGE_TYPE_ABORT)"

lemma save_new:
  assumes p: "uh s p \<noteq> None" and E: "pool_contract E live" and n: "is_new_us (bufs s b)"
    and d: "diamctx_type (bufs s b) = DIAMCTX_DIAM" and tg: "\<not> ID_VALID (tg s p)"
  shows "others p live s (snd (user_session_save E (Some b) (Some p) s))
    \<and> (fst (user_session_save E (Some b) (Some p) s) = SUCCESS
        \<longrightarrow> saved_new E (bufs s b) p s (snd (user_session_save E (Some b) (Some p) s)))"
proof (cases "packageType (bufs s b) = PACKAGE_TYPE_ABORT")
  case True
  let ?r = "user_session_save E (Some b) (Some p) s"
  have h: "us_head (sessions s p) \<noteq> None" "\<not> is_retransmit (bufs s b) (sessions s p)"
    using p tg by (simp_all add: uh_def is_retransmit_def tg_def)
  have r: "?r = save_abort (bufs s b) p s" using h True by (auto simp: user_session_save_def Let_def)
  have k: "skel live (snd ?r) = skel live s" "bufs (snd ?r) = bufs s"
    by (simp_all add: r save_abort_def save_succ_def save_trap_def Let_def case_prod_beta)
  show ?thesis
    using others_skel [OF others_refl k] True by (simp add: saved_new_def skel_views [OF k(1)])
next
  case False
  let ?r = "user_session_save E (Some b) (Some p) s"
  have h: "us_head (sessions s p) \<noteq> None" "\<not> is_retransmit (bufs s b) (sessions s p)"
    using p tg by (simp_all add: uh_def is_retransmit_def tg_def)
  have "?r = save_diam E (bufs s b) p s"
    using h False n d by (auto simp: user_session_save_def Let_def is_new_us_def valid_command_def)
  thus ?thesis using save_diam_new [OF p E n] False by (simp add: saved_new_def)
qed

section \<open>Lookup\<close>

definition valid_sid :: "'w env \<Rightarrow> int \<Rightarrow> bool" where
  "valid_sid E n \<longleftrightarrow> 0 < n \<and> n \<le> MAX_SZ_OCTETSTRING E - 1"

lemma user_session_hash_result:
  "user_session_hash E (Some a) n s = (if valid_sid E n
     then (int (bucket E a n), cnt ''ds_ccdb_us_hash_succ'' s)
     else (-1, cnt ''ds_ccdb_us_hash_fail'' (cnt ''ds_ccdb_us_hash_sid_invalid'' s)))"
  by (auto simp: user_session_hash_def valid_sid_def bucket_def Let_def)

lemma bucket_less: "bucket E a n < USER_SESSION_SIZE"
proof -
  have "nat (uint (hash_rs (char_to_uint E) a n AND USER_SESSION_MASK)) < nat (int USER_SESSION_SIZE)"
    using rs.bucket_bound [of "char_to_uint E" a n] by (subst nat_less_eq_zless) simp_all
  thus ?thesis by (simp add: bucket_def)
qed

lemma bucket_memeq: "memeq a b (nat n) \<Longrightarrow> bucket E a n = bucket E b n"
  by (simp add: bucket_def rs.bucket_eq)

lemma us_matches_sid: "us_matches a n (sessions s p) \<longleftrightarrow> same_sid (sid s p) (a, n)"
  by (simp add: us_matches_def same_sid_def sid_def)

lemma same_sid_sym: "same_sid x y \<Longrightarrow> same_sid y x"
  by (simp add: same_sid_def memeq_iff)

lemma same_sid_trans: "same_sid x y \<Longrightarrow> same_sid y z \<Longrightarrow> same_sid x z"
  by (simp add: same_sid_def memeq_iff)

text \<open>The sessions that match an identifier are in its bucket.\<close>

lemma match_bucket:
  assumes "tab E s" "named s p" "same_sid (sid s p) (a, n)"
  shows "uh s p = Some (bucket E a n)"
  using assms bucket_memeq [of "fst (sid s p)" a n E] unfolding tab_def same_sid_def by auto

lemma user_session_get_result:
  assumes W: "wf_us s" and n: "valid_sid E n"
  shows "user_session_get E (Some a) n (int (bucket E a n)) s
    = (find (\<lambda>q. us_matches a n (sessions s q)) (ccdb_lists s (bucket E a n)),
       cnt ''ds_ccdb_us_get_succ'' s)"
proof -
  have m: "uint USER_SESSION_MASK = 262143" by (simp add: USER_SESSION_MASK_def)
  have l: "\<not> (int (bucket E a n) < 0 \<or> uint USER_SESSION_MASK < int (bucket E a n))"
    using bucket_less [of E a n] by (simp add: m USER_SESSION_SIZE_def)
  have u: "uh s q \<noteq> None" if "find (\<lambda>q. us_matches a n (sessions s q))
      (ccdb_lists s (bucket E a n)) = Some q" for q
    using that wf_usD(3) [OF W, of q "bucket E a n"] by (auto simp: find_Some_iff in_set_conv_nth)
  show ?thesis
    using n l u by (auto simp: user_session_get_def valid_sid_def Let_def uh_def split: option.split)
qed

lemma user_session_get_iff:
  assumes W: "wf_us s" and T: "tab E s" and K: "\<And>p. uh s p \<noteq> None \<Longrightarrow> sok s p \<or> snd (sid s p) = 0"
    and n: "valid_sid E n"
  shows "fst (user_session_get E (Some a) n (int (bucket E a n)) s) = Some p
    \<longleftrightarrow> named s p \<and> same_sid (sid s p) (a, n)"
proof -
  let ?xs = "ccdb_lists s (bucket E a n)" and ?P = "\<lambda>q. us_matches a n (sessions s q)"
  have nm: "named s q" if "q \<in> set ?xs" "?P q" for q
  proof -
    have u: "uh s q \<noteq> None" using that(1) wf_usD(3) [OF W, of q] by auto
    moreover have "snd (sid s q) = n" "0 < n"
      using that(2) n by (simp_all add: us_matches_sid same_sid_def valid_sid_def)
    ultimately show ?thesis using K [OF u] by (auto simp: named_def sok_def split: if_splits)
  qed
  have uniq: "q = r" if "q \<in> set ?xs" "?P q" "r \<in> set ?xs" "?P r" for q r
  proof -
    have "same_sid (sid s q) (sid s r)"
      using that same_sid_trans same_sid_sym unfolding us_matches_sid by blast
    thus ?thesis using T nm that unfolding tab_def by blast
  qed
  show ?thesis
  proof
    assume "fst (user_session_get E (Some a) n (int (bucket E a n)) s) = Some p"
    hence "p \<in> set ?xs" "?P p"
      by (auto simp: user_session_get_result [OF W n] find_Some_iff in_set_conv_nth)
    thus "named s p \<and> same_sid (sid s p) (a, n)" using nm by (simp add: us_matches_sid)
  next
    assume m: "named s p \<and> same_sid (sid s p) (a, n)"
    hence p: "p \<in> set ?xs" "?P p"
      using match_bucket [OF T, of p a n] wf_usD(3) [OF W, of p] by (auto simp: us_matches_sid)
    obtain q where q: "find ?P ?xs = Some q"
      using p find_None_iff [of ?P ?xs] by (cases "find ?P ?xs") auto
    hence "q \<in> set ?xs" "?P q" by (auto simp: find_Some_iff in_set_conv_nth)
    thus "fst (user_session_get E (Some a) n (int (bucket E a n)) s) = Some p"
      using uniq p q by (simp add: user_session_get_result [OF W n])
  qed
qed

section \<open>Adding a session\<close>

lemma winv_new:
  assumes I: "winv live D s" and p: "uh s p = None" "p < USER_SESSION_SIZE"
    and V: "uh s' = (uh s)(p := Some l)" "uid s' = uid s" "tcc s' = tcc s" "tg s' = tg s"
      "que s' = que s" "dqh s' = dqh s" "callouts s' = callouts s" "callwheel s' = callwheel s"
      "wheel_index s' = wheel_index s" "ccdb_time s' = ccdb_time s @ [p]"
      "ccdb_lists s' = (ccdb_lists s)(l := ccdb_lists s l @ [p])"
      "\<And>P. live P (world s') = (if P = User_session_pool then insert p (live P (world s))
         else live P (world s))"
  shows "winv live D s'"
proof -
  note J = invD [OF I] and c = co_views [OF V(7)] and U = wf_usD [OF invD(2) [OF I]]
    and O = ownD [OF invD(5) [OF I]]
  have n: "p \<notin> set (ccdb_lists s k)" "p \<notin> set (ccdb_time s)" for k
    using p(1) U(3) [of p k] U(4) [of p] by simp_all
  have "wf_tdb D s'" using J(1) V by (subst same_tdb_wf [of s]) (simp_all add: same_tdb_def)
  moreover have "wf_us s'"
  proof (rule wf_usI, goal_cases)
    case (3 r k) thus ?case using U(3) [of r k] n by (auto simp: V)
  next
    case (4 r) thus ?case using U(4) [of r] n by (auto simp: V)
  qed (use U n p in \<open>auto simp: V split: if_splits\<close>)
  moreover have "wf_queue s'" using J(3) by (auto simp: wf_queue_def V)
  moreover have "wf_live live s'" using J(4) p by (auto simp: wf_live_def V c)
  moreover have "own D s'"
  proof (rule ownI)
    fix r assume "coh s' r \<noteq> None" "r \<notin> D"
    hence "timer_held s r" using O(4) by (simp add: c)
    thus "timer_held s' r" unfolding timer_held_def by (auto simp: V c)
  qed (use O p in \<open>auto simp: V c tcc_owned_def tg_owned_def tcc_first_def split: if_splits\<close>)
  ultimately show ?thesis using J(6) by (simp add: winv_def c)
qed

definition tab_free :: "'w dsm \<Rightarrow> bytes \<Rightarrow> int \<Rightarrow> bool" where
  "tab_free s a n \<longleftrightarrow> (\<forall>q. named s q \<longrightarrow> \<not> same_sid (sid s q) (a, n))"

lemma hinv_new:
  assumes I: "hinv E live D {} s" and p: "uh s p = None" and w: "winv live D s'"
    and V: "uh s' = (uh s)(p := Some l)" "tcc s' = tcc s" "tg s' = tg s"
      "\<And>r. r \<noteq> p \<Longrightarrow> aid s' r = aid s r \<and> ast s' r = ast s r \<and> sid s' r = sid s r"
    and n: "valid_sid E (sessionIdLength c)" "l = bucket E (FEP_BUF_SID c) (sessionIdLength c)"
    and f: "tab_free s (FEP_BUF_SID c) (sessionIdLength c)" and S: "saved_new E c p s s'"
  shows "hinv E live D {} s'"
proof -
  note H = hinvD [OF I] and O = ownD(5,6) [OF invD(5) [OF hinvD(1) [OF I]]]
  have P: "sok s p" using H(2) [of p] by simp
  have "sok s' r" for r
    using H(2) [of r] V(4) [of r] P p S O [of p]
    by (cases "r = p") (auto simp: sok_def V saved_new_def)
  moreover have "unheld D s'" using H(3,4) by (simp add: unheld_def V)
  moreover have "tab E s'"
  proof -
    have nm: "named s' r \<longleftrightarrow> named s r" "sid s' r = sid s r" "uh s' r = uh s r" if "r \<noteq> p" for r
      using V(1) V(4) [OF that] that by (auto simp: named_def)
    have sp: "same_sid (sid s' p) (FEP_BUF_SID c, sessionIdLength c)" "snd (sid s' p) = sessionIdLength c"
      if "named s' p"
      using that S p P by (auto simp: named_def saved_new_def same_sid_def memeq_iff memcpy_def sok_def)
    have bk: "bucket E (fst (sid s' p)) (snd (sid s' p)) = l" if "named s' p"
      using sp [OF that] n(2) bucket_memeq [of "fst (sid s' p)" "FEP_BUF_SID c" "sessionIdLength c" E]
      by (simp add: same_sid_def)
    have nf: "\<not> same_sid (sid s' p) (sid s r)" if "named s' p" "named s r" for r
      using f that sp(1) [OF that(1)] same_sid_sym same_sid_trans unfolding tab_free_def by blast
    have T: "0 < snd (sid s r) \<and> snd (sid s r) \<le> MAX_SZ_OCTETSTRING E - 1
        \<and> uh s r = Some (bucket E (fst (sid s r)) (snd (sid s r)))"
      "named s q \<Longrightarrow> same_sid (sid s r) (sid s q) \<Longrightarrow> r = q" if "named s r" for r q
      using H(5) that unfolding tab_def by blast+
    show ?thesis
      unfolding tab_def
    proof (intro conjI [of "\<forall>p. A p" for A] allI impI)
      fix r assume r: "named s' r"
      show "0 < snd (sid s' r) \<and> snd (sid s' r) \<le> MAX_SZ_OCTETSTRING E - 1
        \<and> uh s' r = Some (bucket E (fst (sid s' r)) (snd (sid s' r)))"
        using T(1) [of r] nm [of r] r sp(2) bk n(1) V(1)
        by (cases "r = p") (auto simp: valid_sid_def)
    next
      fix r q assume a: "named s' r" "named s' q" "same_sid (sid s' r) (sid s' q)"
      show "r = q"
        using a T(2) [of r q] nf [of r] nf [of q] nm [of r] nm [of q] same_sid_sym [OF a(3)]
        by (cases "r = p"; cases "q = p") auto
    qed
  qed
  ultimately show ?thesis using w by (simp add: hinv_def)
qed

text \<open>The same sessions have the same names.\<close>

definition same_named :: "'w dsm \<Rightarrow> 'w dsm \<Rightarrow> bool" where
  "same_named s s' \<longleftrightarrow> (\<forall>r. named s' r = named s r \<and> (named s r \<longrightarrow> sid s' r = sid s r))"

lemma same_named_skel: "skel live s' = skel live s \<Longrightarrow> same_named s s'"
  using skel_views [of live s' s] by (simp add: same_named_def named_def)

text \<open>An element that was allocated and is given back: everything is as before.\<close>

lemma hinv_undone:
  assumes I: "hinv E live D {} s" and E: "pool_contract E live" and p: "uh s p = None"
    and o: "others p live s1 s2"
    and V: "uh s1 = (uh s)(p := Some l)" "uid s1 = uid s" "tcc s1 = tcc s" "tg s1 = tg s" "que s1 = que s"
      "aid s1 = aid s" "ast s1 = ast s" "sid s1 = sid s" "dqh s1 = dqh s"
      "callouts s1 = callouts s" "callwheel s1 = callwheel s" "wheel_index s1 = wheel_index s"
      "ccdb_lists s1 = ccdb_lists s" "ccdb_time s1 = ccdb_time s"
      "\<And>P. live P (world s1) = (if P = User_session_pool then insert p (live P (world s))
         else live P (world s))"
  shows "hinv E live D {} (user_session_free E p s2) \<and> same_named s (user_session_free E p s2)"
proof -
  let ?s = "user_session_free E p s2"
  note H = hinvD [OF I] and J = invD [OF hinvD(1) [OF I]] and O = o [unfolded others_def]
  have o: "tcc s p = ID_UNDEF" "tg s p = ID_UNDEF" using ownD(5,6) [OF J(5) p] by simp_all
  have q: "que s p = []" using J(3) p by (simp add: wf_queue_def)
  have lv: "live User_session_pool (world s) = {r. uh s r \<noteq> None}" using J(4) by (simp add: wf_live_def)
  have v: "uh ?s = uh s" "uid ?s = uid s" "tcc ?s = tcc s" "tg ?s = tg s" "que ?s = que s"
    "dqh ?s = dqh s" "callouts ?s = callouts s" "callwheel ?s = callwheel s"
    "wheel_index ?s = wheel_index s" "ccdb_lists ?s = ccdb_lists s" "ccdb_time ?s = ccdb_time s"
    using O V p o q
    by (auto simp: user_session_free_def user_session_init_def us_blank_def view_defs fun_eq_iff)
  have l: "live P (world ?s) = live P (world s)" for P
    using O V(15) p lv
    by (auto simp: user_session_free_def user_session_init_def pool_contractD(3) [OF E])
  have x: "aid ?s r = (if r = p then APP_SM_UNDEF else aid s r)"
    "ast ?s r = (if r = p then STATE_CCAS_UNDEF else ast s r)"
    "r \<noteq> p \<Longrightarrow> sid ?s r = sid s r" "snd (sid ?s p) = 0" for r
    using O V by (auto simp: user_session_free_def user_session_init_def us_blank_def view_defs)
  have "winv live D ?s" using H(1) winv_views [of ?s s live D] v l by simp
  moreover have "sok ?s r" for r
    using H(2) [of r] p x(1-3) [of r] x(4) by (cases "r = p") (auto simp: sok_def v)
  moreover have "unheld D ?s" using H(3,4) by (simp add: unheld_def v)
  moreover have "tab E ?s"
    by (rule tab_removed [OF H(5)]) (use p x in \<open>auto simp: named_def v split: if_splits\<close>)
  moreover have "same_named s ?s"
    unfolding same_named_def using p x by (auto simp: named_def v split: if_splits)
  ultimately show ?thesis by (simp add: hinv_def)
qed

lemma hinv_add:
  assumes I: "hinv E live D {} s" and E: "pool_contract E live"
    and d: "diamctx_type (bufs s b) = DIAMCTX_DIAM" "is_new_us (bufs s b)"
    and n: "valid_sid E (sessionIdLength (bufs s b))"
      "l = bucket E (FEP_BUF_SID (bufs s b)) (sessionIdLength (bufs s b))"
    and f: "tab_free s (FEP_BUF_SID (bufs s b)) (sessionIdLength (bufs s b))"
  shows "hinv E live D {} (snd (user_session_add E (Some b) (int l) s)) \<and>
    (case fst (user_session_add E (Some b) (int l) s) of
       None \<Rightarrow> same_named s (snd (user_session_add E (Some b) (int l) s))
     | Some p \<Rightarrow> uh s p = None \<and> uh (snd (user_session_add E (Some b) (int l) s)) = (uh s)(p := Some l)
         \<and> saved_new E (bufs s b) p s (snd (user_session_add E (Some b) (int l) s))
         \<and> tg (snd (user_session_add E (Some b) (int l) s)) = tg s
         \<and> bufs (snd (user_session_add E (Some b) (int l) s)) = bufs s
         \<and> callouts (snd (user_session_add E (Some b) (int l) s)) = callouts s
         \<and> wheel_index (snd (user_session_add E (Some b) (int l) s)) = wheel_index s
         \<and> (\<forall>r. r \<noteq> p \<longrightarrow> aid (snd (user_session_add E (Some b) (int l) s)) r = aid s r
              \<and> sid (snd (user_session_add E (Some b) (int l) s)) r = sid s r))"
proof -
  have m: "uint USER_SESSION_MASK = 262143" by (simp add: USER_SESSION_MASK_def)
  have l: "\<not> (int l < 0 \<or> uint USER_SESSION_MASK < int l)"
    using bucket_less [of E "FEP_BUF_SID (bufs s b)" "sessionIdLength (bufs s b)"] n(2)
    by (simp add: m USER_SESSION_SIZE_def)
  show ?thesis
  proof (cases "fst (new_private E User_session_pool (world s))")
    case None
    let ?s = "cnt ''ds_ccdb_us_add_fail'' (cnt ''ds_api_new_private_fail_us''
      (snd (call (new_private E User_session_pool) s)))"
    have r: "user_session_add E (Some b) (int l) s = (None, ?s)"
      using l None by (simp add: user_session_add_def Let_def case_prod_beta)
    have "skel live ?s = skel live s" using pool_contractD(2) [OF E None] by (simp add: skel_def)
    thus ?thesis using hinv_skel [of live ?s s] same_named_skel [of live ?s s] I by (simp add: r)
  next
    case (Some p)
    note J = invD [OF hinvD(1) [OF I]]
    have p: "p < USER_SESSION_SIZE" "uh s p = None"
      using pool_contractD(1) [OF E Some] J(4) by (auto simp: wf_live_def)
    define s1 where "s1 = upd_us p (us_head_update (\<lambda>_. Some l)) (cnt ''ds_api_new_private_succ_us''
      (snd (call (new_private E User_session_pool) s)))"
    have V: "uh s1 = (uh s)(p := Some l)" "uid s1 = uid s" "tcc s1 = tcc s" "tg s1 = tg s"
      "que s1 = que s" "aid s1 = aid s" "ast s1 = ast s" "sid s1 = sid s" "dqh s1 = dqh s"
      "callouts s1 = callouts s" "callwheel s1 = callwheel s"
      "wheel_index s1 = wheel_index s" "ccdb_lists s1 = ccdb_lists s" "ccdb_time s1 = ccdb_time s"
      "\<And>P. live P (world s1) = (if P = User_session_pool then insert p (live P (world s))
         else live P (world s))"
      using pool_contractD(1) [OF E Some] by (auto simp: s1_def view_defs fun_eq_iff)
    have bf: "bufs s1 = bufs s" by (simp add: s1_def)
    obtain rv s2 where r2: "user_session_save E (Some b) (Some p) s1 = (rv, s2)" by fastforce
    have "\<not> ID_VALID (tg s1 p)" using ownD(6) [OF J(5) p(2)] by (simp add: V)
    hence S: "others p live s1 s2" "rv = SUCCESS \<Longrightarrow> saved_new E (bufs s b) p s1 s2"
      using save_new [of s1 p E live b] E d by (simp_all add: V bf r2)
    show ?thesis
    proof (cases "rv = SUCCESS")
      case False
      hence "user_session_add E (Some b) (int l) s
        = (None, cnt ''ds_ccdb_us_add_fail'' (user_session_free E p s2))"
        using l Some r2 unfolding s1_def by (simp add: user_session_add_def Let_def case_prod_beta)
      moreover have "hinv E live D {} (user_session_free E p s2) \<and> same_named s (user_session_free E p s2)"
        using hinv_undone [OF I E p(2) S(1) V] .
      ultimately show ?thesis
        using hinv_skel [OF skel_cnt [of live "''ds_ccdb_us_add_fail''" "user_session_free E p s2"]]
        by (simp add: same_named_def named_def)
    next
      case True
      define s3 where "s3 = cnt ''ds_ccdb_us_add_succ'' (cnt ''ds_us_tailq_insert_tail''
        ((cnt ''ds_us_tailq_insert_tail_time'' (s2\<lparr>ccdb_time := ccdb_time s2 @ [p]\<rparr>))
         \<lparr>ccdb_lists := (ccdb_lists s2)(l := ccdb_lists s2 l @ [p])\<rparr>))"
      have r: "user_session_add E (Some b) (int l) s = (Some p, s3)"
        using l Some r2 True unfolding s1_def
        by (simp add: user_session_add_def Let_def case_prod_beta tailq_insert_tail_def s3_def)
      note O = S(1) [unfolded others_def]
      have W: "uh s3 = uh s2" "uid s3 = uid s2" "tcc s3 = tcc s2" "tg s3 = tg s2" "que s3 = que s2"
        "dqh s3 = dqh s2" "aid s3 = aid s2" "ast s3 = ast s2" "sid s3 = sid s2"
        "callouts s3 = callouts s2" "callwheel s3 = callwheel s2" "wheel_index s3 = wheel_index s2"
        "ccdb_time s3 = ccdb_time s2 @ [p]" "ccdb_lists s3 = (ccdb_lists s2)(l := ccdb_lists s2 l @ [p])"
        "world s3 = world s2" "bufs s3 = bufs s2"
        by (simp_all add: view_defs fun_eq_iff s3_def)
      have w: "winv live D s3"
        by (rule winv_new [OF hinvD(1) [OF I] p(2,1)]) (use O V in \<open>simp_all add: W\<close>)
      have sn: "saved_new E (bufs s b) p s s3"
        using S(2) [OF True] V by (simp add: saved_new_def W)
      have "hinv E live D {} s3"
        by (rule hinv_new [OF I p(2) w _ _ _ _ n f sn]) (use O V in \<open>simp_all add: W\<close>)
      thus ?thesis using sn O V p bf by (simp add: r W)
    qed
  qed
qed

section \<open>Queuing a message\<close>

lemma hinv_views:
  assumes "uh s' = uh s" "uid s' = uid s" "tcc s' = tcc s" "tg s' = tg s" "que s' = que s"
    "dqh s' = dqh s" "callouts s' = callouts s" "callwheel s' = callwheel s"
    "wheel_index s' = wheel_index s" "ccdb_lists s' = ccdb_lists s" "ccdb_time s' = ccdb_time s"
    "\<And>P. live P (world s') = live P (world s)" "aid s' = aid s" "ast s' = ast s" "sid s' = sid s"
  shows "hinv E live D Q s' = hinv E live D Q s"
proof -
  have "winv live D s' = winv live D s" by (rule winv_views) (simp_all add: assms)
  moreover have "tab E s' = tab E s" by (rule tab_views) (simp_all add: assms)
  ultimately show ?thesis by (simp add: hinv_def sok_def unheld_def assms)
qed

text \<open>A message queued for \<open>p\<close>; the views of the state before the statistics.\<close>

lemma winv_enqueue:
  assumes I: "winv live D s" and p: "uh s p \<noteq> None" and i: "dqh s i = None" and f: "q_frame s s'"
    and V: "que s' = (que s)(p := que s p @ [i])" "dqh s' = (dqh s)(i := Some p)"
      "live User_session_pool (world s') = live User_session_pool (world s)"
      "live Callout_pool (world s') = live Callout_pool (world s)"
      "live Dgc_qmsg_pool (world s') = insert i (live Dgc_qmsg_pool (world s))"
  shows "winv live D s'"
proof (rule winv_queue [OF I f _ V(3,4)])
  note J = invD [OF I]
  have Q: "distinct (que s r)" "dqh s j = Some r \<longleftrightarrow> j \<in> set (que s r)" "uh s r = None \<Longrightarrow> que s r = []"
    for r j using J(3) by (auto simp: wf_queue_def)
  have n: "i \<notin> set (que s r)" for r using Q(2) [of i r] i by simp
  show "wf_queue s'"
    using Q n p f unfolding wf_queue_def by (auto simp: V q_frame_def)
  show "live Dgc_qmsg_pool (world s') = {j. dqh s' j \<noteq> None}"
    using J(4) by (auto simp: V wf_live_def)
qed

definition frame_add :: "'w dsm \<Rightarrow> 'w dsm \<Rightarrow> bool" where
  "frame_add s s' \<longleftrightarrow> uh s' = uh s \<and> aid s' = aid s \<and> ast s' = ast s \<and> sid s' = sid s
     \<and> tg s' = tg s \<and> tcc s' = tcc s"

lemma hinv_q_frame:
  assumes I: "hinv E live D Q s" and f: "q_frame s s'" and w: "winv live D s'"
  shows "hinv E live D Q s' \<and> frame_add s s'"
proof -
  note H = hinvD [OF I] and F = f [unfolded q_frame_def]
  have "tab E s' = tab E s" by (rule tab_views) (simp_all add: F)
  thus ?thesis using I w by (simp add: hinv_def sok_def unheld_def frame_add_def F)
qed

lemma frame_add_skel:
  assumes "skel live s' = skel live s"
  shows "frame_add s s'"
  by (simp add: frame_add_def skel_views [OF assms])

lemma frame_add_trans: "frame_add s s' \<Longrightarrow> frame_add s' s'' \<Longrightarrow> frame_add s s''"
  by (simp add: frame_add_def)

lemma hinv_qmsg_add:
  assumes I: "hinv E live D Q s" and E: "pool_contract E live" and p: "uh s p \<noteq> None"
  shows "hinv E live D Q (snd (dgc_qmsg_add E m (Some b) (Some p) s))
    \<and> frame_add s (snd (dgc_qmsg_add E m (Some b) (Some p) s))"
proof -
  let ?r = "dgc_qmsg_add E m (Some b) (Some p) s"
  note H = hinvD [OF I] and J = invD [OF hinvD(1) [OF I]]
  have h: "us_head (sessions s p) \<noteq> None" using p by (simp add: uh_def)
  show ?thesis
  proof (cases "fst (new_private E Dgc_qmsg_pool (world s))")
    case None
    have "skel live (snd ?r) = skel live s"
      using h None pool_contractD(2) [OF E None]
      by (auto simp: dgc_qmsg_add_def Let_def case_prod_beta skel_def)
    thus ?thesis using I hinv_skel frame_add_skel by blast
  next
    case (Some i)
    have i: "dqh s i = None"
      using pool_contractD(1) [OF E Some] J(4) by (auto simp: wf_live_def)
    have lv: "live P (snd (new_private E Dgc_qmsg_pool (world s)))
      = (if P = Dgc_qmsg_pool then insert i (live P (world s)) else live P (world s))" for P
      using pool_contractD(1) [OF E Some] by auto
    have ni: "i \<notin> live Dgc_qmsg_pool (world s)" using J(4) i by (simp add: wf_live_def)
    define s1 where "s1 = snd (call (buf_to_parm E (Some b))
      (cnt ''ds_api_new_private_succ_us'' (snd (call (new_private E Dgc_qmsg_pool) s))))"
    define parm where "parm = fst (call (buf_to_parm E (Some b))
      (cnt ''ds_api_new_private_succ_us'' (snd (call (new_private E Dgc_qmsg_pool) s))))"
    have s1: "skel live (s1\<lparr>world := world s\<rparr>) = skel live s"
      "live P (world s1) = live P (snd (new_private E Dgc_qmsg_pool (world s)))" for P
      by (simp_all add: s1_def skel_def pool_contractD [OF E])
    show ?thesis
    proof (cases "parm < 0")
      case True
      have r: "snd ?r = cnt ''ds_ccdb_dgc_qmsg_add_fail''
          (dgc_qmsg_free E i (cnt ''ds_api_buf_to_parm_fail'' s1))"
        using h Some True by (auto simp: dgc_qmsg_add_def Let_def case_prod_beta s1_def parm_def)
      have v: "live P (world (snd ?r)) = live P (world s)" for P
        unfolding r using lv ni s1(2)
        by (auto simp: dgc_qmsg_free_def dgc_qmsg_init_def pool_contractD(3) [OF E])
      have f: "q_frame s (snd ?r)" "que (snd ?r) = que s" "dqh (snd ?r) = dqh s"
        "uid (snd ?r) = uid s"
        unfolding r using i
        by (auto simp: q_frame_def dgc_qmsg_free_def dgc_qmsg_init_def s1_def view_defs fun_eq_iff)
      note F = f(1) [unfolded q_frame_def]
      have "hinv E live D Q (snd ?r) = hinv E live D Q s"
        by (rule hinv_views) (simp_all add: F f v)
      thus ?thesis using I F by (simp add: frame_add_def)
    next
      case False
      define s2 where "s2 = cnt ''ds_dgc_qmsg_tailq_insert_tail''
        (upd_diam p (dgc_queue_update (tailq_insert_tail i))
          (upd_dq i (\<lambda>d. d\<lparr>dq_head := Some p, qmsg := m(1 := of_int parm)\<rparr>) s1))"
      have r: "snd ?r = cnt ''ds_ccdb_dgc_qmsg_add_succ'' (touch E p s2)"
        using h Some False
        by (auto simp: dgc_qmsg_add_def Let_def case_prod_beta s1_def parm_def s2_def)
      have f: "q_frame s s2" "que s2 = (que s)(p := que s p @ [i])" "dqh s2 = (dqh s)(i := Some p)"
        by (auto simp: q_frame_def s2_def s1_def view_defs fun_eq_iff tailq_insert_tail_def)
      have "winv live D s2"
        by (rule winv_enqueue [OF H(1) p i f]) (use lv s1(2) in \<open>simp_all add: s2_def\<close>)
      hence "hinv E live D Q s2 \<and> frame_add s s2" by (rule hinv_q_frame [OF I f(1)])
      moreover have sk: "skel live (snd ?r) = skel live s2" by (simp add: r skel_touch [OF E])
      ultimately show ?thesis
        using hinv_skel [OF sk] frame_add_skel [OF sk] frame_add_trans by blast
    qed
  qed
qed

end
