(* ===== verification/Driver.thy ===== *)
theory Driver
  imports Tdb Sample
begin

text \<open>
  The timer test driver, \<open>dsm_driver.c\<close>: it sets and cancels random timers of the wheel and
  checks that they come back. Its callback \<open>driver_timer_callback\<close> leaves the wheel alone, so it
  is a client of the wheel in the sense of the locale \<open>quiet_client\<close>. Output and the static
  variables that are only printed are left out. \<open>rand\<close> is a service; its results are not
  negative.
\<close>

section \<open>Operations\<close>

definition DRIVER_MAX_TIMERS :: int where
  "DRIVER_MAX_TIMERS = 999"

definition DRIVER_MAX_TIMER :: int where
  "DRIVER_MAX_TIMER = 3 * CALLWHEELSIZE"

definition DRIVER_MAX_EVENT :: int where
  "DRIVER_MAX_EVENT = 10"

definition DRIVER_SLEEP_TIME :: ulong where
  "DRIVER_SLEEP_TIME = 1"

definition DRIVER_TIME_UNDEF :: int where
  "DRIVER_TIME_UNDEF = -71770"

definition upd_drv :: "(driver_state \<Rightarrow> driver_state) \<Rightarrow> 'w dsm \<Rightarrow> 'w dsm" where
  "upd_drv f s = s\<lparr>driver := f (driver s)\<rparr>"

definition initialize_driver :: "'w dsm \<Rightarrow> 'w dsm" where
  "initialize_driver s =
     (let s = upd_drv (\<lambda>d. d\<lparr>drv_index := (\<lambda>_. 0), drv_timer := (\<lambda>_. 0), drv_id := (\<lambda>_. 0),
            num_timers := 0, do_nothing := False\<rparr>) s
      in fold (\<lambda>i. upd_drv (\<lambda>d. d\<lparr>drv_index := (drv_index d)(i := int i),
              drv_timer := (drv_timer d)(i := DRIVER_TIME_UNDEF)\<rparr>))
           [0..<nat DRIVER_MAX_TIMERS] s)"

text \<open>The argument points into the array \<open>timer.index\<close>.\<close>

definition driver_timer_callback :: "nat option \<Rightarrow> 'w dsm \<Rightarrow> 'w dsm" where
  "driver_timer_callback arg s = (case arg of
     None \<Rightarrow> s\<lparr>shutdown := True\<rparr>
   | Some k \<Rightarrow>
       let i = drv_index (driver s) k
       in if i < 0 \<or> i \<ge> DRIVER_MAX_TIMERS then s\<lparr>shutdown := True\<rparr>
          else let s = upd_drv (num_timers_update (\<lambda>n. n - 1)) s
               in if num_timers (driver s) < 0 \<or> num_timers (driver s) > DRIVER_MAX_TIMERS
                  then s\<lparr>shutdown := True\<rparr>
                  else upd_drv (\<lambda>d. d\<lparr>drv_timer := (drv_timer d)(nat i := DRIVER_TIME_UNDEF),
                         drv_id := (drv_id d)(nat i := ID_UNDEF)\<rparr>) s)"

text \<open>The scans for a free slot, upwards, and for a running timer, downwards.\<close>

definition driver_free_slot :: "driver_state \<Rightarrow> nat option" where
  "driver_free_slot d = find (\<lambda>j. drv_timer d j \<le> 0) [0..<nat DRIVER_MAX_TIMERS]"

definition driver_used_slot :: "driver_state \<Rightarrow> nat option" where
  "driver_used_slot d = find (\<lambda>j. drv_timer d j > 0) (rev [0..<nat DRIVER_MAX_TIMERS])"

text \<open>The loop over the timers to set; a failure ends it.\<close>

fun driver_set_loop :: "'w env \<Rightarrow> nat \<Rightarrow> 'w dsm \<Rightarrow> 'w dsm" where
  "driver_set_loop E 0 s = s"
| "driver_set_loop E (Suc n) s = (case driver_free_slot (driver s) of
     None \<Rightarrow> driver_set_loop E n s
   | Some j \<Rightarrow>
       let (r, s) = call (c_rand E) s;
           t = r mod (DRIVER_MAX_TIMER - CALLOUTTIMER) + CALLOUTTIMER;
           s = upd_drv (\<lambda>d. d\<lparr>drv_timer := (drv_timer d)(j := t)\<rparr>) s;
           (id', s) = callout_set E (Some Driver_timer_callback) (Some j) t s;
           s = upd_drv (\<lambda>d. d\<lparr>drv_id := (drv_id d)(j := id')\<rparr>) s
       in if ID_VALID id'
          then driver_set_loop E n (upd_drv (num_timers_update (\<lambda>k. k + 1)) s)
          else upd_drv (\<lambda>d. d\<lparr>drv_timer := (drv_timer d)(j := DRIVER_TIME_UNDEF),
                 drv_id := (drv_id d)(j := ID_UNDEF)\<rparr>) (s\<lparr>shutdown := True\<rparr>))"

fun driver_unset_loop :: "'w env \<Rightarrow> nat \<Rightarrow> 'w dsm \<Rightarrow> 'w dsm option" where
  "driver_unset_loop E 0 s = Some s"
| "driver_unset_loop E (Suc n) s = (case driver_used_slot (driver s) of
     None \<Rightarrow> driver_unset_loop E n s
   | Some j \<Rightarrow> do {
       (id', s) \<leftarrow> callout_unset E (Some (drv_id (driver s) j)) s;
       let s = upd_drv (\<lambda>d. d\<lparr>drv_id := (drv_id d)(j := the id'),
                 num_timers := num_timers d - 1,
                 drv_timer := (drv_timer d)(j := DRIVER_TIME_UNDEF)\<rparr>) s;
       driver_unset_loop E n s
     })"

definition driver_sleep :: "'w env \<Rightarrow> 'w dsm \<Rightarrow> 'w dsm" where
  "driver_sleep E s =
     (if do_nothing (driver s) then
        let (t, s) = call (time_now E) s
        in if t - start_time (driver s) \<ge> DRIVER_SLEEP_TIME
           then upd_drv (\<lambda>d. d\<lparr>start_time := 0, do_nothing := False\<rparr>) s
           else s
      else
        let (t, s) = call (time_now E) s
        in upd_drv (\<lambda>d. d\<lparr>start_time := t, do_nothing := True\<rparr>) s)"

definition driver_random_event :: "'w env \<Rightarrow> 'w dsm \<Rightarrow> 'w dsm option" where
  "driver_random_event E s =
     (let s = (if first_time (driver s)
               then upd_drv (\<lambda>d. d\<lparr>first_time := False, start_time := 0\<rparr>) s else s);
          (event, s) = (if do_nothing (driver s) then (DRIVER_MAX_EVENT - 1, s)
                        else let (r, s) = call (c_rand E) s in (r mod DRIVER_MAX_EVENT, s));
          free = DRIVER_MAX_TIMERS - num_timers (driver s)
      in if event = 0 then
           if num_timers (driver s) \<ge> DRIVER_MAX_TIMERS then Some s
           else let (r, s) = call (c_rand E) s
                in Some (driver_set_loop E (nat (r mod free + 1)) s)
         else if event = 1 then
           if num_timers (driver s) \<le> 0 then Some s
           else let (r, s) = call (c_rand E) s
                in driver_unset_loop E (nat (r mod num_timers (driver s) + 1)) s
         else Some (driver_sleep E s))"

definition driver_handler :: "'w handler" where
  "driver_handler f a s = (case f of
     Driver_timer_callback \<Rightarrow> Some (driver_timer_callback a s)
   | _ \<Rightarrow> None)"

section \<open>The driver is a quiet client of the wheel\<close>

lemma driver_callback_quiet: "same_tdb s (driver_timer_callback a s)"
  by (simp add: same_tdb_def driver_timer_callback_def upd_drv_def Let_def split: option.split)

interpretation drv: quiet_client driver_handler "{Driver_timer_callback}"
  by unfold_locales (simp add: driver_handler_def driver_callback_quiet)

section \<open>Properties of the timer wheel\<close>

lemma dsm0_wf: "wf_tdb {} dsm0"
  by (rule wf_tdbI) (simp_all add: dsm0_def callout0_def CALLWHEELSIZE_def)

lemma dsm0_timers: "timers dsm0 = Map.empty"
  by (simp add: fun_eq_iff timers_def dsm0_def callout0_def)

lemma dsm0_callbacks: "callbacks_in F dsm0"
  by (simp add: callbacks_in_def dsm0_timers)

lemma dsm0_new: "fst (new_private sample_env P (world dsm0)) = Some 0" "free_callout dsm0 0"
  by (simp_all add: sample_env_def dsm0_def sample_w0_def first_free.simps free_callout_def
    callout0_def USER_SESSION_SIZE_def)



text \<open>
  \<open>callout_unset\<close> of the identifier of a pending timer cancels that timer and no other: it
  gives the callout back to the pool, invalidates the identifier and keeps the wheel invariant.
\<close>

theorem callout_unset_cancels_timer:
  assumes "wf_tdb {} s" "q < USER_SESSION_SIZE" "timers s q = Some t"
  shows "\<exists>s'. callout_unset E (Some (INDEX_TO_ID q)) s = Some (Some ID_UNDEF, s')
    \<and> wf_tdb {} s' \<and> timers s' = (timers s)(q := None)
    \<and> world s' = delete_private E Callout_pool q (world s)"
  using callout_unset_ok [of "{}" s "INDEX_TO_ID q" t E] assms by simp

theorem callout_unset_cancels_timer_witness:
  "\<exists>s'. callout_unset sample_env (Some 1)
      (snd (callout_set sample_env (Some Driver_timer_callback) (Some 3) 250 dsm0))
    = Some (Some ID_UNDEF, s') \<and> timers s' = Map.empty"
proof -
  let ?s = "snd (callout_set sample_env (Some Driver_timer_callback) (Some 3) 250 dsm0)"
  have s: "wf_tdb {} ?s" "timers ?s 0 = Some (Some Driver_timer_callback, Some 3, delay_ticks 250)"
    "(timers ?s)(0 := None) = Map.empty"
    using callout_set_wf [OF dsm0_wf _ dsm0_new(2) _ dsm0_new(1)]
      callout_set_timers [OF dsm0_wf _ dsm0_new(2) dsm0_new(1)] by (simp_all add: dsm0_timers)
  show ?thesis
    using callout_unset_cancels_timer [OF s(1) _ s(2), of sample_env] s(3)
    by (auto simp: INDEX_TO_ID_def USER_SESSION_SIZE_def)
qed





lemma delay_ticks_cases:
  assumes "0 < e"
  shows "(e div 10) mod 65536 \<noteq> 0 \<Longrightarrow> 10 * delay_ticks e \<le> e \<and> e < 10 * delay_ticks e + 10"
    and "e < 10 \<Longrightarrow> delay_ticks e = 1"
    and "10 \<le> e \<Longrightarrow> (e div 10) mod 65536 = 0 \<Longrightarrow> delay_ticks e = e div 10 + 65536"
proof -
  assume a: "(e div 10) mod 65536 \<noteq> 0"
  hence "10 \<le> e" using assms by (cases "10 \<le> e") (simp_all add: div_pos_pos_trivial)
  thus "10 * delay_ticks e \<le> e \<and> e < 10 * delay_ticks e + 10"
    using a by (simp add: delay_ticks_def Let_def CALLOUTTIMER_def CALLWHEELSIZE_def max_def) linarith
qed (simp_all add: delay_ticks_def Let_def CALLOUTTIMER_def CALLWHEELSIZE_def max_def)

text \<open>
  C19: When a timer fires. A new timer of \<open>e\<close> milliseconds is due after \<open>e / 10\<close> ticks of 10 ms,
  never late and at most one tick early, and a delay below one tick takes one tick. The exception
  is a delay of a whole number of rotations of the wheel (655.36 s): it fires one rotation late.
\<close>

theorem delay_of_expiry:
  assumes "wf_tdb {} s" "0 < e" "free_callout s q"
    "fst (new_private E Callout_pool (world s)) = Some q"
  shows "\<exists>d. timers (snd (callout_set E f a e s)) q = Some (f, a, d)
    \<and> ((e div 10) mod 65536 \<noteq> 0 \<longrightarrow> 10 * d \<le> e \<and> e < 10 * d + 10)
    \<and> (e < 10 \<longrightarrow> d = 1)
    \<and> (10 \<le> e \<and> (e div 10) mod 65536 = 0 \<longrightarrow> d = e div 10 + 65536)"
  using callout_set_timers [OF assms, of f a] delay_ticks_cases [OF assms(2)]
  by (intro exI [of _ "delay_ticks e"]) simp

theorem delay_of_expiry_witness:
  "timers (snd (callout_set sample_env (Some Driver_timer_callback) (Some 3) 655360 dsm0)) 0
    = Some (Some Driver_timer_callback, Some 3, 131072)"
  using delay_of_expiry [OF dsm0_wf _ dsm0_new(2) dsm0_new(1), of 655360
      "Some Driver_timer_callback" "Some 3"] by simp

end
