(* ===== verification/Process_Expire.thy ===== *)
theory Process_Expire
  imports Ccdb_Timers Driver
begin

text \<open>
  The two timer callbacks of \<open>dsm_ccdb.c\<close>: the guard timer Tg, which limits the wait for an answer
  of the ISCP, and the supervision timer Tcc, which limits the wait for the next request of the
  network. Both report the expiration to DGC; a session that was closing already is removed.
\<close>

text \<open>
  The buffer after \<open>memset (pbuf, 0, ...)\<close>, which spares the data, and the assignment of the type.
  The enumerators that are 0 in the headers outside the repository are not known: a cleared
  enumeration field has a value without a name. The construction of the message overwrites it.
\<close>

definition fresh_context :: "diamctx_type \<Rightarrow> diamctx \<Rightarrow> diamctx" where
  "fresh_context t c = \<lparr>diamctx_type = t, sessionIdOffset = 0, sessionIdLength = 0,
     result_code = 0, dc_version = 0, commandCode = DIAM_CMD_OTHER 0, hopByHopId = 0,
     endToEndId = 0, applId = 0,
     flags = \<lparr>DIAM_CMD_FLAG_R = False, DIAM_CMD_FLAG_P = False, DIAM_CMD_FLAG_E = False,
       DIAM_CMD_FLAG_T = False\<rparr>,
     dc_proxy_count = 0, dc_proxy_host = (\<lambda>_. 0), dc_proxy_state_len = (\<lambda>_. 0),
     dc_proxy_states = (\<lambda>_. 0), subIdType = 0, subId = [], originHost = 0, originRealm = 0,
     originStateId = 0, destHost = 0, destRealm = 0, destStateId = 0,
     ccRequestType = DIAM_CC_OTHER 0, ccRequestNumber = 0, authAppId = 0, localTid = 0,
     remoteTid = 0, packageType = PACKAGE_TYPE_OTHER 0, timer = 0, dc_origSysId = 0,
     dc_receiverId = 0, dc_invokeId = 0, dc_trap = False, no_diam = False, no_gdi = False,
     dc_cp = 0, dc_npk_config = 0, buf_off = 0, buf_len = 0, buf_data = buf_data c\<rparr>"

definition free_buffer :: "'w env \<Rightarrow> nat option \<Rightarrow> 'w dsm \<Rightarrow> 'w dsm" where
  "free_buffer E b s = cnt ''ds_api_fep_free_buffer'' (upd_world (fep_free_buffer E b) s)"

text \<open>
  The message about an expiration; the first component tells whether it has been sent. A failed
  allocation does not end the attempt: the conversion of the NULL buffer is left to
  \<open>buf_to_parm\<close>.
\<close>

definition send_expiry ::
  "'w env \<Rightarrow> diamctx_type \<Rightarrow> bool \<Rightarrow> ulong \<Rightarrow> nat \<Rightarrow> 'w dsm \<Rightarrow> bool \<times> 'w dsm" where
  "send_expiry E t flag_repterr result p s =
    (let (pbuf, s) = call (fep_alloc_buffer E) s;
         (go, s) = (case pbuf of
            None \<Rightarrow> (True, cnt ''ds_api_fep_alloc_buffer_fail'' s)
          | Some b \<Rightarrow>
              let s = upd_buf b (fresh_context t) (cnt ''ds_api_fep_alloc_buffer_succ'' s);
                  (rv, s) = qmsg_diamctx_construct E (Some b) (Some p) flag_repterr s
              in if rv \<noteq> SUCCESS then (False, free_buffer E (Some b) s) else (True, s))
     in if \<not> go then (False, s)
     else let (parm, s) = call (buf_to_parm E pbuf) s
     in if parm < 0 then (False, free_buffer E pbuf (cnt ''ds_api_buf_to_parm_fail'' s))
     else let (rv, s) = call (tell_dgc E (MSG_DIAMCTX E) parm (of_int (UNINITIALIZED E)) result) s
     in if rv \<noteq> SUCCESS
        then (False, free_buffer E (parm_to_buf E (of_int parm) (world s))
                       (cnt ''ds_api_tell_dgc_fail'' s))
        else (True, cnt ''ds_api_tell_dgc_succ'' s))"

text \<open>From the update of the state on: the new state, the statistics, and the removal.\<close>

definition expire_tg_finish :: "'w env \<Rightarrow> bool \<Rightarrow> nat \<Rightarrow> 'w dsm \<Rightarrow> 'w dsm option" where
  "expire_tg_finish E flag_remove_us p s =
    (let (st, s) = set_asm_state (Some p) EVENT_CCAS_EXP_TG s;
         st = (if st = STATE_CCAS_UNDEF \<and> \<not> flag_remove_us then STATE_CCAS_REPORTING_ERROR else st);
         s = touch E p (upd_cc p (asm_state_update (\<lambda>_. st)) s)
     in if flag_remove_us
        then Option.bind (user_session_remove E (Some (Some p)) s) (\<lambda>r. Some (snd r))
        else Some s)"

definition process_expire_tg :: "'w env \<Rightarrow> nat option \<Rightarrow> 'w dsm \<Rightarrow> 'w dsm option" where
  "process_expire_tg E arg s = (case arg of
     None \<Rightarrow> Some (cnt ''ds_ccdb_process_expire_tg_fail'' (cnt ''ds_us_null'' s))
   | Some p \<Rightarrow>
       if us_head (sessions s p) = None
       then Some (cnt ''ds_ccdb_process_expire_tg_fail'' (cnt ''ds_us_list_null'' s))
       else let s = set_tg_id p ID_UNDEF s;
                (rv, s) = check_asm_state (Some p) EVENT_CCAS_EXP_TG s
       in if rv \<noteq> SUCCESS then Some (cnt ''ds_ccdb_process_expire_tg_fail'' s)
       else if asm_state (cc s p) \<in> {STATE_CCAS_DISCONTINUING, STATE_CCAS_REPORTING_ERROR}
       then expire_tg_finish E True p s
       else let (go, s) = send_expiry E DIAMCTX_TG_EXP True (result_value E DIAMETER_TOO_BUSY) p s
       in if \<not> go then Some (cnt ''ds_ccdb_process_expire_tg_fail'' s)
       else expire_tg_finish E False p (start_tg E p
              (cnt ''ds_ccdb_process_expire_tg_succ'' (cnt ''ds_msg_tg_expire_xmit'' s))))"

definition process_expire_tcc :: "'w env \<Rightarrow> nat option \<Rightarrow> 'w dsm \<Rightarrow> 'w dsm option" where
  "process_expire_tcc E arg s = (case arg of
     None \<Rightarrow> Some (cnt ''ds_ccdb_process_expire_tcc_fail'' (cnt ''ds_us_null'' s))
   | Some p \<Rightarrow>
       if us_head (sessions s p) = None
       then Some (cnt ''ds_ccdb_process_expire_tcc_fail'' (cnt ''ds_us_list_null'' s))
       else let s = set_tcc_id p ID_UNDEF s;
                (rv, s) = check_asm_state (Some p) EVENT_CCAS_EXP_TCC s
       in if rv \<noteq> SUCCESS then Some (cnt ''ds_ccdb_process_expire_tcc_fail'' s)
       else let (go, s) = send_expiry E DIAMCTX_GDI_INT_STR False 0 p s
       in if \<not> go then Some (cnt ''ds_ccdb_process_expire_tcc_fail'' s)
       else let s = start_tg E p
              (cnt ''ds_ccdb_process_expire_tcc_succ'' (cnt ''ds_msg_gdi_str_internal_xmit'' s));
                (st, s) = set_asm_state (Some p) EVENT_CCAS_EXP_TCC s;
                st = (if st = STATE_CCAS_UNDEF then STATE_CCAS_DISCONTINUING else st)
            in Some (touch E p (upd_cc p (asm_state_update (\<lambda>_. st)) s)))"

text \<open>The callbacks the wheel calls.\<close>

definition dsm_handler :: "'w env \<Rightarrow> 'w handler" where
  "dsm_handler E f a s = (case f of
     Process_expire_tg \<Rightarrow> process_expire_tg E a s
   | Process_expire_tcc \<Rightarrow> process_expire_tcc E a s
   | Driver_timer_callback \<Rightarrow> Some (driver_timer_callback a s))"

end
