(* ===== verification/Expire_Inv.thy ===== *)
theory Expire_Inv
  imports Session_Inv Process_Expire
begin

text \<open>
  The timer callbacks keep the invariant of the session manager, and with them \<open>process_timer\<close>
  runs to its end without following a dangling pointer, although a callback may cancel one timer
  and set another while the loop walks through their slot.
\<close>

section \<open>Contents of buffers do not matter\<close>

text \<open>The skeleton without the types of the buffers.\<close>

definition core where
  "core live s = (callouts s, callwheel s, wheel_index s, ccdb_lists s, ccdb_time s,
     (\<lambda>p. us_skel (sessions s p)), (\<lambda>i. dq_skel (dgc_qmsgs s i)), (\<lambda>P. live P (world s)))"

lemma core_skel: "skel live s' = skel live s \<Longrightarrow> core live s' = core live s"
  by (simp add: skel_def core_def)

lemma core_views:
  assumes "core live s' = core live s"
  shows "uh s' = uh s" "uid s' = uid s" "tcc s' = tcc s" "tg s' = tg s" "aid s' = aid s"
    "ast s' = ast s" "que s' = que s" "sid s' = sid s" "dqh s' = dqh s"
    "callouts s' = callouts s" "callwheel s' = callwheel s"
    "wheel_index s' = wheel_index s" "ccdb_lists s' = ccdb_lists s" "ccdb_time s' = ccdb_time s"
    "live P (world s') = live P (world s)" "qms s' = qms s"
  using assms by (auto simp: core_def us_skel_def dq_skel_def view_defs fun_eq_iff dest!: fun_cong)

lemma hinv_core:
  assumes "core live s' = core live s"
  shows "hinv E live D Q s' = hinv E live D Q s"
  by (rule hinv_views) (simp_all add: core_views [OF assms])

lemma core_simps [simp]:
  "core live (cnt c s) = core live s" "core live (upd_buf b f s) = core live s"
  by (simp_all add: core_def)

lemma core_service [simp]:
  assumes "pool_contract E live"
  shows "core live (snd (call (fep_alloc_buffer E) s)) = core live s"
    "core live (snd (call (buf_to_parm E bo) s)) = core live s"
    "core live (snd (call (tell_dgc E m parm r1 r2) s)) = core live s"
    "core live (free_buffer E bo s) = core live s"
    "core live (touch E p s) = core live s"
  by (rule core_skel, simp add: skel_service [OF assms] skel_touch [OF assms] free_buffer_def)+

lemma core_construct [simp]:
  "core live (snd (qmsg_diamctx_construct E b q f s)) = core live s"
  "core live (snd (check_asm_state q e s)) = core live s"
  "core live (snd (set_asm_state q e s)) = core live s"
  by (rule core_skel, simp)+

lemma core_send_expiry:
  assumes "pool_contract E live"
  shows "core live (snd (send_expiry E t f r p s)) = core live s"
proof (cases "fst (call (fep_alloc_buffer E) s)")
  case None
  thus ?thesis using assms by (simp add: send_expiry_def Let_def case_prod_beta)
next
  case (Some b)
  thus ?thesis using assms by (simp add: send_expiry_def Let_def case_prod_beta)
qed

section \<open>What a callback does to the slot that is being processed\<close>

text \<open>
  It may take elements of \<open>X\<close> out of the slot and append one element, which has to wait for at
  least one more rotation; the other elements of the slot stay as they are.
\<close>

definition wstep :: "nat set \<Rightarrow> 'w dsm \<Rightarrow> 'w dsm \<Rightarrow> bool" where
  "wstep X s s' \<longleftrightarrow> wheel_index s' = wheel_index s \<and> (\<forall>l. int l = wheel_index s \<longrightarrow>
     (\<exists>Y new. Y \<subseteq> X \<and> callwheel s' l = filter (\<lambda>q. q \<notin> Y) (callwheel s l) @ new \<and> length new \<le> 1
        \<and> (\<forall>q \<in> set new. 1 \<le> c_period (callouts s' q)))
     \<and> (\<forall>q \<in> set (callwheel s l). q \<notin> X \<longrightarrow> callouts s' q = callouts s q))"

lemma wstep_mono: "wstep X s s' \<Longrightarrow> X \<subseteq> Z \<Longrightarrow> wstep Z s s'"
  unfolding wstep_def by (meson order_trans subsetD)

lemma wstep_same:
  assumes "callouts s' = callouts s" "callwheel s' = callwheel s" "wheel_index s' = wheel_index s"
  shows "wstep {} s s'"
  by (simp add: wstep_def assms)

lemma wstep_core:
  assumes "core live s' = core live s"
  shows "wstep {} s s'"
  by (rule wstep_same) (simp_all add: core_views [OF assms])

lemma wstep_minus: "wheel_minus X s s' \<Longrightarrow> wstep X s s'"
  by (auto simp: wstep_def wheel_minus_def)

lemma wstep_added:
  assumes "added q l f p s s'" "wf_tdb D s"
  shows "wstep {} s s'"
proof -
  have "r \<noteq> q" if "r \<in> set (callwheel s k)" for r k
    using in_wheel(1) [OF assms(2) that] assms(1) by (auto simp: added_def)
  thus ?thesis using assms(1) by (auto simp: wstep_def added_def)
qed

lemma wstep_cong:
  assumes "wstep X s s'" "callouts t = callouts s" "callwheel t = callwheel s"
    "wheel_index t = wheel_index s" "callouts t' = callouts s'" "callwheel t' = callwheel s'"
    "wheel_index t' = wheel_index s'"
  shows "wstep X t t'"
  using assms(1) unfolding wstep_def assms(2-7) .

lemma wstep_core2:
  assumes "wstep X s s'" "core live s = core live t" "core live t' = core live s'"
  shows "wstep X t t'"
  by (rule wstep_cong [OF assms(1)])
     (simp_all add: core_views [OF assms(2)] core_views [OF assms(3)])

lemma wstep_start_tg:
  assumes "hinv E live D Q s" "pool_contract E live" "uh s p \<noteq> None" "\<not> ID_VALID (tg s p)"
  shows "wstep {} s (start_tg E p s)"
  using start_tg_cases [OF hinvD(1) [OF assms(1)] assms(2-4)]
    wstep_added [OF _ invD(1) [OF hinvD(1) [OF assms(1)]]] wstep_same [of "start_tg E p s" s]
  by (auto simp: wheel_same_def)

section \<open>The callbacks\<close>

lemma next_exp_tg:
  assumes "aid s p = APP_SM_CCAS" "ast s p \<noteq> STATE_CCAS_UNDEF" "allowed s p EVENT_CCAS_EXP_TG"
    "ast s p \<notin> {STATE_CCAS_DISCONTINUING, STATE_CCAS_REPORTING_ERROR}"
  shows "next_state s p EVENT_CCAS_EXP_TG = STATE_CCAS_REPORTING_ERROR"
  using assms unfolding next_state_def allowed_def stt_def stt_case_def
  by (cases "ast s p"; simp add: stt_tables)

lemma next_exp_tcc:
  assumes "aid s p = APP_SM_CCAS" "allowed s p EVENT_CCAS_EXP_TCC"
  shows "ast s p = STATE_CCAS_OPEN" "next_state s p EVENT_CCAS_EXP_TCC = STATE_CCAS_DISCONTINUING"
  using assms unfolding next_state_def allowed_def stt_def stt_case_def
  by (cases "ast s p"; simp add: stt_tables)+

lemma core_state:
  "core live s' = core live s \<Longrightarrow>
   core live (upd_cc p (asm_state_update f) s') = core live (upd_cc p (asm_state_update f) s)"
  by (auto simp: core_def us_skel_def fun_eq_iff dest!: fun_cong)

text \<open>A session is put into a state its timers allow.\<close>

lemma hinv_set_state:
  assumes I: "hinv E live D {p} s" and p: "uh s p \<noteq> None" "aid s p = APP_SM_CCAS"
    and st: "st \<noteq> STATE_CCAS_UNDEF" "st = STATE_CCAS_OPEN \<Longrightarrow> \<not> ID_VALID (tg s p)"
      "ID_VALID (tcc s p) \<Longrightarrow> st = STATE_CCAS_OPEN \<or> st = STATE_CCAS_REPORTING_ERROR"
  shows "hinv E live D {} (upd_cc p (asm_state_update (\<lambda>_. st)) s)"
  using hinv_state [OF I, of p st] sok_state [OF p st] hinv_close [of E live D p "{}"] by simp

lemma wstep_trans_core:
  assumes "wstep X s s1" "core live s2 = core live (upd_cc p (asm_state_update f) s1)"
  shows "wstep X s s2"
  using wstep_cong [OF assms(1), of s s2] core_views(10-12) [OF assms(2)] by simp

lemma expire_tg_stay:
  assumes I: "hinv E live D {p} s" and E: "pool_contract E live"
    and p: "uh s p \<noteq> None" "aid s p = APP_SM_CCAS" "ast s p \<noteq> STATE_CCAS_UNDEF"
      "allowed s p EVENT_CCAS_EXP_TG"
      "ast s p \<notin> {STATE_CCAS_DISCONTINUING, STATE_CCAS_REPORTING_ERROR}"
  shows "ok (\<lambda>s'. hinv E live D {} s' \<and> core live s' = core live (upd_cc p
    (asm_state_update (\<lambda>_. STATE_CCAS_REPORTING_ERROR)) s)) (expire_tg_finish E False p s)"
proof -
  define s1 where "s1 = snd (set_asm_state (Some p) EVENT_CCAS_EXP_TG s)"
  let ?f = "asm_state_update (\<lambda>_. STATE_CCAS_REPORTING_ERROR)"
  have r: "expire_tg_finish E False p s = Some (touch E p (upd_cc p ?f s1))"
    using set_asm_state_result [OF p(1), of EVENT_CCAS_EXP_TG] next_exp_tg [OF p(2-5)]
    by (simp add: expire_tg_finish_def case_prod_beta Let_def s1_def)
  have c: "core live (touch E p (upd_cc p ?f s1)) = core live (upd_cc p ?f s)"
    using core_state [of live s1 s p] by (simp add: E s1_def)
  show ?thesis
    using hinv_set_state [OF I p(1,2), of STATE_CCAS_REPORTING_ERROR] hinv_core [OF c] c
    by (simp add: r)
qed

lemma expire_tg_remove:
  assumes I: "hinv E live D {} s" and E: "pool_contract E live" and p: "uh s p \<noteq> None"
    and t: "tg s p = ID_UNDEF"
  shows "ok (\<lambda>s'. hinv E live D {} s' \<and> wstep (held (tcc s p)) s s') (expire_tg_finish E True p s)"
proof -
  define s1 where "s1 = snd (set_asm_state (Some p) EVENT_CCAS_EXP_TG s)"
  define st where "st = fst (set_asm_state (Some p) EVENT_CCAS_EXP_TG s)"
  define s2 where "s2 = touch E p (upd_cc p (asm_state_update (\<lambda>_. st)) s1)"
  have c: "core live s2 = core live (upd_cc p (asm_state_update (\<lambda>_. st)) s)"
    using core_state [of live s1 s p] by (simp add: E s1_def s2_def)
  have i: "hinv E live D {p} s2" using hinv_state [OF I, of p st] hinv_core [OF c] by simp
  have v: "uh s2 = uh s" "tcc s2 = tcc s" "tg s2 = tg s"
    using core_views(1,3,4) [OF c] by (simp_all add: view_upd_cc tcc_id_cc fun_upd_idem)
  obtain s3 where s3: "user_session_remove E (Some (Some p)) s2 = Some (None, s3)"
    "hinv E live D {} s3" "removed p s2 s3"
    using hinv_remove [OF i E, of p] p v by auto
  have "wstep (held (tcc s p)) s2 s3" using s3(3) t v by (simp add: removed_def wstep_minus)
  hence "wstep (held (tcc s p)) s s3"
    by (rule wstep_cong) (simp_all add: core_views(10-12) [OF c])
  moreover have "expire_tg_finish E True p s = Some s3"
    using s3(1) by (simp add: expire_tg_finish_def case_prod_beta Let_def s1_def st_def s2_def)
  ultimately show ?thesis using s3(2) by simp
qed

lemma process_expire_tg_ok:
  assumes I: "hinv E live D {} (set_tg_id p ID_UNDEF s)" and E: "pool_contract E live"
    and p: "uh s p \<noteq> None"
  shows "ok (\<lambda>s'. hinv E live D {} s' \<and> wstep (held (tcc s p)) s s') (process_expire_tg E (Some p) s)"
proof -
  define s1 where "s1 = set_tg_id p ID_UNDEF s"
  define s2 where "s2 = snd (check_asm_state (Some p) EVENT_CCAS_EXP_TG s1)"
  have I1: "hinv E live D {} s1" using I by (simp add: s1_def)
  have v1: "uh s1 = uh s" "tg s1 p = ID_UNDEF" "tcc s1 = tcc s" "callouts s1 = callouts s"
    "callwheel s1 = callwheel s" "wheel_index s1 = wheel_index s"
    by (simp_all add: s1_def set_tg_id_views)
  have c2: "core live s2 = core live s1" by (simp add: s2_def)
  note v2 = core_views [OF c2]
  have i2: "hinv E live D {} s2" using I1 hinv_core [OF c2] by simp
  have w: "wstep X s t" if "wstep X s1 t" for X t
    by (rule wstep_cong [OF that]) (simp_all add: v1)
  have w2: "wstep X s t" if "wstep X s2 t" for X t
    by (rule w, rule wstep_core2 [OF that c2 refl])
  have h: "us_head (sessions s p) \<noteq> None" using p by (simp add: uh_def)
  have fin: "hinv E live D {} (cnt c t) \<and> wstep (held (tcc s p)) s (cnt c t)"
    if "hinv E live D {} t" "wstep {} s t" for c t
    using that hinv_core [of live "cnt c t" t] wstep_mono [OF wstep_core2 [OF that(2) refl, of live "cnt c t"]]
    by simp
  show ?thesis
  proof (cases "allowed s1 p EVENT_CCAS_EXP_TG")
    case False
    hence "process_expire_tg E (Some p) s = Some (cnt ''ds_ccdb_process_expire_tg_fail'' s2)"
      using h check_asm_state_result [of p EVENT_CCAS_EXP_TG s1]
      by (auto simp: process_expire_tg_def Let_def case_prod_beta s2_def s1_def [symmetric])
    thus ?thesis using fin [OF i2 w2 [OF wstep_core [OF refl]]] by simp
  next
    case True
    have a: "aid s1 p = APP_SM_CCAS" "ast s1 p \<noteq> STATE_CCAS_UNDEF"
      using allowed_running [OF hinvD(2) [OF I1] _ True] p by (simp_all add: v1)
    have e: "process_expire_tg E (Some p) s =
       (if ast s2 p \<in> {STATE_CCAS_DISCONTINUING, STATE_CCAS_REPORTING_ERROR}
       then expire_tg_finish E True p s2
       else let (go, s) = send_expiry E DIAMCTX_TG_EXP True (result_value E DIAMETER_TOO_BUSY) p s2
       in if \<not> go then Some (cnt ''ds_ccdb_process_expire_tg_fail'' s)
       else expire_tg_finish E False p (start_tg E p
              (cnt ''ds_ccdb_process_expire_tg_succ'' (cnt ''ds_msg_tg_expire_xmit'' s))))"
      using h True check_asm_state_result [of p EVENT_CCAS_EXP_TG s1]
      by (auto simp: process_expire_tg_def Let_def case_prod_beta s2_def s1_def [symmetric] tcc_id_cc)
    show ?thesis
    proof (cases "ast s2 p \<in> {STATE_CCAS_DISCONTINUING, STATE_CCAS_REPORTING_ERROR}")
      case True
      show ?thesis
        using expire_tg_remove [OF i2 E, of p] p w2 True
        by (auto simp: e v1 v2 ok_iff)
    next
      case st: False
      define r where "r = send_expiry E DIAMCTX_TG_EXP True (result_value E DIAMETER_TOO_BUSY) p s2"
      define s3 where "s3 = cnt ''ds_ccdb_process_expire_tg_succ''
        (cnt ''ds_msg_tg_expire_xmit'' (snd r))"
      have c3: "core live (snd r) = core live s2" "core live s3 = core live s2"
        by (simp_all add: s3_def r_def core_send_expiry [OF E])
      note v3 = core_views [OF c3(2)]
      have i3: "hinv E live D {} (snd r)" "hinv E live D {} s3"
        using i2 hinv_core [OF c3(1)] hinv_core [OF c3(2)] by simp_all
      have t3: "uh s3 p \<noteq> None" "\<not> ID_VALID (tg s3 p)" using p by (simp_all add: v1 v2 v3)
      have i4: "hinv E live D {p} (start_tg E p s3)" using hinv_start_tg [OF i3(2) E t3] by simp
      have w4: "wstep {} s (start_tg E p s3)"
        by (rule w2, rule wstep_core2 [OF wstep_start_tg [OF i3(2) E t3] c3(2) refl])
      have "ok (\<lambda>s'. hinv E live D {} s' \<and> core live s' = core live (upd_cc p
        (asm_state_update (\<lambda>_. STATE_CCAS_REPORTING_ERROR)) (start_tg E p s3)))
        (expire_tg_finish E False p (start_tg E p s3))"
        by (rule expire_tg_stay [OF i4 E])
           (use p a st True allowed_skel [of "start_tg E p s3" p s1] in \<open>simp_all add: v1 v2 v3\<close>)
      hence "ok (\<lambda>s'. hinv E live D {} s' \<and> wstep (held (tcc s p)) s s')
        (expire_tg_finish E False p (start_tg E p s3))"
        by (rule ok_mono) (use wstep_mono [OF wstep_trans_core [OF w4]] in auto)
      moreover have "wstep {} s (snd r)" by (rule w2, rule wstep_core [OF c3(1)])
      ultimately show ?thesis
        using fin [OF i3(1)] st unfolding e
        by (simp add: Let_def case_prod_beta r_def [symmetric] s3_def [symmetric])
    qed
  qed
qed

lemma process_expire_tcc_ok:
  assumes I: "hinv E live D {} (set_tcc_id p ID_UNDEF s)" and E: "pool_contract E live"
    and p: "uh s p \<noteq> None"
  shows "ok (\<lambda>s'. hinv E live D {} s' \<and> wstep {} s s') (process_expire_tcc E (Some p) s)"
proof -
  define s1 where "s1 = set_tcc_id p ID_UNDEF s"
  define s2 where "s2 = snd (check_asm_state (Some p) EVENT_CCAS_EXP_TCC s1)"
  have I1: "hinv E live D {} s1" using I by (simp add: s1_def)
  have v1: "uh s1 = uh s" "tcc s1 p = ID_UNDEF" "callouts s1 = callouts s"
    "callwheel s1 = callwheel s" "wheel_index s1 = wheel_index s"
    by (simp_all add: s1_def set_tcc_id_views)
  have c2: "core live s2 = core live s1" by (simp add: s2_def)
  note v2 = core_views [OF c2]
  have i2: "hinv E live D {} s2" using I1 hinv_core [OF c2] by simp
  have w2: "wstep X s t" if "wstep X s2 t" for X t
    by (rule wstep_cong [OF wstep_core2 [OF that c2 refl]]) (simp_all add: v1)
  have h: "us_head (sessions s p) \<noteq> None" using p by (simp add: uh_def)
  have fin: "hinv E live D {} (cnt c t) \<and> wstep {} s (cnt c t)"
    if "hinv E live D {} t" "wstep {} s t" for c t
    using that hinv_core [of live "cnt c t" t] wstep_core2 [OF that(2) refl, of live "cnt c t"]
    by simp
  show ?thesis
  proof (cases "allowed s1 p EVENT_CCAS_EXP_TCC")
    case False
    hence "process_expire_tcc E (Some p) s = Some (cnt ''ds_ccdb_process_expire_tcc_fail'' s2)"
      using h check_asm_state_result [of p EVENT_CCAS_EXP_TCC s1]
      by (auto simp: process_expire_tcc_def Let_def case_prod_beta s2_def s1_def [symmetric])
    thus ?thesis using fin [OF i2 w2 [OF wstep_core [OF refl]]] by simp
  next
    case True
    have a: "aid s1 p = APP_SM_CCAS" "ast s1 p \<noteq> STATE_CCAS_UNDEF"
      using allowed_running [OF hinvD(2) [OF I1] _ True] p by (simp_all add: v1)
    note N = next_exp_tcc [OF a(1) True]
    have tg: "\<not> ID_VALID (tg s1 p)" using hinvD(2) [OF I1, of p] N(1) p by (simp add: sok_def v1)
    define r where "r = send_expiry E DIAMCTX_GDI_INT_STR False 0 p s2"
    define s3 where "s3 = cnt ''ds_ccdb_process_expire_tcc_succ''
      (cnt ''ds_msg_gdi_str_internal_xmit'' (snd r))"
    define s4 where "s4 = start_tg E p s3"
    define s5 where "s5 = touch E p (upd_cc p (asm_state_update (\<lambda>_. STATE_CCAS_DISCONTINUING))
      (snd (set_asm_state (Some p) EVENT_CCAS_EXP_TCC s4)))"
    have c3: "core live (snd r) = core live s2" "core live s3 = core live s2"
      by (simp_all add: s3_def r_def core_send_expiry [OF E])
    note v3 = core_views [OF c3(2)]
    have i3: "hinv E live D {} (snd r)" "hinv E live D {} s3"
      using i2 hinv_core [OF c3(1)] hinv_core [OF c3(2)] by simp_all
    have t3: "uh s3 p \<noteq> None" "\<not> ID_VALID (tg s3 p)" using p tg by (simp_all add: v1 v2 v3)
    have i4: "hinv E live D {p} s4" using hinv_start_tg [OF i3(2) E t3] by (simp add: s4_def)
    have n4: "fst (set_asm_state (Some p) EVENT_CCAS_EXP_TCC s4) = STATE_CCAS_DISCONTINUING"
      using N(2) allowed_skel(2) [of s4 p s1] p
      by (simp add: set_asm_state_result s4_def v1 v2 v3)
    have c5: "core live s5 = core live (upd_cc p (asm_state_update (\<lambda>_. STATE_CCAS_DISCONTINUING)) s4)"
      unfolding s5_def using core_state [of live "snd (set_asm_state (Some p) EVENT_CCAS_EXP_TCC s4)" s4 p]
      by (simp add: E)
    have "hinv E live D {} (upd_cc p (asm_state_update (\<lambda>_. STATE_CCAS_DISCONTINUING)) s4)"
      by (rule hinv_set_state [OF i4]) (use p a in \<open>simp_all add: s4_def v1 v2 v3\<close>)
    hence i5: "hinv E live D {} s5" using hinv_core [OF c5] by simp
    have "wstep {} s s4"
      unfolding s4_def by (rule w2, rule wstep_core2 [OF wstep_start_tg [OF i3(2) E t3] c3(2) refl])
    hence w5: "wstep {} s s5" using wstep_trans_core c5 by blast
    have e: "process_expire_tcc E (Some p) s = (if \<not> fst r
        then Some (cnt ''ds_ccdb_process_expire_tcc_fail'' (snd r)) else Some s5)"
      using h True check_asm_state_result [of p EVENT_CCAS_EXP_TCC s1] n4
      by (auto simp: process_expire_tcc_def Let_def case_prod_beta s2_def s1_def [symmetric]
          r_def s3_def s4_def s5_def)
    show ?thesis
      using fin [OF i3(1) w2 [OF wstep_core [OF c3(1)]]] i5 w5 by (simp add: e)
  qed
qed

section \<open>Entering and leaving a callback\<close>

text \<open>
  The callout \<open>r\<close> has been unlinked; the session it belongs to forgets its identifier first. From
  then on no session refers to \<open>r\<close>.
\<close>

lemma hinv_enter:
  assumes I: "hinv E live {} {} s" and r: "r \<in> set (callwheel s p)"
  obtains u where "coa s r = Some u" "uh s u \<noteq> None" "cof s r = Some Process_expire_tcc"
      "tcc s u = INDEX_TO_ID r" "hinv E live {r} {} (set_tcc_id u ID_UNDEF (unlinked p r s))"
  | u where "coa s r = Some u" "uh s u \<noteq> None" "cof s r = Some Process_expire_tg"
      "tg s u = INDEX_TO_ID r" "hinv E live {r} {} (set_tg_id u ID_UNDEF (unlinked p r s))"
proof -
  note H = hinvD [OF I] and J = invD [OF hinvD(1) [OF I]]
  note O = ownD [OF J(5)] and V = set_tcc_id_views set_tg_id_views
  define t where "t = unlinked p r s"
  have v: "uh t = uh s" "uid t = uid s" "tcc t = tcc s" "tg t = tg s" "aid t = aid s" "ast t = ast s"
    "que t = que s" "sid t = sid s" "dqh t = dqh s" "coh t = coh s" "cof t = cof s" "coa t = coa s"
    "ccdb_lists t = ccdb_lists s" "ccdb_time t = ccdb_time s" "world t = world s"
    "callwheel t = (callwheel s)(p := remove1 r (callwheel s p))" "wheel_index t = wheel_index s"
    by (simp_all add: t_def view_defs fun_eq_iff)
  have rl: "coh s r = Some p" "r < USER_SESSION_SIZE"
    using in_wheel(1) [OF J(1) r] wf_tdbD(4) [OF J(1) r] by simp_all
  have inj: "q = r" if "INDEX_TO_ID q = INDEX_TO_ID r" "coh s q \<noteq> None" for q
    using that held_index [OF J(1) that(2)] rl(2) ID_roundtrip by (metis empty_iff)
  have wf: "wf_tdb {r} t" using wf_unlink [OF J(1) r] by (simp add: t_def)
  have own: "own {} t"
  proof (rule ownI)
    fix q assume "uh t q \<noteq> None"
    hence F: "tcc_first s q" using O(3) by (simp add: v)
    have d: "set (remove1 r (callwheel s p)) = set (callwheel s p) - {r}"
      by (rule set_remove1_distinct [OF wf_tdbD(3) [OF J(1)]])
    show "tcc_first t q"
      unfolding tcc_first_def v
    proof (intro allI impI)
      fix l
      let ?x = "ID_TO_INDEX (tcc s q)" and ?y = "ID_TO_INDEX (tg s q)"
      let ?w = "((callwheel s)(p := remove1 r (callwheel s p))) l"
      assume a: "ID_VALID (tcc s q)" "ID_VALID (tg s q)" "?x \<in> set ?w" "?y \<in> set ?w"
      hence "?x \<in> set (callwheel s l)" "?y \<in> set (callwheel s l)" "l = p \<Longrightarrow> r \<noteq> ?x"
        using d by (auto split: if_splits)
      moreover from this have "precedes ?x ?y (callwheel s l)"
        using F a(1,2) unfolding tcc_first_def by blast
      ultimately show "precedes ?x ?y ?w" using precedes_remove1 by auto
    qed
  qed (use O in \<open>simp_all add: v tcc_owned_def tg_owned_def timer_held_def\<close>)
  have rest: "wf_us t" "wf_queue t" "wf_live live t" "tab E t"
    using J(2-4) H(5) wf_us_views [of t s] wf_queue_views [of t s] tab_views [of t s E]
    by (simp_all add: v wf_live_def)
  have ids: "uh s q \<noteq> None \<and> coa s r = Some q \<and> cof s r = Some Process_expire_tcc"
    if "ID_VALID (tcc s q)" "ID_TO_INDEX (tcc s q) = r" for q
    using that O(1,5) [of q] by (cases "uh s q") (auto simp: tcc_owned_def)
  have ids': "uh s q \<noteq> None \<and> coa s r = Some q \<and> cof s r = Some Process_expire_tg"
    if "ID_VALID (tg s q)" "ID_TO_INDEX (tg s q) = r" for q
    using that O(2,6) [of q] by (cases "uh s q") (auto simp: tg_owned_def)
  have hd: "timer_held s r" using O(4) rl(1) by simp
  then consider u where "coa s r = Some u" "uh s u \<noteq> None" "cof s r = Some Process_expire_tcc"
      "tcc s u = INDEX_TO_ID r"
    | u where "coa s r = Some u" "uh s u \<noteq> None" "cof s r = Some Process_expire_tg"
      "tg s u = INDEX_TO_ID r"
    unfolding timer_held_def by blast
  thus thesis
  proof cases
    case (1 u)
    let ?t = "set_tcc_id u ID_UNDEF t"
    have "own {r} ?t"
      by (rule own_reset(1) [OF own, of "{r}" "INDEX_TO_ID r"]) (use inj 1 in \<open>auto simp: v\<close>)
    hence "winv live {r} ?t"
      using wf rest rl(1) wf_us_views [of ?t t] wf_queue_views [of ?t t]
      by (simp add: winv_def V wf_live_def v)
    moreover have "sok ?t q" for q
      using H(2) [of q] 1 by (auto simp: sok_def V v)
    moreover have "unheld {r} ?t"
      using ids ids' 1 by (auto simp: unheld_def held_def V v)
    moreover have "tab E ?t" using rest(4) tab_views [of ?t t E] by (simp add: V)
    ultimately have "hinv E live {r} {} ?t" by (simp add: hinv_def)
    thus thesis using that(1) [OF 1] by (simp add: t_def)
  next
    case (2 u)
    let ?t = "set_tg_id u ID_UNDEF t"
    have "own {r} ?t"
      by (rule own_reset(2) [OF own, of "{r}" "INDEX_TO_ID r"]) (use inj 2 in \<open>auto simp: v\<close>)
    hence "winv live {r} ?t"
      using wf rest rl(1) wf_us_views [of ?t t] wf_queue_views [of ?t t]
      by (simp add: winv_def V wf_live_def v)
    moreover have "sok ?t q" for q
      using H(2) [of q] 2 by (auto simp: sok_def V v)
    moreover have "unheld {r} ?t"
      using ids ids' 2 by (auto simp: unheld_def held_def V v)
    moreover have "tab E ?t" using rest(4) tab_views [of ?t t E] by (simp add: V)
    ultimately have "hinv E live {r} {} ?t" by (simp add: hinv_def)
    thus thesis using that(2) [OF 2] by (simp add: t_def)
  qed
qed

text \<open>After the callback its callout is freed.\<close>

lemma hinv_leave:
  assumes I: "hinv E live {r} {} s" and E: "pool_contract E live"
  shows "hinv E live {} {} (callout_free E r s)"
proof -
  let ?t = "callout_free E r s"
  note H = hinvD [OF I] and J = invD [OF hinvD(1) [OF I]] and O = ownD [OF invD(5) [OF hinvD(1) [OF I]]]
  have v: "uh ?t = uh s" "uid ?t = uid s" "tcc ?t = tcc s" "tg ?t = tg s" "aid ?t = aid s"
    "ast ?t = ast s" "que ?t = que s" "sid ?t = sid s" "dqh ?t = dqh s" "coh ?t = (coh s)(r := None)"
    "cof ?t = (cof s)(r := None)" "coa ?t = (coa s)(r := None)"
    by (simp_all add: view_defs fun_eq_iff own_callout_free)
  have w: "world ?t = delete_private E Callout_pool r (world s)"
    by (simp add: callout_free_def callout_init_def)
  have u: "r \<notin> set (callwheel s l)" for l using wf_tdbD(8) [OF J(1), of r l] by auto
  have n: "ID_VALID (tcc s p) \<Longrightarrow> ID_TO_INDEX (tcc s p) \<noteq> r"
    "ID_VALID (tg s p) \<Longrightarrow> ID_TO_INDEX (tg s p) \<noteq> r" for p
    using H(3,4) [of p] by (auto simp: held_def)
  have "wf_tdb {} ?t" using wf_free [OF J(1) u] by simp
  moreover have "wf_us ?t = wf_us s" "wf_queue ?t = wf_queue s"
    by (intro wf_us_views wf_queue_views; simp add: v)+
  moreover have "wf_live live ?t"
    using J(4) by (auto simp: wf_live_def v w pool_contractD(3) [OF E])
  moreover have "own {} ?t"
  proof (rule ownI)
    fix q assume "coh ?t q \<noteq> None"
    hence "timer_held s q" "q \<noteq> r" using O(4) [of q] by (auto simp: v split: if_splits)
    thus "timer_held ?t q" by (auto simp: timer_held_def v)
  qed (use O n in \<open>auto simp: tcc_owned_def tg_owned_def tcc_first_def v Let_def\<close>)
  moreover have "unheld {} ?t" by (simp add: unheld_def)
  moreover have "tab E ?t" using H(5) tab_views [of ?t s E] by (simp add: v)
  moreover have "sok ?t p" for p using H(2) [of p] by (simp add: sok_def v)
  ultimately show ?thesis using J by (simp add: hinv_def winv_def)
qed

section \<open>The loop over a slot\<close>

lemma hinv_wheel:
  assumes I: "hinv E live {} {} s" and W: "wf_tdb {} s'"
    and V: "coh s' = coh s" "cof s' = cof s" "coa s' = coa s" "callwheel s' = callwheel s"
      "sessions s' = sessions s" "dgc_qmsgs s' = dgc_qmsgs s" "world s' = world s"
      "ccdb_lists s' = ccdb_lists s" "ccdb_time s' = ccdb_time s"
  shows "hinv E live {} {} s'"
proof -
  note H = hinvD [OF I] and J = invD [OF hinvD(1) [OF I]]
  have v: "uh s' = uh s" "uid s' = uid s" "tcc s' = tcc s" "tg s' = tg s" "aid s' = aid s"
    "ast s' = ast s" "que s' = que s" "sid s' = sid s" "dqh s' = dqh s"
    by (simp_all add: view_defs V fun_eq_iff)
  have "wf_us s'" "wf_queue s'" "wf_live live s'" "tab E s'"
    using J H(5) wf_us_views [of s' s] wf_queue_views [of s' s] tab_views [of s' s E]
    by (simp_all add: v V wf_live_def)
  moreover have "own {} s'"
    using J(5) by (simp add: own_def tcc_owned_def tg_owned_def timer_held_def tcc_first_def v V)
  moreover have "sok s' p" for p using H(2) [of p] by (simp add: sok_def v)
  ultimately show ?thesis using W by (simp add: hinv_def winv_def unheld_def)
qed

lemma hinv_decr:
  assumes I: "hinv E live {} {} s" and r: "0 < c_period (callouts s r)"
  shows "hinv E live {} {} (decr_callout r s)"
  by (rule hinv_wheel [OF I wf_decr [OF invD(1) [OF hinvD(1) [OF I]] r]])
     (simp_all add: view_defs fun_eq_iff decr_callout_def)

lemma hinv_advance:
  assumes I: "hinv E live {} {} s"
  shows "hinv E live {} {} (wheel_advance s)"
  by (rule hinv_wheel [OF I wf_advance [OF invD(1) [OF hinvD(1) [OF I]]]])
     (simp_all add: view_defs fun_eq_iff)

lemma precedes_before:
  assumes "distinct (as @ r # bs)" "x \<in> set bs"
  shows "\<not> precedes x r (as @ r # bs)"
proof -
  have "takeWhile (\<lambda>z. z \<noteq> x) (as @ r # bs) = as @ r # takeWhile (\<lambda>z. z \<noteq> x) bs"
    using assms by (subst takeWhile_append2) auto
  thus ?thesis by (simp add: precedes_def)
qed

text \<open>
  The rest of the slot stays in place. When \<open>Tg\<close> expires, the session's \<open>Tcc\<close> may be cancelled,
  but it is not in the rest of the slot.
\<close>

definition slot_rest :: "nat \<Rightarrow> nat list \<Rightarrow> 'w dsm \<Rightarrow> 'w dsm \<Rightarrow> bool" where
  "slot_rest p bs s s' \<longleftrightarrow> wheel_index s' = wheel_index s \<and>
     (\<exists>before new. callwheel s' p = before @ bs @ new \<and> length new \<le> 1
        \<and> (\<forall>q \<in> set new. 1 \<le> c_period (callouts s' q))) \<and>
     (\<forall>q \<in> set bs. callouts s' q = callouts s q)"

lemma slot_rest_free:
  assumes w: "wstep X t s'" and I: "hinv E live {r} {} s'"
    and p: "int p = wheel_index t" "callwheel t p = as @ bs" "X \<inter> set bs = {}" "r \<notin> set bs"
  shows "slot_rest p bs t (callout_free E r s')"
proof -
  have u: "r \<notin> set (callwheel s' l)" for l
    using wf_tdbD(8) [OF invD(1) [OF hinvD(1) [OF I]], of r l] by auto
  note W = conjunct2 [OF w [unfolded wstep_def], rule_format, OF p(1)]
  obtain Y new where n: "Y \<subseteq> X" "callwheel s' p = filter (\<lambda>q. q \<notin> Y) (as @ bs) @ new"
      "length new \<le> 1" "\<And>q. q \<in> set new \<Longrightarrow> 1 \<le> c_period (callouts s' q)"
    using conjunct1 [OF W] by (simp only: p(2)) blast
  have o: "callouts s' q = callouts t q" if "q \<in> set bs" for q
    using conjunct2 [OF W] p(2,3) that by auto
  have "filter (\<lambda>q. q \<notin> Y) bs = bs" using n(1) p(3) by (intro filter_True) auto
  hence c: "callwheel (callout_free E r s') p = filter (\<lambda>q. q \<notin> Y) as @ bs @ new"
    using n(2) by simp
  have new: "1 \<le> c_period (callouts (callout_free E r s') q)" if "q \<in> set new" for q
    using n(4) [OF that] u [of p] n(2) that by (auto simp: own_callout_free)
  have rest: "callouts (callout_free E r s') q = callouts t q" if "q \<in> set bs" for q
    using o [OF that] p(4) that by (auto simp: own_callout_free)
  have "wheel_index s' = wheel_index t" using w by (simp add: wstep_def)
  thus ?thesis unfolding slot_rest_def using c n(3) new rest by auto
qed

lemma expire_callout_ok:
  assumes I: "hinv E live {} {} s" and E: "pool_contract E live"
    and p: "int p = wheel_index s" "callwheel s p = as @ r # bs"
  shows "ok (\<lambda>s'. hinv E live {} {} s' \<and> slot_rest p bs s s') (expire_callout E (dsm_handler E) p r s)"
proof -
  define s0 where "s0 = cnt ''ds_co_expire'' s"
  define t where "t = unlinked p r s0"
  have I0: "hinv E live {} {} s0" using I hinv_core [of live s0 s] by (simp add: s0_def)
  have r: "r \<in> set (callwheel s p)" "r \<in> set (callwheel s0 p)" using p by (simp_all add: s0_def)
  have d: "distinct (as @ r # bs)" using wf_tdbD(3) [OF invD(1) [OF hinvD(1) [OF I]], of p] p by simp
  have t: "callouts t = callouts s" "callwheel t p = as @ bs" "wheel_index t = wheel_index s"
    "uh t = uh s" "tcc t = tcc s"
    using p d by (simp_all add: t_def s0_def remove1_append view_defs fun_eq_iff)
  have s0: "coa s0 = coa s" "uh s0 = uh s" "cof s0 = cof s" "tcc s0 = tcc s" "tg s0 = tg s"
    by (simp_all add: s0_def)
  have fin: "ok (\<lambda>s'. hinv E live {} {} s' \<and> slot_rest p bs s s') (expire_callout E (dsm_handler E) p r s)"
    if "ok (\<lambda>s'. hinv E live {r} {} s' \<and> wstep X t s') (dsm_handler E f (Some u) t)"
      "cof s r = Some f" "coa s r = Some u" "X \<inter> set bs = {}" for X f u
  proof -
    have "expire_callout E (dsm_handler E) p r s
        = Option.bind (dsm_handler E f (Some u) t) (\<lambda>s. Some (callout_free E r s))"
      using that(2,3) by (simp add: expire_callout_eq [OF r(1)] t_def s0_def view_defs)
    moreover have "hinv E live {} {} (callout_free E r s') \<and> slot_rest p bs s (callout_free E r s')"
      if "hinv E live {r} {} s' \<and> wstep X t s'" for s'
      using hinv_leave [of E live r s'] E slot_rest_free [of X t s' E live r p as bs] that t p
        \<open>X \<inter> set bs = {}\<close> d by (auto simp: slot_rest_def)
    ultimately show ?thesis using that(1) by (auto intro: ok_mono)
  qed
  from I0 r(2) show ?thesis
  proof (rule hinv_enter)
    fix u assume u: "coa s0 r = Some u" "uh s0 u \<noteq> None" "cof s0 r = Some Process_expire_tcc"
      "tcc s0 u = INDEX_TO_ID r" "hinv E live {r} {} (set_tcc_id u ID_UNDEF (unlinked p r s0))"
    have "ok (\<lambda>s'. hinv E live {r} {} s' \<and> wstep {} t s') (dsm_handler E Process_expire_tcc (Some u) t)"
      unfolding dsm_handler_def timeout_t.case
      by (rule process_expire_tcc_ok [OF _ E]) (use u in \<open>simp_all add: t_def [symmetric] t s0\<close>)
    thus ?thesis by (rule fin) (use u in \<open>simp_all add: s0\<close>)
  next
    fix u assume u: "coa s0 r = Some u" "uh s0 u \<noteq> None" "cof s0 r = Some Process_expire_tg"
      "tg s0 u = INDEX_TO_ID r" "hinv E live {r} {} (set_tg_id u ID_UNDEF (unlinked p r s0))"
    have b: "r < USER_SESSION_SIZE"
      using wf_tdbD(4) [OF invD(1) [OF hinvD(1) [OF I]] r(1)] .
    have tg: "ID_VALID (tg s u)" "ID_TO_INDEX (tg s u) = r" using u(4) b by (simp_all add: s0)
    have "tcc_first s u" using ownD(3) [OF invD(5) [OF hinvD(1) [OF I]]] u(2) by (simp add: s0)
    hence f: "x \<notin> set bs" if "x \<in> held (tcc s u)" for x
    proof -
      have x: "ID_VALID (tcc s u)" "ID_TO_INDEX (tcc s u) = x"
        using that by (auto simp: held_def split: if_splits)
      hence "x \<in> set (callwheel s p) \<Longrightarrow> precedes x r (callwheel s p)"
        using \<open>tcc_first s u\<close> tg r(1) unfolding tcc_first_def by blast
      thus ?thesis using precedes_before [OF d, of x] p(2) by auto
    qed
    have "ok (\<lambda>s'. hinv E live {r} {} s' \<and> wstep (held (tcc t u)) t s')
        (dsm_handler E Process_expire_tg (Some u) t)"
      unfolding dsm_handler_def timeout_t.case
      by (rule process_expire_tg_ok [OF _ E]) (use u in \<open>simp_all add: t_def [symmetric] t s0\<close>)
    thus ?thesis by (rule fin) (use u f in \<open>auto simp: s0 t\<close>)
  qed
qed

text \<open>
  The loop ends: every callback takes one element of the rest away and appends at most one, which
  is not due.
\<close>

definition weight :: "'w dsm \<Rightarrow> nat list \<Rightarrow> nat" where
  "weight s qs = (\<Sum>q\<leftarrow>qs. if c_period (callouts s q) \<le> 0 then 2 else 1)"

lemma weight_same: "(\<And>q. q \<in> set qs \<Longrightarrow> callouts s' q = callouts s q) \<Longrightarrow> weight s' qs = weight s qs"
  unfolding weight_def by (induction qs) auto

lemma weight_new: "length new \<le> 1 \<Longrightarrow> (\<And>q. q \<in> set new \<Longrightarrow> 1 \<le> c_period (callouts s q)) \<Longrightarrow> weight s new \<le> 1"
  by (cases new) (auto simp: weight_def)

lemma timer_loop_ok:
  assumes "hinv E live {} {} s" and E: "pool_contract E live"
    and "int p = wheel_index s" "callwheel s p = as @ qs"
  shows "ok (\<lambda>s'. hinv E live {} {} s' \<and> wheel_index s' = wheel_index s)
    (timer_loop E (dsm_handler E) p (tailq_first qs) s)"
  using assms(1,3,4)
proof (induction "weight s qs" arbitrary: s as qs rule: less_induct)
  case less
  note I = less.prems(1) and p = less.prems(2) and cw = less.prems(3)
  show ?case
  proof (cases qs)
    case Nil
    thus ?thesis using I by simp
  next
    case (Cons r bs)
    have d: "distinct (callwheel s p)" using wf_tdbD(3) [OF invD(1) [OF hinvD(1) [OF I]]] .
    have cw': "callwheel s p = as @ r # bs" using cw Cons by simp
    have e: "timer_loop E (dsm_handler E) p (tailq_first qs) s = (if c_period (callouts s r) \<le> 0
      then Option.bind (expire_callout E (dsm_handler E) p r s) (timer_loop E (dsm_handler E) p (tailq_first bs))
      else timer_loop E (dsm_handler E) p (tailq_first bs) (decr_callout r s))"
      using timer_loop_visit [OF cw' d] Cons by simp
    show ?thesis
    proof (cases "c_period (callouts s r) \<le> 0")
      case True
      have "ok (\<lambda>s''. hinv E live {} {} s'' \<and> wheel_index s'' = wheel_index s)
          (timer_loop E (dsm_handler E) p (tailq_first bs) s')"
        if s': "hinv E live {} {} s' \<and> slot_rest p bs s s'" for s'
      proof (cases bs)
        case Nil
        thus ?thesis using s' by (simp add: slot_rest_def)
      next
        case (Cons b bs')
        obtain before new where n: "callwheel s' p = before @ bs @ new" "length new \<le> 1"
            "\<And>q. q \<in> set new \<Longrightarrow> 1 \<le> c_period (callouts s' q)"
            "\<And>q. q \<in> set bs \<Longrightarrow> callouts s' q = callouts s q" "wheel_index s' = wheel_index s"
          using s' unfolding slot_rest_def by blast
        have "weight s' (bs @ new) = weight s bs + weight s' new"
          using weight_same [of bs s' s] n(4) by (simp add: weight_def)
        hence "weight s' (bs @ new) < weight s qs"
          using weight_new [OF n(2,3)] True \<open>qs = r # bs\<close> by (simp add: weight_def)
        from less.hyps [OF this _ _ n(1)] show ?thesis
          using s' n(5) p Cons by simp
      qed
      thus ?thesis using expire_callout_ok [OF I E p cw'] True by (auto simp: e intro: ok_mono)
    next
      case False
      have "weight (decr_callout r s) bs = weight s bs"
        using d cw' by (intro weight_same) auto
      hence "weight (decr_callout r s) bs < weight s qs" using Cons by (simp add: weight_def)
      from less.hyps [OF this hinv_decr [OF I], of "as @ [r]"] show ?thesis
        using False p cw' by (simp add: e)
    qed
  qed
qed

lemma process_timer_ok:
  assumes I: "hinv E live {} {} s" and E: "pool_contract E live"
  shows "ok (\<lambda>s'. hinv E live {} {} s' \<and> wheel_index s' = (wheel_index s + 1) mod CALLWHEELSIZE)
    (process_timer E (dsm_handler E) s)"
proof -
  define t where "t = wheel_advance s"
  have I': "hinv E live {} {} t" using hinv_advance [OF I] by (simp add: t_def)
  note w = wf_tdbD(1,2) [OF invD(1) [OF hinvD(1) [OF I]]]
    and w' = wf_tdbD(1) [OF invD(1) [OF hinvD(1) [OF I']]]
  have "wheel_index t = (wheel_index s + 1) mod CALLWHEELSIZE"
    using w by (cases "wheel_index s = 65535") (simp_all add: t_def CALLWHEELSIZE_def)
  thus ?thesis
    using timer_loop_ok [OF I' E, of "nat (wheel_index t)" "[]"] w'
    by (simp add: process_timer_def Let_def t_def [symmetric])
qed

end
