(* ===== verification/Process_Gdi.thy ===== *)
theory Process_Gdi
  imports Ccdb_Timers
begin

text \<open>
  The messages from the ISCP and the control messages of \<open>dsm_ccdb.c\<close>: \<open>process_gdi\<close>,
  \<open>process_gdi_abort\<close>, \<open>process_gdi_dim_close\<close>, \<open>process_us_remove\<close> and \<open>process_update_cp\<close>.
  They find their session by the transaction identifier the session manager composed for it.
\<close>

section \<open>The session of a transaction\<close>

text \<open>
  The identifier names a session element; the element must be in use and carry the same
  identifier. The first component tells whether it does, the second is the pointer if one was
  formed.
\<close>

definition us_by_tid :: "ulong \<Rightarrow> 'w dsm \<Rightarrow> bool \<times> nat option \<times> 'w dsm" where
  "us_by_tid t s =
    (let i = drop_bit SHIFT_TID_CC (t AND MASK_TID_CC)
     in if \<not> ID_VALID i then (False, None, cnt ''ds_dc_tid_local_invalid'' s)
     else let p = ID_TO_INDEX i
     in if us_head (sessions s p) = None then (False, Some p, cnt ''ds_us_list_null'' s)
     else if tid_local (gd s p) \<noteq> t then (False, Some p, cnt ''ds_us_tid_local_invalid'' s)
     else (True, Some p, s))"

text \<open>What a session's new state is when \<open>set_asm_state\<close> fails although it should not.\<close>

definition move_asm_state :: "nat \<Rightarrow> event_ccas \<Rightarrow> state_ccas \<Rightarrow> 'w dsm \<Rightarrow> 'w dsm" where
  "move_asm_state p asm_event fallback s =
    (let (st, s) = set_asm_state (Some p) asm_event s;
         st = (if st = STATE_CCAS_UNDEF then fallback else st)
     in upd_cc p (asm_state_update (\<lambda>_. st)) s)"

section \<open>GDI messages\<close>

definition gdi_fail :: "result \<Rightarrow> nat option \<Rightarrow> 'w dsm \<Rightarrow> result \<times> nat option \<times> 'w dsm" where
  "gdi_fail r q s = (r, q, cnt ''ds_ccdb_process_gdi_fail'' s)"

text \<open>The session by package type; \<open>q\<close> is the value of \<open>*p2\<close> before.\<close>

definition gdi_find ::
  "'w env \<Rightarrow> nat \<Rightarrow> nat option \<Rightarrow> 'w dsm \<Rightarrow> (result + nat) \<times> nat option \<times> 'w dsm" where
  "gdi_find E b q s =
    (let c = bufs s b
     in if packageType c = PACKAGE_TYPE_REQUEST then
       let s = cnt ''ds_pkg_gdi_begin_rcvd'' s;
           (ccdb_hash_index, s) = user_session_hash E (Some (FEP_BUF_SID c)) (sessionIdLength c) s
       in if ccdb_hash_index < 0 then (Inl DIAMETER_UNABLE_TO_COMPLY, q, s)
       else let (q, s) =
              user_session_get E (Some (FEP_BUF_SID c)) (sessionIdLength c) ccdb_hash_index s
       in (case q of
            None \<Rightarrow> (Inl DIAMETER_UNKNOWN_SESSION_ID, q, cnt ''ds_us_null'' s)
          | Some p \<Rightarrow>
              if us_head (sessions s p) = None
              then (Inl DIAMETER_UNABLE_TO_COMPLY, q, cnt ''ds_us_list_null'' s)
              else (Inr p, q, s))
     else if packageType c = PACKAGE_TYPE_CONV \<or> packageType c = PACKAGE_TYPE_RESPONSE then
       let s = cnt (if packageType c = PACKAGE_TYPE_CONV then ''ds_pkg_gdi_continue_rcvd''
                    else ''ds_pkg_gdi_end_rcvd'') s;
           (found, q', s) = us_by_tid (localTid c) s;
           q = (if q' = None then q else q')
       in (if found then Inr (the q') else Inl DIAMETER_UNABLE_TO_COMPLY, q, s)
     else (Inl DIAMETER_UNABLE_TO_COMPLY, q, cnt ''ds_pkg_gdi_invalid_rcvd'' s))"

text \<open>A message DGC could not process: the error is reported to the ISCP.\<close>

definition gdi_failure ::
  "'w env \<Rightarrow> nat \<Rightarrow> nat \<Rightarrow> 'w dsm \<Rightarrow> (result \<times> nat option \<times> 'w dsm) option" where
  "gdi_failure E b p s = Option.bind (unset_tg E p s) (\<lambda>s.
     let (rv, s) = check_asm_state (Some p) EVENT_CCAS_RX_DIAMCTX_GDI_FAIL s
     in if rv \<noteq> SUCCESS then Some (gdi_fail DIAMETER_UNABLE_TO_COMPLY (Some p) s)
     else let (rv, s) = qmsg_diamctx_construct E (Some b) (Some p) True s
     in if rv \<noteq> SUCCESS then Some (gdi_fail DIAMETER_UNABLE_TO_COMPLY (Some p) s)
     else let s = start_tg E p s
     in if \<not> ID_VALID (tg_id (cc s p)) then Some (gdi_fail DIAMETER_UNABLE_TO_COMPLY (Some p) s)
     else let s = touch E p
       (move_asm_state p EVENT_CCAS_RX_DIAMCTX_GDI_FAIL STATE_CCAS_REPORTING_ERROR s)
     in Some (R_SUCCESS, Some p, cnt ''ds_ccdb_process_gdi_succ'' s))"

text \<open>The event of an answer to a credit control request, \<open>None\<close> for an unknown type.\<close>

definition gdi_cca_event :: "cc_request_type \<Rightarrow> bool \<Rightarrow> bool \<Rightarrow> (string \<times> event_ccas) option" where
  "gdi_cca_event t succ timer_set = (case t of
     DIAM_CC_INITIAL_REQUEST \<Rightarrow> Some (''ds_msg_gdi_cca_initial'',
       if succ \<or> timer_set then EVENT_CCAS_RX_GDI_CCA_INIT_SUCC else EVENT_CCAS_RX_GDI_CCA_INIT_FAIL)
   | DIAM_CC_EVENT_REQUEST \<Rightarrow> Some (''ds_msg_gdi_cca_event'',
       if succ then EVENT_CCAS_RX_GDI_CCA_EVENT_SUCC else EVENT_CCAS_RX_GDI_CCA_EVENT_FAIL)
   | DIAM_CC_UPDATE_REQUEST \<Rightarrow> Some (''ds_msg_gdi_cca_update'',
       if succ \<or> timer_set then EVENT_CCAS_RX_GDI_CCA_UPDATE_SUCC
       else EVENT_CCAS_RX_GDI_CCA_UPDATE_FAIL)
   | DIAM_CC_TERMINATION_REQUEST \<Rightarrow> Some (''ds_msg_gdi_cca_termination'',
       if succ then EVENT_CCAS_RX_GDI_CCA_TERM_SUCC else EVENT_CCAS_RX_GDI_CCA_TERM_FAIL)
   | DIAM_CC_OTHER _ \<Rightarrow> None)"

definition cnt_rc :: "bool \<Rightarrow> string \<Rightarrow> 'w dsm \<Rightarrow> 'w dsm" where
  "cnt_rc succ name s = cnt (name @ (if succ then ''_succ_rcvd'' else ''_fail_rcvd'')) s"

text \<open>Tg is cancelled before an answer is processed, except in the state of a reported error.\<close>

definition gdi_stop_tg :: "'w env \<Rightarrow> nat \<Rightarrow> 'w dsm \<Rightarrow> 'w dsm option" where
  "gdi_stop_tg E p s =
     (if asm_state (cc s p) \<noteq> STATE_CCAS_REPORTING_ERROR then unset_tg E p s else Some s)"

definition gdi_check :: "nat \<Rightarrow> event_ccas \<Rightarrow> 'w dsm \<Rightarrow> (result + event_ccas) \<times> 'w dsm" where
  "gdi_check p asm_event s =
    (let (rv, s) = check_asm_state (Some p) asm_event s
     in (if rv = SUCCESS then Inr asm_event else Inl DIAMETER_UNABLE_TO_COMPLY, s))"

definition gdi_cca ::
  "'w env \<Rightarrow> nat \<Rightarrow> nat \<Rightarrow> 'w dsm \<Rightarrow> ((result + event_ccas) \<times> 'w dsm) option" where
  "gdi_cca E b p s =
    (let c = bufs s b; succ = DIAM_RC_SUCCESS E (result_code c)
     in if DIAM_CMD_FLAG_R (flags c)
     then Some (Inl DIAMETER_COMMAND_UNSUPPORTED, cnt ''ds_msg_gdi_ccr_rcvd'' s)
     else let s = cnt ''ds_msg_gdi_cca_rcvd'' s
     in case gdi_cca_event (ccRequestType c) succ (timer c > 0) of
       None \<Rightarrow> Some (Inl DIAMETER_INVALID_AVP_VALUE, cnt_rc succ ''ds_msg_gdi_cca_invalid'' s)
     | Some (name, asm_event) \<Rightarrow> Option.bind (gdi_stop_tg E p (cnt_rc succ name s)) (\<lambda>s.
         let (r, s) = gdi_check p asm_event s
         in Some (r, if r = Inr asm_event \<and> asm_state (cc s p) = STATE_CCAS_REPORTING_ERROR
                     then upd_buf b (no_diam_update (\<lambda>_. True)) s else s)))"

definition gdi_asr_rar ::
  "'w env \<Rightarrow> nat \<Rightarrow> nat \<Rightarrow> 'w dsm \<Rightarrow> ((result + event_ccas) \<times> 'w dsm) option" where
  "gdi_asr_rar E b p s =
    (let c = bufs s b; asr = (commandCode c = DIAM_CMD_ASR)
     in if \<not> DIAM_CMD_FLAG_R (flags c)
     then Some (Inl DIAMETER_COMMAND_UNSUPPORTED,
       cnt (if asr then ''ds_msg_gdi_asa_rcvd'' else ''ds_msg_gdi_raa_rcvd'') s)
     else let s = cnt (if asr then ''ds_msg_gdi_asr_rcvd'' else ''ds_msg_gdi_rar_rcvd'') s
     in Option.bind (unset_tg E p s) (\<lambda>s. Some (gdi_check p
          (if asr then EVENT_CCAS_RX_GDI_ASR else EVENT_CCAS_RX_GDI_RAR) s)))"

definition gdi_sta ::
  "'w env \<Rightarrow> nat \<Rightarrow> nat \<Rightarrow> 'w dsm \<Rightarrow> ((result + event_ccas) \<times> 'w dsm) option" where
  "gdi_sta E b p s =
    (let c = bufs s b
     in if DIAM_CMD_FLAG_R (flags c)
     then Some (Inl DIAMETER_COMMAND_UNSUPPORTED, cnt ''ds_msg_gdi_str_rcvd'' s)
     else Option.bind (gdi_stop_tg E p (cnt ''ds_msg_gdi_sta_rcvd'' s)) (\<lambda>s.
       let (r, s) = gdi_check p (if DIAM_RC_SUCCESS E (result_code c)
             then EVENT_CCAS_RX_GDI_STA_SUCC else EVENT_CCAS_RX_GDI_STA_FAIL) s
       in Some (r, if r \<noteq> Inl DIAMETER_UNABLE_TO_COMPLY \<and> asm_state (cc s p)
                       \<in> {STATE_CCAS_DISCONTINUING, STATE_CCAS_REPORTING_ERROR}
                   then upd_buf b (no_diam_update (\<lambda>_. True)) s else s)))"

definition gdi_command ::
  "'w env \<Rightarrow> nat \<Rightarrow> nat \<Rightarrow> 'w dsm \<Rightarrow> ((result + event_ccas) \<times> 'w dsm) option" where
  "gdi_command E b p s = (case commandCode (bufs s b) of
     DIAM_CMD_CCR \<Rightarrow> gdi_cca E b p s
   | DIAM_CMD_ASA \<Rightarrow> gdi_asr_rar E b p s
   | DIAM_CMD_RAA \<Rightarrow> gdi_asr_rar E b p s
   | DIAM_CMD_STR \<Rightarrow> gdi_sta E b p s
   | DIAM_CMD_OTHER _ \<Rightarrow>
       Some (Inl DIAMETER_COMMAND_UNSUPPORTED, cnt ''ds_msg_gdi_invalid_rcvd'' s))"

text \<open>The timers by event: \<open>None\<close> is the error return, otherwise whether to remove the session.\<close>

definition gdi_timers :: "'w env \<Rightarrow> nat \<Rightarrow> event_ccas \<Rightarrow> 'w dsm \<Rightarrow> bool option \<times> 'w dsm" where
  "gdi_timers E p asm_event s =
    (let checked = (\<lambda>i s. (if ID_VALID i then Some False else None, s))
     in if asm_event \<in> {EVENT_CCAS_RX_GDI_CCA_INIT_SUCC, EVENT_CCAS_RX_GDI_CCA_UPDATE_SUCC} then
       if tcc_expiry (cc s p) > 0
       then let s = start_tcc E p s in checked (tcc_id (cc s p)) s
       else (Some True, s)
     else if asm_event \<in> {EVENT_CCAS_RX_GDI_ASR, EVENT_CCAS_RX_GDI_RAR} then
       if asm_state (cc s p) = STATE_CCAS_PROC_REQ
       then let s = start_tg E p s in checked (tg_id (cc s p)) s
       else if \<not> ID_VALID (tcc_id (cc s p))
       then let s = start_tcc E p s in checked (tcc_id (cc s p)) s
       else (Some False, s)
     else if asm_event \<in> {EVENT_CCAS_RX_GDI_CCA_INIT_FAIL, EVENT_CCAS_RX_GDI_CCA_EVENT_SUCC,
       EVENT_CCAS_RX_GDI_CCA_EVENT_FAIL, EVENT_CCAS_RX_GDI_CCA_UPDATE_FAIL,
       EVENT_CCAS_RX_GDI_CCA_TERM_SUCC, EVENT_CCAS_RX_GDI_CCA_TERM_FAIL,
       EVENT_CCAS_RX_GDI_STA_SUCC, EVENT_CCAS_RX_GDI_STA_FAIL}
     then (Some True, s)
     else (None, cnt ''ds_asm_event_invalid'' s))"

definition gdi_finish ::
  "'w env \<Rightarrow> nat \<Rightarrow> nat \<Rightarrow> event_ccas \<Rightarrow> 'w dsm \<Rightarrow> (result \<times> nat option \<times> 'w dsm) option" where
  "gdi_finish E b p asm_event s =
    (let (rv, s) = user_session_save E (Some b) (Some p) s
     in if rv \<noteq> SUCCESS then Some (gdi_fail DIAMETER_UNABLE_TO_COMPLY (Some p) s)
     else let (rv, s) = qmsg_diamctx_construct E (Some b) (Some p) False s
     in if rv \<noteq> SUCCESS then Some (gdi_fail DIAMETER_UNABLE_TO_COMPLY (Some p) s)
     else let (r, s) = gdi_timers E p asm_event s
     in case r of
       None \<Rightarrow> Some (gdi_fail DIAMETER_UNABLE_TO_COMPLY (Some p) s)
     | Some flag_remove_us \<Rightarrow>
         let (st, s) = set_asm_state (Some p) asm_event s;
             s = upd_cc p (asm_state_update (\<lambda>_. st)) s
         in if st = STATE_CCAS_UNDEF then Some (gdi_fail DIAMETER_UNABLE_TO_COMPLY (Some p) s)
         else let s = touch E p s
         in if flag_remove_us
            then Option.bind (user_session_remove E (Some (Some p)) s)
                   (\<lambda>(q, s). Some (R_SUCCESS, q, cnt ''ds_ccdb_process_gdi_succ'' s))
            else Some (R_SUCCESS, Some p, cnt ''ds_ccdb_process_gdi_succ'' s))"

definition process_gdi ::
  "'w env \<Rightarrow> fep_qmsg_t \<Rightarrow> nat option \<Rightarrow> nat option option \<Rightarrow> 'w dsm
     \<Rightarrow> (result \<times> nat option \<times> 'w dsm) option" where
  "process_gdi E m pbuf_cc p2 s = (case pbuf_cc of
     None \<Rightarrow> Some (gdi_fail DIAMETER_UNABLE_TO_COMPLY (Option.bind p2 id) (cnt ''ds_dc_null'' s))
   | Some b \<Rightarrow> (case p2 of
       None \<Rightarrow> Some (gdi_fail DIAMETER_UNABLE_TO_COMPLY None (cnt ''ds_us_ptr_null'' s))
     | Some q \<Rightarrow>
         let (r, q, s) = gdi_find E b q s
         in case r of
           Inl rv \<Rightarrow> Some (gdi_fail rv q s)
         | Inr p \<Rightarrow>
             if m 2 = status_code E FAILURE then gdi_failure E b p s
             else Option.bind (gdi_command E b p s) (\<lambda>(r, s). case r of
               Inl rv \<Rightarrow> Some (gdi_fail rv q s)
             | Inr asm_event \<Rightarrow>
                 if asm_state (cc s p) = STATE_CCAS_REPORTING_ERROR
                 then Some (R_SUCCESS, q, cnt ''ds_ccdb_process_gdi_succ'' s)
                 else gdi_finish E b p asm_event s)))"

section \<open>Control messages\<close>

text \<open>The copy of the end of \<open>user_session_save\<close>, used when that function fails.\<close>

definition clear_transaction :: "nat \<Rightarrow> nat \<Rightarrow> 'w dsm \<Rightarrow> 'w dsm" where
  "clear_transaction b p s =
     upd_gdi p (\<lambda>g. clear_tids (g\<lparr>package_type := packageType (bufs s b)\<rparr>)) s"

definition process_gdi_abort :: "'w env \<Rightarrow> nat option \<Rightarrow> 'w dsm \<Rightarrow> 'w dsm" where
  "process_gdi_abort E pbuf_cc s =
    (let stop = cnt ''ds_ccdb_process_gdi_abort_fail'' in case pbuf_cc of
       None \<Rightarrow> stop (cnt ''ds_dc_null'' s)
     | Some b \<Rightarrow>
         if packageType (bufs s b) \<noteq> PACKAGE_TYPE_ABORT then stop (cnt ''ds_pkg_gdi_invalid_rcvd'' s)
         else let (found, q, s) = us_by_tid (localTid (bufs s b)) (cnt ''ds_pkg_gdi_abort_rcvd'' s)
         in if \<not> found then stop s
         else let p = the q; (rv, s) = check_asm_state (Some p) EVENT_CCAS_RX_GDI_ABORT s
         in if rv \<noteq> SUCCESS then stop s
         else let (rv, s) = user_session_save E (Some b) (Some p) s;
                  s = (if rv \<noteq> SUCCESS then clear_transaction b p s else s);
                  s = move_asm_state p EVENT_CCAS_RX_GDI_ABORT (asm_state (cc s p)) s
              in cnt ''ds_ccdb_process_gdi_abort_succ'' (touch E p s))"

text \<open>
  The package type of a GDI-DIM_Close is only counted. The cases of the \<open>switch\<close> after the first
  have no \<open>break\<close>, so that each also counts what follows it.
\<close>

definition dim_close_counters :: "package_type \<Rightarrow> string list" where
  "dim_close_counters t =
    (let d = [''ds_pkg_gdi_invalid_rcvd''];
         a = ''ds_pkg_gdi_abort_rcvd'' # d;
         c = ''ds_pkg_gdi_continue_rcvd'' # a
     in case t of
       PACKAGE_TYPE_RESPONSE \<Rightarrow> [''ds_pkg_gdi_end_rcvd'']
     | PACKAGE_TYPE_REQUEST \<Rightarrow> ''ds_pkg_gdi_begin_rcvd'' # c
     | PACKAGE_TYPE_CONV \<Rightarrow> c
     | PACKAGE_TYPE_ABORT \<Rightarrow> a
     | _ \<Rightarrow> d)"

definition process_gdi_dim_close :: "'w env \<Rightarrow> nat option \<Rightarrow> 'w dsm \<Rightarrow> 'w dsm option" where
  "process_gdi_dim_close E pbuf_cc s =
    (let stop = (\<lambda>s. Some (cnt ''ds_ccdb_process_gdi_dim_close_fail'' s)) in case pbuf_cc of
       None \<Rightarrow> stop (cnt ''ds_dc_null'' s)
     | Some b \<Rightarrow>
         let s = fold cnt (dim_close_counters (packageType (bufs s b)))
               (cnt ''ds_msg_gdi_dim_close_rcvd'' s);
             (found, q, s) = us_by_tid (localTid (bufs s b)) s; p = the q
         in if \<not> found then stop s
         else Option.bind (unset_tg E p s) (\<lambda>s.
           let (rv, s) = check_asm_state (Some p) EVENT_CCAS_RX_GDI_DIM_CLOSE s
           in if rv \<noteq> SUCCESS then stop s
           else let (rv, s) = user_session_save E (Some b) (Some p) s;
                    s = (if rv \<noteq> SUCCESS then clear_transaction b p s else s);
                    s = move_asm_state p EVENT_CCAS_RX_GDI_DIM_CLOSE STATE_CCAS_IDLE s
                in Option.bind (user_session_remove E (Some (Some p)) (touch E p s))
                     (\<lambda>r. Some (cnt ''ds_ccdb_process_gdi_dim_close_succ'' (snd r)))))"

definition process_us_remove :: "'w env \<Rightarrow> nat option \<Rightarrow> 'w dsm \<Rightarrow> 'w dsm option" where
  "process_us_remove E pbuf_cc s =
    (let stop = (\<lambda>s. Some (cnt ''ds_ccdb_process_us_remove_fail'' s)) in case pbuf_cc of
       None \<Rightarrow> stop (cnt ''ds_dc_null'' s)
     | Some b \<Rightarrow>
         let (found, q, s) = us_by_tid (localTid (bufs s b)) (cnt ''ds_msg_us_remove_rcvd'' s);
             p = the q
         in if \<not> found then stop s
         else Option.bind (unset_tg E p s) (\<lambda>s.
           Option.bind (user_session_remove E (Some (Some p)) (touch E p s))
             (\<lambda>r. Some (cnt ''ds_ccdb_process_us_remove_succ'' (snd r)))))"

text \<open>The casts of two message words to \<open>short\<close>.\<close>

definition short_of :: "ulong \<Rightarrow> int" where
  "short_of w = sint (ucast w :: 16 word)"

definition process_update_cp :: "'w env \<Rightarrow> fep_qmsg_t \<Rightarrow> 'w dsm \<Rightarrow> 'w dsm" where
  "process_update_cp E m s =
    (let stop = cnt ''ds_ccdb_process_update_cp_fail'';
         (found, q, s) = us_by_tid (m 1) s; p = the q
     in if \<not> found then stop s
     else let (rv, s) = check_asm_state (Some p) EVENT_CCAS_RX_QMSG_UP_CP s
     in if rv \<noteq> SUCCESS then stop s
     else let s = upd_cc p (\<lambda>u. u\<lparr>cp := short_of (m 2), npk_config := short_of (m 3)\<rparr>) s;
              s = move_asm_state p EVENT_CCAS_RX_QMSG_UP_CP (asm_state (cc s p)) s
          in cnt ''ds_ccdb_process_update_cp_succ'' (touch E p s))"

end
