(* ===== verification/Gdi_Inv.thy ===== *)
theory Gdi_Inv
  imports Expire_Inv Process_Gdi
begin

text \<open>
  The handlers of messages from the ISCP and of control messages return in every state that
  satisfies the invariant, and keep it.
\<close>

section \<open>What the steps of a handler leave alone\<close>

definition kept :: "'w dsm \<Rightarrow> 'w dsm \<Rightarrow> bool" where
  "kept s s' \<longleftrightarrow> uh s' = uh s \<and> aid s' = aid s \<and> ast s' = ast s \<and> dqh s' = dqh s \<and> qms s' = qms s
     \<and> bty s' = bty s"

lemma kept_trans: "kept s s1 \<Longrightarrow> kept s1 s2 \<Longrightarrow> kept s s2"
  by (simp add: kept_def)

lemma kept_skel:
  assumes "skel live s' = skel live s"
  shows "kept s s'"
  by (simp add: kept_def skel_views [OF assms])

lemma qms_eq: "dgc_qmsgs s' = dgc_qmsgs s \<Longrightarrow> qms s' = qms s \<and> dqh s' = dqh s"
  by (simp add: view_defs fun_eq_iff)

lemma bty_eq: "bufs s' = bufs s \<Longrightarrow> bty s' = bty s"
  by (simp add: view_defs fun_eq_iff)

lemma kept_unset_tg:
  assumes "unset_tg E p s = Some s'" "us_frame s s'"
  shows "kept s s'"
proof -
  have "dgc_qmsgs s' = dgc_qmsgs s"
    using assms(1) frame_callout_unset(8) by (auto simp: unset_tg_def bind_eq_Some_conv)
  thus ?thesis using assms(2) qms_eq [of s' s] bty_eq [of s' s] by (simp add: kept_def us_frame_def)
qed

lemma kept_unset_tcc:
  assumes "unset_tcc E p s = Some s'" "us_frame s s'"
  shows "kept s s'"
proof -
  have "dgc_qmsgs s' = dgc_qmsgs s"
    using assms(1) frame_callout_unset(8) by (auto simp: unset_tcc_def bind_eq_Some_conv)
  thus ?thesis using assms(2) qms_eq [of s' s] bty_eq [of s' s] by (simp add: kept_def us_frame_def)
qed

lemma kept_start: "kept s (start_tg E p s)" "kept s (start_tcc E p s)"
proof -
  have "dgc_qmsgs (start_tg E p s) = dgc_qmsgs s" "dgc_qmsgs (start_tcc E p s) = dgc_qmsgs s"
    by (simp_all add: start_tg_def start_tcc_def Let_def case_prod_beta)
  thus "kept s (start_tg E p s)" "kept s (start_tcc E p s)"
    using qms_eq bty_eq [of "start_tg E p s" s] bty_eq [of "start_tcc E p s" s]
    by (auto simp: kept_def)
qed

lemma allowed_kept: "kept s s' \<Longrightarrow> allowed s' p e = allowed s p e \<and> next_state s' p e = next_state s p e"
  using allowed_skel [of s' p s] by (simp add: kept_def)

section \<open>Steps all handlers share\<close>

lemma us_by_tid_result:
  obtains p where "us_by_tid t s = (True, Some p, s)" "uh s p \<noteq> None" "tid_local (gd s p) = t"
  | q c where "us_by_tid t s = (False, q, cnt c s)"
proof -
  define i where "i = drop_bit SHIFT_TID_CC (t AND MASK_TID_CC)"
  have "us_by_tid t s = (if \<not> ID_VALID i then (False, None, cnt ''ds_dc_tid_local_invalid'' s)
     else if uh s (ID_TO_INDEX i) = None then (False, Some (ID_TO_INDEX i), cnt ''ds_us_list_null'' s)
     else if tid_local (gd s (ID_TO_INDEX i)) \<noteq> t
     then (False, Some (ID_TO_INDEX i), cnt ''ds_us_tid_local_invalid'' s)
     else (True, Some (ID_TO_INDEX i), s))"
    by (simp only: us_by_tid_def Let_def i_def uh_def)
  thus thesis using that by (auto split: if_splits)
qed

lemma core_move:
  assumes "uh s p \<noteq> None"
  shows "core live (move_asm_state p e fb s) = core live (upd_cc p (asm_state_update
    (\<lambda>_. if next_state s p e = STATE_CCAS_UNDEF then fb else next_state s p e)) s)"
proof -
  have "core live (upd_cc p (asm_state_update f) (snd (set_asm_state (Some p) e s)))
      = core live (upd_cc p (asm_state_update f) s)" for f
    by (rule core_state) simp
  thus ?thesis
    using set_asm_state_result [OF assms, of e] by (simp add: move_asm_state_def case_prod_beta Let_def)
qed

lemma core_state_same: "core live (upd_cc p (asm_state_update (\<lambda>_. ast s p)) s) = core live s"
  by (simp add: core_def us_skel_def fun_eq_iff ast_def)

text \<open>A handler that ends in counters and statistics.\<close>

lemma hinv_cnt [simp]: "hinv E live D Q (cnt c s) = hinv E live D Q s"
  by (rule hinv_core) simp

lemma hinv_touch [simp]: "pool_contract E live \<Longrightarrow> hinv E live D Q (touch E p s) = hinv E live D Q s"
  by (rule hinv_core) simp

lemma hinv_check [simp]: "hinv E live D Q (snd (check_asm_state q e s)) = hinv E live D Q s"
  by (rule hinv_core) simp

lemma hinv_construct [simp]:
  "hinv E live D Q (snd (qmsg_diamctx_construct E b q f s)) = hinv E live D Q s"
  by (rule hinv_core) simp

lemma hinv_buf [simp]: "hinv E live D Q (upd_buf b f s) = hinv E live D Q s"
  by (rule hinv_core) simp

lemma hinv_move_same:
  assumes "hinv E live D {} s" "uh s p \<noteq> None" "allowed s p e" "next_state s p e = ast s p"
  shows "hinv E live D {} (move_asm_state p e fb s)"
proof -
  have "ast s p \<noteq> STATE_CCAS_UNDEF"
    using allowed_running(2) [OF hinvD(2) [OF assms(1)] assms(2,3)] by simp
  hence "core live (move_asm_state p e fb s) = core live s"
    using core_move [OF assms(2), of live e fb] assms(4) core_state_same by simp
  thus ?thesis using assms(1) hinv_core by blast
qed

lemma hinv_move_any:
  assumes "hinv E live D Q s" "uh s p \<noteq> None"
  shows "hinv E live D (insert p Q) (move_asm_state p e fb s)" "uh (move_asm_state p e fb s) = uh s"
  using hinv_state [OF assms(1), of p] hinv_core [OF core_move [OF assms(2)]]
    core_views(1) [OF core_move [OF assms(2)], of e fb] by (simp_all add: view_upd_cc)

section \<open>Control messages\<close>

text \<open>The events that only update a session leave its state.\<close>

lemma next_same:
  assumes "aid s p = APP_SM_CCAS" "allowed s p e"
    "e \<in> {EVENT_CCAS_RX_QMSG_UP_CP, EVENT_CCAS_RX_GDI_ABORT, EVENT_CCAS_RX_DIAM_MSG_VALID,
       EVENT_CCAS_RX_DIAM_CCR_INIT_T, EVENT_CCAS_RX_DIAM_CCR_EVENT_T, EVENT_CCAS_RX_DIAM_CCR_UPDATE_T,
       EVENT_CCAS_RX_DIAM_CCR_TERM_T, EVENT_CCAS_RX_DIAM_STR_T}"
  shows "next_state s p e = ast s p"
  using assms unfolding next_state_def allowed_def stt_def stt_case_def
  by (cases "ast s p"; auto simp: stt_tables)

lemma skel_save_ctl:
  assumes "packageType (bufs s b) = PACKAGE_TYPE_ABORT \<or> diamctx_type (bufs s b) \<noteq> DIAMCTX_DIAM"
  shows "skel live (snd (user_session_save E (Some b) (Some p) s)) = skel live s"
proof (cases "diamctx_type (bufs s b) = DIAMCTX_DIAM \<and> \<not> is_retransmit (bufs s b) (sessions s p)")
  case True
  hence a: "packageType (bufs s b) = PACKAGE_TYPE_ABORT" using assms by blast
  have "skel live (snd (save_abort c p s)) = skel live s" for c
    by (simp add: save_abort_def Let_def)
  thus ?thesis using True a by (simp add: user_session_save_def Let_def)
next
  case False
  thus ?thesis by (intro skel_save_old) auto
qed

lemma skel_saved_ctl:
  assumes "packageType (bufs s b) = PACKAGE_TYPE_ABORT \<or> diamctx_type (bufs s b) \<noteq> DIAMCTX_DIAM"
    "user_session_save E (Some b) (Some p) s = (rv, s1)"
  shows "skel live (if rv \<noteq> SUCCESS then clear_transaction b p s1 else s1) = skel live s"
  using skel_save_ctl [OF assms(1), of live E p] assms(2) by (simp add: clear_transaction_def)

lemma process_update_cp_ok:
  assumes I: "hinv E live D {} s" and E: "pool_contract E live"
  shows "hinv E live D {} (process_update_cp E m s)"
proof (rule us_by_tid_result [of "m 1" s])
  fix q c assume "us_by_tid (m 1) s = (False, q, cnt c s)"
  thus ?thesis using I by (simp add: process_update_cp_def)
next
  fix p assume u: "us_by_tid (m 1) s = (True, Some p, s)" "uh s p \<noteq> None"
  let ?e = EVENT_CCAS_RX_QMSG_UP_CP
  define s1 where "s1 = snd (check_asm_state (Some p) ?e s)"
  define s2 where "s2 = upd_cc p (\<lambda>u. u\<lparr>cp := short_of (m 2), npk_config := short_of (m 3)\<rparr>) s1"
  have k: "skel live s1 = skel live s" "skel live s2 = skel live s" by (simp_all add: s1_def s2_def)
  show ?thesis
  proof (cases "allowed s p ?e")
    case False
    thus ?thesis
      using u(1) I check_asm_state_result [of p ?e s]
      by (simp add: process_update_cp_def Let_def case_prod_beta)
  next
    case True
    have a: "allowed s2 p ?e" using True allowed_kept [OF kept_skel [OF k(2)]] by simp
    have I2: "hinv E live D {} s2" using I hinv_skel [OF k(2)] by simp
    have p2: "uh s2 p \<noteq> None" using u(2) skel_views(1) [OF k(2)] by simp
    have "hinv E live D {} (move_asm_state p ?e (asm_state (cc s2 p)) s2)"
      by (rule hinv_move_same [OF I2 p2 a next_same [OF _ a]])
         (use allowed_running(1) [OF hinvD(2) [OF I2] p2 a] in simp_all)
    thus ?thesis
      using u(1) True E check_asm_state_result [of p ?e s]
      by (simp add: process_update_cp_def Let_def case_prod_beta s1_def [symmetric] s2_def [symmetric])
  qed
qed

lemma process_gdi_abort_ok:
  assumes I: "hinv E live D {} s" and E: "pool_contract E live"
  shows "hinv E live D {} (process_gdi_abort E (Some b) s)"
proof (cases "packageType (bufs s b) = PACKAGE_TYPE_ABORT")
  case False
  thus ?thesis using I by (simp add: process_gdi_abort_def Let_def)
next
  case ab: True
  define s0 where "s0 = cnt ''ds_pkg_gdi_abort_rcvd'' s"
  let ?e = EVENT_CCAS_RX_GDI_ABORT
  have I0: "hinv E live D {} s0" using I by (simp add: s0_def)
  show ?thesis
  proof (rule us_by_tid_result [of "localTid (bufs s b)" s0])
    fix q c assume "us_by_tid (localTid (bufs s b)) s0 = (False, q, cnt c s0)"
    thus ?thesis using I0 ab by (simp add: process_gdi_abort_def Let_def s0_def)
  next
    fix p assume u: "us_by_tid (localTid (bufs s b)) s0 = (True, Some p, s0)" "uh s0 p \<noteq> None"
    define s1 where "s1 = snd (check_asm_state (Some p) ?e s0)"
    obtain rv s2 where s2: "user_session_save E (Some b) (Some p) s1 = (rv, s2)" by fastforce
    define s3 where "s3 = (if rv \<noteq> SUCCESS then clear_transaction b p s2 else s2)"
    have "bufs s1 = bufs s" by (simp add: s1_def s0_def check_asm_state_def stt_of_def case_prod_beta Let_def)
    hence k3: "skel live s3 = skel live s0"
      using skel_saved_ctl [OF _ s2, of live] ab by (simp add: s3_def s1_def)
    show ?thesis
    proof (cases "allowed s0 p ?e")
      case False
      thus ?thesis
        using u(1) I0 ab check_asm_state_result [of p ?e s0]
        by (simp add: process_gdi_abort_def Let_def case_prod_beta s0_def [symmetric])
    next
      case True
      have a: "allowed s3 p ?e" using True allowed_kept [OF kept_skel [OF k3]] by simp
      have I3: "hinv E live D {} s3" using I0 hinv_skel [OF k3] by simp
      have p3: "uh s3 p \<noteq> None" using u(2) skel_views(1) [OF k3] by simp
      have "hinv E live D {} (move_asm_state p ?e (asm_state (cc s3 p)) s3)"
        by (rule hinv_move_same [OF I3 p3 a next_same [OF _ a]])
           (use allowed_running(1) [OF hinvD(2) [OF I3] p3 a] in simp_all)
      thus ?thesis
        using u(1) True E ab s2 check_asm_state_result [of p ?e s0]
        by (cases "rv = SUCCESS") (simp_all add: process_gdi_abort_def Let_def case_prod_beta
            s0_def [symmetric] s1_def [symmetric] s3_def)
    qed
  qed
qed

lemma fold_cnt_skel: "skel live (fold cnt cs s) = skel live s"
  by (induction cs arbitrary: s) simp_all

lemma process_us_remove_ok:
  assumes I: "hinv E live D {} s" and E: "pool_contract E live"
  shows "ok (hinv E live D {}) (process_us_remove E (Some b) s)"
proof -
  define s0 where "s0 = cnt ''ds_msg_us_remove_rcvd'' s"
  have I0: "hinv E live D {} s0" using I by (simp add: s0_def)
  show ?thesis
  proof (rule us_by_tid_result [of "localTid (bufs s b)" s0])
    fix q c assume "us_by_tid (localTid (bufs s b)) s0 = (False, q, cnt c s0)"
    thus ?thesis using I0 by (simp add: process_us_remove_def Let_def s0_def)
  next
    fix p assume u: "us_by_tid (localTid (bufs s b)) s0 = (True, Some p, s0)" "uh s0 p \<noteq> None"
    obtain s1 where s1: "unset_tg E p s0 = Some s1" "hinv E live D {} s1" "us_frame s0 s1"
      using hinv_unset_tg [OF I0 E u(2)] by blast
    have "uh (touch E p s1) p \<noteq> None"
      using s1(3) u(2) core_views(1) [OF core_service(5) [OF E]] by (simp add: us_frame_def)
    then obtain s2 where "user_session_remove E (Some (Some p)) (touch E p s1) = Some (None, s2)"
      "hinv E live D {} s2"
      using hinv_remove [of E live D "{}" "touch E p s1" p] s1(2) E by auto
    thus ?thesis using u(1) s1(1) by (simp add: process_us_remove_def Let_def s0_def)
  qed
qed

lemma process_gdi_dim_close_ok:
  assumes I: "hinv E live D {} s" and E: "pool_contract E live"
    and d: "diamctx_type (bufs s b) \<noteq> DIAMCTX_DIAM"
  shows "ok (hinv E live D {}) (process_gdi_dim_close E (Some b) s)"
proof -
  define s0 where "s0 = fold cnt (dim_close_counters (packageType (bufs s b)))
    (cnt ''ds_msg_gdi_dim_close_rcvd'' s)"
  let ?e = EVENT_CCAS_RX_GDI_DIM_CLOSE
  have k0: "skel live s0 = skel live s" by (simp add: s0_def fold_cnt_skel)
  have I0: "hinv E live D {} s0" using I hinv_skel [OF k0] by simp
  show ?thesis
  proof (rule us_by_tid_result [of "localTid (bufs s0 b)" s0])
    fix q c assume "us_by_tid (localTid (bufs s0 b)) s0 = (False, q, cnt c s0)"
    thus ?thesis using I0 by (simp add: process_gdi_dim_close_def Let_def s0_def [symmetric])
  next
    fix p assume u: "us_by_tid (localTid (bufs s0 b)) s0 = (True, Some p, s0)" "uh s0 p \<noteq> None"
    obtain s1 where s1: "unset_tg E p s0 = Some s1" "hinv E live D {} s1" "us_frame s0 s1"
      using hinv_unset_tg [OF I0 E u(2)] by blast
    define s2 where "s2 = snd (check_asm_state (Some p) ?e s1)"
    obtain rv s3 where s3: "user_session_save E (Some b) (Some p) s2 = (rv, s3)" by fastforce
    define s4 where "s4 = (if rv \<noteq> SUCCESS then clear_transaction b p s3 else s3)"
    define s5 where "s5 = touch E p (move_asm_state p ?e STATE_CCAS_IDLE s4)"
    show ?thesis
    proof (cases "allowed s1 p ?e")
      case False
      thus ?thesis
        using u(1) s1 check_asm_state_result [of p ?e s1]
        by (simp add: process_gdi_dim_close_def Let_def case_prod_beta s0_def [symmetric])
    next
      case True
      have k2: "skel live s2 = skel live s1" by (simp add: s2_def)
      have "bty s2 b = bty s b"
        using skel_views(20) [OF k0] skel_views(20) [OF k2] s1(3) bty_eq [of s1 s0]
        by (simp add: us_frame_def)
      hence k4: "skel live s4 = skel live s1"
        using skel_saved_ctl [OF _ s3, of live] d k2 by (simp add: s4_def bty_def)
      have p4: "uh s4 p \<noteq> None"
        using u(2) skel_views(1) [OF k4] s1(3) by (simp add: us_frame_def)
      have I4: "hinv E live D {} s4" using s1(2) hinv_skel [OF k4] by simp
      have "hinv E live D {p} s5" "uh s5 p \<noteq> None"
        using hinv_move_any [OF I4 p4, of ?e STATE_CCAS_IDLE] p4 E
          core_views(1) [OF core_service(5) [OF E]] by (simp_all add: s5_def)
      then obtain s6 where "user_session_remove E (Some (Some p)) s5 = Some (None, s6)"
        "hinv E live D {} s6"
        using hinv_remove [of E live D "{p}" s5 p] E by auto
      thus ?thesis
        using u(1) s1(1) s3 True check_asm_state_result [of p ?e s1]
        by (cases "rv = SUCCESS") (simp_all add: process_gdi_dim_close_def Let_def case_prod_beta
            s0_def [symmetric] s2_def [symmetric] s4_def s5_def)
    qed
  qed
qed

section \<open>GDI messages\<close>

text \<open>
  The outcome of \<open>process_gdi\<close>: the invariant, and unless the session has been removed (then the
  returned pointer is NULL) the queues are as before.
\<close>

definition gdi_post :: "'w env \<Rightarrow> (pool \<Rightarrow> 'w \<Rightarrow> nat set) \<Rightarrow> nat set \<Rightarrow> 'w dsm
     \<Rightarrow> result \<times> nat option \<times> 'w dsm \<Rightarrow> bool" where
  "gdi_post E live D s x \<longleftrightarrow> hinv E live D {} (snd (snd x)) \<and> (fst (snd x) \<noteq> None \<longrightarrow>
     dqh (snd (snd x)) = dqh s \<and> qms (snd (snd x)) = qms s \<and> bty (snd (snd x)) = bty s)"

lemma gdi_postI: "hinv E live D {} s' \<Longrightarrow> kept s s' \<Longrightarrow> gdi_post E live D s (r, q, s')"
  by (simp add: gdi_post_def kept_def)

lemma gdi_post_kept: "gdi_post E live D s1 x \<Longrightarrow> kept s s1 \<Longrightarrow> gdi_post E live D s x"
  by (auto simp: gdi_post_def kept_def)

lemma kept_cnt [simp]: "kept s (cnt c s') = kept s s'" "kept (cnt c s) s' = kept s s'"
  by (simp_all add: kept_def)

lemma kept_touch: "pool_contract E live \<Longrightarrow> kept s (touch E p s)"
  by (rule kept_skel [OF skel_touch])

lemma gdi_fail_post:
  "hinv E live D {} s' \<Longrightarrow> kept s s' \<Longrightarrow> gdi_post E live D s (gdi_fail r q s')"
  by (simp add: gdi_fail_def gdi_postI)

lemma user_session_get_skel:
  assumes "wf_us s" "valid_sid E n"
  shows "skel live (snd (user_session_get E (Some a) n (int (bucket E a n)) s)) = skel live s"
    "bufs (snd (user_session_get E (Some a) n (int (bucket E a n)) s)) = bufs s"
  by (simp_all add: user_session_get_result [OF assms])

lemma user_session_get_linked:
  assumes "wf_us s" "valid_sid E n"
    "fst (user_session_get E (Some a) n (int (bucket E a n)) s) = Some p"
  shows "uh s p \<noteq> None"
proof -
  have "p \<in> set (ccdb_lists s (bucket E a n))"
    using assms(3) by (auto simp: user_session_get_result [OF assms(1,2)] find_Some_iff in_set_conv_nth)
  thus ?thesis using wf_usD(3) [OF assms(1), of p] by auto
qed

lemma gdi_find_ok:
  assumes I: "hinv E live D {} s" and r: "gdi_find E b None s = (r, q, s')"
  shows "skel live s' = skel live s \<and> (\<forall>p. r = Inr p \<longrightarrow> q = Some p \<and> uh s' p \<noteq> None)"
proof (cases "packageType (bufs s b) = PACKAGE_TYPE_REQUEST")
  case True
  define s0 where "s0 = cnt ''ds_pkg_gdi_begin_rcvd'' s"
  let ?a = "FEP_BUF_SID (bufs s b)" and ?n = "sessionIdLength (bufs s b)"
  define s1 where "s1 = snd (user_session_hash E (Some ?a) ?n s0)"
  have k: "skel live s1 = skel live s" by (simp add: s1_def s0_def)
  have W: "wf_us s1" using inv_skel [OF k, of D] hinvD(1) [OF I] invD(2) by blast
  have u: "us_head (sessions s2 p) = uh s2 p" for s2 p by (simp add: uh_def)
  show ?thesis
  proof (cases "valid_sid E ?n")
    case False
    thus ?thesis using r k True
      by (auto simp: gdi_find_def Let_def case_prod_beta s0_def [symmetric] s1_def
          user_session_hash_result)
  next
    case v: True
    define g where "g = user_session_get E (Some ?a) ?n (int (bucket E ?a ?n)) s1"
    have h: "fst (user_session_hash E (Some ?a) ?n s0) = int (bucket E ?a ?n)"
      using v by (simp add: user_session_hash_result)
    have g: "skel live (snd g) = skel live s" "bufs (snd g) = bufs s1"
      unfolding g_def
      by (rule trans [OF user_session_get_skel(1) [OF W v] k], rule user_session_get_skel(2) [OF W v])
    have l: "fst g = Some p \<Longrightarrow> uh (snd g) p \<noteq> None" for p
      using user_session_get_linked [OF W v] skel_views(1) [OF g(1)] skel_views(1) [OF k]
      by (simp add: g_def)
    show ?thesis
      using r g l h True
      by (auto simp: gdi_find_def Let_def case_prod_beta s0_def [symmetric] s1_def [symmetric]
          g_def [symmetric] u split: option.splits)
  qed
next
  case nr: False
  show ?thesis
  proof (cases "packageType (bufs s b) = PACKAGE_TYPE_CONV \<or> packageType (bufs s b) = PACKAGE_TYPE_RESPONSE")
    case True
    define s0 where "s0 = cnt (if packageType (bufs s b) = PACKAGE_TYPE_CONV
      then ''ds_pkg_gdi_continue_rcvd'' else ''ds_pkg_gdi_end_rcvd'') s"
    have e: "gdi_find E b None s = (let (found, q', s) = us_by_tid (localTid (bufs s b)) s0
       in (if found then Inr (the q') else Inl DIAMETER_UNABLE_TO_COMPLY, q', s))"
      using nr True by (auto simp: gdi_find_def Let_def s0_def case_prod_beta)
    have k: "skel live s0 = skel live s" by (simp add: s0_def)
    show ?thesis
      by (rule us_by_tid_result [of "localTid (bufs s b)" s0]) (use r k e in auto)
  next
    case False
    thus ?thesis using nr r by (auto simp: gdi_find_def Let_def)
  qed
qed

lemma next_gdi_fail:
  assumes "aid s p = APP_SM_CCAS" "allowed s p EVENT_CCAS_RX_DIAMCTX_GDI_FAIL"
  shows "next_state s p EVENT_CCAS_RX_DIAMCTX_GDI_FAIL = STATE_CCAS_REPORTING_ERROR"
  using assms unfolding next_state_def allowed_def stt_def stt_case_def
  by (cases "ast s p"; auto simp: stt_tables)

text \<open>A session that lost a timer without getting one is still in order.\<close>

lemma sok_fewer:
  assumes "sok s p" "kept s s'" "sid s' = sid s"
    "ID_VALID (tcc s' p) \<Longrightarrow> ID_VALID (tcc s p)" "ID_VALID (tg s' p) \<Longrightarrow> ID_VALID (tg s p)"
  shows "sok s' p"
  using assms by (auto simp: sok_def kept_def split: if_splits)

lemma hinv_start_tg_fail:
  assumes I: "hinv E live D {} s" and E: "pool_contract E live" and p: "uh s p \<noteq> None"
    and v: "\<not> ID_VALID (tg s p)" "\<not> ID_VALID (tg (start_tg E p s) p)"
  shows "hinv E live D {} (start_tg E p s)"
proof (rule hinv_close)
  show "hinv E live D {p} (start_tg E p s)" using hinv_start_tg [OF I E p v(1)] by simp
  show "sok (start_tg E p s) p"
    by (rule sok_fewer [OF hinvD(2) [OF I] kept_start(1)]) (use v in simp_all)
qed

lemma hinv_start_tcc_fail:
  assumes I: "hinv E live D {} s" and E: "pool_contract E live" and p: "uh s p \<noteq> None"
    and v: "\<not> ID_VALID (tcc s p)" "\<not> ID_VALID (tg s p)" "\<not> ID_VALID (tcc (start_tcc E p s) p)"
  shows "hinv E live D {} (start_tcc E p s)"
proof (rule hinv_close)
  show "hinv E live D {p} (start_tcc E p s)" using hinv_start_tcc [OF I E p v(1,2)] by simp
  show "sok (start_tcc E p s) p"
    by (rule sok_fewer [OF hinvD(2) [OF I] kept_start(2)]) (use v in simp_all)
qed

lemma kept_move:
  assumes "uh s p \<noteq> None"
  shows "dqh (move_asm_state p e fb s) = dqh s \<and> qms (move_asm_state p e fb s) = qms s
    \<and> bty (move_asm_state p e fb s) = bty s"
proof -
  have "skel live (snd (set_asm_state (Some p) e s)) = skel live s" for live :: "pool \<Rightarrow> 'a \<Rightarrow> nat set"
    by simp
  note v = skel_views [OF this]
  show ?thesis by (simp add: move_asm_state_def Let_def case_prod_beta view_upd_cc v)
      (simp add: view_defs fun_eq_iff v [unfolded view_defs fun_eq_iff])
qed

lemma gdi_failure_ok:
  assumes I: "hinv E live D {} s" and E: "pool_contract E live" and p: "uh s p \<noteq> None"
  shows "ok (gdi_post E live D s) (gdi_failure E b p s)"
proof -
  let ?e = EVENT_CCAS_RX_DIAMCTX_GDI_FAIL
  obtain s1 where s1: "unset_tg E p s = Some s1" "hinv E live D {} s1" "us_frame s s1"
    "tg s1 = (tg s)(p := ID_UNDEF)" using hinv_unset_tg [OF I E p] by blast
  have K1: "kept s s1" by (rule kept_unset_tg [OF s1(1,3)])
  define s2 where "s2 = snd (check_asm_state (Some p) ?e s1)"
  define r3 where "r3 = qmsg_diamctx_construct E (Some b) (Some p) True s2"
  define s4 where "s4 = start_tg E p (snd r3)"
  define s5 where "s5 = move_asm_state p ?e STATE_CCAS_REPORTING_ERROR s4"
  have k: "skel live s2 = skel live s1" "skel live (snd r3) = skel live s1"
    by (simp_all add: s2_def r3_def)
  have i: "hinv E live D {} s2" "hinv E live D {} (snd r3)"
    using s1(2) by (simp_all add: s2_def r3_def)
  have K: "kept s s2" "kept s (snd r3)"
    using kept_trans [OF K1 kept_skel [OF k(1)]] kept_trans [OF K1 kept_skel [OF k(2)]] .
  have K4: "kept s s4" unfolding s4_def by (rule kept_trans [OF K(2) kept_start(1)])
  have p3: "uh (snd r3) p \<noteq> None" "\<not> ID_VALID (tg (snd r3) p)"
    using p K(2) s1(4) skel_views(4) [OF k(2)] by (simp_all add: kept_def)
  have e: "gdi_failure E b p s = Some (if \<not> allowed s1 p ?e
      then gdi_fail DIAMETER_UNABLE_TO_COMPLY (Some p) s2
      else if fst r3 \<noteq> SUCCESS then gdi_fail DIAMETER_UNABLE_TO_COMPLY (Some p) (snd r3)
      else if \<not> ID_VALID (tg s4 p) then gdi_fail DIAMETER_UNABLE_TO_COMPLY (Some p) s4
      else (R_SUCCESS, Some p, cnt ''ds_ccdb_process_gdi_succ'' (touch E p s5)))"
    using s1(1) check_asm_state_result [of p ?e s1]
    by (simp add: gdi_failure_def Let_def case_prod_beta s2_def r3_def s4_def s5_def tcc_id_cc)
  have f4: "\<not> ID_VALID (tg s4 p) \<Longrightarrow> hinv E live D {} s4"
    using hinv_start_tg_fail [OF i(2) E p3] by (simp add: s4_def)
  have g: "gdi_post E live D s (R_SUCCESS, Some p, cnt ''ds_ccdb_process_gdi_succ'' (touch E p s5))"
    if a: "allowed s1 p ?e"
  proof -
    have i4: "hinv E live D {p} s4" using hinv_start_tg [OF i(2) E p3] by (simp add: s4_def)
    have p4: "uh s4 p \<noteq> None" using p K4 by (simp add: kept_def)
    have K14: "kept s1 s4" using K4 K1 by (simp add: kept_def)
    have a4: "allowed s4 p ?e" "aid s4 p = APP_SM_CCAS"
      using a allowed_kept [OF K14] allowed_running(1) [OF hinvD(2) [OF s1(2)] _ a] p K1 K14
      by (simp_all add: kept_def)
    note n = next_gdi_fail [OF a4(2,1)]
    have "hinv E live D {} s5"
      unfolding s5_def hinv_core [OF core_move [OF p4]] n
      by (simp, rule hinv_set_state [OF i4 p4 a4(2)]) simp_all
    moreover have "dqh s5 = dqh s \<and> qms s5 = qms s \<and> bty s5 = bty s"
      using kept_move [OF p4, of ?e STATE_CCAS_REPORTING_ERROR] K4 by (simp add: kept_def s5_def)
    ultimately show ?thesis
      using kept_touch [OF E, of s5 p] E by (simp add: gdi_post_def kept_def)
  qed
  show ?thesis using gdi_fail_post i K K4 f4 g by (auto simp: e)
qed

lemma gdi_stop_tg_ok:
  assumes I: "hinv E live D {} s" and E: "pool_contract E live" and p: "uh s p \<noteq> None"
  shows "ok (\<lambda>s'. hinv E live D {} s' \<and> kept s s' \<and> (ast s p \<noteq> STATE_CCAS_REPORTING_ERROR \<longrightarrow>
    \<not> ID_VALID (tg s' p))) (gdi_stop_tg E p s)"
proof -
  obtain s1 where s1: "unset_tg E p s = Some s1" "hinv E live D {} s1" "us_frame s s1"
    "tg s1 = (tg s)(p := ID_UNDEF)" using hinv_unset_tg [OF I E p] by blast
  have "kept s s" by (simp add: kept_def)
  thus ?thesis using I s1 kept_unset_tg [OF s1(1,3)] by (simp add: gdi_stop_tg_def tcc_id_cc)
qed

text \<open>What a command leaves to be done: an event the state accepts, and no guard timer.\<close>

definition gdi_ready :: "'w env \<Rightarrow> (pool \<Rightarrow> 'w \<Rightarrow> nat set) \<Rightarrow> nat set \<Rightarrow> nat \<Rightarrow> 'w dsm
     \<Rightarrow> (result + event_ccas) \<times> 'w dsm \<Rightarrow> bool" where
  "gdi_ready E live D p s x \<longleftrightarrow> hinv E live D {} (snd x) \<and> kept s (snd x)
     \<and> (\<forall>e. fst x = Inr e \<longrightarrow> allowed s p e \<and>
          (ast s p \<noteq> STATE_CCAS_REPORTING_ERROR \<longrightarrow> \<not> ID_VALID (tg (snd x) p)))"

lemma gdi_ready_fail: "hinv E live D {} s' \<Longrightarrow> kept s s' \<Longrightarrow> gdi_ready E live D p s (Inl r, s')"
  by (simp add: gdi_ready_def)

lemma gdi_ready_kept: "gdi_ready E live D p s1 x \<Longrightarrow> kept s s1 \<Longrightarrow> gdi_ready E live D p s x"
  using allowed_kept [of s s1 p] kept_trans [of s s1] by (auto simp: gdi_ready_def kept_def)

lemma gdi_check_ready:
  assumes "hinv E live D {} s1" "kept s s1"
    "ast s p \<noteq> STATE_CCAS_REPORTING_ERROR \<longrightarrow> \<not> ID_VALID (tg s1 p)"
  shows "gdi_ready E live D p s (gdi_check p e s1)"
proof -
  have k: "skel live (snd (check_asm_state (Some p) e s1)) = skel live s1" by simp
  show ?thesis
    using assms kept_trans [OF assms(2) kept_skel [OF k]] allowed_kept [OF assms(2)] skel_views(4) [OF k]
    by (auto simp: gdi_ready_def gdi_check_def case_prod_beta check_asm_state_result)
qed

lemma gdi_ready_buf:
  assumes "gdi_ready E live D p s (r, s1)" "\<And>c. diamctx_type (f c) = diamctx_type c"
  shows "gdi_ready E live D p s (r, upd_buf b f s1)"
proof -
  have k: "skel live (upd_buf b f s1) = skel live s1" using assms(2) by simp
  show ?thesis
    using assms(1) kept_trans [OF _ kept_skel [OF k]] skel_views(4) [OF k] by (auto simp: gdi_ready_def)
qed

lemma gdi_ready_marked:
  assumes "gdi_ready E live D p s x"
  shows "gdi_ready E live D p s
    (case x of (r, s1) \<Rightarrow> (r, if P r s1 then upd_buf b (no_diam_update (\<lambda>_. True)) s1 else s1))"
  using assms gdi_ready_buf [of E live D p s "fst x" "snd x"] by (simp add: case_prod_beta)

lemma gdi_stopped_ready:
  assumes I: "hinv E live D {} s" and E: "pool_contract E live" and p: "uh s p \<noteq> None"
    and f: "\<And>s1. hinv E live D {} s1 \<Longrightarrow> kept s s1 \<Longrightarrow>
      (ast s p \<noteq> STATE_CCAS_REPORTING_ERROR \<longrightarrow> \<not> ID_VALID (tg s1 p)) \<Longrightarrow> gdi_ready E live D p s (f s1)"
  shows "ok (gdi_ready E live D p s) (Option.bind (gdi_stop_tg E p s) (\<lambda>s. Some (f s)))"
  using ok_mono [OF gdi_stop_tg_ok [OF I E p]] f by (simp add: conj_imp_eq_imp_imp)

lemma gdi_cca_ok:
  assumes I: "hinv E live D {} s" and E: "pool_contract E live" and p: "uh s p \<noteq> None"
  shows "ok (gdi_ready E live D p s) (gdi_cca E b p s)"
proof -
  define succ where "succ = DIAM_RC_SUCCESS E (result_code (bufs s b))"
  define s0 where "s0 = cnt ''ds_msg_gdi_cca_rcvd'' s"
  have K: "kept s (cnt c s)" "kept s (cnt_rc succ c s0)" for c
    by (simp_all add: kept_def cnt_rc_def s0_def)
  have i: "hinv E live D {} (cnt_rc succ c s0)" for c using I by (simp add: cnt_rc_def s0_def)
  have u: "uh (cnt_rc succ c s0) p \<noteq> None" for c using p by (simp add: cnt_rc_def s0_def)
  have "ok (gdi_ready E live D p s) (Option.bind (gdi_stop_tg E p (cnt_rc succ name s0)) (\<lambda>s.
      Some (case gdi_check p e s of (r, s) \<Rightarrow> (r, if r = Inr e \<and> asm_state (cc s p) = STATE_CCAS_REPORTING_ERROR
                     then upd_buf b (no_diam_update (\<lambda>_. True)) s else s))))" for name e
    by (rule ok_mono [OF gdi_stopped_ready [OF i E u] gdi_ready_kept [OF _ K(2)]])
       (rule gdi_ready_marked, rule gdi_check_ready)
  thus ?thesis
    using gdi_ready_fail [OF i K(2)] gdi_ready_fail [of E live D "cnt c s" s for c] I K(1)
    by (auto simp: gdi_cca_def Let_def succ_def [symmetric] s0_def [symmetric] case_prod_beta
        split: option.split)
qed

lemma gdi_asr_rar_ok:
  assumes I: "hinv E live D {} s" and E: "pool_contract E live" and p: "uh s p \<noteq> None"
  shows "ok (gdi_ready E live D p s) (gdi_asr_rar E b p s)"
proof -
  have K: "kept s (cnt c s)" for c by (simp add: kept_def)
  have "ok (gdi_ready E live D p s) (Option.bind (unset_tg E p (cnt c s)) (\<lambda>s. Some (gdi_check p e s)))" for c e
  proof -
    obtain s1 where s1: "unset_tg E p (cnt c s) = Some s1" "hinv E live D {} s1" "us_frame (cnt c s) s1"
      "tg s1 = (tg (cnt c s))(p := ID_UNDEF)" using hinv_unset_tg [of E live D "{}" "cnt c s" p] I E p by auto
    have "kept s s1" using kept_unset_tg [OF s1(1,3)] by simp
    thus ?thesis using gdi_check_ready [OF s1(2)] s1(1,4) by simp
  qed
  thus ?thesis
    using gdi_ready_fail [of E live D "cnt c s" s for c] I K by (simp add: gdi_asr_rar_def Let_def)
qed

lemma gdi_sta_ok:
  assumes I: "hinv E live D {} s" and E: "pool_contract E live" and p: "uh s p \<noteq> None"
  shows "ok (gdi_ready E live D p s) (gdi_sta E b p s)"
proof -
  define s0 where "s0 = cnt ''ds_msg_gdi_sta_rcvd'' s"
  have K: "kept s (cnt c s)" "kept s s0" for c by (simp_all add: kept_def s0_def)
  have "ok (gdi_ready E live D p s) (Option.bind (gdi_stop_tg E p s0) (\<lambda>s.
      Some (case gdi_check p e s of (r, s) \<Rightarrow> (r, if r \<noteq> Inl DIAMETER_UNABLE_TO_COMPLY \<and> asm_state (cc s p)
                       \<in> {STATE_CCAS_DISCONTINUING, STATE_CCAS_REPORTING_ERROR}
                   then upd_buf b (no_diam_update (\<lambda>_. True)) s else s))))" for e
    by (rule ok_mono [OF gdi_stopped_ready [of E live D s0 p] gdi_ready_kept [OF _ K(2)]])
       (use I E p in \<open>auto simp: s0_def intro!: gdi_ready_marked gdi_check_ready\<close>)
  thus ?thesis
    using gdi_ready_fail [of E live D "cnt c s" s for c] I K(1)
    by (simp add: gdi_sta_def Let_def s0_def [symmetric] case_prod_beta)
qed

lemma gdi_command_ok:
  assumes I: "hinv E live D {} s" and E: "pool_contract E live" and p: "uh s p \<noteq> None"
  shows "ok (gdi_ready E live D p s) (gdi_command E b p s)"
  using gdi_cca_ok [OF assms] gdi_asr_rar_ok [OF assms] gdi_sta_ok [OF assms]
    gdi_ready_fail [of E live D "cnt ''ds_msg_gdi_invalid_rcvd'' s" s p] I
  by (simp add: gdi_command_def kept_def split: command_code.split)

lemma next_gdi:
  assumes "aid s p = APP_SM_CCAS" "allowed s p e" "ast s p \<noteq> STATE_CCAS_REPORTING_ERROR"
  shows "e \<in> {EVENT_CCAS_RX_GDI_CCA_INIT_SUCC, EVENT_CCAS_RX_GDI_CCA_UPDATE_SUCC}
      \<Longrightarrow> ast s p = STATE_CCAS_PROC_REQ \<and> next_state s p e = STATE_CCAS_OPEN"
    and "e \<in> {EVENT_CCAS_RX_GDI_ASR, EVENT_CCAS_RX_GDI_RAR}
      \<Longrightarrow> ast s p \<in> {STATE_CCAS_PROC_REQ, STATE_CCAS_OPEN} \<and> next_state s p e = ast s p"
  using assms unfolding next_state_def allowed_def stt_def stt_case_def
  by (cases "ast s p"; auto simp: stt_tables)+

text \<open>
  After the timers: the invariant but for the state of the session, all of it when the handler
  fails here, and when the session stays the timers fit its next state.
\<close>

definition gdi_timed where
  "gdi_timed E live D p e s x \<longleftrightarrow> hinv E live D {p} (snd x) \<and> kept s (snd x)
     \<and> (fst x = None \<longrightarrow> hinv E live D {} (snd x))
     \<and> (fst x = Some False \<longrightarrow> (next_state s p e = STATE_CCAS_OPEN \<longrightarrow> \<not> ID_VALID (tg (snd x) p))
          \<and> (ID_VALID (tcc (snd x) p) \<longrightarrow> next_state s p e = STATE_CCAS_OPEN))"

lemma gdi_timers_ok:
  assumes I: "hinv E live D {} s" and E: "pool_contract E live" and p: "uh s p \<noteq> None"
    and a: "allowed s p e" "ast s p \<noteq> STATE_CCAS_REPORTING_ERROR" "\<not> ID_VALID (tg s p)"
  shows "gdi_timed E live D p e s (gdi_timers E p e s)"
proof -
  have aid: "aid s p = APP_SM_CCAS" using allowed_running(1) [OF hinvD(2) [OF I] p a(1)] by simp
  note N = next_gdi [OF aid a(1,2)] and S = hinvD(2) [OF I, of p, unfolded sok_def]
  have same: "gdi_timed E live D p e s (r, s)" if "r \<noteq> Some False \<or> next_state s p e = STATE_CCAS_OPEN" for r
    using hinv_open [OF I, of p] I a(3) that by (auto simp: gdi_timed_def kept_def)
  have tcc: "gdi_timed E live D p e s
      (if ID_VALID (tcc (start_tcc E p s) p) then Some False else None, start_tcc E p s)"
    if "\<not> ID_VALID (tcc s p)" "next_state s p e = STATE_CCAS_OPEN"
    using hinv_start_tcc [OF I E p that(1) a(3)] hinv_start_tcc_fail [OF I E p that(1) a(3)]
      kept_start(2) [of s E p] a(3) that(2) by (simp add: gdi_timed_def)
  have tg: "gdi_timed E live D p e s
      (if ID_VALID (tg (start_tg E p s) p) then Some False else None, start_tg E p s)"
    if "\<not> ID_VALID (tcc s p)" "next_state s p e \<noteq> STATE_CCAS_OPEN"
    using hinv_start_tg [OF I E p a(3)] hinv_start_tg_fail [OF I E p a(3)]
      kept_start(1) [of s E p] that by (simp add: gdi_timed_def)
  consider "e \<in> {EVENT_CCAS_RX_GDI_CCA_INIT_SUCC, EVENT_CCAS_RX_GDI_CCA_UPDATE_SUCC}"
    | "e \<in> {EVENT_CCAS_RX_GDI_ASR, EVENT_CCAS_RX_GDI_RAR}"
    | "e \<notin> {EVENT_CCAS_RX_GDI_CCA_INIT_SUCC, EVENT_CCAS_RX_GDI_CCA_UPDATE_SUCC,
         EVENT_CCAS_RX_GDI_ASR, EVENT_CCAS_RX_GDI_RAR}" by blast
  thus ?thesis
  proof cases
    case 1
    have "\<not> ID_VALID (tcc s p)" using N(1) [OF 1] S p by (auto split: if_splits)
    thus ?thesis using 1 tcc same N(1) [OF 1] by (auto simp: gdi_timers_def Let_def tcc_id_cc)
  next
    case 2
    show ?thesis
    proof (cases "ast s p = STATE_CCAS_PROC_REQ")
      case True
      hence "\<not> ID_VALID (tcc s p)" using S p by (auto split: if_splits)
      thus ?thesis using 2 tg N(2) [OF 2] True by (auto simp: gdi_timers_def Let_def tcc_id_cc)
    next
      case False
      thus ?thesis using 2 tcc same N(2) [OF 2] by (auto simp: gdi_timers_def Let_def tcc_id_cc)
    qed
  next
    case 3
    have "hinv E live D {p} (cnt c s) \<and> hinv E live D {} (cnt c s) \<and> kept s (cnt c s)" for c
      using hinv_open [OF I, of p] I by (simp add: kept_def)
    hence "gdi_timed E live D p e s (None, cnt c s)" for c by (simp add: gdi_timed_def)
    thus ?thesis using 3 same [of "Some True"] by (simp add: gdi_timers_def Let_def)
  qed
qed

text \<open>The new state of a session that stays, and the removal of one that does not.\<close>

definition gdi_moved :: "'w env \<Rightarrow> nat \<Rightarrow> event_ccas \<Rightarrow> 'w dsm \<Rightarrow> 'w dsm" where
  "gdi_moved E p e s = touch E p (upd_cc p (asm_state_update
     (\<lambda>_. fst (set_asm_state (Some p) e s))) (snd (set_asm_state (Some p) e s)))"

lemma core_moved:
  assumes "pool_contract E live" "uh s p \<noteq> None"
  shows "core live (gdi_moved E p e s) = core live (upd_cc p (asm_state_update (\<lambda>_. next_state s p e)) s)"
  using core_state [of live "snd (set_asm_state (Some p) e s)" s p] assms
  by (simp add: gdi_moved_def set_asm_state_result)

lemma kept_moved:
  assumes "pool_contract E live"
  shows "dqh (gdi_moved E p e s) = dqh s \<and> qms (gdi_moved E p e s) = qms s
    \<and> bty (gdi_moved E p e s) = bty s"
proof -
  have "skel live (snd (set_asm_state (Some p) e s)) = skel live s" for live :: "pool \<Rightarrow> 'a \<Rightarrow> nat set"
    by simp
  note v = skel_views [OF this] and t = kept_touch [OF assms, unfolded kept_def]
  show ?thesis
    by (simp add: gdi_moved_def t view_upd_cc v)
       (simp add: view_defs fun_eq_iff v [unfolded view_defs fun_eq_iff])
qed

lemma gdi_finish_ok:
  assumes I: "hinv E live D {} s" and E: "pool_contract E live" and p: "uh s p \<noteq> None"
    and a: "allowed s p e" "ast s p \<noteq> STATE_CCAS_REPORTING_ERROR" "\<not> ID_VALID (tg s p)"
    and d: "bty s b \<noteq> DIAMCTX_DIAM"
  shows "ok (gdi_post E live D s) (gdi_finish E b p e s)"
proof -
  define r1 where "r1 = user_session_save E (Some b) (Some p) s"
  define r2 where "r2 = qmsg_diamctx_construct E (Some b) (Some p) False (snd r1)"
  define r3 where "r3 = gdi_timers E p e (snd r2)"
  have k: "skel live (snd r1) = skel live s" "skel live (snd r2) = skel live s"
    using d by (simp_all add: r2_def r1_def skel_save_ctl bty_def)
  have i: "hinv E live D {} (snd r1)" "hinv E live D {} (snd r2)"
    using I hinv_skel [OF k(1)] hinv_skel [OF k(2)] by simp_all
  note v = skel_views [OF k(2)] and K = kept_skel [OF k(1)] kept_skel [OF k(2)]
  have p2: "uh (snd r2) p \<noteq> None" "allowed (snd r2) p e" "ast (snd r2) p \<noteq> STATE_CCAS_REPORTING_ERROR"
    "\<not> ID_VALID (tg (snd r2) p)"
    using p a allowed_kept [OF K(2)] by (simp_all add: v)
  have T: "gdi_timed E live D p e (snd r2) r3" unfolding r3_def by (rule gdi_timers_ok [OF i(2) E p2])
  note T' = T [unfolded gdi_timed_def]
  have K3: "kept s (snd r3)" using kept_trans [OF K(2)] T' by blast
  have p3: "uh (snd r3) p \<noteq> None" using p K3 by (simp add: kept_def)
  have aid: "aid s p = APP_SM_CCAS" "ast s p \<noteq> STATE_CCAS_UNDEF"
    using allowed_running [OF hinvD(2) [OF I] p a(1)] by simp_all
  have n3: "next_state (snd r3) p e = next_state s p e" "next_state (snd r2) p e = next_state s p e"
    using allowed_kept [OF K3] allowed_kept [OF K(2)] by simp_all
  have nu: "next_state s p e \<noteq> STATE_CCAS_UNDEF" by (rule next_state_cases(1) [OF aid a(1)])
  define s4 where "s4 = gdi_moved E p e (snd r3)"
  have c4: "core live s4 = core live (upd_cc p (asm_state_update (\<lambda>_. next_state s p e)) (snd r3))"
    using core_moved [OF E p3, of e] n3 by (simp add: s4_def)
  have I4: "hinv E live D {p} s4"
    using hinv_state [of E live D "{p}" "snd r3" p] T' hinv_core [OF c4] by simp
  have p4: "uh s4 p \<noteq> None" using core_views(1) [OF c4] p3 by (simp add: view_upd_cc)
  have e: "gdi_finish E b p e s = (if fst r1 \<noteq> SUCCESS
      then Some (gdi_fail DIAMETER_UNABLE_TO_COMPLY (Some p) (snd r1))
     else if fst r2 \<noteq> SUCCESS then Some (gdi_fail DIAMETER_UNABLE_TO_COMPLY (Some p) (snd r2))
     else case fst r3 of
       None \<Rightarrow> Some (gdi_fail DIAMETER_UNABLE_TO_COMPLY (Some p) (snd r3))
     | Some flag_remove_us \<Rightarrow> if flag_remove_us
            then Option.bind (user_session_remove E (Some (Some p)) s4)
                   (\<lambda>(q, s). Some (R_SUCCESS, q, cnt ''ds_ccdb_process_gdi_succ'' s))
            else Some (R_SUCCESS, Some p, cnt ''ds_ccdb_process_gdi_succ'' s4))"
    using set_asm_state_result [OF p3, of e] n3 nu
    by (simp add: gdi_finish_def Let_def case_prod_beta r1_def r2_def r3_def s4_def gdi_moved_def
        split: option.split)
  have stay: "gdi_post E live D s (R_SUCCESS, Some p, cnt ''ds_ccdb_process_gdi_succ'' s4)"
    if f: "fst r3 = Some False"
  proof -
    have "hinv E live D {} (upd_cc p (asm_state_update (\<lambda>_. next_state s p e)) (snd r3))"
      by (rule hinv_set_state) (use T' f n3 p3 aid nu K3 in \<open>auto simp: kept_def\<close>)
    hence "hinv E live D {} s4" using hinv_core [OF c4] by simp
    moreover have "dqh s4 = dqh s \<and> qms s4 = qms s \<and> bty s4 = bty s"
      using kept_moved [OF E, of p e "snd r3"] K3 by (simp add: s4_def kept_def)
    ultimately show ?thesis by (simp add: gdi_post_def)
  qed
  obtain s5 where s5: "user_session_remove E (Some (Some p)) s4 = Some (None, s5)" "hinv E live D {} s5"
    using hinv_remove [OF I4 E p4] by auto
  have rem: "gdi_post E live D s (R_SUCCESS, None, cnt ''ds_ccdb_process_gdi_succ'' s5)"
    using s5(2) by (simp add: gdi_post_def)
  show ?thesis
    using gdi_fail_post i K K3 T' stay rem s5(1) by (auto simp: e split: option.split)
qed

lemma process_gdi_ok:
  assumes I: "hinv E live D {} s" and E: "pool_contract E live" and d: "bty s b \<noteq> DIAMCTX_DIAM"
  shows "ok (gdi_post E live D s) (process_gdi E m (Some b) (Some None) s)"
proof -
  obtain r q s1 where f: "gdi_find E b None s = (r, q, s1)" by (cases "gdi_find E b None s") auto
  note F = gdi_find_ok [OF I f]
  have k: "skel live s1 = skel live s" using F by blast
  have I1: "hinv E live D {} s1" using I hinv_skel [OF k] by simp
  note K = kept_skel [OF k]
  show ?thesis
  proof (cases r)
    case (Inl rv)
    thus ?thesis using f gdi_fail_post [OF I1 K] by (simp add: process_gdi_def)
  next
    case (Inr p)
    have p: "uh s1 p \<noteq> None" using F Inr by blast
    have b1: "bty s1 b \<noteq> DIAMCTX_DIAM" using d skel_views(20) [OF k] by simp
    have fail: "ok (gdi_post E live D s) (gdi_failure E b p s1)"
      using gdi_failure_ok [OF I1 E p] by (rule ok_mono) (rule gdi_post_kept [OF _ K])
    have go: "ok (gdi_post E live D s) (case r2 of Inl rv \<Rightarrow> Some (gdi_fail rv q s2)
         | Inr asm_event \<Rightarrow> if asm_state (cc s2 p) = STATE_CCAS_REPORTING_ERROR
                 then Some (R_SUCCESS, q, cnt ''ds_ccdb_process_gdi_succ'' s2)
                 else gdi_finish E b p asm_event s2)"
      if R: "gdi_ready E live D p s1 (r2, s2)" for r2 s2
    proof -
      note R' = R [unfolded gdi_ready_def fst_conv snd_conv]
      have K2: "kept s s2" "kept s1 s2" using kept_trans [OF K] R' by blast+
      show ?thesis
      proof (cases r2)
        case (Inl rv)
        thus ?thesis using R' gdi_fail_post [OF _ K2(1)] by simp
      next
        case r2: (Inr e)
        show ?thesis
        proof (cases "ast s2 p = STATE_CCAS_REPORTING_ERROR")
          case True
          thus ?thesis using R' K2(1) r2 by (simp add: tcc_id_cc gdi_postI)
        next
          case False
          have "ok (gdi_post E live D s2) (gdi_finish E b p e s2)"
            by (rule gdi_finish_ok [OF _ E])
               (use R' r2 False K2(2) p b1 allowed_kept [OF K2(2)] in \<open>auto simp: kept_def\<close>)
          hence "ok (gdi_post E live D s) (gdi_finish E b p e s2)"
            by (rule ok_mono) (rule gdi_post_kept [OF _ K2(1)])
          thus ?thesis using r2 False by (simp add: tcc_id_cc)
        qed
      qed
    qed
    have "ok (gdi_post E live D s) (Option.bind (gdi_command E b p s1) (\<lambda>(r, s). case r of
               Inl rv \<Rightarrow> Some (gdi_fail rv q s)
             | Inr asm_event \<Rightarrow>
                 if asm_state (cc s p) = STATE_CCAS_REPORTING_ERROR
                 then Some (R_SUCCESS, q, cnt ''ds_ccdb_process_gdi_succ'' s)
                 else gdi_finish E b p asm_event s))"
      unfolding ok_bind using gdi_command_ok [OF I1 E p]
      by (rule ok_mono) (use go in \<open>simp only: case_prod_beta prod.collapse\<close>)
    thus ?thesis using f Inr fail by (simp add: process_gdi_def)
  qed
qed

end
