(* ===== verification/Process_Diam.thy ===== *)
theory Process_Diam
  imports Ccdb_Timers
begin

text \<open>
  \<open>process_diam\<close> of \<open>dsm_ccdb.c\<close>: a Diameter message from the network, taken from the DGC task or
  from the queue of its session. The function first finds the session and, by command, the event
  for the state machine (or returns early), then forwards the message, sets the timer that limits
  the wait for the answer, and updates the state.
\<close>

text \<open>
  A step of the function returns the result of an early return (\<open>Inl\<close>) or the event to go on with
  (\<open>Inr\<close>), the session \<open>*p2\<close> as it then is, and the state.
\<close>

type_synonym 'w diam_step = "(result + event_ccas) \<times> nat option \<times> 'w dsm"

definition diam_fail :: "result \<Rightarrow> nat option \<Rightarrow> 'w dsm \<Rightarrow> 'w diam_step" where
  "diam_fail r q s = (Inl r, q, cnt ''ds_ccdb_process_diam_fail'' s)"

text \<open>The counters of a kind of message, one for queued and one for received ones.\<close>

definition cnt_msg :: "bool \<Rightarrow> string \<Rightarrow> 'w dsm \<Rightarrow> 'w dsm" where
  "cnt_msg flag_queued name s = cnt (name @ (if flag_queued then ''_dq'' else ''_rcvd'')) s"

text \<open>
  A repeated request (T bit) while its answer is still awaited: the ISCP is not asked again.
\<close>

definition diam_retransmit :: "'w env \<Rightarrow> nat \<Rightarrow> nat \<Rightarrow> event_ccas \<Rightarrow> 'w dsm \<Rightarrow> 'w diam_step" where
  "diam_retransmit E b p asm_event s =
    (let (rv, s) = check_asm_state (Some p) asm_event s
     in if rv \<noteq> SUCCESS then diam_fail DIAMETER_UNABLE_TO_COMPLY (Some p) s
     else let s = upd_buf b (no_gdi_update (\<lambda>_. True)) s;
              (rv, s) = user_session_save E (Some b) (Some p) s
     in if rv \<noteq> SUCCESS then diam_fail DIAMETER_UNABLE_TO_COMPLY (Some p) s
     else (Inr asm_event, Some p, s))"

definition diam_ccr_new ::
  "'w env \<Rightarrow> bool \<Rightarrow> nat \<Rightarrow> int \<Rightarrow> nat option \<Rightarrow> 'w dsm \<Rightarrow> 'w diam_step" where
  "diam_ccr_new E flag_queued b ccdb_hash_index q s =
    (let initial = (ccRequestType (bufs s b) = DIAM_CC_INITIAL_REQUEST);
         s = cnt_msg flag_queued
           (if initial then ''ds_msg_diam_ccr_initial'' else ''ds_msg_diam_ccr_event'') s
     in case q of
       Some p \<Rightarrow>
         if is_retransmit (bufs s b) (sessions s p)
         then diam_retransmit E b p
           (if initial then EVENT_CCAS_RX_DIAM_CCR_INIT_T else EVENT_CCAS_RX_DIAM_CCR_EVENT_T) s
         else diam_fail DIAMETER_UNABLE_TO_COMPLY q (cnt ''ds_us_invalid'' s)
     | None \<Rightarrow>
         let (q, s) = user_session_add E (Some b) ccdb_hash_index s
         in if q = None then diam_fail DIAMETER_UNABLE_TO_COMPLY q s
            else (Inr (if initial then EVENT_CCAS_RX_DIAM_CCR_INIT
                       else EVENT_CCAS_RX_DIAM_CCR_EVENT), q, s))"

text \<open>The state must accept the event; then the message is queued, or its data saved.\<close>

definition diam_accept ::
  "'w env \<Rightarrow> fep_qmsg_t \<Rightarrow> nat \<Rightarrow> nat \<Rightarrow> event_ccas \<Rightarrow> 'w dsm \<Rightarrow> 'w diam_step" where
  "diam_accept E m b p asm_event s =
    (let (rv, s) = check_asm_state (Some p) asm_event s
     in if rv \<noteq> SUCCESS then diam_fail DIAMETER_UNABLE_TO_COMPLY (Some p) s
     else let (rv, s) = (if asm_event = EVENT_CCAS_RX_DIAM_MSG_VALID
                         then dgc_qmsg_add E m (Some b) (Some p) s
                         else user_session_save E (Some b) (Some p) s)
     in if rv \<noteq> SUCCESS then diam_fail DIAMETER_UNABLE_TO_COMPLY (Some p) s
     else (Inr asm_event, Some p, s))"

definition diam_ccr_update ::
  "'w env \<Rightarrow> fep_qmsg_t \<Rightarrow> bool \<Rightarrow> nat \<Rightarrow> nat option \<Rightarrow> 'w dsm \<Rightarrow> 'w diam_step option" where
  "diam_ccr_update E m flag_queued b q s =
    (let update = (ccRequestType (bufs s b) = DIAM_CC_UPDATE_REQUEST);
         s = cnt_msg flag_queued
           (if update then ''ds_msg_diam_ccr_update'' else ''ds_msg_diam_ccr_termination'') s
     in case q of
       None \<Rightarrow> Some (diam_fail DIAMETER_UNKNOWN_SESSION_ID q (cnt ''ds_us_invalid'' s))
     | Some p \<Rightarrow>
         if is_retransmit (bufs s b) (sessions s p)
         then Some (diam_retransmit E b p
           (if update then EVENT_CCAS_RX_DIAM_CCR_UPDATE_T else EVENT_CCAS_RX_DIAM_CCR_TERM_T) s)
         else Option.bind (unset_tcc E p s) (\<lambda>s. Some (diam_accept E m b p
           (if flag_queued
            then if update then EVENT_CCAS_DQ_DIAM_CCR_UPDATE else EVENT_CCAS_DQ_DIAM_CCR_TERM
            else if asm_state (cc s p) = STATE_CCAS_PROC_REQ then EVENT_CCAS_RX_DIAM_MSG_VALID
            else if update then EVENT_CCAS_RX_DIAM_CCR_UPDATE else EVENT_CCAS_RX_DIAM_CCR_TERM) s)))"

definition diam_ccr ::
  "'w env \<Rightarrow> fep_qmsg_t \<Rightarrow> bool \<Rightarrow> nat \<Rightarrow> int \<Rightarrow> nat option \<Rightarrow> 'w dsm \<Rightarrow> 'w diam_step option" where
  "diam_ccr E m flag_queued b ccdb_hash_index q s =
    (let c = bufs s b
     in if \<not> DIAM_CMD_FLAG_R (flags c)
     then Some (diam_fail DIAMETER_COMMAND_UNSUPPORTED q (cnt_msg flag_queued ''ds_msg_diam_cca'' s))
     else let s = cnt_msg flag_queued ''ds_msg_diam_ccr'' s
     in if DIAM_CMD_FLAG_E (flags c) then Some (diam_fail DIAMETER_COMMAND_UNSUPPORTED q s)
     else case ccRequestType c of
       DIAM_CC_INITIAL_REQUEST \<Rightarrow> Some (diam_ccr_new E flag_queued b ccdb_hash_index q s)
     | DIAM_CC_EVENT_REQUEST \<Rightarrow> Some (diam_ccr_new E flag_queued b ccdb_hash_index q s)
     | DIAM_CC_UPDATE_REQUEST \<Rightarrow> diam_ccr_update E m flag_queued b q s
     | DIAM_CC_TERMINATION_REQUEST \<Rightarrow> diam_ccr_update E m flag_queued b q s
     | DIAM_CC_OTHER _ \<Rightarrow> Some (diam_fail DIAMETER_INVALID_AVP_VALUE q
         (cnt_msg flag_queued ''ds_msg_diam_ccr_invalid'' s)))"

definition diam_asa_raa ::
  "'w env \<Rightarrow> fep_qmsg_t \<Rightarrow> bool \<Rightarrow> nat \<Rightarrow> nat option \<Rightarrow> 'w dsm \<Rightarrow> 'w diam_step option" where
  "diam_asa_raa E m flag_queued b q s =
    (let c = bufs s b; asa = (commandCode c = DIAM_CMD_ASA)
     in if DIAM_CMD_FLAG_R (flags c)
     then Some (diam_fail DIAMETER_COMMAND_UNSUPPORTED q
       (cnt_msg flag_queued (if asa then ''ds_msg_diam_asr'' else ''ds_msg_diam_rar'') s))
     else let s = cnt_msg flag_queued (if asa then ''ds_msg_diam_asa'' else ''ds_msg_diam_raa'') s
     in if DIAM_CMD_FLAG_T (flags c) then Some (diam_fail DIAMETER_COMMAND_UNSUPPORTED q s)
     else case q of
       None \<Rightarrow> Some (diam_fail DIAMETER_UNKNOWN_SESSION_ID q (cnt ''ds_us_invalid'' s))
     | Some p \<Rightarrow> Option.bind (unset_tcc E p s) (\<lambda>s. Some (diam_accept E m b p
         (if asa then EVENT_CCAS_RX_DIAM_ASA else EVENT_CCAS_RX_DIAM_RAA) s)))"

definition diam_str ::
  "'w env \<Rightarrow> fep_qmsg_t \<Rightarrow> bool \<Rightarrow> nat \<Rightarrow> nat option \<Rightarrow> 'w dsm \<Rightarrow> 'w diam_step option" where
  "diam_str E m flag_queued b q s =
    (let c = bufs s b
     in if \<not> DIAM_CMD_FLAG_R (flags c)
     then Some (diam_fail DIAMETER_COMMAND_UNSUPPORTED q (cnt_msg flag_queued ''ds_msg_diam_sta'' s))
     else let s = cnt_msg flag_queued ''ds_msg_diam_str'' s
     in if DIAM_CMD_FLAG_E (flags c) then Some (diam_fail DIAMETER_COMMAND_UNSUPPORTED q s)
     else case q of
       None \<Rightarrow> Some (diam_fail DIAMETER_UNKNOWN_SESSION_ID q (cnt ''ds_us_invalid'' s))
     | Some p \<Rightarrow>
         if is_retransmit c (sessions s p)
         then Some (diam_retransmit E b p EVENT_CCAS_RX_DIAM_STR_T s)
         else Option.bind (unset_tcc E p s) (\<lambda>s. Some (diam_accept E m b p
           (if asm_state (cc s p) = STATE_CCAS_PROC_REQ then EVENT_CCAS_RX_DIAM_MSG_VALID
            else if flag_queued then EVENT_CCAS_DQ_DIAM_STR else EVENT_CCAS_RX_DIAM_STR) s)))"

definition diam_command ::
  "'w env \<Rightarrow> fep_qmsg_t \<Rightarrow> bool \<Rightarrow> nat \<Rightarrow> int \<Rightarrow> nat option \<Rightarrow> 'w dsm \<Rightarrow> 'w diam_step option" where
  "diam_command E m flag_queued b ccdb_hash_index q s = (case commandCode (bufs s b) of
     DIAM_CMD_CCR \<Rightarrow> diam_ccr E m flag_queued b ccdb_hash_index q s
   | DIAM_CMD_ASA \<Rightarrow> diam_asa_raa E m flag_queued b q s
   | DIAM_CMD_RAA \<Rightarrow> diam_asa_raa E m flag_queued b q s
   | DIAM_CMD_STR \<Rightarrow> diam_str E m flag_queued b q s
   | DIAM_CMD_OTHER _ \<Rightarrow> Some (diam_fail DIAMETER_COMMAND_UNSUPPORTED q
       (cnt_msg flag_queued ''ds_msg_diam_invalid'' s)))"

text \<open>
  The second half: what is sent and which timer is set, by event. The first component tells
  whether to go on.
\<close>

definition forward_events :: "event_ccas list" where
  "forward_events = [EVENT_CCAS_DQ_DIAM_CCR_UPDATE, EVENT_CCAS_DQ_DIAM_CCR_TERM,
     EVENT_CCAS_DQ_DIAM_STR, EVENT_CCAS_RX_DIAM_CCR_INIT, EVENT_CCAS_RX_DIAM_CCR_EVENT,
     EVENT_CCAS_RX_DIAM_CCR_UPDATE, EVENT_CCAS_RX_DIAM_CCR_TERM, EVENT_CCAS_RX_DIAM_STR]"

definition repeat_events :: "event_ccas list" where
  "repeat_events = [EVENT_CCAS_RX_DIAM_CCR_INIT_T, EVENT_CCAS_RX_DIAM_CCR_EVENT_T,
     EVENT_CCAS_RX_DIAM_CCR_UPDATE_T, EVENT_CCAS_RX_DIAM_CCR_TERM_T, EVENT_CCAS_RX_DIAM_STR_T]"

definition diam_forward :: "'w env \<Rightarrow> nat \<Rightarrow> nat \<Rightarrow> 'w dsm \<Rightarrow> bool \<times> 'w dsm" where
  "diam_forward E b p s =
    (let (rv, s) = qmsg_diamctx_construct E (Some b) (Some p) False s
     in if rv \<noteq> SUCCESS then (False, s)
     else let s = start_tg E p s in (ID_VALID (tg_id (cc s p)), s))"

definition diam_answer :: "'w env \<Rightarrow> nat \<Rightarrow> nat \<Rightarrow> 'w dsm \<Rightarrow> bool \<times> 'w dsm" where
  "diam_answer E b p s =
    (let (rv, s) = qmsg_diamctx_construct E (Some b) (Some p) False s
     in if rv \<noteq> SUCCESS then (False, s)
     else let s = (if package_type (gd s p) = PACKAGE_TYPE_RESPONSE
                   then upd_gdi p (tid_remote_update (\<lambda>_. 0)) s else s);
              s = start_tcc E p s
          in (ID_VALID (tcc_id (cc s p)), s))"

definition diam_effect :: "'w env \<Rightarrow> nat \<Rightarrow> nat \<Rightarrow> event_ccas \<Rightarrow> 'w dsm \<Rightarrow> bool \<times> 'w dsm" where
  "diam_effect E b p asm_event s =
    (if asm_event \<in> set forward_events then diam_forward E b p s
     else if asm_event = EVENT_CCAS_RX_DIAM_ASA \<or> asm_event = EVENT_CCAS_RX_DIAM_RAA
     then diam_answer E b p s
     else if asm_event = EVENT_CCAS_RX_DIAM_MSG_VALID then (True, s)
     else if asm_event \<in> set repeat_events
     then let (rv, s) = qmsg_diamctx_construct E (Some b) (Some p) False s in (rv = SUCCESS, s)
     else (False, cnt ''ds_asm_event_invalid'' s))"

definition diam_finish :: "'w env \<Rightarrow> nat \<Rightarrow> nat \<Rightarrow> event_ccas \<Rightarrow> 'w dsm \<Rightarrow> result \<times> 'w dsm" where
  "diam_finish E b p asm_event s =
    (let (go, s) = diam_effect E b p asm_event s
     in if \<not> go then (DIAMETER_UNABLE_TO_COMPLY, cnt ''ds_ccdb_process_diam_fail'' s)
     else let asm_state_prev = asm_state (cc s p);
              (st, s) = set_asm_state (Some p) asm_event s;
              s = upd_cc p (asm_state_update (\<lambda>_. st)) s
     in if st = STATE_CCAS_UNDEF \<and> asm_event \<noteq> EVENT_CCAS_RX_DIAM_MSG_VALID
     then (DIAMETER_UNABLE_TO_COMPLY, cnt ''ds_ccdb_process_diam_fail'' s)
     else let s = (if st = STATE_CCAS_UNDEF
                   then upd_cc p (asm_state_update (\<lambda>_. asm_state_prev)) s else s);
              s = cnt ''ds_ccdb_process_diam_succ'' (touch E p s)
          in (if asm_event = EVENT_CCAS_RX_DIAM_MSG_VALID then SUCCESS_QUEUED else R_SUCCESS, s))"

definition diam_found ::
  "'w env \<Rightarrow> fep_qmsg_t \<Rightarrow> bool \<Rightarrow> nat \<Rightarrow> int \<Rightarrow> nat option \<Rightarrow> 'w dsm
     \<Rightarrow> (result \<times> nat option \<times> 'w dsm) option" where
  "diam_found E m flag_queued b ccdb_hash_index q s =
     Option.bind (diam_command E m flag_queued b ccdb_hash_index q s) (\<lambda>(r, q, s). case r of
       Inl rv \<Rightarrow> Some (rv, q, s)
     | Inr asm_event \<Rightarrow> (case q of
         None \<Rightarrow> None
       | Some p \<Rightarrow> let (rv, s) = diam_finish E b p asm_event s in Some (rv, q, s)))"

text \<open>
  The last argument is the pointer \<open>p2\<close>: \<open>None\<close> is NULL, \<open>Some q\<close> a pointer to \<open>q\<close>. The middle of
  the result is \<open>*p2\<close> afterwards (or \<open>None\<close> when there is no such variable).
\<close>

definition process_diam ::
  "'w env \<Rightarrow> fep_qmsg_t \<Rightarrow> bool \<Rightarrow> nat option \<Rightarrow> nat option option \<Rightarrow> 'w dsm
     \<Rightarrow> (result \<times> nat option \<times> 'w dsm) option" where
  "process_diam E m flag_queued pbuf_cc p2 s =
    (let stop = (\<lambda>r q s. Some (r, q, cnt ''ds_ccdb_process_diam_fail'' s)) in case pbuf_cc of
     None \<Rightarrow> stop DIAMETER_UNABLE_TO_COMPLY (Option.bind p2 id) (cnt ''ds_dc_null'' s)
   | Some b \<Rightarrow> (case p2 of
       None \<Rightarrow> stop DIAMETER_UNABLE_TO_COMPLY None (cnt ''ds_us_ptr_null'' s)
     | Some q \<Rightarrow>
         let sid = FEP_BUF_SID (bufs s b); n = sessionIdLength (bufs s b);
             (ccdb_hash_index, s) = user_session_hash E (Some sid) n s
         in if ccdb_hash_index < 0 then stop DIAMETER_UNABLE_TO_COMPLY q s
         else let (q, s) = user_session_get E (Some sid) n ccdb_hash_index s
         in case q of
           None \<Rightarrow> diam_found E m flag_queued b ccdb_hash_index q s
         | Some p \<Rightarrow>
             if us_head (sessions s p) = None
             then stop DIAMETER_UNABLE_TO_COMPLY q (cnt ''ds_us_list_null'' s)
             else diam_found E m flag_queued b ccdb_hash_index q s))"

end
