(* ===== verification/Diam_Inv.thy ===== *)
theory Diam_Inv
  imports Gdi_Inv Process_Diam
begin

text \<open>
  The handler of Diameter messages returns in every state that satisfies the invariant, keeps it,
  and leaves the messages that were queued before in their queues.
\<close>

section \<open>Forwarding, and the new state\<close>

lemma next_diam:
  assumes "aid s p = APP_SM_CCAS" "allowed s p e"
  shows "e \<in> set forward_events
      \<Longrightarrow> next_state s p e = STATE_CCAS_PROC_REQ \<or> next_state s p e = STATE_CCAS_PROC_REQ_FINAL"
    and "e = EVENT_CCAS_RX_DIAM_ASA \<or> e = EVENT_CCAS_RX_DIAM_RAA
      \<Longrightarrow> ast s p = STATE_CCAS_OPEN \<and> next_state s p e = STATE_CCAS_OPEN"
  using assms unfolding next_state_def allowed_def stt_def stt_case_def forward_events_def
  by (cases "ast s p"; auto simp: stt_tables)+

text \<open>
  What a message must have prepared when the handler forwards it. A session without a state machine
  is one an ABORT context has made.
\<close>

definition diam_ready :: "'w dsm \<Rightarrow> nat \<Rightarrow> event_ccas \<Rightarrow> bool" where
  "diam_ready s p e \<longleftrightarrow> uh s p \<noteq> None
     \<and> (allowed s p e \<or> aid s p = APP_SM_UNDEF \<and> e \<in> set forward_events)
     \<and> (e \<in> set forward_events \<or> e = EVENT_CCAS_RX_DIAM_ASA \<or> e = EVENT_CCAS_RX_DIAM_RAA
          \<longrightarrow> \<not> ID_VALID (tcc s p) \<and> \<not> ID_VALID (tg s p))
     \<and> (e \<in> set forward_events \<or> e = EVENT_CCAS_RX_DIAM_ASA \<or> e = EVENT_CCAS_RX_DIAM_RAA
          \<or> e = EVENT_CCAS_RX_DIAM_MSG_VALID \<or> e \<in> set repeat_events)"

definition diam_timed where
  "diam_timed E live D p e s x \<longleftrightarrow> hinv E live D {p} (snd x) \<and> kept s (snd x)
     \<and> (\<not> fst x \<longrightarrow> hinv E live D {} (snd x)) \<and> sid (snd x) = sid s
     \<and> (e \<in> set forward_events \<longrightarrow> tcc (snd x) = tcc s)
     \<and> (e \<notin> set forward_events \<longrightarrow> tg (snd x) = tg s
         \<and> (e \<noteq> EVENT_CCAS_RX_DIAM_ASA \<and> e \<noteq> EVENT_CCAS_RX_DIAM_RAA \<longrightarrow> tcc (snd x) = tcc s))"

lemma diam_timed_skel:
  assumes "hinv E live D {} s" "skel live s' = skel live s"
  shows "diam_timed E live D p e s (go, s')"
  using assms(1) hinv_skel [OF assms(2)] hinv_open kept_skel [OF assms(2)] skel_views [OF assms(2)]
  by (simp add: diam_timed_def)

lemma diam_forward_ok:
  assumes I: "hinv E live D {} s" and E: "pool_contract E live" and p: "uh s p \<noteq> None"
    and v: "\<not> ID_VALID (tg s p)" and e: "e \<in> set forward_events"
  shows "diam_timed E live D p e s (diam_forward E b p s)"
proof -
  define r where "r = qmsg_diamctx_construct E (Some b) (Some p) False s"
  have k: "skel live (snd r) = skel live s" by (simp add: r_def)
  note w = skel_views [OF k]
  have i: "hinv E live D {} (snd r)" using I hinv_skel [OF k] by simp
  have p1: "uh (snd r) p \<noteq> None" "\<not> ID_VALID (tg (snd r) p)" using p v by (simp_all add: w)
  have "diam_timed E live D p e s (ID_VALID (tg (start_tg E p (snd r)) p), start_tg E p (snd r))"
    using hinv_start_tg [OF i E p1] hinv_start_tg_fail [OF i E p1]
      kept_trans [OF kept_skel [OF k] kept_start(1)] e
    by (simp add: diam_timed_def w)
  thus ?thesis
    using diam_timed_skel [OF I k, of p e False]
    by (simp add: diam_forward_def Let_def case_prod_beta r_def [symmetric] tcc_id_cc)
qed

lemma diam_answer_ok:
  assumes I: "hinv E live D {} s" and E: "pool_contract E live" and p: "uh s p \<noteq> None"
    and v: "\<not> ID_VALID (tcc s p)" "\<not> ID_VALID (tg s p)"
    and e: "e = EVENT_CCAS_RX_DIAM_ASA \<or> e = EVENT_CCAS_RX_DIAM_RAA"
  shows "diam_timed E live D p e s (diam_answer E b p s)"
proof -
  define r where "r = qmsg_diamctx_construct E (Some b) (Some p) False s"
  define s1 where "s1 = (if package_type (gd (snd r) p) = PACKAGE_TYPE_RESPONSE
                   then upd_gdi p (tid_remote_update (\<lambda>_. 0)) (snd r) else snd r)"
  have k: "skel live (snd r) = skel live s" "skel live s1 = skel live s"
    by (simp_all add: r_def s1_def)
  note w = skel_views [OF k(2)]
  have i: "hinv E live D {} s1" using I hinv_skel [OF k(2)] by simp
  have p1: "uh s1 p \<noteq> None" "\<not> ID_VALID (tcc s1 p)" "\<not> ID_VALID (tg s1 p)"
    using p v by (simp_all add: w)
  have "diam_timed E live D p e s (ID_VALID (tcc (start_tcc E p s1) p), start_tcc E p s1)"
    using hinv_start_tcc [OF i E p1] hinv_start_tcc_fail [OF i E p1]
      kept_trans [OF kept_skel [OF k(2)] kept_start(2)] e
    by (auto simp: diam_timed_def w forward_events_def)
  thus ?thesis
    using diam_timed_skel [OF I k(1), of p e False]
    by (simp add: diam_answer_def Let_def case_prod_beta r_def [symmetric] s1_def [symmetric] tcc_id_cc)
qed

lemma diam_effect_ok:
  assumes I: "hinv E live D {} s" and E: "pool_contract E live" and r: "diam_ready s p e"
  shows "diam_timed E live D p e s (diam_effect E b p e s)"
proof -
  have p: "uh s p \<noteq> None" using r by (simp add: diam_ready_def)
  have k: "skel live (snd (qmsg_diamctx_construct E (Some b) (Some p) False s)) = skel live s" by simp
  consider "e \<in> set forward_events" "\<not> ID_VALID (tg s p)"
    | "e = EVENT_CCAS_RX_DIAM_ASA \<or> e = EVENT_CCAS_RX_DIAM_RAA"
      "\<not> ID_VALID (tcc s p)" "\<not> ID_VALID (tg s p)"
    | "e \<notin> set forward_events" "e \<noteq> EVENT_CCAS_RX_DIAM_ASA" "e \<noteq> EVENT_CCAS_RX_DIAM_RAA"
    using r unfolding diam_ready_def by blast
  thus ?thesis
  proof cases
    case 1
    thus ?thesis using diam_forward_ok [OF I E p] by (simp add: diam_effect_def)
  next
    case 2
    thus ?thesis using diam_answer_ok [OF I E p 2(2,3,1)]
      by (auto simp: diam_effect_def forward_events_def)
  next
    case 3
    thus ?thesis
      using diam_timed_skel [OF I refl] diam_timed_skel [OF I k] diam_timed_skel [OF I skel_cnt]
      by (simp add: diam_effect_def case_prod_beta Let_def)
  qed
qed

text \<open>The new state fits the timers.\<close>

lemma sok_ready:
  assumes I: "sok s p" and r: "diam_ready s p e" and n: "\<not> next_state s p e = STATE_CCAS_UNDEF"
    and T: "diam_timed E live D p e s (True, s1)"
  shows "sok (upd_cc p (asm_state_update (\<lambda>_. next_state s p e)) s1) p"
proof -
  note R = r [unfolded diam_ready_def] and T' = T [unfolded diam_timed_def kept_def, simplified]
  have p: "uh s p \<noteq> None" using R by blast
  have aid: "aid s p = APP_SM_CCAS"
    using n by (cases "aid s p") (simp_all add: next_state_def stt_def ste_undef_def)
  hence a: "allowed s p e" using R by simp
  note N = next_diam [OF aid a]
  have same: "next_state s p e = ast s p"
    if "e = EVENT_CCAS_RX_DIAM_MSG_VALID \<or> e \<in> set repeat_events"
    using that next_same [OF aid a] by (auto simp: repeat_events_def)
  show ?thesis
  proof (rule sok_state)
    show "next_state s p e = STATE_CCAS_OPEN \<Longrightarrow> \<not> ID_VALID (tg s1 p)"
      using R T' N same I aid by (auto simp: sok_def split: if_splits)
    show "ID_VALID (tcc s1 p) \<Longrightarrow>
      next_state s p e = STATE_CCAS_OPEN \<or> next_state s p e = STATE_CCAS_REPORTING_ERROR"
      using R T' N same I aid by (auto simp: sok_def split: if_splits)
  qed (use p aid n T' in auto)
qed

lemma sok_undef:
  assumes "sok s1 p" "aid s1 p = APP_SM_UNDEF" "\<not> ID_VALID (tcc s1 p)"
  shows "sok (upd_cc p (asm_state_update (\<lambda>_. STATE_CCAS_UNDEF)) s1) p"
  using assms by (auto simp: sok_def view_upd_cc tcc_id_cc split: if_splits)

lemma diam_finish_ok:
  assumes I: "hinv E live D {} s" and E: "pool_contract E live" and r: "diam_ready s p e"
  shows "hinv E live D {} (snd (diam_finish E b p e s)) \<and> dqh (snd (diam_finish E b p e s)) = dqh s"
proof -
  obtain go s1 where s1: "diam_effect E b p e s = (go, s1)" by fastforce
  have T: "diam_timed E live D p e s (go, s1)" using diam_effect_ok [OF I E r, of b] s1 by simp
  note T' = T [unfolded diam_timed_def kept_def fst_conv snd_conv] and S = hinvD(2) [OF I, of p]
  have p: "uh s1 p \<noteq> None" using r T' by (simp add: diam_ready_def)
  define s2 where "s2 = snd (set_asm_state (Some p) e s1)"
  have n: "fst (set_asm_state (Some p) e s1) = next_state s p e"
    using allowed_skel(2) [of s1 p s] T' by (simp add: set_asm_state_result [OF p])
  define st where "st = next_state s p e"
  define s3 where "s3 = upd_cc p (asm_state_update (\<lambda>_. st)) s2"
  have k2: "core live s2 = core live s1" by (simp add: s2_def)
  have c3: "core live s3 = core live (upd_cc p (asm_state_update (\<lambda>_. st)) s1)"
    unfolding s3_def by (rule core_state [OF k2])
  have d3: "dqh s3 = dqh s" using core_views(9) [OF c3] T' by (simp add: view_upd_cc)
  have e: "snd (diam_finish E b p e s) = (if \<not> go then cnt ''ds_ccdb_process_diam_fail'' s1
     else if st = STATE_CCAS_UNDEF \<and> e \<noteq> EVENT_CCAS_RX_DIAM_MSG_VALID
     then cnt ''ds_ccdb_process_diam_fail'' s3
     else cnt ''ds_ccdb_process_diam_succ'' (touch E p (if st = STATE_CCAS_UNDEF
        then upd_cc p (asm_state_update (\<lambda>_. asm_state (cc s1 p))) s3 else s3)))"
    using n by (simp add: diam_finish_def s1 Let_def case_prod_beta s2_def s3_def st_def)
  show ?thesis
  proof (cases "go")
    case False
    thus ?thesis using T' by (simp add: e)
  next
    case True
    have I1: "hinv E live D {p} s1" using T' by blast
    have I3: "hinv E live D {p} (upd_cc p (asm_state_update (\<lambda>_. st)) s1)"
      using hinv_state [OF I1, of p st] by simp
    have sok: "sok (upd_cc p (asm_state_update (\<lambda>_. st)) s1) p"
    proof (cases "st = STATE_CCAS_UNDEF")
      case False
      thus ?thesis using sok_ready [OF S r] T True by (simp add: st_def)
    next
      case st: True
      have "\<not> allowed s p e"
        using next_state_cases(1) [of s p e] allowed_running [OF S] r st
        by (auto simp: diam_ready_def st_def)
      hence f: "aid s p = APP_SM_UNDEF" "e \<in> set forward_events" "\<not> ID_VALID (tcc s p)"
        using r by (auto simp: diam_ready_def)
      hence "sok s1 p" using S T' by (auto simp: sok_def split: if_splits)
      thus ?thesis using sok_undef [of s1 p] f T' st by simp
    qed
    have I4: "hinv E live D {} s3"
      using hinv_close [OF I3 sok] hinv_core [OF c3] by simp
    have m: "st = STATE_CCAS_UNDEF \<Longrightarrow> e \<noteq> EVENT_CCAS_RX_DIAM_MSG_VALID"
    proof
      assume st: "st = STATE_CCAS_UNDEF" and e: "e = EVENT_CCAS_RX_DIAM_MSG_VALID"
      have "e \<notin> set forward_events" using e by (simp add: forward_events_def)
      hence "allowed s p e" using r by (simp add: diam_ready_def)
      thus False
        using next_state_cases(1) [of s p e] allowed_running [OF S, of e] r st
        by (auto simp: diam_ready_def st_def)
    qed
    have t: "dqh (touch E p s3) = dqh s3" by (rule core_views(9) [OF core_service(5) [OF E]])
    show ?thesis using True I4 m d3 E t by (auto simp: e)
  qed
qed

section \<open>Finding out what the message asks for\<close>

definition qgrow :: "'w dsm \<Rightarrow> 'w dsm \<Rightarrow> bool" where
  "qgrow s s' \<longleftrightarrow> (\<forall>i p. dqh s i = Some p \<longrightarrow> dqh s' i = Some p)"

lemma qgrow_trans: "qgrow s s1 \<Longrightarrow> qgrow s1 s2 \<Longrightarrow> qgrow s s2"
  by (simp add: qgrow_def)

lemma qgrow_same: "dqh s' = dqh s \<Longrightarrow> qgrow s s'"
  by (simp add: qgrow_def)

lemma qgrow_skel: "skel live s' = skel live s \<Longrightarrow> qgrow s s'"
  using skel_views(9) by (rule qgrow_same)

text \<open>Queueing a message takes a new element.\<close>

lemma qmsg_add_grow:
  assumes I: "hinv E live D {} s" and E: "pool_contract E live"
  shows "qgrow s (snd (dgc_qmsg_add E m (Some b) (Some p) s))"
  unfolding qgrow_def
proof (intro allI impI)
  fix i u assume i: "dqh s i = Some u"
  have n: "fst (new_private E Dgc_qmsg_pool (world s)) \<noteq> Some i"
    using pool_contractD(1) [OF E, of Dgc_qmsg_pool "world s" i] invD(4) [OF hinvD(1) [OF I]] i
    by (auto simp: wf_live_def)
  show "dqh (snd (dgc_qmsg_add E m (Some b) (Some p) s)) i = Some u"
    using i n by (auto simp: dgc_qmsg_add_def dgc_qmsg_free_def dgc_qmsg_init_def touch_def Let_def
        case_prod_beta dqh_def split: option.split)
qed

definition diam_step_ok where
  "diam_step_ok E live D s x \<longleftrightarrow> hinv E live D {} (snd (snd x)) \<and> qgrow s (snd (snd x))
     \<and> (\<forall>e. fst x = Inr e \<longrightarrow> (\<exists>p. fst (snd x) = Some p \<and> diam_ready (snd (snd x)) p e))"

lemma diam_fail_ok:
  assumes "hinv E live D {} s'" "qgrow s s'"
  shows "diam_step_ok E live D s (diam_fail r q s')"
  using assms by (simp add: diam_step_ok_def diam_fail_def qgrow_def)

lemma diam_step_skel:
  assumes "diam_step_ok E live D s1 x" "skel live s1 = skel live s"
  shows "diam_step_ok E live D s x"
  using assms(1) qgrow_trans [OF qgrow_skel [OF assms(2)]] by (auto simp: diam_step_ok_def)

lemma sessions_check: "sessions (snd (check_asm_state q e s)) = sessions s"
  "bufs (snd (check_asm_state q e s)) = bufs s"
  by (simp_all add: check_asm_state_def stt_of_def case_prod_beta Let_def split: option.split)

lemma diam_retransmit_ok:
  assumes I: "hinv E live D {} s" and p: "uh s p \<noteq> None"
    and t: "is_retransmit (bufs s b) (sessions s p)" and e: "e \<in> set repeat_events"
  shows "diam_step_ok E live D s (diam_retransmit E b p e s)"
proof -
  define s1 where "s1 = snd (check_asm_state (Some p) e s)"
  define s2 where "s2 = upd_buf b (no_gdi_update (\<lambda>_. True)) s1"
  define r3 where "r3 = user_session_save E (Some b) (Some p) s2"
  have "is_retransmit (bufs s2 b) (sessions s2 p)"
    using t by (simp add: s2_def s1_def sessions_check is_retransmit_def)
  hence k3: "skel live (snd r3) = skel live s"
    using skel_save_old [of s2 b p live E] by (simp add: r3_def s2_def s1_def)
  have k1: "skel live s1 = skel live s" by (simp add: s1_def)
  have a: "diam_ready (snd r3) p e" if "allowed s p e"
    using that p e allowed_kept [OF kept_skel [OF k3]]
    by (auto simp: diam_ready_def skel_views [OF k3] repeat_events_def forward_events_def)
  have i: "hinv E live D {} s1" "hinv E live D {} (snd r3)"
    using I hinv_skel [OF k1] hinv_skel [OF k3] by simp_all
  show ?thesis
    using diam_fail_ok [OF i(1) qgrow_skel [OF k1]] diam_fail_ok [OF i(2) qgrow_skel [OF k3]]
      a i(2) qgrow_skel [OF k3] check_asm_state_result [of p e s]
    by (auto simp: diam_retransmit_def Let_def case_prod_beta s1_def [symmetric] s2_def [symmetric]
        r3_def [symmetric] diam_step_ok_def)
qed

text \<open>A message the state accepts; \<open>Tcc\<close> has been cancelled.\<close>

lemma diam_accept_ok:
  assumes I: "hinv E live D {} s" and E: "pool_contract E live" and p: "uh s p \<noteq> None"
    and v: "\<not> ID_VALID (tcc s p)" and n: "\<not> is_new_us (bufs s b)"
    and e: "e = EVENT_CCAS_RX_DIAM_MSG_VALID \<or> e \<in> {EVENT_CCAS_DQ_DIAM_CCR_UPDATE,
      EVENT_CCAS_DQ_DIAM_CCR_TERM, EVENT_CCAS_DQ_DIAM_STR, EVENT_CCAS_RX_DIAM_CCR_UPDATE,
      EVENT_CCAS_RX_DIAM_CCR_TERM, EVENT_CCAS_RX_DIAM_STR, EVENT_CCAS_RX_DIAM_ASA, EVENT_CCAS_RX_DIAM_RAA}"
  shows "diam_step_ok E live D s (diam_accept E m b p e s)"
proof -
  define s1 where "s1 = snd (check_asm_state (Some p) e s)"
  have k1: "skel live s1 = skel live s" by (simp add: s1_def)
  have I1: "hinv E live D {} s1" using I hinv_skel [OF k1] by simp
  have p1: "uh s1 p \<noteq> None" using p skel_views(1) [OF k1] by simp
  define r2 where "r2 = (if e = EVENT_CCAS_RX_DIAM_MSG_VALID then dgc_qmsg_add E m (Some b) (Some p) s1
    else user_session_save E (Some b) (Some p) s1)"
  have "is_new_us (bufs s1 b) \<longleftrightarrow> False" using n by (simp add: s1_def sessions_check)
  hence k2: "skel live (snd (user_session_save E (Some b) (Some p) s1)) = skel live s"
    using skel_save_old [of s1 b p live E] k1 by simp
  have r2: "hinv E live D {} (snd r2) \<and> qgrow s (snd r2) \<and> frame_add s (snd r2)"
  proof (cases "e = EVENT_CCAS_RX_DIAM_MSG_VALID")
    case True
    thus ?thesis
      using hinv_qmsg_add [OF I1 E p1] frame_add_trans [OF frame_add_skel [OF k1]]
        qmsg_add_grow [OF I1 E] qgrow_trans [OF qgrow_skel [OF k1]] by (simp add: r2_def)
  next
    case False
    thus ?thesis using I hinv_skel [OF k2] qgrow_skel [OF k2] frame_add_skel [OF k2]
      by (simp add: r2_def)
  qed
  have "diam_ready (snd r2) p e" if a: "allowed s p e"
  proof -
    have aid: "aid s p = APP_SM_CCAS" using allowed_running(1) [OF hinvD(2) [OF I] p a] by simp
    have "\<not> ID_VALID (tg s p)" if "e \<noteq> EVENT_CCAS_RX_DIAM_MSG_VALID"
    proof -
      have "ast s p = STATE_CCAS_OPEN"
        using a aid e that unfolding allowed_def stt_def stt_case_def
        by (cases "ast s p"; auto simp: stt_tables)
      thus ?thesis using hinvD(2) [OF I, of p] p by (simp add: sok_def)
    qed
    thus ?thesis
      using r2 a p v e allowed_skel(1) [of "snd r2" p s e]
      by (auto simp: diam_ready_def frame_add_def forward_events_def)
  qed
  thus ?thesis
    using r2 diam_fail_ok [OF I1 qgrow_skel [OF k1]] diam_fail_ok [of E live D "snd r2" s]
      check_asm_state_result [of p e s]
    by (auto simp: diam_accept_def Let_def case_prod_beta s1_def [symmetric] r2_def [symmetric]
        diam_step_ok_def)
qed

section \<open>The commands\<close>

text \<open>Adding a session does not touch the queued messages.\<close>

lemma dq_save [simp]:
  "dgc_qmsgs (snd (set_peer_fe E s)) = dgc_qmsgs s" "dgc_qmsgs (snd (set_package_type q s)) = dgc_qmsgs s"
  "dgc_qmsgs (snd (set_tid_local E f i s)) = dgc_qmsgs s"
  "dgc_qmsgs (snd (set_flags_trap q s)) = dgc_qmsgs s"
  "dgc_qmsgs (snd (set_asm_id E q s)) = dgc_qmsgs s" "dgc_qmsgs (snd (set_asm_state q e s)) = dgc_qmsgs s"
  by (simp_all add: set_peer_fe_def set_package_type_def set_tid_local_def set_flags_trap_def
      set_asm_id_def set_asm_state_def stt_of_def Let_def case_prod_beta split: option.split)

lemma dq_save_parts [simp]:
  "dgc_qmsgs (save_trap p s) = dgc_qmsgs s" "dgc_qmsgs (snd (save_fail s)) = dgc_qmsgs s"
  "dgc_qmsgs (snd (save_succ s)) = dgc_qmsgs s" "dgc_qmsgs (snd (save_new_us E c p s)) = dgc_qmsgs s"
  "dgc_qmsgs (snd (save_tid_local E p s)) = dgc_qmsgs s"
  "dgc_qmsgs (save_diam_avps E c p s) = dgc_qmsgs s"
  by (simp_all add: save_trap_def save_fail_def save_succ_def save_new_us_def save_tid_local_def
      save_new_tid_def save_diam_avps_def Let_def case_prod_beta)

lemma dq_save_ends [simp]:
  "dgc_qmsgs (snd (save_retransmit c p s)) = dgc_qmsgs s" "dgc_qmsgs (snd (save_abort c p s)) = dgc_qmsgs s"
  "dgc_qmsgs (snd (save_diam E c p s)) = dgc_qmsgs s" "dgc_qmsgs (snd (save_gdi E c p s)) = dgc_qmsgs s"
  by (simp_all add: save_retransmit_def save_abort_def save_diam_def save_gdi_def save_gdi_cca_def
      save_gdi_asr_def save_gdi_rar_def save_gdi_sta_def Let_def case_prod_beta
      split: package_type.split command_code.split)

lemma dq_add: "dqh (snd (user_session_add E b h s)) = dqh s"
proof -
  have "dgc_qmsgs (snd (user_session_save E b q s)) = dgc_qmsgs s" for b q and s :: "'a dsm"
    by (simp add: user_session_save_def Let_def split: option.split diamctx_type.split)
  hence "dgc_qmsgs (snd (user_session_add E b h s)) = dgc_qmsgs s"
    by (simp add: user_session_add_def user_session_free_def user_session_init_def Let_def
        case_prod_beta split: option.split)
  thus ?thesis using qms_eq by blast
qed

lemma skel_cnt_msg: "skel live (cnt_msg f n s) = skel live s" "bufs (cnt_msg f n s) = bufs s"
  "sessions (cnt_msg f n s) = sessions s"
  by (simp_all add: cnt_msg_def)

lemma repeat_in [simp]:
  "EVENT_CCAS_RX_DIAM_CCR_INIT_T \<in> set repeat_events" "EVENT_CCAS_RX_DIAM_CCR_EVENT_T \<in> set repeat_events"
  "EVENT_CCAS_RX_DIAM_CCR_UPDATE_T \<in> set repeat_events"
  "EVENT_CCAS_RX_DIAM_CCR_TERM_T \<in> set repeat_events" "EVENT_CCAS_RX_DIAM_STR_T \<in> set repeat_events"
  by (simp_all add: repeat_events_def)

text \<open>
  What \<open>process_diam\<close> knows when it looks at the command: the lookup has found the session \<open>q\<close>, or
  there is none with this Session-Id.
\<close>

definition diam_looked where
  "diam_looked E live D b l q s \<longleftrightarrow> hinv E live D {} s \<and> bty s b = DIAMCTX_DIAM
     \<and> valid_sid E (sessionIdLength (bufs s b))
     \<and> l = int (bucket E (FEP_BUF_SID (bufs s b)) (sessionIdLength (bufs s b)))
     \<and> (case q of None \<Rightarrow> tab_free s (FEP_BUF_SID (bufs s b)) (sessionIdLength (bufs s b))
          | Some p \<Rightarrow> uh s p \<noteq> None)"

lemma diam_looked_skel:
  assumes "skel live s' = skel live s" "bufs s' = bufs s"
  shows "diam_looked E live D b l q s' = diam_looked E live D b l q s"
  using hinv_skel [OF assms(1), of E D "{}"] skel_views [OF assms(1)]
  by (simp add: diam_looked_def assms(2) tab_free_def named_def split: option.split)

lemma diam_ccr_new_ok:
  assumes L: "diam_looked E live D b l q s" and E: "pool_contract E live" and n: "is_new_us (bufs s b)"
  shows "diam_step_ok E live D s (diam_ccr_new E f b l q s)"
proof -
  define initial where "initial = (ccRequestType (bufs s b) = DIAM_CC_INITIAL_REQUEST)"
  define s1 where "s1 = cnt_msg f
    (if initial then ''ds_msg_diam_ccr_initial'' else ''ds_msg_diam_ccr_event'') s"
  have k: "skel live s1 = skel live s" "bufs s1 = bufs s" by (simp_all add: s1_def skel_cnt_msg)
  have L1: "diam_looked E live D b l q s1" using L diam_looked_skel [OF k] by simp
  note L' = L1 [unfolded diam_looked_def]
  have I: "hinv E live D {} s1" using L' by blast
  have "diam_step_ok E live D s1 (diam_ccr_new E f b l q s)"
  proof (cases q)
    case (Some p)
    hence p: "uh s1 p \<noteq> None" using L' by simp
    have "hinv E live D {} (cnt c s1)" "qgrow s1 (cnt c s1)" for c
      using I by (simp_all add: qgrow_same)
    thus ?thesis
      using Some diam_fail_ok [of E live D "cnt ''ds_us_invalid'' s1" s1]
        diam_retransmit_ok [OF I p, of b]
      by (simp add: diam_ccr_new_def Let_def initial_def [symmetric] s1_def [symmetric])
  next
    case None
    define r where "r = user_session_add E (Some b) l s1"
    define e where "e = (if initial then EVENT_CCAS_RX_DIAM_CCR_INIT else EVENT_CCAS_RX_DIAM_CCR_EVENT)"
    have A: "hinv E live D {} (snd r) \<and> (case fst r of None \<Rightarrow> True | Some p \<Rightarrow> uh s1 p = None
        \<and> uh (snd r) p \<noteq> None \<and> saved_new E (bufs s1 b) p s1 (snd r) \<and> tg (snd r) = tg s1)"
      using hinv_add [OF I E, of b "nat l"] L' None n k(2)
      by (auto simp: r_def bty_def split: option.split_asm)
    have g: "qgrow s1 (snd r)" by (rule qgrow_same) (simp add: r_def dq_add)
    have rd: "diam_ready (snd r) p e" if "fst r = Some p" for p
    proof -
      note A' = A [unfolded that option.case]
      have o: "aid s1 p = APP_SM_UNDEF" "ast s1 p = STATE_CCAS_UNDEF" "tg s1 p = ID_UNDEF"
        using hinvD(2) [OF I, of p] A' ownD(6) [OF invD(5) [OF hinvD(1) [OF I]], of p]
        by (simp_all add: sok_def)
      have st: "aid (snd r) p = APP_SM_CCAS \<and> ast (snd r) p = STATE_CCAS_IDLE
          \<or> aid (snd r) p = APP_SM_UNDEF \<and> ast (snd r) p = STATE_CCAS_UNDEF"
        using A' o by (auto simp: saved_new_def)
      have "sok (snd r) p" using hinvD(2) [of E live D "{}" "snd r" p] A by simp
      hence "\<not> ID_VALID (tcc (snd r) p)" using st A' by (auto simp: sok_def)
      moreover have "e \<in> set forward_events" by (simp add: e_def forward_events_def)
      moreover have "aid (snd r) p = APP_SM_CCAS \<Longrightarrow> allowed (snd r) p e"
        using st by (auto simp: allowed_def stt_def stt_case_def stt_tables e_def)
      ultimately show ?thesis using A' o(3) st by (auto simp: diam_ready_def)
    qed
    show ?thesis
      using None A g rd diam_fail_ok [of E live D "snd r" s1]
      by (auto simp: diam_ccr_new_def Let_def initial_def [symmetric] s1_def [symmetric]
          case_prod_beta r_def [symmetric] diam_step_ok_def e_def)
  qed
  thus ?thesis by (rule diam_step_skel [OF _ k(1)])
qed

text \<open>The messages that cancel \<open>Tcc\<close> before they are accepted.\<close>

lemma unset_accept_ok:
  assumes I: "hinv E live D {} s" and E: "pool_contract E live" and p: "uh s p \<noteq> None"
    and n: "\<not> is_new_us (bufs s b)"
    and e: "\<And>s. e s = EVENT_CCAS_RX_DIAM_MSG_VALID \<or> e s \<in> {EVENT_CCAS_DQ_DIAM_CCR_UPDATE,
      EVENT_CCAS_DQ_DIAM_CCR_TERM, EVENT_CCAS_DQ_DIAM_STR, EVENT_CCAS_RX_DIAM_CCR_UPDATE,
      EVENT_CCAS_RX_DIAM_CCR_TERM, EVENT_CCAS_RX_DIAM_STR, EVENT_CCAS_RX_DIAM_ASA, EVENT_CCAS_RX_DIAM_RAA}"
  shows "ok (diam_step_ok E live D s)
    (Option.bind (unset_tcc E p s) (\<lambda>s. Some (diam_accept E m b p (e s) s)))"
proof -
  obtain s1 where s1: "unset_tcc E p s = Some s1" "hinv E live D {} s1" "us_frame s s1"
    "tcc s1 = (tcc s)(p := ID_UNDEF)" using hinv_unset_tcc [OF I E p] by blast
  note F = s1(3) [unfolded us_frame_def]
  have "diam_step_ok E live D s1 (diam_accept E m b p (e s1) s1)"
    by (rule diam_accept_ok [OF s1(2) E]) (use p n e F s1(4) in \<open>simp_all\<close>)
  hence "diam_step_ok E live D s (diam_accept E m b p (e s1) s1)"
    using qgrow_trans [OF qgrow_same [of s1 s]] F by (auto simp: diam_step_ok_def)
  thus ?thesis using s1(1) by simp
qed

lemma diam_fail_cnt:
  assumes "hinv E live D {} s1" "skel live s1 = skel live s"
  shows "diam_step_ok E live D s (diam_fail r q s1)" "diam_step_ok E live D s (diam_fail r q (cnt c s1))"
  using diam_fail_ok [OF assms(1) qgrow_skel [OF assms(2)]]
    diam_fail_ok [of E live D "cnt c s1" s] assms qgrow_skel [of live "cnt c s1" s] by simp_all

lemma diam_ccr_update_ok:
  assumes L: "diam_looked E live D b l q s" and E: "pool_contract E live" and n: "\<not> is_new_us (bufs s b)"
  shows "ok (diam_step_ok E live D s) (diam_ccr_update E m f b q s)"
proof -
  define update where "update = (ccRequestType (bufs s b) = DIAM_CC_UPDATE_REQUEST)"
  define s1 where "s1 = cnt_msg f
    (if update then ''ds_msg_diam_ccr_update'' else ''ds_msg_diam_ccr_termination'') s"
  have k: "skel live s1 = skel live s" "bufs s1 = bufs s" by (simp_all add: s1_def skel_cnt_msg)
  have I: "hinv E live D {} s1" using L hinv_skel [OF k(1)] by (simp add: diam_looked_def)
  show ?thesis
  proof (cases q)
    case None
    thus ?thesis
      using diam_fail_cnt(2) [OF I k(1)]
      by (simp add: diam_ccr_update_def Let_def update_def [symmetric] s1_def [symmetric])
  next
    case (Some p)
    hence p: "uh s1 p \<noteq> None" using L skel_views(1) [OF k(1)] by (simp add: diam_looked_def)
    have "ok (diam_step_ok E live D s1) (Option.bind (unset_tcc E p s1) (\<lambda>s. Some (diam_accept E m b p
           (if f
            then if update then EVENT_CCAS_DQ_DIAM_CCR_UPDATE else EVENT_CCAS_DQ_DIAM_CCR_TERM
            else if asm_state (cc s p) = STATE_CCAS_PROC_REQ then EVENT_CCAS_RX_DIAM_MSG_VALID
            else if update then EVENT_CCAS_RX_DIAM_CCR_UPDATE else EVENT_CCAS_RX_DIAM_CCR_TERM) s)))"
      by (rule unset_accept_ok [OF I E p]) (use n k in auto)
    moreover have "is_retransmit (bufs s1 b) (sessions s1 p) \<Longrightarrow> diam_step_ok E live D s1
      (diam_retransmit E b p (if update then EVENT_CCAS_RX_DIAM_CCR_UPDATE_T else EVENT_CCAS_RX_DIAM_CCR_TERM_T) s1)"
      by (rule diam_retransmit_ok [OF I p]) simp_all
    ultimately have "ok (diam_step_ok E live D s1) (diam_ccr_update E m f b q s)"
      using Some by (simp add: diam_ccr_update_def Let_def update_def [symmetric] s1_def [symmetric])
    thus ?thesis by (rule ok_mono) (rule diam_step_skel [OF _ k(1)])
  qed
qed

lemma diam_ccr_ok:
  assumes L: "diam_looked E live D b l q s" and E: "pool_contract E live"
    and c: "commandCode (bufs s b) = DIAM_CMD_CCR"
  shows "ok (diam_step_ok E live D s) (diam_ccr E m f b l q s)"
proof -
  have I: "hinv E live D {} s" using L by (simp add: diam_looked_def)
  define s1 where "s1 = cnt_msg f ''ds_msg_diam_ccr'' s"
  have k: "skel live s1 = skel live s" "bufs s1 = bufs s" "skel live (cnt_msg f n s1) = skel live s"
    "skel live (cnt_msg f n s) = skel live s" for n
    by (simp_all add: s1_def skel_cnt_msg)
  have L1: "diam_looked E live D b l q s1" using L diam_looked_skel [OF k(1,2)] by simp
  have i: "hinv E live D {} s1" "hinv E live D {} (cnt_msg f n s1)" "hinv E live D {} (cnt_msg f n s)" for n
    using I hinv_skel [OF k(1)] hinv_skel [OF k(3)] hinv_skel [OF k(4)] by simp_all
  note fail = diam_fail_cnt(1) [OF i(1) k(1)] diam_fail_cnt(1) [OF i(2) k(3)]
    diam_fail_cnt(1) [OF i(3) k(4)]
  have new: "ccRequestType (bufs s b) = DIAM_CC_INITIAL_REQUEST
      \<or> ccRequestType (bufs s b) = DIAM_CC_EVENT_REQUEST \<Longrightarrow> diam_step_ok E live D s (diam_ccr_new E f b l q s1)"
    by (rule diam_step_skel [OF diam_ccr_new_ok [OF L1 E] k(1)]) (use c k in \<open>simp add: is_new_us_def\<close>)
  have upd: "ccRequestType (bufs s b) \<noteq> DIAM_CC_INITIAL_REQUEST
      \<and> ccRequestType (bufs s b) \<noteq> DIAM_CC_EVENT_REQUEST
      \<Longrightarrow> ok (diam_step_ok E live D s) (diam_ccr_update E m f b q s1)"
    by (rule ok_mono [OF diam_ccr_update_ok [OF L1 E] diam_step_skel [OF _ k(1)]])
       (use k in \<open>auto simp: is_new_us_def\<close>)
  show ?thesis
    using fail new upd
    by (simp add: diam_ccr_def Let_def s1_def [symmetric] split: cc_request_type.split)
qed

lemma diam_asa_raa_ok:
  assumes L: "diam_looked E live D b l q s" and E: "pool_contract E live"
    and c: "commandCode (bufs s b) \<noteq> DIAM_CMD_CCR"
  shows "ok (diam_step_ok E live D s) (diam_asa_raa E m f b q s)"
proof -
  have I: "hinv E live D {} s" using L by (simp add: diam_looked_def)
  define asa where "asa = (commandCode (bufs s b) = DIAM_CMD_ASA)"
  define s1 where "s1 = cnt_msg f (if asa then ''ds_msg_diam_asa'' else ''ds_msg_diam_raa'') s"
  have k: "skel live s1 = skel live s" "bufs s1 = bufs s" "skel live (cnt_msg f n s) = skel live s" for n
    by (simp_all add: s1_def skel_cnt_msg)
  have i: "hinv E live D {} s1" "hinv E live D {} (cnt_msg f n s)" for n
    using I hinv_skel [OF k(1)] hinv_skel [OF k(3)] by simp_all
  note fail = diam_fail_cnt [OF i(1) k(1)] diam_fail_cnt(1) [OF i(2) k(3)]
  have "ok (diam_step_ok E live D s) (Option.bind (unset_tcc E p s1) (\<lambda>s. Some (diam_accept E m b p
         (if asa then EVENT_CCAS_RX_DIAM_ASA else EVENT_CCAS_RX_DIAM_RAA) s)))" if "q = Some p" for p
    by (rule ok_mono [OF unset_accept_ok [OF i(1) E] diam_step_skel [OF _ k(1)]])
       (use L that c k skel_views(1) [OF k(1)] in \<open>auto simp: diam_looked_def is_new_us_def\<close>)
  thus ?thesis
    using fail by (auto simp: diam_asa_raa_def Let_def asa_def [symmetric] s1_def [symmetric]
        split: option.split)
qed

lemma diam_str_ok:
  assumes L: "diam_looked E live D b l q s" and E: "pool_contract E live"
    and c: "commandCode (bufs s b) \<noteq> DIAM_CMD_CCR"
  shows "ok (diam_step_ok E live D s) (diam_str E m f b q s)"
proof -
  have I: "hinv E live D {} s" using L by (simp add: diam_looked_def)
  define s1 where "s1 = cnt_msg f ''ds_msg_diam_str'' s"
  have k: "skel live s1 = skel live s" "bufs s1 = bufs s" "skel live (cnt_msg f n s) = skel live s" for n
    by (simp_all add: s1_def skel_cnt_msg)
  have i: "hinv E live D {} s1" "hinv E live D {} (cnt_msg f n s)" for n
    using I hinv_skel [OF k(1)] hinv_skel [OF k(3)] by simp_all
  note fail = diam_fail_cnt [OF i(1) k(1)] diam_fail_cnt(1) [OF i(2) k(3)]
  have u: "uh s1 p \<noteq> None" if "q = Some p" for p
    using L that skel_views(1) [OF k(1)] by (simp add: diam_looked_def)
  define ev where "ev p s = (if asm_state (cc s p) = STATE_CCAS_PROC_REQ then EVENT_CCAS_RX_DIAM_MSG_VALID
      else if f then EVENT_CCAS_DQ_DIAM_STR else EVENT_CCAS_RX_DIAM_STR)" for p and s :: "'a dsm"
  have a: "ok (diam_step_ok E live D s) (Option.bind (unset_tcc E p s1)
      (\<lambda>s. Some (diam_accept E m b p (ev p s) s)))" if "q = Some p" for p
    by (rule ok_mono [OF unset_accept_ok [OF i(1) E u [OF that]] diam_step_skel [OF _ k(1)]])
       (use c k in \<open>auto simp: is_new_us_def ev_def\<close>)
  have t: "is_retransmit (bufs s b) (sessions s1 p) \<Longrightarrow>
      diam_step_ok E live D s (diam_retransmit E b p EVENT_CCAS_RX_DIAM_STR_T s1)" if "q = Some p" for p
    by (rule diam_step_skel [OF diam_retransmit_ok [OF i(1) u [OF that]] k(1)]) (simp_all add: k(2))
  show ?thesis
    unfolding diam_str_def Let_def s1_def [symmetric] ev_def [symmetric]
    using fail a t by (simp del: ok_bind split: option.split)
qed

lemma diam_command_ok:
  assumes L: "diam_looked E live D b l q s" and E: "pool_contract E live"
  shows "ok (diam_step_ok E live D s) (diam_command E m f b l q s)"
proof -
  have I: "hinv E live D {} s" using L by (simp add: diam_looked_def)
  have k: "skel live (cnt_msg f n s) = skel live s" for n by (simp add: skel_cnt_msg)
  have "diam_step_ok E live D s (diam_fail r q (cnt_msg f n s))" for r n
    by (rule diam_fail_cnt(1) [OF _ k]) (use I hinv_skel [OF k] in simp)
  thus ?thesis
    using diam_ccr_ok [OF L E] diam_asa_raa_ok [OF L E] diam_str_ok [OF L E]
    by (simp add: diam_command_def split: command_code.split)
qed

section \<open>The handler\<close>

definition diam_post where
  "diam_post E live D s x \<longleftrightarrow> hinv E live D {} (snd (snd x)) \<and> qgrow s (snd (snd x))"

lemma diam_found_ok:
  assumes L: "diam_looked E live D b l q s" and E: "pool_contract E live"
  shows "ok (diam_post E live D s) (diam_found E m f b l q s)"
proof -
  have "ok (diam_post E live D s) (case r of
       Inl rv \<Rightarrow> Some (rv, q1, s1)
     | Inr asm_event \<Rightarrow> (case q1 of
         None \<Rightarrow> None
       | Some p \<Rightarrow> let (rv, s) = diam_finish E b p asm_event s1 in Some (rv, q1, s)))"
    if S: "diam_step_ok E live D s (r, q1, s1)" for r q1 s1
  proof (cases r)
    case (Inl rv)
    thus ?thesis using S by (simp add: diam_step_ok_def diam_post_def)
  next
    case (Inr e)
    then obtain p where p: "q1 = Some p" "diam_ready s1 p e"
      using S by (auto simp: diam_step_ok_def)
    have "hinv E live D {} s1" "qgrow s s1" using S by (simp_all add: diam_step_ok_def)
    thus ?thesis
      using Inr p diam_finish_ok [OF _ E p(2), of D b] qgrow_trans [OF _ qgrow_same [of _ s1]]
      by (simp add: diam_post_def case_prod_beta)
  qed
  thus ?thesis
    unfolding diam_found_def ok_bind
    by (intro ok_mono [OF diam_command_ok [OF L E]]) (simp only: split_paired_all prod.case)
qed

lemma process_diam_ok:
  assumes I: "hinv E live D {} s" and E: "pool_contract E live" and d: "bty s b = DIAMCTX_DIAM"
  shows "ok (diam_post E live D s) (process_diam E m f (Some b) (Some None) s)"
proof -
  let ?a = "FEP_BUF_SID (bufs s b)" and ?n = "sessionIdLength (bufs s b)"
  define s1 where "s1 = snd (user_session_hash E (Some ?a) ?n s)"
  have k: "skel live s1 = skel live s" by (simp add: s1_def)
  have b: "bufs s1 = bufs s" by (simp add: s1_def user_session_hash_result)
  have I1: "hinv E live D {} s1" using I hinv_skel [OF k] by simp
  note W = invD(2) [OF hinvD(1) [OF I1]] and T = hinvD(5) [OF I1]
  show ?thesis
  proof (cases "valid_sid E ?n")
    case False
    hence "user_session_hash E (Some ?a) ?n s = (-1, s1)"
      by (simp add: s1_def user_session_hash_result)
    thus ?thesis using I1 qgrow_skel [OF k] by (simp add: process_diam_def diam_post_def qgrow_def)
  next
    case v: True
    define g where "g = user_session_get E (Some ?a) ?n (int (bucket E ?a ?n)) s1"
    have h: "user_session_hash E (Some ?a) ?n s = (int (bucket E ?a ?n), s1)"
      using v by (simp add: s1_def user_session_hash_result)
    have kg: "skel live (snd g) = skel live s1" "bufs (snd g) = bufs s"
      unfolding g_def
      by (rule user_session_get_skel(1) [OF W v],
          rule trans [OF user_session_get_skel(2) [OF W v] b])
    note K = trans [OF kg(1) k] and vg = skel_views [OF kg(1)]
    have q: "case fst g of None \<Rightarrow> tab_free (snd g) ?a ?n | Some p \<Rightarrow> uh (snd g) p \<noteq> None"
    proof (cases "fst g")
      case None
      have "tab_free s1 ?a ?n"
        unfolding tab_free_def
        using user_session_get_iff [OF W T _ v, of ?a] hinvD(2) [OF I1] None by (simp add: g_def)
      thus ?thesis using None by (simp add: tab_free_def named_def vg)
    next
      case (Some p)
      hence "uh s1 p \<noteq> None" using user_session_get_linked [OF W v, of ?a p] by (simp add: g_def)
      thus ?thesis using Some by (simp add: vg)
    qed
    have L: "diam_looked E live D b (int (bucket E ?a ?n)) (fst g) (snd g)"
      using I hinv_skel [OF K, of E D "{}"] d v q skel_views(20) [OF K] kg(2)
      by (cases "fst g") (simp_all add: diam_looked_def)
    have "ok (diam_post E live D s) (diam_found E m f b (int (bucket E ?a ?n)) (fst g) (snd g))"
      using diam_found_ok [OF L E] by (rule ok_mono)
        (use qgrow_trans [OF qgrow_skel [OF K]] in \<open>auto simp: diam_post_def\<close>)
    moreover have "process_diam E m f (Some b) (Some None) s
        = diam_found E m f b (int (bucket E ?a ?n)) (fst g) (snd g)"
      using q h by (cases "fst g") (auto simp: process_diam_def case_prod_beta Let_def
          g_def [symmetric] view_fold)
    ultimately show ?thesis by simp
  qed
qed

end
