(* ===== verification/Process_Diamctx.thy ===== *)
theory Process_Diamctx
  imports Process_Diam Process_Gdi Process_Expire
begin

text \<open>
  \<open>process_diamctx\<close> of \<open>dsm_ccdb.c\<close>, the entry for everything DGC sends, and the processing of one
  queued message after a GDI message. The two functions call each other; the second is written out
  in the first here, and defined on its own afterwards.
\<close>

section \<open>The reply\<close>

text \<open>
  The buffer goes back to the sender with the result. The first component tells whether the
  conversion of the buffer succeeded; if not, the function returns at once, and the buffer is not
  freed.
\<close>

definition diamctx_reply ::
  "'w env \<Rightarrow> ulong \<Rightarrow> nat \<Rightarrow> ulong \<Rightarrow> ulong \<Rightarrow> 'w dsm \<Rightarrow> bool \<times> 'w dsm" where
  "diamctx_reply E msg b q2 q3 s =
    (let (parm, s) = call (buf_to_parm E (Some b)) s
     in if parm < 0
     then (False, cnt ''ds_ccdb_process_diamctx_fail'' (cnt ''ds_api_buf_to_parm_fail'' s))
     else let (rv, s) = call (tell_dgc E msg parm q2 q3) s
     in (True, if rv \<noteq> SUCCESS
               then cnt ''ds_ccdb_process_diamctx_fail'' (free_buffer E
                      (parm_to_buf E (of_int parm) (world s)) (cnt ''ds_api_tell_dgc_fail'' s))
               else cnt ''ds_ccdb_process_diamctx_succ'' (cnt ''ds_api_tell_dgc_succ'' s)))"

text \<open>A message that could not be processed is turned into an error report; a failure is ignored.\<close>

definition report_failure :: "'w env \<Rightarrow> nat \<Rightarrow> nat option \<Rightarrow> result \<Rightarrow> 'w dsm \<Rightarrow> 'w dsm" where
  "report_failure E b q rv s =
     (if rv \<noteq> R_SUCCESS then snd (qmsg_diamctx_construct E (Some b) q True s) else s)"

text \<open>The branch for a Diameter message.\<close>

definition diamctx_diam :: "'w env \<Rightarrow> fep_qmsg_t \<Rightarrow> bool \<Rightarrow> nat \<Rightarrow> 'w dsm \<Rightarrow> 'w dsm option" where
  "diamctx_diam E m flag_queued b s =
     Option.bind (process_diam E m flag_queued (Some b) (Some None) s) (\<lambda>(rv, q, s).
       if rv = SUCCESS_QUEUED then Some s
       else Some (snd (diamctx_reply E (m 0) b
              (status_code E (if rv = R_SUCCESS then SUCCESS else FAILURE)) (result_value E rv)
              (report_failure E b q rv s))))"

text \<open>
  The branch for a GDI message, up to the queue: whether to go on to it, and the session.
\<close>

definition diamctx_gdi ::
  "'w env \<Rightarrow> fep_qmsg_t \<Rightarrow> nat \<Rightarrow> 'w dsm \<Rightarrow> (bool \<times> nat option \<times> 'w dsm) option" where
  "diamctx_gdi E m b s =
     Option.bind (process_gdi E m (Some b) (Some None) s) (\<lambda>(rv, q, s).
       let s = report_failure E b q rv s;
           (q2, q3) = (if m 2 = status_code E FAILURE then (m 2, m 3)
             else (status_code E (if rv = R_SUCCESS then SUCCESS else FAILURE), result_value E rv));
           (go, s) = diamctx_reply E (m 0) b q2 q3 s
       in Some (go, q, s))"

text \<open>The branches whose message is freed at the end.\<close>

definition diamctx_other :: "'w env \<Rightarrow> nat \<Rightarrow> 'w dsm \<Rightarrow> 'w dsm option" where
  "diamctx_other E b s =
    (let succ = (\<lambda>s. Some (free_buffer E (Some b) (cnt ''ds_ccdb_process_diamctx_succ'' s)))
     in case diamctx_type (bufs s b) of
       DIAMCTX_GDI \<Rightarrow> succ (process_gdi_abort E (Some b) s)
     | DIAMCTX_GDI_DIM_CLOSE \<Rightarrow> Option.bind (process_gdi_dim_close E (Some b) s) succ
     | DIAMCTX_US_REMOVE \<Rightarrow> Option.bind (process_us_remove E (Some b) s) succ
     | _ \<Rightarrow> Some (free_buffer E (Some b)
         (cnt ''ds_ccdb_process_diamctx_fail'' (cnt ''ds_dc_invalid'' s))))"

text \<open>The end of \<open>process_dgc_qmsg\<close>: the message leaves the queue.\<close>

definition dgc_qmsg_done :: "'w env \<Rightarrow> nat \<Rightarrow> nat \<Rightarrow> 'w dsm \<Rightarrow> 'w dsm option" where
  "dgc_qmsg_done E p i s = Option.bind (dgc_qmsg_remove E (Some (Some i)) s)
     (\<lambda>r. Some (cnt ''ds_ccdb_process_dgc_qmsg_succ'' (touch E p (snd r))))"

partial_function (option) process_diamctx ::
  "'w env \<Rightarrow> fep_qmsg_t \<Rightarrow> bool \<Rightarrow> 'w dsm \<Rightarrow> 'w dsm option" where
  "process_diamctx E m flag_queued s = (case parm_to_buf E (m 1) (world s) of
     None \<Rightarrow> Some (cnt ''ds_ccdb_process_diamctx_fail'' (cnt ''ds_api_parm_to_buf_fail'' s))
   | Some b \<Rightarrow>
       if diamctx_type (bufs s b) = DIAMCTX_DIAM then diamctx_diam E m flag_queued b s
       else if diamctx_type (bufs s b) = DIAMCTX_GDI
               \<and> packageType (bufs s b) \<noteq> PACKAGE_TYPE_ABORT
       then Option.bind (diamctx_gdi E m b s) (\<lambda>r.
              if \<not> fst r then Some (snd (snd r))
              else case fst (snd r) of
                None \<Rightarrow> Some (snd (snd r))
              | Some p \<Rightarrow> (case tailq_first (dgc_queue (diam (snd (snd r)) p)) of
                  None \<Rightarrow> Some (snd (snd r))
                | Some i \<Rightarrow>
                    Option.bind (process_diamctx E (qmsg (dgc_qmsgs (snd (snd r)) i)) True (snd (snd r)))
                      (\<lambda>s. dgc_qmsg_done E p i s)))
       else diamctx_other E b s)"

definition process_dgc_qmsg :: "'w env \<Rightarrow> nat option \<Rightarrow> 'w dsm \<Rightarrow> 'w dsm option" where
  "process_dgc_qmsg E q s = (case q of
     None \<Rightarrow> Some s
   | Some p \<Rightarrow> (case tailq_first (dgc_queue (diam s p)) of
       None \<Rightarrow> Some s
     | Some i \<Rightarrow> Option.bind (process_diamctx E (qmsg (dgc_qmsgs s i)) True s) (dgc_qmsg_done E p i)))"

text \<open>The mutual recursion of the code.\<close>

lemma process_diamctx_rec:
  "process_diamctx E m flag_queued s = (case parm_to_buf E (m 1) (world s) of
     None \<Rightarrow> Some (cnt ''ds_ccdb_process_diamctx_fail'' (cnt ''ds_api_parm_to_buf_fail'' s))
   | Some b \<Rightarrow>
       if diamctx_type (bufs s b) = DIAMCTX_DIAM then diamctx_diam E m flag_queued b s
       else if diamctx_type (bufs s b) = DIAMCTX_GDI
               \<and> packageType (bufs s b) \<noteq> PACKAGE_TYPE_ABORT
       then Option.bind (diamctx_gdi E m b s) (\<lambda>(go, q, s).
              if \<not> go then Some s else process_dgc_qmsg E q s)
       else diamctx_other E b s)"
  by (subst process_diamctx.simps)
     (auto simp: process_dgc_qmsg_def case_prod_beta split: option.split intro!: bind_option_cong)

end
