(* ===== verification/Diamctx_Inv.thy ===== *)
theory Diamctx_Inv
  imports Diam_Inv Process_Diamctx
begin

text \<open>
  Every message from DGC is processed to its end, and keeps the invariant, when the messages that
  wait in the queues of sessions are Diameter messages: those are the only ones the code queues.
\<close>

definition queued_diam :: "'w env \<Rightarrow> 'w dsm \<Rightarrow> bool" where
  "queued_diam E s \<longleftrightarrow> (\<forall>i p w b. dqh s i = Some p \<longrightarrow> parm_to_buf E (qms s i 1) w = Some b
     \<longrightarrow> bty s b = DIAMCTX_DIAM)"

lemma queued_diam_cong:
  assumes "queued_diam E s" "dqh s' = dqh s" "qms s' = qms s" "bty s' = bty s"
  shows "queued_diam E s'"
  using assms by (simp add: queued_diam_def)

section \<open>The reply\<close>

lemma skel_free_buffer: "pool_contract E live \<Longrightarrow> skel live (free_buffer E b s) = skel live s"
  by (simp add: free_buffer_def skel_service)

lemma skel_reply:
  assumes "pool_contract E live"
  shows "skel live (snd (diamctx_reply E m b q2 q3 s)) = skel live s"
  by (simp add: diamctx_reply_def Let_def case_prod_beta skel_service [OF assms]
      skel_free_buffer [OF assms])

lemma skel_report: "skel live (report_failure E b q rv s) = skel live s"
  by (simp add: report_failure_def)

lemma skel_reply_report:
  assumes "pool_contract E live"
  shows "skel live (snd (diamctx_reply E m b q2 q3 (report_failure E b q rv s))) = skel live s"
  by (simp add: skel_reply [OF assms] skel_report)

section \<open>The branches\<close>

lemma diamctx_diam_ok:
  assumes I: "hinv E live D {} s" and E: "pool_contract E live" and d: "bty s b = DIAMCTX_DIAM"
  shows "ok (\<lambda>s'. hinv E live D {} s' \<and> qgrow s s') (diamctx_diam E m f b s)"
proof -
  have "ok (\<lambda>s'. hinv E live D {} s' \<and> qgrow s s') (if rv = SUCCESS_QUEUED then Some s1
       else Some (snd (diamctx_reply E (m 0) b
              (status_code E (if rv = R_SUCCESS then SUCCESS else FAILURE)) (result_value E rv)
              (report_failure E b q rv s1))))"
    if "diam_post E live D s (rv, q, s1)" for rv q s1
    using that hinv_skel [OF skel_reply_report [OF E]] qgrow_trans [OF _ qgrow_skel [OF skel_reply_report [OF E]]]
    by (simp add: diam_post_def)
  thus ?thesis
    unfolding diamctx_diam_def ok_bind
    by (intro ok_mono [OF process_diam_ok [OF I E d]]) (simp only: split_paired_all prod.case)
qed

lemma diamctx_gdi_ok:
  assumes I: "hinv E live D {} s" and E: "pool_contract E live" and d: "bty s b \<noteq> DIAMCTX_DIAM"
  shows "ok (gdi_post E live D s) (Option.bind (diamctx_gdi E m b s) (\<lambda>(go, q, s). Some (R_SUCCESS, q, s)))"
proof -
  have "gdi_post E live D s (R_SUCCESS, q, snd (diamctx_reply E m' b q2 q3 (report_failure E b q rv s1)))"
    if "gdi_post E live D s (rv, q, s1)" for rv q s1 m' q2 q3
    using that hinv_skel [OF skel_reply_report [OF E]] kept_skel [OF skel_reply_report [OF E]]
    by (simp add: gdi_post_def kept_def)
  thus ?thesis
    unfolding diamctx_gdi_def ok_bind
    by (intro ok_mono [OF process_gdi_ok [OF I E d]])
       (simp add: split_paired_all case_prod_beta Let_def)
qed

lemma diamctx_other_ok:
  assumes I: "hinv E live D {} s" and E: "pool_contract E live" and d: "bty s b \<noteq> DIAMCTX_DIAM"
  shows "ok (hinv E live D {}) (diamctx_other E b s)"
proof -
  have f: "hinv E live D {} (free_buffer E (Some b) t) = hinv E live D {} t" for t
    by (rule hinv_skel [OF skel_free_buffer [OF E]])
  show ?thesis
    using process_gdi_abort_ok [OF I E, of b] process_gdi_dim_close_ok [OF I E, of b]
      process_us_remove_ok [OF I E, of b] d I
    by (auto simp: diamctx_other_def Let_def f bty_def split: diamctx_type.split intro: ok_mono)
qed

section \<open>The queue\<close>

lemma dgc_qmsg_done_ok:
  assumes I: "hinv E live D {} s" and E: "pool_contract E live" and i: "dqh s i = Some p"
  shows "ok (hinv E live D {}) (dgc_qmsg_done E p i s)"
proof -
  obtain s1 where s1: "dgc_qmsg_remove E (Some (Some i)) s = Some (Some None, s1)" "winv live D s1"
    "q_frame s s1" using dgc_qmsg_remove_ok [OF hinvD(1) [OF I] E i] by blast
  have "hinv E live D {} s1" using hinv_q_frame [OF I s1(3,2)] by simp
  thus ?thesis using s1(1) E by (simp add: dgc_qmsg_done_def)
qed

lemma queue_head:
  assumes "hinv E live D {} s" "tailq_first (dgc_queue (diam s p)) = Some i"
  shows "dqh s i = Some p"
proof -
  have "i \<in> set (que s p)" using assms(2) by (cases "que s p") (simp_all add: view_fold)
  thus ?thesis using invD(3) [OF hinvD(1) [OF assms(1)]] by (simp add: wf_queue_def)
qed

lemma process_diamctx_queued:
  assumes I: "hinv E live D {} s" and E: "pool_contract E live" and q: "queued_diam E s"
    and i: "dqh s i = Some p"
  shows "ok (\<lambda>s'. hinv E live D {} s' \<and> qgrow s s') (process_diamctx E (qmsg (dgc_qmsgs s i)) True s)"
proof (cases "parm_to_buf E (qms s i 1) (world s)")
  case None
  hence n: "parm_to_buf E (qmsg (dgc_qmsgs s i) 1) (world s) = None" by (simp add: qms_def)
  show ?thesis using I by (subst process_diamctx_rec) (simp add: n [simplified] qgrow_def)
next
  case (Some b)
  have b: "bty s b = DIAMCTX_DIAM" using q i Some unfolding queued_diam_def by blast
  have n: "parm_to_buf E (qmsg (dgc_qmsgs s i) 1) (world s) = Some b" using Some by (simp add: qms_def)
  show ?thesis
    using diamctx_diam_ok [OF I E b, of "qmsg (dgc_qmsgs s i)" True] b
    by (subst process_diamctx_rec) (simp add: n [simplified] bty_def)
qed

lemma process_dgc_qmsg_ok:
  assumes I: "hinv E live D {} s" and E: "pool_contract E live"
    and q: "u \<noteq> None \<Longrightarrow> queued_diam E s"
  shows "ok (hinv E live D {}) (process_dgc_qmsg E u s)"
proof (cases u)
  case None
  thus ?thesis using I by (simp add: process_dgc_qmsg_def)
next
  case (Some p)
  show ?thesis
  proof (cases "tailq_first (dgc_queue (diam s p))")
    case None
    thus ?thesis using I Some by (simp add: process_dgc_qmsg_def)
  next
    case i: (Some i)
    note d = queue_head [OF I i]
    have "ok (hinv E live D {}) (dgc_qmsg_done E p i s')" if "hinv E live D {} s' \<and> qgrow s s'" for s'
      using dgc_qmsg_done_ok [OF _ E, of D s' i p] that d by (simp add: qgrow_def)
    thus ?thesis
      using Some i ok_mono [OF process_diamctx_queued [OF I E q d]]
      by (simp add: process_dgc_qmsg_def)
  qed
qed

lemma process_diamctx_ok:
  assumes I: "hinv E live D {} s" and E: "pool_contract E live" and q: "queued_diam E s"
  shows "ok (hinv E live D {}) (process_diamctx E m f s)"
proof (cases "parm_to_buf E (m 1) (world s)")
  case None
  thus ?thesis using I by (subst process_diamctx_rec) simp
next
  case (Some b)
  have rest: "ok (hinv E live D {}) (if \<not> go then Some s' else process_dgc_qmsg E u s')"
    if "gdi_post E live D s (r, u, s')" for r go u s'
    using that process_dgc_qmsg_ok [OF _ E, of D s' u] queued_diam_cong [OF q, of s']
    by (simp add: gdi_post_def)
  have "ok (hinv E live D {}) (Option.bind (diamctx_gdi E m b s)
      (\<lambda>(go, q, s). if \<not> go then Some s else process_dgc_qmsg E q s))" if "bty s b \<noteq> DIAMCTX_DIAM"
    using diamctx_gdi_ok [OF I E that, of m] unfolding ok_bind
    by (rule ok_mono) (use rest in \<open>simp add: split_paired_all\<close>)
  thus ?thesis
    using Some diamctx_diam_ok [OF I E, of b m f] diamctx_other_ok [OF I E, of b]
    by (subst process_diamctx_rec) (auto simp: bty_def intro: ok_mono)
qed

end
