(* ===== verification/Dsm_Main.thy ===== *)
theory Dsm_Main
  imports Process_Diamctx Driver
begin

text \<open>
  The main program of \<open>dsm_main.c\<close>: start, the loop over received messages with the handlers of
  the control messages, and the end; and the handlers of the subscriber trap of \<open>dsm_ccdb.c\<close>. The
  global pointer \<open>ptimer\<close> is an argument that tells whether it is not NULL.
\<close>

section \<open>Services outside the repository\<close>

text \<open>
  \<open>fep_q_receive\<close> waits for a message; meanwhile other processes write to the shared buffers.
  \<open>raw_bytes\<close> is the memory of a buffer from its start, \<open>meas_bytes\<close> that of the counters.
  \<open>time_itoa\<close> is the date text of \<open>localtime\<close> and \<open>strftime\<close>, \<open>us_address\<close> the address of a
  session, \<open>user_session_sprint\<close> the printed text of a session.
\<close>

record 'w main_env =
  env_of :: "'w env"
  fep_dev_open :: "'w \<Rightarrow> int \<times> 'w"
  fep_dev_close :: "'w \<Rightarrow> 'w"
  fep_q_init :: "'w \<Rightarrow> int \<times> 'w"
  fep_timer_alloc :: "'w \<Rightarrow> bool \<times> 'w"
  fep_timer_start :: "'w \<Rightarrow> int \<times> 'w"
  fep_timer_stop :: "'w \<Rightarrow> int \<times> 'w"
  fep_timer_free :: "'w \<Rightarrow> int \<times> 'w"
  fep_q_receive :: "'w \<Rightarrow> (nat \<Rightarrow> diamctx) \<Rightarrow> status \<times> fep_qmsg_t \<times> (nat \<Rightarrow> diamctx) \<times> 'w"
  fep_default_qmsg_handler :: "fep_qmsg_t \<Rightarrow> 'w \<Rightarrow> status \<times> 'w"
  fep_get_qid :: "'w \<Rightarrow> ulong"
  print_fsm_on :: bool
  raw_bytes :: "diamctx \<Rightarrow> string"
  meas_bytes :: "meas \<Rightarrow> bytes"
  meas_size :: int
  time_itoa :: "ulong \<Rightarrow> string"
  us_address :: "nat \<Rightarrow> ulong"
  user_session_sprint :: "user_session \<Rightarrow> string"
  SUB_ID_LEN_MIN :: int
  SUB_ID_LEN_MAX :: int
  MSG_DSM_TIMER :: ulong
  MSG_DSM_UPDATE_TG :: ulong
  MSG_DSM_UPDATE_CP :: ulong
  MSG_FEM_CONFIG_UPDATE :: ulong
  MSG_FEM_CONFIG_OK :: ulong
  MSG_FEM_GET_COUNTERS :: ulong
  MSG_FEM_RET_COUNTERS :: ulong
  MSG_FEM_KEY_SET :: ulong
  MSG_FEM_KEY_CLEAR :: ulong
  MSG_FEM_KEY_DISPLAY_REQ :: ulong
  MSG_FEM_KEY_DISPLAY_ACK :: ulong
  FEP_Q_DSM :: ulong
  OMP_ZERO :: ulong

section \<open>Control messages\<close>

definition process_config_update :: "'w main_env \<Rightarrow> 'w dsm \<Rightarrow> 'w dsm" where
  "process_config_update M s =
    (let (rv, s) = call (tell_fem (env_of M) (MSG_FEM_CONFIG_OK M) (fep_get_qid M (world s)) 0 0) s
     in if rv \<noteq> SUCCESS
        then cnt ''ds_main_process_config_update_fail'' (cnt ''ds_api_tell_tdg_fail'' s)
        else cnt ''ds_main_process_config_update_succ'' (cnt ''ds_api_tell_tdg_succ'' s))"

text \<open>
  \<open>flag_incremented\<close> is passed on: a failure is counted once, and a success only when nothing
  failed before. A failed conversion does not end the function; the value it returned is sent.
\<close>

definition cnt_once :: "bool \<Rightarrow> string \<Rightarrow> 'w dsm \<Rightarrow> 'w dsm" where
  "cnt_once flag_incremented c s = (if flag_incremented then s else cnt c s)"

definition send_report ::
  "'w env \<Rightarrow> nat option \<Rightarrow> (int \<Rightarrow> 'w \<Rightarrow> status \<times> 'w) \<Rightarrow> string \<Rightarrow> string \<Rightarrow> bool \<Rightarrow> 'w dsm \<Rightarrow> 'w dsm" where
  "send_report E pbuf send fail succ flag_incremented s =
    (let (parm, s) = call (buf_to_parm E pbuf) s;
         (flag_incremented, s) = (if parm < 0
           then (True, cnt_once flag_incremented fail
                   (free_buffer E pbuf (cnt ''ds_api_buf_to_parm_fail'' s)))
           else (flag_incremented, s));
         (rv, s) = call (send parm) s
     in if rv \<noteq> SUCCESS
        then cnt_once flag_incremented fail (free_buffer E
               (parm_to_buf E (of_int parm) (world s)) (cnt ''ds_api_tell_tdg_fail'' s))
        else cnt_once flag_incremented succ (cnt ''ds_api_tell_tdg_succ'' s))"

text \<open>The buffer of a report: its header cleared, its data the given bytes.\<close>

definition report_buffer ::
  "'w env \<Rightarrow> bytes \<Rightarrow> int \<Rightarrow> string \<Rightarrow> 'w dsm \<Rightarrow> nat option \<times> bool \<times> 'w dsm" where
  "report_buffer E data n fail s =
    (let (pbuf, s) = call (fep_alloc_buffer E) s
     in case pbuf of
       None \<Rightarrow> (None, True, cnt fail (cnt ''ds_api_fep_alloc_buffer_fail'' s))
     | Some b \<Rightarrow> (Some b, False,
         upd_buf b (\<lambda>c. (fresh_context (DIAMCTX_OTHER 0) c)\<lparr>buf_off := 0, buf_len := n,
             buf_data := memcpy (buf_data c) data (nat n)\<rparr>)
           (cnt ''ds_api_fep_alloc_buffer_succ'' s)))"

text \<open>
  The counters that are sent are those at the time of the copy, the increments that follow are
  not in the report; with \<open>OMP_ZERO\<close> they are cleared with the rest.
\<close>

definition process_get_counters :: "'w main_env \<Rightarrow> fep_qmsg_t \<Rightarrow> 'w dsm \<Rightarrow> 'w dsm" where
  "process_get_counters M m s =
    (let E = env_of M;
         (pbuf, s0) = call (fep_alloc_buffer E) s;
         m0 = meas (cnt ''ds_api_fep_alloc_buffer_succ'' s0);
         (pbuf, flag_incremented, s) = report_buffer E (meas_bytes M m0) (meas_size M)
           ''ds_main_process_get_counters_fail'' s;
         s = send_report E pbuf
           (\<lambda>parm. tell_fem E (MSG_FEM_RET_COUNTERS M) (m 1) (FEP_Q_DSM M) (of_int parm))
           ''ds_main_process_get_counters_fail'' ''ds_main_process_get_counters_succ''
           flag_incremented s
     in if m 3 = OMP_ZERO M then s\<lparr>meas := zero_meas\<rparr> else s)"

definition process_update_tg :: "'w main_env \<Rightarrow> fep_qmsg_t \<Rightarrow> 'w dsm \<Rightarrow> 'w dsm" where
  "process_update_tg M m s =
    (if m 1 < TG_MIN (env_of M)
     then cnt ''ds_main_process_update_tg_fail'' (cnt ''ds_main_process_update_tg_tg_invalid'' s)
     else cnt ''ds_main_process_update_tg_succ'' (s\<lparr>ccdb_tg_expiry := sint (m 1)\<rparr>))"

section \<open>The subscriber trap\<close>

definition trap_data0 :: trap_data where
  "trap_data0 = \<lparr>trap_time_start = 0, trap_sub_id = [], trap_us = None\<rparr>"

definition key_length :: "'w main_env \<Rightarrow> int \<Rightarrow> int" where
  "key_length M n = (if n < SUB_ID_LEN_MIN M then SUB_ID_LEN_MIN M
     else if n > SUB_ID_LEN_MAX M then SUB_ID_LEN_MAX M else n)"

text \<open>
  \<open>strncpy\<close> into a cleared array: the bytes up to the first NUL, at most \<open>n\<close>. The source is the
  start of the buffer, not its data.
\<close>

definition strncpy0 :: "string \<Rightarrow> int \<Rightarrow> string" where
  "strncpy0 a n = takeWhile (\<lambda>c. c \<noteq> CHR 0x00) (take (nat n) a)"

definition process_key_set :: "'w main_env \<Rightarrow> fep_qmsg_t \<Rightarrow> 'w dsm \<Rightarrow> 'w dsm" where
  "process_key_set M m s = (case parm_to_buf (env_of M) (m 1) (world s) of
     None \<Rightarrow> cnt ''ds_ccdb_process_key_set_fail'' (cnt ''ds_api_parm_to_buf_fail'' s)
   | Some b \<Rightarrow>
       let n = key_length M (buf_len (bufs s b));
           (t, s) = call (time_now (env_of M)) s;
           s = s\<lparr>ccdb_trap := \<lparr>trap_time_start = t,
                 trap_sub_id = strncpy0 (raw_bytes M (bufs s b)) n, trap_us = None\<rparr>\<rparr>
       in cnt ''ds_ccdb_process_key_set_succ'' (free_buffer (env_of M) (Some b) s))"

definition process_key_clear :: "'w dsm \<Rightarrow> 'w dsm" where
  "process_key_clear s = cnt ''ds_ccdb_process_key_clear_succ'' (s\<lparr>ccdb_trap := trap_data0\<rparr>)"

definition string_bytes :: "string \<Rightarrow> bytes" where
  "string_bytes a i = (if i < length a then of_nat (of_char (a ! i)) else 0)"

text \<open>\<open>%lu\<close> and \<open>%x\<close> of \<open>sprintf\<close>, and the text about the trap.\<close>

fun digits :: "nat \<Rightarrow> nat \<Rightarrow> string" where
  "digits base n = (if base < 2 \<or> n < base then [''0123456789abcdef'' ! n]
     else digits base (n div base) @ [''0123456789abcdef'' ! (n mod base)])"

declare digits.simps [simp del]

definition newline :: char where
  "newline = CHR 0x0A"

definition trap_text :: "'w main_env \<Rightarrow> 'w dsm \<Rightarrow> string" where
  "trap_text M s =
    (let t = ccdb_trap s;
         b = ''Time trap created          '' @ digits 10 (unat (trap_time_start t)) @ '' (''
             @ time_itoa M (trap_time_start t) @ '')'' @ [newline];
         b = b @ ''Key (Subscription-Id-Data) '' @ trap_sub_id t @ [newline];
         b = b @ ''User session               0x''
             @ digits 16 (case trap_us t of None \<Rightarrow> 0 | Some p \<Rightarrow> unat (us_address M p)) @ [newline]
     in case trap_us t of None \<Rightarrow> b
        | Some p \<Rightarrow> b @ [newline] @ user_session_sprint M (sessions s p))"

definition process_key_display_req :: "'w main_env \<Rightarrow> fep_qmsg_t \<Rightarrow> 'w dsm \<Rightarrow> 'w dsm" where
  "process_key_display_req M m s =
    (let E = env_of M;
         buffer = trap_text M s;
         (pbuf, flag_incremented, s) = report_buffer E (string_bytes buffer) (int (length buffer) + 1)
           ''ds_ccdb_process_key_display_req_fail'' s
     in send_report E pbuf
          (\<lambda>parm. tell_fem E (MSG_FEM_KEY_DISPLAY_ACK M) (m 1) (of_int parm) (of_int (UNINITIALIZED E)))
          ''ds_ccdb_process_key_display_req_fail'' ''ds_ccdb_process_key_display_req_succ''
          flag_incremented s)"

section \<open>The main program\<close>

text \<open>The \<open>switch\<close> on the first word of the message.\<close>

definition dispatch :: "'w main_env \<Rightarrow> fep_qmsg_t \<Rightarrow> 'w dsm \<Rightarrow> 'w dsm option" where
  "dispatch M m s =
    (let E = env_of M in
     if m 0 = MSG_DSM_TIMER M then process_timer E (dsm_handler E) s
     else if m 0 = MSG_FEM_CONFIG_UPDATE M then Some (process_config_update M s)
     else if m 0 = MSG_FEM_GET_COUNTERS M then Some (process_get_counters M m s)
     else if m 0 = MSG_FEM_KEY_SET M then Some (process_key_set M m s)
     else if m 0 = MSG_FEM_KEY_CLEAR M then Some (process_key_clear s)
     else if m 0 = MSG_FEM_KEY_DISPLAY_REQ M then Some (process_key_display_req M m s)
     else if m 0 = MSG_DSM_UPDATE_TG M then Some (process_update_tg M m s)
     else if m 0 = MSG_DSM_UPDATE_CP M then Some (process_update_cp E m s)
     else if m 0 = MSG_DIAMCTX E then process_diamctx E m False s
     else let (rv, s) = call (fep_default_qmsg_handler M m) s
          in Some (if rv \<noteq> SUCCESS then cnt ''ds_qmsg_invalid_rcvd'' s else s))"

definition finalize :: "'w main_env \<Rightarrow> bool \<Rightarrow> 'w dsm \<Rightarrow> 'w dsm option" where
  "finalize M ptimer s =
    (let s = (if ptimer then snd (call (fep_timer_free M) (snd (call (fep_timer_stop M) s))) else s);
         s = finalize_tdb (env_of M) s
     in Option.bind (finalize_ccdb (env_of M) s) (\<lambda>s. Some (upd_world (fep_dev_close M) s)))"

text \<open>The process runs, or it has ended with an exit status.\<close>

datatype 'w process = Running "'w dsm" | Exited int "'w dsm"

definition finalize_exit :: "'w main_env \<Rightarrow> bool \<Rightarrow> int \<Rightarrow> 'w dsm \<Rightarrow> 'w process option" where
  "finalize_exit M ptimer st s = Option.bind (finalize M ptimer s) (\<lambda>s. Some (Exited st s))"

definition initialize :: "'w main_env \<Rightarrow> 'w dsm \<Rightarrow> 'w process option" where
  "initialize M s =
    (let (rv, s) = call (fep_dev_open M) s
     in if rv < 0 then Some (Exited 1 s)
     else let (rv, s) = call (fep_q_init M) s
     in if rv < 0 then Some (Exited 1 (upd_world (fep_dev_close M) s))
     else let s = s\<lparr>shutdown := False, meas := snd (print_fsm (print_fsm_on M) zero_meas)\<rparr>;
              s = initialize_ccdb (env_of M) (initialize_tdb (env_of M) s);
              (got, s) = call (fep_timer_alloc M) s
     in if \<not> got then finalize_exit M False 1 s
     else let (rv, s) = call (fep_timer_start M) s
     in if rv < 0 then finalize_exit M True 1 s else Some (Running s))"

text \<open>One round of the loop, and a number of them.\<close>

definition main_step :: "'w main_env \<Rightarrow> 'w dsm \<Rightarrow> 'w process option" where
  "main_step M s =
    (if shutdown s then finalize_exit M True 0 s
     else let (rv, m, bs, w) = fep_q_receive M (world s) (bufs s);
              s = s\<lparr>world := w, bufs := bs\<rparr>
     in if rv \<noteq> SUCCESS then Some (Running (cnt ''ds_api_fep_q_receive_fail'' s))
     else Option.bind (dispatch M m s) (\<lambda>s. Some (Running s)))"

fun main_loop :: "'w main_env \<Rightarrow> nat \<Rightarrow> 'w process \<Rightarrow> 'w process option" where
  "main_loop M 0 P = Some P"
| "main_loop M (Suc n) (Exited st s) = Some (Exited st s)"
| "main_loop M (Suc n) (Running s) = Option.bind (main_step M s) (main_loop M n)"

definition main_prog :: "'w main_env \<Rightarrow> nat \<Rightarrow> 'w dsm \<Rightarrow> 'w process option" where
  "main_prog M n s = Option.bind (initialize M s) (main_loop M n)"

end
