(* ===== verification/Main_Inv.thy ===== *)
theory Main_Inv
  imports Diamctx_Inv Dsm_Main
begin

text \<open>
  The main program: start-up establishes the invariant, every message the loop receives keeps it,
  and the shut-down, which frees the timers before the sessions that hold their identifiers, still
  empties every table. Nothing in any of it follows a dangling pointer.
\<close>

section \<open>The services of the main program\<close>

text \<open>
  What the main program relies on: the pools' contract, a newly created pool has no element in use,
  and no other service touches the pools.
\<close>

definition main_contract :: "'w main_env \<Rightarrow> (pool \<Rightarrow> 'w \<Rightarrow> nat set) \<Rightarrow> bool" where
  "main_contract M live \<longleftrightarrow> pool_contract (env_of M) live
     \<and> (\<forall>P P' w. live P' (fep_create_private (env_of M) P w) = (if P' = P then {} else live P' w))
     \<and> (\<forall>P w. live P (snd (fep_dev_open M w)) = live P w)
     \<and> (\<forall>P w. live P (snd (fep_q_init M w)) = live P w)
     \<and> (\<forall>P w. live P (snd (fep_timer_alloc M w)) = live P w)
     \<and> (\<forall>P w. live P (snd (fep_timer_start M w)) = live P w)
     \<and> (\<forall>P w. live P (snd (fep_timer_stop M w)) = live P w)
     \<and> (\<forall>P w. live P (snd (fep_timer_free M w)) = live P w)
     \<and> (\<forall>P w bs. live P (snd (snd (snd (fep_q_receive M w bs)))) = live P w)
     \<and> (\<forall>P m w. live P (snd (fep_default_qmsg_handler M m w)) = live P w)"

lemma main_contractD:
  assumes "main_contract M live"
  shows "pool_contract (env_of M) live"
    "live P' (fep_create_private (env_of M) P w) = (if P' = P then {} else live P' w)"
    "live P (snd (fep_dev_open M w)) = live P w" "live P (snd (fep_q_init M w)) = live P w"
    "live P (snd (fep_timer_alloc M w)) = live P w" "live P (snd (fep_timer_start M w)) = live P w"
    "live P (snd (fep_timer_stop M w)) = live P w" "live P (snd (fep_timer_free M w)) = live P w"
    "live P (snd (snd (snd (fep_q_receive M w bs)))) = live P w"
    "live P (snd (fep_default_qmsg_handler M m w)) = live P w"
  using assms unfolding main_contract_def by simp_all

lemma core_call: "(\<And>P w. live P (snd (k w)) = live P w) \<Longrightarrow> core live (snd (call k s)) = core live s"
  by (simp add: core_def)

lemma core_frame [simp]:
  "core live (s\<lparr>meas := m\<rparr>) = core live s" "core live (s\<lparr>ccdb_trap := t\<rparr>) = core live s"
  "core live (s\<lparr>ccdb_tg_expiry := e\<rparr>) = core live s" "core live (s\<lparr>shutdown := b\<rparr>) = core live s"
  by (simp_all add: core_def)

section \<open>The control messages\<close>

lemma core_tell_fem:
  assumes "pool_contract E live"
  shows "core live (snd (call (tell_fem E a b c d) s)) = core live s"
    "core live (snd (call (time_now E) s)) = core live s"
  by (rule core_call, simp add: pool_contractD [OF assms])+

lemma core_config_update:
  assumes "main_contract M live"
  shows "core live (process_config_update M s) = core live s"
  using core_tell_fem [OF main_contractD(1) [OF assms]]
  by (simp add: process_config_update_def Let_def case_prod_beta)

lemma core_send_report:
  assumes E: "pool_contract E live" and k: "\<And>p P w. live P (snd (k p w)) = live P w"
  shows "core live (send_report E b k f g fl s) = core live s"
proof -
  have "core live (snd (call (k p) t)) = core live t" for p t by (rule core_call) (rule k)
  thus ?thesis
    by (simp add: send_report_def cnt_once_def Let_def case_prod_beta E)
qed

lemma core_report_buffer:
  assumes "pool_contract E live"
  shows "core live (snd (snd (report_buffer E d n f s))) = core live s"
  by (simp add: report_buffer_def Let_def case_prod_beta assms split: option.split)

lemma core_get_counters:
  assumes "main_contract M live"
  shows "core live (process_get_counters M m s) = core live s"
proof -
  note E = main_contractD(1) [OF assms]
  show ?thesis
    by (simp add: process_get_counters_def Let_def case_prod_beta core_send_report [OF E]
        core_report_buffer [OF E] pool_contractD [OF E])
qed

lemma core_key_set:
  assumes "main_contract M live"
  shows "core live (process_key_set M m s) = core live s"
proof -
  note E = main_contractD(1) [OF assms]
  show ?thesis
    by (simp add: process_key_set_def Let_def case_prod_beta core_tell_fem [OF E] E split: option.split)
qed

lemma core_key_display_req:
  assumes "main_contract M live"
  shows "core live (process_key_display_req M m s) = core live s"
proof -
  note E = main_contractD(1) [OF assms]
  show ?thesis
    by (simp add: process_key_display_req_def Let_def case_prod_beta core_send_report [OF E]
        core_report_buffer [OF E] pool_contractD [OF E])
qed

lemma core_simple [simp]:
  "core live (process_key_clear s) = core live s" "core live (process_update_tg M m s) = core live s"
  by (simp_all add: process_key_clear_def process_update_tg_def)

lemmas core_control = core_config_update core_get_counters core_key_set core_key_display_req

lemma dispatch_ok:
  assumes I: "hinv (env_of M) live {} {} s" and M: "main_contract M live"
    and q: "queued_diam (env_of M) s"
  shows "ok (hinv (env_of M) live {} {}) (dispatch M m s)"
proof -
  note E = main_contractD(1) [OF M]
  have c: "hinv (env_of M) live {} {} s'" if "core live s' = core live s" for s'
    using hinv_core [OF that] I by simp
  have d: "core live (snd (call (fep_default_qmsg_handler M m) s)) = core live s"
    by (rule core_call) (simp add: main_contractD [OF M])
  have p: "ok (hinv (env_of M) live {} {}) (process_timer (env_of M) (dsm_handler (env_of M)) s)"
    using process_timer_ok [OF I E] by (rule ok_mono) simp
  show ?thesis
    using process_diamctx_ok [OF I E q, of m False] p process_update_cp_ok [OF I E, of m]
    by (auto simp: dispatch_def Let_def case_prod_beta core_control [OF M] d intro: c)
qed

section \<open>The shut-down\<close>

text \<open>
  After \<open>finalize_tdb\<close> sessions hold identifiers of callouts that are no longer set, so the
  invariant of the running process does not hold; what is left of it is enough to end.
\<close>

definition stopped :: "'w dsm \<Rightarrow> bool" where
  "stopped s \<longleftrightarrow> wf_us s \<and> wf_queue s \<and> coh s = (\<lambda>_. None)"

definition table_frame :: "'w dsm \<Rightarrow> 'w dsm \<Rightarrow> bool" where
  "table_frame s s' \<longleftrightarrow> uh s' = uh s \<and> uid s' = uid s \<and> que s' = que s \<and> dqh s' = dqh s
     \<and> ccdb_lists s' = ccdb_lists s \<and> ccdb_time s' = ccdb_time s"

lemma table_frame_trans: "table_frame s s' \<Longrightarrow> table_frame s' s'' \<Longrightarrow> table_frame s s''"
  by (simp add: table_frame_def)

lemma table_frame_wf:
  assumes "table_frame s s'"
  shows "wf_us s' = wf_us s" "wf_queue s' = wf_queue s"
  using assms by (simp_all add: table_frame_def wf_us_def wf_queue_def)

lemma table_frame_core: "core live s' = core live s \<Longrightarrow> table_frame s s'"
  using core_views [of live s' s] by (simp add: table_frame_def)

lemma finalize_slot_frame: "table_frame s (finalize_slot E i s)"
proof (induction E i s rule: finalize_slot.induct)
  case (1 E i s)
  have f: "table_frame s (callout_free E q (unlink_first i s))" for q
    by (simp add: table_frame_def view_defs callout_free_def callout_init_def unlink_first_def fun_eq_iff)
  show ?case
    using 1 table_frame_trans [OF f]
    by (subst finalize_slot.simps) (auto simp: table_frame_def split: option.split)
qed

lemma finalize_tdb_stopped:
  fixes s :: "'a dsm"
  assumes I: "winv live {} s"
  shows "stopped (finalize_tdb E s)"
proof -
  note J = invD [OF I]
  have "table_frame s (fold (finalize_slot E) xs s)" for xs and s :: "'a dsm"
  proof (induction xs arbitrary: s)
    case (Cons x xs)
    show ?case using table_frame_trans [OF finalize_slot_frame Cons.IH] by simp
  qed (simp add: table_frame_def)
  hence f: "table_frame s (finalize_tdb E s)" unfolding finalize_tdb_def .
  have "coh (finalize_tdb E s) q = None" for q
    using finalize_tdb_empty [OF J(1), of E] timers_eq [OF finalize_tdb_empty(1) [OF J(1)], of E q]
    by (auto simp: coh_def split: option.splits)
  thus ?thesis using table_frame_wf [OF f] J(2,3) by (simp add: stopped_def fun_eq_iff)
qed

lemma callout_unset_stopped:
  assumes "coh s = (\<lambda>_. None)"
  shows "\<exists>c. callout_unset E (Some i) s = Some (Some ID_UNDEF, cnt ''ds_tdb_co_unset_fail'' (cnt c s))"
  using assms by (auto simp: callout_unset_def view_fold Let_def)

lemma unset_stopped:
  assumes I: "stopped s"
  shows "\<exists>s'. unset_tcc E p s = Some s' \<and> stopped s' \<and> table_frame s s'"
    "\<exists>s'. unset_tg E p s = Some s' \<and> stopped s' \<and> table_frame s s'"
proof -
  have c: "coh s = (\<lambda>_. None)" using I by (simp add: stopped_def)
  have k: "stopped s'" if "table_frame s s'" "coh s' = coh s" for s'
    using I that table_frame_wf [OF that(1)] by (simp add: stopped_def)
  show "\<exists>s'. unset_tcc E p s = Some s' \<and> stopped s' \<and> table_frame s s'"
    using callout_unset_stopped [OF c, of E "tcc_id (cc s p)"]
    by (auto simp: unset_tcc_def set_tcc_id_def [symmetric] table_frame_def set_tcc_id_views intro!: k)
  show "\<exists>s'. unset_tg E p s = Some s' \<and> stopped s' \<and> table_frame s s'"
    using callout_unset_stopped [OF c, of E "tg_id (cc s p)"]
    by (auto simp: unset_tg_def set_tg_id_def [symmetric] table_frame_def set_tg_id_views intro!: k)
qed

lemma drain_queue_stopped:
  fixes s :: "'a dsm"
  assumes I: "stopped s" and E: "pool_contract E live"
  shows "\<exists>s'. drain_queue E p s = Some s' \<and> stopped s' \<and> q_frame s s' \<and> que s' = (que s)(p := [])"
proof (rule drain_queue_gen [of stopped, OF I])
  fix s :: "'a dsm" and i assume I: "stopped s" and i: "dqh s i = Some p"
  note f = q_frame_skel [OF skel_discard [OF E, of i s]] and v = skel_views [OF skel_discard [OF E, of i s]]
  have "wf_queue (discard_qmsg E i s)" using I by (simp add: stopped_def wf_queue_def v)
  from dgc_qmsg_remove_wf [OF this, of i p E] obtain s' where s':
    "dgc_qmsg_remove E (Some (Some i)) (discard_qmsg E i s) = Some (Some None, s')" "wf_queue s'"
    "q_frame (discard_qmsg E i s) s'" "que s' = (que s)(p := remove1 i (que s p))"
    using i v by auto
  have "q_frame s s'" using q_frame_trans [OF f s'(3)] .
  moreover have "stopped s'"
    using I s'(2) calculation co_views(1) [of s' s] wf_us_views [of s' s]
    by (simp add: stopped_def q_frame_def)
  ultimately show "\<exists>s'. dgc_qmsg_remove E (Some (Some i)) (discard_qmsg E i s) = Some (Some None, s')
    \<and> stopped s' \<and> q_frame s s' \<and> que s' = (que s)(p := remove1 i (que s p))" using s' by blast
qed (simp add: stopped_def)

lemma remove_stopped:
  assumes I: "stopped s" and E: "pool_contract E live" and p: "uh s p = Some l"
  shows "\<exists>s'. user_session_remove E (Some (Some p)) s = Some (None, s') \<and> stopped s'
    \<and> ccdb_time s' = remove1 p (ccdb_time s)"
proof -
  have h: "us_head (sessions s p) = Some l" using p by (simp add: uh_def)
  obtain s1 where s1: "unset_tcc E p s = Some s1" "stopped s1" "table_frame s s1"
    using unset_stopped(1) [OF I] by blast
  obtain s2 where s2: "unset_tg E p s1 = Some s2" "stopped s2" "table_frame s1 s2"
    using unset_stopped(2) [OF s1(2)] by blast
  obtain s3 where s3: "drain_queue E p s2 = Some s3" "stopped s3" "q_frame s2 s3"
    "que s3 = (que s2)(p := [])" using drain_queue_stopped [OF s2(2) E] by blast
  note F = table_frame_trans [OF s1(3) s2(3)] s3(3)
  have u3: "uh s3 p = Some l" using F p by (simp add: table_frame_def q_frame_def)
  have w3: "wf_us s3" "wf_queue s3" "coh s3 = (\<lambda>_. None)" using s3(2) by (simp_all add: stopped_def)
  have "user_session_remove E (Some (Some p)) s = Some (None, freed E p l s3)"
    using h s1(1) s2(1) s3(1) unlink_us_ok [OF w3(1) u3]
    by (simp add: user_session_remove_def freed_def)
  moreover have "wf_queue (freed E p l s3)" using w3(2) s3(4) by (auto simp: wf_queue_def freed_views split: if_splits)
  moreover have "ccdb_time (freed E p l s3) = remove1 p (ccdb_time s)"
    using F by (simp add: freed_views table_frame_def q_frame_def)
  ultimately show ?thesis
    using wf_us_freed [OF w3(1) u3] w3(3) by (simp add: stopped_def freed_views)
qed

text \<open>Nothing is in use any more.\<close>

definition emptied :: "'w dsm \<Rightarrow> bool" where
  "emptied s \<longleftrightarrow> (\<forall>q. coh s q = None) \<and> (\<forall>p. uh s p = None) \<and> (\<forall>i. dqh s i = None)
     \<and> ccdb_time s = [] \<and> (\<forall>l. ccdb_lists s l = [])"

lemma stopped_emptied:
  assumes "stopped s" "ccdb_time s = []"
  shows "emptied s"
proof -
  have u: "uh s p = None" for p using assms by (auto simp: stopped_def wf_us_def)
  hence q: "que s p = []" for p using assms by (auto simp: stopped_def wf_queue_def)
  have "ccdb_lists s l = []" for l
    using assms u by (auto simp: stopped_def wf_us_def intro!: equals0I simp flip: set_empty)
  moreover have "dqh s i = None" for i
    using assms q by (cases "dqh s i") (auto simp: stopped_def wf_queue_def)
  ultimately show ?thesis using assms u by (simp add: emptied_def stopped_def)
qed

lemma finalize_ccdb_stopped:
  assumes "stopped s" and E: "pool_contract E live"
  shows "ok emptied (finalize_ccdb E s)"
  using assms(1)
proof (induction "length (ccdb_time s)" arbitrary: s)
  case 0
  thus ?case using stopped_emptied [of s] by (subst finalize_ccdb.simps) simp
next
  case (Suc n)
  then obtain p ps where t: "ccdb_time s = p # ps" by (cases "ccdb_time s") auto
  hence "uh s p \<noteq> None" using Suc.prems by (auto simp: stopped_def wf_us_def)
  then obtain l where "uh s p = Some l" by blast
  from remove_stopped [OF Suc.prems E this] obtain s' where
    s': "user_session_remove E (Some (Some p)) s = Some (None, s')" "stopped s'"
    "ccdb_time s' = remove1 p (ccdb_time s)" by blast
  have "n = length (ccdb_time s')" using Suc.hyps(2) t s'(3) by simp
  from Suc.hyps(1) [OF this s'(2)] show ?case
    using t s'(1) by (subst finalize_ccdb.simps) simp
qed

lemma finalize_ok:
  fixes s :: "'a dsm"
  assumes I: "winv live {} s" and M: "main_contract M live"
  shows "ok emptied (finalize M t s)"
proof -
  note E = main_contractD(1) [OF M]
  have k: "winv live {} s'" if "skel live s' = skel live s" for s' using inv_skel [OF that] I by simp
  have "skel live (snd (call (fep_timer_free M) (snd (call (fep_timer_stop M) s)))) = skel live s"
    by (simp add: skel_call main_contractD [OF M])
  hence "ok emptied (finalize_ccdb (env_of M) (finalize_tdb (env_of M)
      (if t then snd (call (fep_timer_free M) (snd (call (fep_timer_stop M) s))) else s)))"
    using finalize_ccdb_stopped [OF finalize_tdb_stopped [OF k] E] k [of s] by simp
  moreover have "emptied (upd_world f s') = emptied s'" for f and s' :: "'a dsm"
    by (simp add: emptied_def view_defs upd_world_def)
  ultimately show ?thesis by (simp add: finalize_def Let_def del: if_split)
qed

section \<open>The start\<close>

text \<open>
  The arrays of the program end at \<open>USER_SESSION_SIZE\<close>; the model's are total, and what lies
  beyond their end is not in use.
\<close>

definition blank_beyond :: "'w dsm \<Rightarrow> bool" where
  "blank_beyond s \<longleftrightarrow> (\<forall>i \<ge> USER_SESSION_SIZE. coh s i = None \<and> dqh s i = None \<and> uh s i = None
     \<and> que s i = [] \<and> tcc s i = ID_UNDEF \<and> tg s i = ID_UNDEF
     \<and> aid s i = APP_SM_UNDEF \<and> ast s i = STATE_CCAS_UNDEF \<and> snd (sid s i) = 0)"

text \<open>What \<open>initialize_ccdb\<close> does to one element, and to all.\<close>

lemma dq_slot_inits:
  "dgc_qmsgs (fold ccdb_qmsg_slot_init xs s) i = (if i \<in> set xs
     then (dgc_qmsgs s i)\<lparr>dq_id := INDEX_TO_ID i, dq_head := None, qmsg := (\<lambda>_. 0)\<rparr>
     else dgc_qmsgs s i)"
  "sessions (fold ccdb_qmsg_slot_init xs s) = sessions s"
  "callouts (fold ccdb_qmsg_slot_init xs s) = callouts s"
  "callwheel (fold ccdb_qmsg_slot_init xs s) = callwheel s"
  "wheel_index (fold ccdb_qmsg_slot_init xs s) = wheel_index s"
  "ccdb_lists (fold ccdb_qmsg_slot_init xs s) = ccdb_lists s"
  "ccdb_time (fold ccdb_qmsg_slot_init xs s) = ccdb_time s"
  "world (fold ccdb_qmsg_slot_init xs s) = world s"
  by (induction xs arbitrary: s) (auto simp: ccdb_qmsg_slot_init_def dgc_qmsg_init_def)

lemma us_slot_inits:
  "sessions (fold (ccdb_us_slot_init E) xs s) p = (if p \<in> set xs
     then us_blank E ((sessions s p)\<lparr>us_id := INDEX_TO_ID p\<rparr>) else sessions s p)"
  "dgc_qmsgs (fold (ccdb_us_slot_init E) xs s) = dgc_qmsgs s"
  "callouts (fold (ccdb_us_slot_init E) xs s) = callouts s"
  "callwheel (fold (ccdb_us_slot_init E) xs s) = callwheel s"
  "wheel_index (fold (ccdb_us_slot_init E) xs s) = wheel_index s"
  "ccdb_lists (fold (ccdb_us_slot_init E) xs s) l = (if l \<in> set xs then [] else ccdb_lists s l)"
  "ccdb_time (fold (ccdb_us_slot_init E) xs s) = ccdb_time s"
  "world (fold (ccdb_us_slot_init E) xs s) = world s"
  by (induction xs arbitrary: s)
     (auto simp: ccdb_us_slot_init_def user_session_init_def us_blank_def Let_def)

lemma co_slot_inits:
  "sessions (fold callout_slot_init xs s) = sessions s"
  "dgc_qmsgs (fold callout_slot_init xs s) = dgc_qmsgs s"
  "world (fold callout_slot_init xs s) = world s"
  by (induction xs arbitrary: s) (auto simp: callout_slot_init_def callout_init_def)

lemma wheel_slot_inits:
  "sessions (fold callwheel_slot_init xs s) = sessions s"
  "dgc_qmsgs (fold callwheel_slot_init xs s) = dgc_qmsgs s"
  "world (fold callwheel_slot_init xs s) = world s"
  by (induction xs arbitrary: s) (auto simp: callwheel_slot_init_def)

lemma initialize_tdb_frame:
  "sessions (initialize_tdb E s) = sessions s" "dgc_qmsgs (initialize_tdb E s) = dgc_qmsgs s"
  "world (initialize_tdb E s) = fep_create_private E Callout_pool (world s)"
  by (simp_all add: initialize_tdb_def Let_def co_slot_inits wheel_slot_inits upd_world_def
      del: upt_conv_Cons)

text \<open>The state after the two initialisations: nothing is in use.\<close>

lemma initialize_ccdb_state:
  fixes s :: "'w dsm" and E :: "'w env"
  defines "s' \<equiv> initialize_ccdb E (initialize_tdb E s)"
  shows "callouts s' = callouts (initialize_tdb E s)" "callwheel s' = (\<lambda>_. [])" "wheel_index s' = 0"
    "ccdb_lists s' = (\<lambda>_. [])" "ccdb_time s' = []"
    "world s' = fep_create_private E User_session_pool (fep_create_private E Dgc_qmsg_pool
       (fep_create_private E Callout_pool (world s)))"
    "sessions s' p = (if p < USER_SESSION_SIZE
       then us_blank E ((sessions s p)\<lparr>us_id := INDEX_TO_ID p\<rparr>) else sessions s p)"
    "dgc_qmsgs s' i = (if i < USER_SESSION_SIZE
       then (dgc_qmsgs s i)\<lparr>dq_id := INDEX_TO_ID i, dq_head := None, qmsg := (\<lambda>_. 0)\<rparr>
       else dgc_qmsgs s i)"
  unfolding s'_def initialize_ccdb_def Let_def
  by (simp_all add: us_slot_inits dq_slot_inits initialize_tdb_frame initialize_tdb_callouts fun_eq_iff
      upd_world_def del: upt_conv_Cons)

lemma initialize_views:
  fixes s :: "'w dsm" and E :: "'w env"
  assumes "blank_beyond s"
  defines "s' \<equiv> initialize_ccdb E (initialize_tdb E s)"
  shows "coh s' q = None" "dqh s' i = None" "uh s' p = None" "que s' p = []" "tcc s' p = ID_UNDEF"
    "tg s' p = ID_UNDEF" "aid s' p = APP_SM_UNDEF" "ast s' p = STATE_CCAS_UNDEF" "snd (sid s' p) = 0"
    "p < USER_SESSION_SIZE \<Longrightarrow> uid s' p = INDEX_TO_ID p"
  using assms(1) unfolding s'_def blank_beyond_def view_defs
  by (simp_all add: initialize_ccdb_state initialize_tdb_callouts us_blank_def)

lemma initialize_hinv:
  assumes b: "blank_beyond s" and M: "main_contract M live"
  shows "hinv (env_of M) live {} {} (initialize_ccdb (env_of M) (initialize_tdb (env_of M) s))"
    (is "hinv _ _ _ _ ?s'")
proof -
  note v = initialize_views [OF b, where E = "env_of M"] and st = initialize_ccdb_state [of "env_of M" s]
  have "wf_tdb {} (initialize_tdb (env_of M) s)"
    using b by (intro initialize_tdb_wf) (simp add: blank_beyond_def coh_def)
  hence "wf_tdb {} ?s'"
    by (subst same_tdb_wf [of "initialize_tdb (env_of M) s"]) (simp_all add: same_tdb_def st initialize_tdb_callouts)
  moreover have "wf_us ?s'" by (simp add: wf_us_def v st)
  moreover have "wf_queue ?s'" by (simp add: wf_queue_def v)
  moreover have "wf_live live ?s'"
    by (simp add: wf_live_def v st main_contractD [OF M])
  moreover have "own {} ?s'" by (simp add: own_def v)
  ultimately have "winv live {} ?s'" by (simp add: winv_def)
  thus ?thesis by (simp add: hinv_def sok_def unheld_def tab_def named_def v)
qed

section \<open>The program\<close>

text \<open>A running program has the invariant; a program that has ended has freed everything.\<close>

definition sound :: "'w main_env \<Rightarrow> (pool \<Rightarrow> 'w \<Rightarrow> nat set) \<Rightarrow> 'w process \<Rightarrow> bool" where
  "sound M live P = (case P of Running s \<Rightarrow> hinv (env_of M) live {} {} s | Exited st s \<Rightarrow> st = 0 \<longrightarrow> emptied s)"

lemma finalize_exit_ok:
  assumes "winv live {} s" "main_contract M live"
  shows "ok (sound M live) (finalize_exit M t st s)"
  using finalize_ok [OF assms, of t] by (auto simp: finalize_exit_def sound_def intro: ok_mono)

lemma hinv_call:
  "(\<And>P w. live P (snd (k w)) = live P w) \<Longrightarrow> hinv E live D Q (snd (call k s)) = hinv E live D Q s"
  by (rule hinv_core) (rule core_call)

lemma initialize_ok:
  assumes b: "blank_beyond s" and M: "main_contract M live"
  shows "ok (sound M live) (initialize M s)"
proof -
  have b': "blank_beyond (snd (call k s)\<lparr>shutdown := x, meas := m\<rparr>)" if "blank_beyond s"
    for k :: "'a \<Rightarrow> int \<times> 'a" and x m and s :: "'a dsm"
    using that by (simp add: blank_beyond_def view_defs)
  have h: "hinv (env_of M) live {} {} (initialize_ccdb (env_of M) (initialize_tdb (env_of M)
      (snd (call (fep_q_init M) (snd (call (fep_dev_open M) s)))\<lparr>shutdown := x, meas := m\<rparr>)))" for x m
  proof (rule initialize_hinv [OF b' M])
    show "blank_beyond (snd (call (fep_dev_open M) s))" using b by (simp add: blank_beyond_def view_defs)
  qed
  have c: "hinv (env_of M) live {} {} (snd (call (fep_timer_alloc M) t)) = hinv (env_of M) live {} {} t"
    "hinv (env_of M) live {} {} (snd (call (fep_timer_start M) t)) = hinv (env_of M) live {} {} t" for t
    by (simp_all add: hinv_call main_contractD [OF M])
  have f: "ok (sound M live) (finalize_exit M b st t)" if "hinv (env_of M) live {} {} t" for b st t
    by (rule finalize_exit_ok [OF hinvD(1) [OF that] M])
  have r: "sound M live (Running t) = hinv (env_of M) live {} {} t"
    "sound M live (Exited 1 t)" for t by (simp_all add: sound_def)
  show ?thesis
    by (simp add: initialize_def Let_def case_prod_beta r f c h)
qed

text \<open>The state in which a received message is handled.\<close>

definition received :: "'w main_env \<Rightarrow> 'w dsm \<Rightarrow> 'w dsm" where
  "received M s = (case fep_q_receive M (world s) (bufs s) of
     (rv, m, bs, w) \<Rightarrow> s\<lparr>world := w, bufs := bs\<rparr>)"

lemma core_received:
  assumes "main_contract M live"
  shows "core live (received M s) = core live s"
proof -
  obtain rv m bs w where r: "fep_q_receive M (world s) (bufs s) = (rv, m, bs, w)" by (metis prod_cases4)
  show ?thesis
    using main_contractD(9) [OF assms, of _ "world s" "bufs s"] by (simp add: received_def core_def r)
qed

lemma main_step_ok:
  assumes I: "hinv (env_of M) live {} {} s" and M: "main_contract M live"
    and q: "queued_diam (env_of M) (received M s)"
  shows "ok (sound M live) (main_step M s)"
proof -
  obtain rv m bs w where r: "fep_q_receive M (world s) (bufs s) = (rv, m, bs, w)" by (metis prod_cases4)
  have e: "received M s = s\<lparr>world := w, bufs := bs\<rparr>" by (simp add: received_def r)
  have J: "hinv (env_of M) live {} {} (s\<lparr>world := w, bufs := bs\<rparr>)"
    using I hinv_core [OF core_received [OF M, of s]] by (simp add: e)
  have J': "hinv (env_of M) live {} {} (cnt c (s\<lparr>world := w, bufs := bs\<rparr>))" for c
    using J by simp
  show ?thesis
    using finalize_exit_ok [OF hinvD(1) [OF I] M, of True 0] J' dispatch_ok [OF J M, of m] q
    by (simp add: main_step_def r e sound_def Let_def)
qed

lemma main_loop_ok:
  assumes "sound M live P" and M: "main_contract M live"
    and q: "\<And>k t. k < n \<Longrightarrow> main_loop M k P = Some (Running t) \<Longrightarrow> queued_diam (env_of M) (received M t)"
  shows "ok (sound M live) (main_loop M n P)"
  using assms(1) q
proof (induction n arbitrary: P)
  case (Suc n)
  show ?case
  proof (cases P)
    case (Running s)
    have I: "hinv (env_of M) live {} {} s" using Suc.prems(1) Running by (simp add: sound_def)
    have "queued_diam (env_of M) (received M s)" using Suc.prems(2) [of 0 s] Running by simp
    hence s: "ok (sound M live) (main_step M s)" by (rule main_step_ok [OF I M])
    show ?thesis
      unfolding Running main_loop.simps ok_bind
    proof (rule ok_split [OF s])
      fix R assume R: "main_step M s = Some R" "sound M live R"
      show "ok (sound M live) (main_loop M n R)"
      proof (rule Suc.IH [OF R(2)])
        fix k t assume "k < n" "main_loop M k R = Some (Running t)"
        thus "queued_diam (env_of M) (received M t)"
          using Suc.prems(2) [of "Suc k" t] R(1) Running by simp
      qed
    qed
  qed (use Suc.prems(1) in simp)
qed simp

end
