(* ===== verification/Directory.thy ===== *)
theory Directory
  imports Main_Inv
begin

text \<open>
  The session table as a directory: a partial map from Session-Ids to sessions. Looking up, adding
  and removing a session are lookup, update and deletion of that map, whatever the hash function
  does and however the lists of the table are arranged.
\<close>

section \<open>The interface\<close>

text \<open>
  \<open>put\<close> enters a message's session under the key of the message, or fails and leaves the directory
  alone; \<open>del\<close> deletes a session.
\<close>

locale directory_store =
  fixes inv :: "'s \<Rightarrow> bool" and dir :: "'s \<Rightarrow> 'k \<Rightarrow> 'p option"
    and fits :: "'m \<Rightarrow> 's \<Rightarrow> bool" and key :: "'m \<Rightarrow> 's \<Rightarrow> 'k"
    and put :: "'m \<Rightarrow> 's \<Rightarrow> 'p option \<times> 's" and del :: "'p \<Rightarrow> 's \<Rightarrow> 's option"
  assumes put_some: "inv s \<Longrightarrow> fits m s \<Longrightarrow> put m s = (Some p, s') \<Longrightarrow>
      inv s' \<and> dir s' = (dir s)(key m s := Some p)"
    and put_none: "inv s \<Longrightarrow> fits m s \<Longrightarrow> put m s = (None, s') \<Longrightarrow> inv s' \<and> dir s' = dir s"
    and fits_new: "inv s \<Longrightarrow> fits m s \<Longrightarrow> dir s (key m s) = None"
    and del_ok: "inv s \<Longrightarrow> dir s k = Some p \<Longrightarrow>
      ok (\<lambda>s'. inv s' \<and> dir s' = (dir s)(k := None)) (del p s)"
begin

lemma put_finds: "inv s \<Longrightarrow> fits m s \<Longrightarrow> put m s = (Some p, s') \<Longrightarrow> dir s' (key m s) = Some p"
  by (simp add: put_some)

lemma put_keeps:
  assumes "inv s" "fits m s" "put m s = (r, s')" "k \<noteq> key m s"
  shows "dir s' k = dir s k"
proof (cases r)
  case None
  thus ?thesis using put_none [OF assms(1,2), of s'] assms(3) by simp
next
  case (Some p)
  thus ?thesis using put_some [OF assms(1,2), of p s'] assms(3,4) by simp
qed

lemma put_del:
  assumes I: "inv s" and f: "fits m s" and p: "put m s = (Some p, s')"
  shows "ok (\<lambda>s''. inv s'' \<and> dir s'' = dir s) (del p s')"
proof -
  note P = put_some [OF I f p]
  have "dir s' (key m s) = Some p" using P by simp
  hence "ok (\<lambda>s''. inv s'' \<and> dir s'' = (dir s')(key m s := None)) (del p s')"
    using del_ok P by blast
  moreover have "(dir s')(key m s := None) = dir s" using P fits_new [OF I f] by (simp add: fun_eq_iff)
  ultimately show ?thesis by simp
qed

end

section \<open>Lookup\<close>

text \<open>The lookup as the handlers do it: the bucket of the identifier, then the search.\<close>

definition us_lookup :: "'w env \<Rightarrow> bytes \<Rightarrow> int \<Rightarrow> 'w dsm \<Rightarrow> nat option" where
  "us_lookup E a n s = (let h = fst (user_session_hash E (Some a) n s)
     in if h < 0 then None else fst (user_session_get E (Some a) n h s))"

lemma us_lookup_iff:
  assumes I: "hinv E live D {} s"
  shows "us_lookup E a n s = Some p \<longleftrightarrow> valid_sid E n \<and> named s p \<and> same_sid (sid s p) (a, n)"
proof (cases "valid_sid E n")
  case True
  note H = hinvD [OF I]
  have "us_lookup E a n s = fst (user_session_get E (Some a) n (int (bucket E a n)) s)"
    using True by (simp add: us_lookup_def user_session_hash_result)
  thus ?thesis
    using user_session_get_iff [OF invD(2) [OF H(1)] H(5) _ True] H(2) True by auto
next
  case False
  thus ?thesis by (simp add: us_lookup_def user_session_hash_result)
qed

text \<open>The directory: a Session-Id is a list of bytes.\<close>

definition directory :: "'w env \<Rightarrow> 'w dsm \<Rightarrow> 8 word list \<Rightarrow> nat option" where
  "directory E s k = us_lookup E (nth k) (int (length k)) s"

definition us_name :: "bytes \<times> int \<Rightarrow> 8 word list" where
  "us_name x = map (fst x) [0..<nat (snd x)]"

lemma same_sid_name:
  assumes "0 \<le> snd x"
  shows "same_sid x (nth k, int (length k)) \<longleftrightarrow> us_name x = k"
proof -
  have "snd x = int (length k)" if "us_name x = k"
    using that assms by (auto simp: us_name_def)
  thus ?thesis
    by (auto simp: same_sid_def us_name_def memeq_iff list_eq_iff_nth_eq)
qed

lemma directory_iff:
  assumes I: "hinv E live D {} s"
  shows "directory E s k = Some p \<longleftrightarrow> named s p \<and> us_name (sid s p) = k"
proof -
  have T: "0 < snd (sid s p) \<and> snd (sid s p) \<le> MAX_SZ_OCTETSTRING E - 1" if "named s p"
    using hinvD(5) [OF I] that by (simp add: tab_def)
  have "valid_sid E (int (length k))" if "named s p" "us_name (sid s p) = k"
    using T [OF that(1)] that(2) by (auto simp: valid_sid_def us_name_def)
  thus ?thesis
    using us_lookup_iff [OF I] T same_sid_name [of "sid s p" k] by (auto simp: directory_def)
qed

lemma directory_eqI:
  assumes "hinv E live D {} s" "hinv E live D' {} s'"
    "\<And>p. named s' p \<and> us_name (sid s' p) = k \<longleftrightarrow> named s p \<and> us_name (sid s p) = k"
  shows "directory E s' k = directory E s k"
proof -
  have "directory E s' k = Some p \<longleftrightarrow> directory E s k = Some p" for p
    using assms(3) by (simp add: directory_iff [OF assms(1)] directory_iff [OF assms(2)])
  thus ?thesis by (metis not_None_eq)
qed

section \<open>Adding and removing\<close>

text \<open>
  What \<open>process_diam\<close> has established when it adds a session: a Diameter request that opens a
  session, not of package type ABORT, with an identifier that is valid and not in the directory.
\<close>

definition ctx_name :: "nat \<Rightarrow> 'w dsm \<Rightarrow> 8 word list" where
  "ctx_name b s = us_name (FEP_BUF_SID (bufs s b), sessionIdLength (bufs s b))"

definition opens_session :: "'w env \<Rightarrow> nat \<Rightarrow> 'w dsm \<Rightarrow> bool" where
  "opens_session E b s \<longleftrightarrow> diamctx_type (bufs s b) = DIAMCTX_DIAM \<and> is_new_us (bufs s b)
     \<and> packageType (bufs s b) \<noteq> PACKAGE_TYPE_ABORT \<and> valid_sid E (sessionIdLength (bufs s b))
     \<and> directory E s (ctx_name b s) = None"

definition us_put :: "'w env \<Rightarrow> nat \<Rightarrow> 'w dsm \<Rightarrow> nat option \<times> 'w dsm" where
  "us_put E b s = (let c = bufs s b;
       (h, s) = user_session_hash E (Some (FEP_BUF_SID c)) (sessionIdLength c) s
     in user_session_add E (Some b) h s)"

definition us_del :: "'w env \<Rightarrow> nat \<Rightarrow> 'w dsm \<Rightarrow> 'w dsm option" where
  "us_del E p s = map_option snd (user_session_remove E (Some (Some p)) s)"

definition db_ok :: "'w env \<Rightarrow> (pool \<Rightarrow> 'w \<Rightarrow> nat set) \<Rightarrow> 'w dsm \<Rightarrow> bool" where
  "db_ok E live s \<longleftrightarrow> hinv E live {} {} s \<and> pool_contract E live"

lemma tab_free_directory:
  assumes I: "hinv E live D {} s" and n: "valid_sid E n" and d: "directory E s (us_name (a, n)) = None"
  shows "tab_free s a n"
  unfolding tab_free_def
proof (intro allI impI notI)
  fix q assume q: "named s q" "same_sid (sid s q) (a, n)"
  hence "us_name (sid s q) = us_name (a, n)"
    by (auto simp: same_sid_def us_name_def memeq_iff)
  hence "directory E s (us_name (a, n)) = Some q" using directory_iff [OF I] q(1) by simp
  thus False using d by simp
qed

lemma add_cases:
  assumes I: "hinv E live {} {} s" and E: "pool_contract E live" and f: "opens_session E b s"
    and r: "user_session_add E (Some b)
      (int (bucket E (FEP_BUF_SID (bufs s b)) (sessionIdLength (bufs s b)))) s = (q, s')"
  shows "hinv E live {} {} s'" "q = None \<Longrightarrow> same_named s s'"
    "q = Some p \<Longrightarrow> uh s p = None \<and> named s' p \<and> us_name (sid s' p) = ctx_name b s
       \<and> (\<forall>r. r \<noteq> p \<longrightarrow> named s' r = named s r \<and> sid s' r = sid s r)"
    "q = Some p \<Longrightarrow> ast s' p = STATE_CCAS_IDLE \<and> \<not> ID_VALID (tg s' p)
       \<and> bufs s' = bufs s \<and> callouts s' = callouts s \<and> wheel_index s' = wheel_index s"
proof -
  let ?c = "bufs s b"
  let ?l = "bucket E (FEP_BUF_SID ?c) (sessionIdLength ?c)"
  have F: "diamctx_type ?c = DIAMCTX_DIAM" "is_new_us ?c" "packageType ?c \<noteq> PACKAGE_TYPE_ABORT"
    "valid_sid E (sessionIdLength ?c)" "directory E s (ctx_name b s) = None"
    using f by (simp_all add: opens_session_def)
  have tf: "tab_free s (FEP_BUF_SID ?c) (sessionIdLength ?c)"
    using tab_free_directory [OF I F(4)] F(5) by (simp add: ctx_name_def)
  have A: "hinv E live {} {} s' \<and> (case q of None \<Rightarrow> same_named s s'
     | Some p \<Rightarrow> uh s p = None \<and> uh s' = (uh s)(p := Some ?l)
         \<and> saved_new E ?c p s s' \<and> tg s' = tg s \<and> bufs s' = bufs s \<and> callouts s' = callouts s
         \<and> wheel_index s' = wheel_index s
         \<and> (\<forall>r. r \<noteq> p \<longrightarrow> aid s' r = aid s r \<and> sid s' r = sid s r))"
    by (rule hinv_add [OF I E, of b ?l, unfolded r fst_conv snd_conv]) (use F tf in simp_all)
  thus "hinv E live {} {} s'" by simp
  show "q = None \<Longrightarrow> same_named s s'" using A by simp
  assume q: "q = Some p"
  note B = A [THEN conjunct2, unfolded q option.case]
  have S: "aid s' p = APP_SM_CCAS" "ast s' p = STATE_CCAS_IDLE"
    "sid s' p = (memcpy (fst (sid s p)) (FEP_BUF_SID ?c) (nat (sessionIdLength ?c)), sessionIdLength ?c)"
    using B F(3) by (simp_all add: saved_new_def)
  have "us_name (sid s' p) = ctx_name b s" by (simp add: us_name_def ctx_name_def S memcpy_def)
  thus "uh s p = None \<and> named s' p \<and> us_name (sid s' p) = ctx_name b s
       \<and> (\<forall>r. r \<noteq> p \<longrightarrow> named s' r = named s r \<and> sid s' r = sid s r)"
    using B S(1) by (auto simp: named_def)
  have "tg s p = ID_UNDEF" using ownD(6) [OF invD(5) [OF hinvD(1) [OF I]]] B by blast
  thus "ast s' p = STATE_CCAS_IDLE \<and> \<not> ID_VALID (tg s' p)
       \<and> bufs s' = bufs s \<and> callouts s' = callouts s \<and> wheel_index s' = wheel_index s"
    using S(2) B by simp
qed

text \<open>Counters do not matter.\<close>

lemma directory_skel:
  assumes I: "hinv E live D {} s" and k: "skel live s' = skel live s"
  shows "directory E s' = directory E s"
proof -
  have I': "hinv E live D {} s'" using I hinv_skel [OF k] by simp
  have "directory E s' k = directory E s k" for k
    by (rule directory_eqI [OF I I']) (simp add: named_def skel_views [OF k])
  thus ?thesis by blast
qed

lemma opens_session_skel:
  assumes "hinv E live D {} s" "skel live s' = skel live s" "bufs s' = bufs s"
  shows "opens_session E b s' = opens_session E b s" "ctx_name b s' = ctx_name b s"
  using directory_skel [OF assms(1,2)] by (simp_all add: opens_session_def ctx_name_def assms(3))

lemma us_put_cases:
  assumes I: "hinv E live {} {} s" and E: "pool_contract E live" and f: "opens_session E b s"
    and r: "us_put E b s = (q, s')"
  shows "hinv E live {} {} s'" "q = None \<Longrightarrow> same_named s s'"
    "q = Some p \<Longrightarrow> uh s p = None \<and> named s' p \<and> us_name (sid s' p) = ctx_name b s
       \<and> (\<forall>r. r \<noteq> p \<longrightarrow> named s' r = named s r \<and> sid s' r = sid s r)"
proof -
  let ?t = "cnt ''ds_ccdb_us_hash_succ'' s"
  have k: "skel live ?t = skel live s" "bufs ?t = bufs s" by simp_all
  have "valid_sid E (sessionIdLength (bufs s b))" using f by (simp add: opens_session_def)
  hence a: "user_session_add E (Some b)
      (int (bucket E (FEP_BUF_SID (bufs ?t b)) (sessionIdLength (bufs ?t b)))) ?t = (q, s')"
    using r by (simp add: us_put_def Let_def user_session_hash_result)
  have t: "hinv E live {} {} ?t" "opens_session E b ?t"
    using I hinv_skel [OF k(1)] f opens_session_skel [OF I k] by simp_all
  note A = add_cases [OF t(1) E t(2) a]
  show "hinv E live {} {} s'" by (rule A(1))
  show "q = None \<Longrightarrow> same_named s s'" using A(2) by (simp add: same_named_def named_def)
  show "q = Some p \<Longrightarrow> uh s p = None \<and> named s' p \<and> us_name (sid s' p) = ctx_name b s
       \<and> (\<forall>r. r \<noteq> p \<longrightarrow> named s' r = named s r \<and> sid s' r = sid s r)"
    using A(3) opens_session_skel(2) [OF I k] by (simp add: named_def)
qed

lemma us_del_cases:
  assumes I: "hinv E live {} {} s" and E: "pool_contract E live" and p: "named s p"
  shows "ok (\<lambda>s'. hinv E live {} {} s' \<and> \<not> named s' p
    \<and> (\<forall>r. r \<noteq> p \<longrightarrow> named s' r = named s r \<and> sid s' r = sid s r)) (us_del E p s)"
proof -
  have u: "uh s p \<noteq> None" using p by (simp add: named_def)
  from hinv_remove [OF I E u] obtain s' where "user_session_remove E (Some (Some p)) s = Some (None, s')"
    "hinv E live {} {} s'" "removed p s s'" by auto
  thus ?thesis by (auto simp: us_del_def removed_def named_def)
qed

lemma dir_put:
  assumes I: "hinv E live {} {} s" "hinv E live {} {} s'" and k: "nm = us_name (sid s' p)"
    and A: "uh s p = None" "named s' p" "\<forall>r. r \<noteq> p \<longrightarrow> named s' r = named s r \<and> sid s' r = sid s r"
  shows "directory E s' = (directory E s)(nm := Some p)"
proof -
  have np: "\<not> named s p" using A by (simp add: named_def)
  have "directory E s' k = ((directory E s)(nm := Some p)) k" for k
  proof (cases "k = nm")
    case True
    thus ?thesis using A(2) assms(3) directory_iff [OF I(2), of k p] by simp
  next
    case False
    have "named s' q \<and> us_name (sid s' q) = k \<longleftrightarrow> named s q \<and> us_name (sid s q) = k" for q
      using A(3) np False assms(3) by (cases "q = p") auto
    thus ?thesis using directory_eqI [OF I] False by simp
  qed
  thus ?thesis by blast
qed

lemma dir_added:
  assumes I: "hinv E live {} {} s" and E: "pool_contract E live" and f: "opens_session E b s"
    and r: "user_session_add E (Some b)
      (int (bucket E (FEP_BUF_SID (bufs s b)) (sessionIdLength (bufs s b)))) s = (Some p, s')"
  shows "directory E s' = (directory E s)(ctx_name b s := Some p)"
  using add_cases(1,3) [OF I E f r] by (intro dir_put [OF I]) auto

lemma us_put_some:
  assumes "db_ok E live s" and f: "opens_session E b s" and r: "us_put E b s = (Some p, s')"
  shows "db_ok E live s' \<and> directory E s' = (directory E s)(ctx_name b s := Some p)"
proof -
  have I: "hinv E live {} {} s" and E: "pool_contract E live" using assms(1) by (simp_all add: db_ok_def)
  have "directory E s' = (directory E s)(ctx_name b s := Some p)"
    using us_put_cases(1,3) [OF I E f r] by (intro dir_put [OF I]) auto
  thus ?thesis using us_put_cases(1) [OF I E f r] E by (simp add: db_ok_def)
qed

lemma us_put_none:
  assumes "db_ok E live s" and f: "opens_session E b s" and r: "us_put E b s = (None, s')"
  shows "db_ok E live s' \<and> directory E s' = directory E s"
proof -
  have I: "hinv E live {} {} s" and E: "pool_contract E live" using assms(1) by (simp_all add: db_ok_def)
  note A = us_put_cases(1,2) [OF I E f r]
  have "directory E s' k = directory E s k" for k
    by (rule directory_eqI [OF I A(1)]) (use A(2) in \<open>auto simp: same_named_def\<close>)
  thus ?thesis using A(1) E by (auto simp: db_ok_def)
qed

lemma us_del_ok:
  assumes "db_ok E live s" and d: "directory E s k = Some p"
  shows "ok (\<lambda>s'. db_ok E live s' \<and> directory E s' = (directory E s)(k := None)) (us_del E p s)"
proof -
  have I: "hinv E live {} {} s" and E: "pool_contract E live" using assms(1) by (simp_all add: db_ok_def)
  have p: "named s p" "us_name (sid s p) = k" using d directory_iff [OF I] by simp_all
  show ?thesis
  proof (rule ok_mono [OF us_del_cases [OF I E p(1)]])
    fix s' assume A: "hinv E live {} {} s' \<and> \<not> named s' p
      \<and> (\<forall>r. r \<noteq> p \<longrightarrow> named s' r = named s r \<and> sid s' r = sid s r)"
    have I': "hinv E live {} {} s'" using A by simp
    have "directory E s' k' = ((directory E s)(k := None)) k'" for k'
    proof (cases "k' = k")
      case True
      have "directory E s' k \<noteq> Some q" for q
        using A p directory_iff [OF I', of k q] directory_iff [OF I, of k q] d by (cases "q = p") auto
      thus ?thesis using True by (cases "directory E s' k") auto
    next
      case False
      have "named s' q \<and> us_name (sid s' q) = k' \<longleftrightarrow> named s q \<and> us_name (sid s q) = k'" for q
        using A p False by (cases "q = p") auto
      thus ?thesis using directory_eqI [OF I I'] False by simp
    qed
    thus "db_ok E live s' \<and> directory E s' = (directory E s)(k := None)"
      using I' E by (auto simp: db_ok_def)
  qed
qed

interpretation sessions: directory_store "db_ok E live" "directory E" "opens_session E" ctx_name
  "us_put E" "us_del E" for E and live
  by unfold_locales
     (use us_put_some us_put_none us_del_ok in \<open>blast\<close>, use us_put_none in \<open>blast\<close>,
      simp add: opens_session_def, use us_del_ok in \<open>blast\<close>)

end
