(* ===== verification/Dsm_Flow.thy ===== *)
theory Dsm_Flow
  imports Directory
begin

text \<open>
  What the handlers do, beyond keeping the invariant: how a Diameter request opens a session and in
  which state it is then, which messages are refused and with which result, and what the control
  messages report.
\<close>

section \<open>A request is forwarded\<close>

lemma diam_finish_result:
  assumes I: "hinv E live D {} s" and E: "pool_contract E live" and r: "diam_ready s p e"
    and e: "e \<in> set forward_events" and R: "diam_finish E b p e s = (R_SUCCESS, s')"
  shows "uh s' = uh s" "aid s' = aid s" "sid s' = sid s" "ast s' p = next_state s p e"
    "ID_VALID (tg s' p)"
proof -
  obtain go s1 where s1: "diam_effect E b p e s = (go, s1)" by fastforce
  have T: "diam_timed E live D p e s (go, s1)" using diam_effect_ok [OF I E r, of b] s1 by simp
  note T' = T [unfolded diam_timed_def kept_def fst_conv snd_conv]
  have p: "uh s1 p \<noteq> None" using r T' by (simp add: diam_ready_def)
  define s2 where "s2 = snd (set_asm_state (Some p) e s1)"
  have n: "fst (set_asm_state (Some p) e s1) = next_state s p e"
    using allowed_skel(2) [of s1 p s] T' by (simp add: set_asm_state_result [OF p])
  have k2: "core live s2 = core live s1" by (simp add: s2_def)
  define s3 where "s3 = upd_cc p (asm_state_update (\<lambda>_. next_state s p e)) s2"
  have m: "e \<noteq> EVENT_CCAS_RX_DIAM_MSG_VALID" using e by (auto simp: forward_events_def)
  have go: "go" and u: "next_state s p e \<noteq> STATE_CCAS_UNDEF"
    and s': "s' = cnt ''ds_ccdb_process_diam_succ'' (touch E p s3)"
    using R n m by (auto simp: diam_finish_def s1 Let_def case_prod_beta s2_def [symmetric]
        s3_def [symmetric] split: if_splits)
  have c: "core live s' = core live (upd_cc p (asm_state_update (\<lambda>_. next_state s p e)) s1)"
    unfolding s' using E by (simp add: s3_def core_state [OF k2])
  note V = core_views [OF c]
  show "uh s' = uh s" "aid s' = aid s" "sid s' = sid s" using T' by (simp_all add: V view_upd_cc tcc_id_cc fun_upd_idem)
  show "ast s' p = next_state s p e" by (simp add: V view_upd_cc)
  have "ID_VALID (tg s1 p)"
    using s1 go e by (auto simp: diam_effect_def diam_forward_def Let_def case_prod_beta tcc_id_cc
        split: if_splits)
  thus "ID_VALID (tg s' p)" by (simp add: V view_upd_cc tcc_id_cc)
qed

section \<open>Finding the session of a message\<close>

lemma process_diam_unknown:
  assumes I: "hinv E live {} {} s" and n: "valid_sid E (sessionIdLength (bufs s b))"
    and d: "directory E s (ctx_name b s) = None"
  shows "process_diam E m f (Some b) (Some None) s
    = diam_found E m f b (int (bucket E (FEP_BUF_SID (bufs s b)) (sessionIdLength (bufs s b)))) None
        (cnt ''ds_ccdb_us_get_succ'' (cnt ''ds_ccdb_us_hash_succ'' s))"
proof -
  let ?a = "FEP_BUF_SID (bufs s b)" and ?n = "sessionIdLength (bufs s b)"
  let ?s = "cnt ''ds_ccdb_us_hash_succ'' s"
  have k: "skel live ?s = skel live s" by simp
  have I': "hinv E live {} {} ?s" using I hinv_skel [OF k] by simp
  have "tab_free ?s ?a ?n"
    using tab_free_directory [OF I n] d by (simp add: ctx_name_def tab_free_def named_def)
  hence "fst (user_session_get E (Some ?a) ?n (int (bucket E ?a ?n)) ?s) \<noteq> Some p" for p
    using user_session_get_iff [OF invD(2) [OF hinvD(1) [OF I']] hinvD(5) [OF I'] _ n, of ?a p]
      hinvD(2) [OF I'] by (auto simp: tab_free_def)
  hence "user_session_get E (Some ?a) ?n (int (bucket E ?a ?n)) ?s
    = (None, cnt ''ds_ccdb_us_get_succ'' ?s)"
    using user_session_get_result [OF invD(2) [OF hinvD(1) [OF I']] n, of ?a] by auto
  thus ?thesis using n by (simp add: process_diam_def user_session_hash_result Let_def)
qed

text \<open>The commands that need a session that exists.\<close>

definition needs_session :: "diamctx \<Rightarrow> bool" where
  "needs_session c = (case commandCode c of
     DIAM_CMD_CCR \<Rightarrow> DIAM_CMD_FLAG_R (flags c) \<and> \<not> DIAM_CMD_FLAG_E (flags c)
       \<and> (ccRequestType c = DIAM_CC_UPDATE_REQUEST \<or> ccRequestType c = DIAM_CC_TERMINATION_REQUEST)
   | DIAM_CMD_ASA \<Rightarrow> \<not> DIAM_CMD_FLAG_R (flags c) \<and> \<not> DIAM_CMD_FLAG_T (flags c)
   | DIAM_CMD_RAA \<Rightarrow> \<not> DIAM_CMD_FLAG_R (flags c) \<and> \<not> DIAM_CMD_FLAG_T (flags c)
   | DIAM_CMD_STR \<Rightarrow> DIAM_CMD_FLAG_R (flags c) \<and> \<not> DIAM_CMD_FLAG_E (flags c)
   | DIAM_CMD_OTHER _ \<Rightarrow> False)"

text \<open>Only counters differ, and the failure of the handler is counted once.\<close>

definition only_counted :: "string \<Rightarrow> 'w dsm \<Rightarrow> 'w dsm \<Rightarrow> bool" where
  "only_counted c s s' \<longleftrightarrow> s' = s\<lparr>meas := meas s'\<rparr> \<and> meas s' c = Suc (meas s c)"

lemma cnt_meas: "cnt c s = s\<lparr>meas := inc c (meas s)\<rparr>"
  by (simp add: cnt_def)

lemma needs_session_refused:
  assumes n: "needs_session (bufs t b)"
  shows "ok (\<lambda>(rv, q, s'). rv = DIAMETER_UNKNOWN_SESSION_ID \<and> q = None
      \<and> only_counted ''ds_ccdb_process_diam_fail'' t s') (diam_found E m f b l None t)"
proof -
  have x: "c @ r \<noteq> ''ds_ccdb_process_diam_fail''" if "hd (drop 3 c) = CHR ''m''" "3 < length c" for c r
    using that by (auto simp: hd_conv_nth nth_append dest!: arg_cong [where f = "\<lambda>x. x ! 3"])
  have c: "only_counted ''ds_ccdb_process_diam_fail'' t
      (cnt ''ds_ccdb_process_diam_fail'' (cnt ''ds_us_invalid'' (cnt_msg f c t)))"
    if "hd (drop 3 c) = CHR ''m''" "3 < length c" for c
    using x [OF that] by (simp add: only_counted_def cnt_meas cnt_msg_def inc_apply)
  have c2: "only_counted ''ds_ccdb_process_diam_fail'' t
      (cnt ''ds_ccdb_process_diam_fail'' (cnt ''ds_us_invalid'' (cnt_msg f c (cnt_msg f d t))))"
    if "hd (drop 3 c) = CHR ''m''" "hd (drop 3 d) = CHR ''m''" "3 < length c" "3 < length d" for c d
    using x [OF that(1,3)] x [OF that(2,4)] by (simp add: only_counted_def cnt_meas cnt_msg_def inc_apply)
  show ?thesis
    using n
    by (auto simp: needs_session_def diam_found_def diam_command_def diam_ccr_def diam_ccr_update_def
        diam_asa_raa_def diam_str_def diam_fail_def Let_def c c2 split: command_code.splits)
qed

lemma only_counted_trans:
  assumes "s1 = s\<lparr>meas := meas s1\<rparr>" "meas s1 c = meas s c" "only_counted c s1 s'"
  shows "only_counted c s s'"
proof -
  have "s' = s1\<lparr>meas := meas s'\<rparr>" using assms(3) by (simp add: only_counted_def)
  also have "\<dots> = s\<lparr>meas := meas s'\<rparr>" by (subst assms(1)) simp
  finally show ?thesis using assms(2,3) by (simp add: only_counted_def)
qed

lemma unknown_session_ok:
  assumes I: "hinv E live {} {} s" and n: "valid_sid E (sessionIdLength (bufs s b))"
    and d: "directory E s (ctx_name b s) = None" and c: "needs_session (bufs s b)"
  shows "ok (\<lambda>(rv, q, s'). rv = DIAMETER_UNKNOWN_SESSION_ID \<and> q = None
      \<and> only_counted ''ds_ccdb_process_diam_fail'' s s') (process_diam E m f (Some b) (Some None) s)"
proof -
  define t where "t = cnt ''ds_ccdb_us_get_succ'' (cnt ''ds_ccdb_us_hash_succ'' s)"
  have t: "t = s\<lparr>meas := meas t\<rparr>" "meas t ''ds_ccdb_process_diam_fail'' = meas s ''ds_ccdb_process_diam_fail''"
    "bufs t = bufs s" by (simp_all add: t_def cnt_meas inc_apply)
  have "ok (\<lambda>(rv, q, s'). rv = DIAMETER_UNKNOWN_SESSION_ID \<and> q = None
      \<and> only_counted ''ds_ccdb_process_diam_fail'' t s') (diam_found E m f b l None t)" for l
    using needs_session_refused [of t b] c t(3) by simp
  thus ?thesis
    unfolding process_diam_unknown [OF I n d] t_def [symmetric]
    by (rule ok_mono) (use only_counted_trans [OF t(1,2)] in auto)
qed

section \<open>A request that opens a session\<close>

text \<open>The handler of such a request, up to the outcome of adding the session.\<close>

definition request_event :: "diamctx \<Rightarrow> event_ccas" where
  "request_event c = (if ccRequestType c = DIAM_CC_INITIAL_REQUEST
     then EVENT_CCAS_RX_DIAM_CCR_INIT else EVENT_CCAS_RX_DIAM_CCR_EVENT)"

lemma process_diam_request:
  assumes I: "hinv E live {} {} s" and o: "opens_session E b s"
    and F: "DIAM_CMD_FLAG_R (flags (bufs s b))" "\<not> DIAM_CMD_FLAG_E (flags (bufs s b))"
  shows "\<exists>k. process_diam E m f (Some b) (Some None) s = (case user_session_add E (Some b)
        (int (bucket E (FEP_BUF_SID (bufs s b)) (sessionIdLength (bufs s b)))) (s\<lparr>meas := k\<rparr>) of
      (None, t) \<Rightarrow> Some (DIAMETER_UNABLE_TO_COMPLY, None, cnt ''ds_ccdb_process_diam_fail'' t)
    | (Some p, t) \<Rightarrow> (case diam_finish E b p (request_event (bufs s b)) t of
        (rv, s') \<Rightarrow> Some (rv, Some p, s')))"
proof -
  let ?c = "bufs s b"
  have n: "valid_sid E (sessionIdLength ?c)" "directory E s (ctx_name b s) = None"
    using o by (simp_all add: opens_session_def)
  have C: "commandCode ?c = DIAM_CMD_CCR"
    "ccRequestType ?c = DIAM_CC_INITIAL_REQUEST \<or> ccRequestType ?c = DIAM_CC_EVENT_REQUEST"
    using o by (simp_all add: opens_session_def is_new_us_def)
  define t where "t = cnt_msg f (if ccRequestType ?c = DIAM_CC_INITIAL_REQUEST
      then ''ds_msg_diam_ccr_initial'' else ''ds_msg_diam_ccr_event'')
    (cnt_msg f ''ds_msg_diam_ccr'' (cnt ''ds_ccdb_us_get_succ'' (cnt ''ds_ccdb_us_hash_succ'' s)))"
  have t: "t = s\<lparr>meas := meas t\<rparr>" by (simp add: t_def cnt_msg_def cnt_meas)
  show ?thesis
    unfolding process_diam_unknown [OF I n]
    using C F
    by (intro exI [of _ "meas t"], subst t [symmetric])
       (auto simp: diam_found_def diam_command_def diam_ccr_def diam_ccr_new_def Let_def
          request_event_def t_def skel_cnt_msg diam_fail_def split: option.split prod.split)
qed

lemma initial_request_ok:
  assumes I: "hinv E live {} {} s" and E: "pool_contract E live" and o: "opens_session E b s"
    and F: "DIAM_CMD_FLAG_R (flags (bufs s b))" "\<not> DIAM_CMD_FLAG_E (flags (bufs s b))"
    and R: "process_diam E m f (Some b) (Some None) s = Some (R_SUCCESS, q, s')"
  shows "\<exists>p. q = Some p \<and> directory E s' = (directory E s)(ctx_name b s := Some p)
    \<and> ast s' p = (if ccRequestType (bufs s b) = DIAM_CC_INITIAL_REQUEST
                  then STATE_CCAS_PROC_REQ else STATE_CCAS_PROC_REQ_FINAL)
    \<and> ID_VALID (tg s' p)"
proof -
  let ?c = "bufs s b"
  let ?l = "bucket E (FEP_BUF_SID ?c) (sessionIdLength ?c)"
  define e where "e = request_event ?c"
  have O: "bty s b = DIAMCTX_DIAM" using o by (simp add: opens_session_def bty_def)
  obtain ms where found: "process_diam E m f (Some b) (Some None) s
      = (case user_session_add E (Some b) (int ?l) (s\<lparr>meas := ms\<rparr>) of
      (None, t) \<Rightarrow> Some (DIAMETER_UNABLE_TO_COMPLY, None, cnt ''ds_ccdb_process_diam_fail'' t)
    | (Some p, t) \<Rightarrow> (case diam_finish E b p e t of (rv, s') \<Rightarrow> Some (rv, Some p, s')))"
    using process_diam_request [OF I o F] unfolding e_def by blast
  define t where "t = s\<lparr>meas := ms\<rparr>"
  have k: "skel live t = skel live s" "bufs t = bufs s" by (simp_all add: t_def)
  have J: "hinv E live {} {} t" "opens_session E b t" "ctx_name b t = ctx_name b s"
    using I hinv_skel [OF k(1)] o opens_session_skel [OF I k] by simp_all
  obtain r t1 where a: "user_session_add E (Some b) (int ?l) t = (r, t1)" by fastforce
  have a': "user_session_add E (Some b)
      (int (bucket E (FEP_BUF_SID (bufs t b)) (sessionIdLength (bufs t b)))) t = (r, t1)"
    using a k(2) by simp
  obtain p where p: "r = Some p" "q = Some p" "diam_finish E b p e t1 = (R_SUCCESS, s')"
    using R unfolding found t_def [symmetric] a by (auto split: option.splits prod.splits)
  note A = add_cases [OF J(1) E J(2) a']
  have N: "hinv E live {} {} t1" "named t1 p" "us_name (sid t1 p) = ctx_name b s"
    "ast t1 p = STATE_CCAS_IDLE" "\<not> ID_VALID (tg t1 p)"
    using A(1) A(3,4) [OF p(1)] J(3) by auto
  have ef: "e \<in> set forward_events" by (simp add: e_def request_event_def forward_events_def)
  have "uh t1 p \<noteq> None" "aid t1 p = APP_SM_CCAS" using N(2) by (simp_all add: named_def)
  moreover have "allowed t1 p e"
    using calculation(2) N(4) by (simp add: allowed_def stt_def stt_case_def stt_tables e_def request_event_def)
  moreover have "\<not> ID_VALID (tcc t1 p)"
    using hinvD(2) [OF N(1), of p] calculation(1,2) N(4) by (auto simp: sok_def)
  ultimately have "diam_ready t1 p e" using N(5) ef by (simp add: diam_ready_def)
  note D = diam_finish_result [OF N(1) E this ef p(3)]
  have I': "hinv E live {} {} s'"
    using process_diam_ok [OF I E O, of m f] R by (simp add: diam_post_def)
  have "next_state t1 p e = (if ccRequestType ?c = DIAM_CC_INITIAL_REQUEST then STATE_CCAS_PROC_REQ else STATE_CCAS_PROC_REQ_FINAL)"
    using \<open>aid t1 p = APP_SM_CCAS\<close> N(4)
    by (simp add: next_state_def stt_def stt_case_def stt_tables e_def request_event_def)
  moreover have "directory E s' = directory E t1"
    by (rule ext, rule directory_eqI [OF N(1) I']) (simp add: named_def D(1-3))
  moreover have "directory E t1 = (directory E t)(ctx_name b t := Some p)"
    by (rule dir_added [OF J(1) E J(2) a' [unfolded p(1)]])
  ultimately show ?thesis
    using p(2) D(4,5) directory_skel [OF I k(1)] J(3) by simp
qed

section \<open>Control messages\<close>

text \<open>The parts of the state that hold sessions and timers.\<close>

definition same_db :: "'w dsm \<Rightarrow> 'w dsm \<Rightarrow> bool" where
  "same_db s s' \<longleftrightarrow> sessions s' = sessions s \<and> ccdb_lists s' = ccdb_lists s \<and> ccdb_time s' = ccdb_time s
     \<and> dgc_qmsgs s' = dgc_qmsgs s \<and> callouts s' = callouts s \<and> callwheel s' = callwheel s
     \<and> wheel_index s' = wheel_index s"

lemma same_db_trans: "same_db s s1 \<Longrightarrow> same_db s1 s2 \<Longrightarrow> same_db s s2"
  by (simp add: same_db_def)

lemma same_db_steps [simp]:
  "same_db s (cnt c t) = same_db s t" "same_db s (free_buffer E b t) = same_db s t"
  "same_db s (snd (call k t)) = same_db s t" "same_db s (upd_buf i g t) = same_db s t"
  "same_db s (t\<lparr>meas := m\<rparr>) = same_db s t" "same_db s (t\<lparr>ccdb_trap := r\<rparr>) = same_db s t"
  "same_db s (t\<lparr>ccdb_tg_expiry := x\<rparr>) = same_db s t" "same_db s s"
  by (simp_all add: same_db_def free_buffer_def)

lemma same_db_report [simp]:
  "same_db s (send_report E b k f g fl t) = same_db s t"
  "same_db s (snd (snd (report_buffer E d n f t))) = same_db s t"
  by (simp_all add: send_report_def report_buffer_def cnt_once_def Let_def case_prod_beta
      split: option.split)

lemma same_db_control:
  "same_db s (process_config_update M s)" "same_db s (process_get_counters M m s)"
  "same_db s (process_update_tg M m s)" "same_db s (process_key_set M m s)"
  "same_db s (process_key_clear s)" "same_db s (process_key_display_req M m s)"
  by (simp_all add: process_config_update_def process_get_counters_def process_update_tg_def
      process_key_set_def process_key_clear_def process_key_display_req_def Let_def case_prod_beta
      split: option.split)

text \<open>The counters that are reported, when every call succeeds.\<close>

lemma get_counters_success:
  assumes b: "fep_alloc_buffer (env_of M) (world s) = (Some b, w1)"
    and p: "buf_to_parm (env_of M) (Some b) w1 = (parm, w2)" "0 \<le> parm"
    and t: "tell_fem (env_of M) (MSG_FEM_RET_COUNTERS M) (m 1) (FEP_Q_DSM M) (of_int parm) w2 = (SUCCESS, w3)"
  shows "buf_data (bufs (process_get_counters M m s) b)
      = memcpy (buf_data (bufs s b)) (meas_bytes M (inc ''ds_api_fep_alloc_buffer_succ'' (meas s))) (nat (meas_size M))"
    "buf_len (bufs (process_get_counters M m s) b) = meas_size M"
    "m 3 = OMP_ZERO M \<Longrightarrow> meas (process_get_counters M m s) = zero_meas"
    "m 3 \<noteq> OMP_ZERO M \<Longrightarrow> meas (process_get_counters M m s) ''ds_main_process_get_counters_succ''
      = Suc (meas s ''ds_main_process_get_counters_succ'')"
  using assms
  by (simp_all add: process_get_counters_def report_buffer_def send_report_def cnt_once_def call_def
      Let_def fresh_context_def upd_buf_def cnt_meas inc_apply)

end
