(* ===== verification/Sample_Run.thy ===== *)
theory Sample_Run
  imports Dsm_Flow
begin

text \<open>
  A concrete system for the witnesses: the sample services, a process after its start (\<open>dsm0\<close>), one
  that has received a request (\<open>dsm1\<close>) and one that has added its session (\<open>dsm2\<close>), and the evaluation
  of the handler of that request.
\<close>

section \<open>A concrete system\<close>

text \<open>Every message is a request with the same content, in a buffer that holds a Diameter context.\<close>

definition sample_ccr :: diamctx where
  "sample_ccr = diamctx0\<lparr>diamctx_type := DIAMCTX_DIAM, sessionIdLength := 4,
     commandCode := DIAM_CMD_CCR, flags := cmd_flags0\<lparr>DIAM_CMD_FLAG_R := True\<rparr>,
     ccRequestType := DIAM_CC_INITIAL_REQUEST, applId := 4, endToEndId := 9,
     buf_data := (\<lambda>i. of_nat (65 + i))\<rparr>"

definition sample_main :: "sample_world main_env" where
  "sample_main = \<lparr>env_of = sample_env,
     fep_dev_open = (\<lambda>w. (0, w)), fep_dev_close = (\<lambda>w. w), fep_q_init = (\<lambda>w. (0, w)),
     fep_timer_alloc = (\<lambda>w. (True, w)), fep_timer_start = (\<lambda>w. (0, w)),
     fep_timer_stop = (\<lambda>w. (0, w)), fep_timer_free = (\<lambda>w. (0, w)),
     fep_q_receive = (\<lambda>w bs. (SUCCESS, (\<lambda>_. 0)(0 := 100), \<lambda>_. sample_ccr, w)),
     fep_default_qmsg_handler = (\<lambda>m w. (FAILURE, w)), fep_get_qid = (\<lambda>w. 3),
     print_fsm_on = False, raw_bytes = (\<lambda>c. ''key''), meas_bytes = (\<lambda>m i. 0), meas_size = 8,
     time_itoa = (\<lambda>t. []), us_address = (\<lambda>p. of_nat (4096 + p)),
     user_session_sprint = (\<lambda>u. []), SUB_ID_LEN_MIN = 1, SUB_ID_LEN_MAX = 32,
     MSG_DSM_TIMER = 1, MSG_DSM_UPDATE_TG = 2, MSG_DSM_UPDATE_CP = 3, MSG_FEM_CONFIG_UPDATE = 4,
     MSG_FEM_CONFIG_OK = 5, MSG_FEM_GET_COUNTERS = 6, MSG_FEM_RET_COUNTERS = 7,
     MSG_FEM_KEY_SET = 8, MSG_FEM_KEY_CLEAR = 9, MSG_FEM_KEY_DISPLAY_REQ = 10,
     MSG_FEM_KEY_DISPLAY_ACK = 11, FEP_Q_DSM = 12, OMP_ZERO = 1\<rparr>"

lemma sample_main_contract: "main_contract sample_main sample_live"
  using sample_pool_contract
  by (simp add: main_contract_def sample_main_def sample_live_def) (simp add: sample_env_def)

definition dsm1 :: "sample_world dsm" where
  "dsm1 = dsm0\<lparr>bufs := (\<lambda>_. sample_ccr)\<rparr>"

lemma sample_views:
  assumes "s = dsm0 \<or> s = dsm1"
  shows "coh s q = None" "dqh s i = None" "uh s p = None" "que s p = []" "tcc s p = ID_UNDEF"
    "tg s p = ID_UNDEF" "aid s p = APP_SM_UNDEF" "ast s p = STATE_CCAS_UNDEF" "snd (sid s p) = 0"
    "uid s p = INDEX_TO_ID p" "callwheel s = (\<lambda>_. [])" "wheel_index s = 0" "ccdb_lists s = (\<lambda>_. [])"
    "ccdb_time s = []" "sample_live P (world s) = {}" "co_id (callouts s q) = INDEX_TO_ID q"
  using assms
  by (auto simp: dsm1_def dsm0_def view_defs callout0_def user_session0_def dgc_qmsg0_def ID_UNDEF_def
      sample_live_def sample_w0_def)

lemma sample_hinv:
  assumes s: "s = dsm0 \<or> s = dsm1"
  shows "hinv E sample_live {} {} s"
proof -
  note v = sample_views [OF s]
  have c: "co_head (callouts s q) = None" for q using v(1) by (simp add: coh_def)
  have "wf_tdb {} s" by (rule wf_tdbI) (simp_all add: v c CALLWHEELSIZE_def)
  moreover have "wf_us s" by (simp add: wf_us_def v)
  moreover have "wf_queue s" by (simp add: wf_queue_def v)
  moreover have "wf_live sample_live s" by (simp add: wf_live_def v)
  moreover have "own {} s" by (simp add: own_def v)
  ultimately have "winv sample_live {} s" by (simp add: winv_def)
  thus ?thesis by (simp add: hinv_def sok_def unheld_def tab_def named_def v)
qed

lemma sample_blank: "blank_beyond dsm0"
  by (simp add: blank_beyond_def sample_views)

lemma sample_directory: "s = dsm0 \<or> s = dsm1 \<Longrightarrow> directory E s k = None"
  using directory_iff [OF sample_hinv, of s E k] by (cases "directory E s k") (auto simp: named_def sample_views)

lemma sample_opens: "opens_session sample_env 0 dsm1"
  using sample_directory [of dsm1 sample_env]
  by (simp add: opens_session_def)
     (simp add: dsm1_def sample_ccr_def diamctx0_def is_new_us_def valid_sid_def sample_env_def)

lemma sample_db_ok: "db_ok sample_env sample_live dsm1"
  using sample_hinv sample_pool_contract by (simp add: db_ok_def)

lemma first_free_empty: "first_free 0 [] = Some 0"
  by (subst first_free.simps) (simp add: USER_SESSION_SIZE_def)

lemmas eval_save = user_session_save_def is_retransmit_def valid_command_def save_diam_def
  is_new_us_def save_new_us_def set_asm_id_def set_asm_state_def stt_of_def stt_def set_peer_fe_def
  set_package_type_def package_type_of_def save_tid_local_def save_new_tid_def set_tid_local_def
  tid_part_def save_succ_def ID_VALID_def INDEX_TO_ID_def tid_compose_def SHIFT_TID_FE_def
  SHIFT_TID_FE_PEER_def SHIFT_TID_CSI_def SHIFT_TID_CC_def

lemmas eval_sample = sample_env_def dsm1_def dsm0_def sample_w0_def first_free_empty sample_ccr_def
  diamctx0_def cmd_flags0_def user_session0_def callout0_def

lemma sample_add:
  "0 \<le> h \<Longrightarrow> h \<le> 262143 \<Longrightarrow> fst (user_session_add sample_env (Some 0) h (dsm1\<lparr>meas := m\<rparr>)) = Some 0"
  by (simp add: user_session_add_def Let_def case_prod_beta USER_SESSION_MASK_def eval_sample eval_save
      upd_defs)

definition dsm2 :: "sample_world dsm" where
  "dsm2 = snd (us_put sample_env 0 dsm1)"

lemma sample_put: "us_put sample_env 0 dsm1 = (Some 0, dsm2)"
proof -
  have v: "valid_sid sample_env (sessionIdLength (bufs dsm1 0))"
    using sample_opens by (simp add: opens_session_def)
  have "bucket sample_env a n \<le> 262143" for a n
    using bucket_less [of sample_env a n] by (simp add: USER_SESSION_SIZE_def)
  hence "fst (us_put sample_env 0 dsm1) = Some 0"
    using v by (simp add: us_put_def Let_def user_session_hash_result cnt_meas sample_add)
  thus ?thesis by (simp add: dsm2_def prod_eq_iff)
qed

text \<open>A system whose pools are exhausted.\<close>

definition full_env :: "sample_world env" where
  "full_env = sample_env\<lparr>new_private := (\<lambda>P w. (None, w))\<rparr>"

lemma full_db_ok: "db_ok full_env sample_live dsm1"
  using sample_hinv sample_pool_contract
  by (simp add: db_ok_def pool_contract_def full_env_def)

lemma full_opens: "opens_session full_env 0 dsm1"
  using sample_opens sample_directory [of dsm1 full_env]
  by (simp add: opens_session_def valid_sid_def full_env_def)

section \<open>The handler of the request\<close>

text \<open>The expiry of the guard timer is not changed by saving a message.\<close>

lemma tge_save [simp]:
  "ccdb_tg_expiry (snd (set_peer_fe E s)) = ccdb_tg_expiry s"
  "ccdb_tg_expiry (snd (set_package_type q s)) = ccdb_tg_expiry s"
  "ccdb_tg_expiry (snd (set_tid_local E f i s)) = ccdb_tg_expiry s"
  "ccdb_tg_expiry (snd (set_flags_trap q s)) = ccdb_tg_expiry s"
  "ccdb_tg_expiry (snd (set_asm_id E q s)) = ccdb_tg_expiry s"
  "ccdb_tg_expiry (snd (set_asm_state q e s)) = ccdb_tg_expiry s"
  by (simp_all add: set_peer_fe_def set_package_type_def set_tid_local_def set_flags_trap_def
      set_asm_id_def set_asm_state_def stt_of_def Let_def case_prod_beta split: option.split)

lemma tge_save_parts [simp]:
  "ccdb_tg_expiry (save_trap p s) = ccdb_tg_expiry s"
  "ccdb_tg_expiry (snd (save_fail s)) = ccdb_tg_expiry s"
  "ccdb_tg_expiry (snd (save_succ s)) = ccdb_tg_expiry s"
  "ccdb_tg_expiry (snd (save_new_us E c p s)) = ccdb_tg_expiry s"
  "ccdb_tg_expiry (snd (save_tid_local E p s)) = ccdb_tg_expiry s"
  "ccdb_tg_expiry (save_diam_avps E c p s) = ccdb_tg_expiry s"
  by (simp_all add: save_trap_def save_fail_def save_succ_def save_new_us_def save_tid_local_def
      save_new_tid_def save_diam_avps_def Let_def case_prod_beta)

lemma tge_save_ends [simp]:
  "ccdb_tg_expiry (snd (save_retransmit c p s)) = ccdb_tg_expiry s"
  "ccdb_tg_expiry (snd (save_abort c p s)) = ccdb_tg_expiry s"
  "ccdb_tg_expiry (snd (save_diam E c p s)) = ccdb_tg_expiry s"
  "ccdb_tg_expiry (snd (save_gdi E c p s)) = ccdb_tg_expiry s"
  by (simp_all add: save_retransmit_def save_abort_def save_diam_def save_gdi_def save_gdi_cca_def
      save_gdi_asr_def save_gdi_rar_def save_gdi_sta_def Let_def case_prod_beta
      split: package_type.split command_code.split)

lemma tge_add: "ccdb_tg_expiry (snd (user_session_add E b h s)) = ccdb_tg_expiry s"
proof -
  have "ccdb_tg_expiry (snd (user_session_save E b q t)) = ccdb_tg_expiry t" for b q t
    by (simp add: user_session_save_def Let_def split: option.split diamctx_type.split)
  thus ?thesis
    by (simp add: user_session_add_def user_session_free_def user_session_init_def Let_def case_prod_beta split: option.split)
qed

lemma construct_diam_succ:
  fixes s :: "'w dsm"
  assumes "uh s p \<noteq> None" "bty s b = DIAMCTX_DIAM" "commandCode (bufs s b) = DIAM_CMD_CCR"
  shows "fst (qmsg_diamctx_construct E (Some b) (Some p) False s) = SUCCESS
    \<and> ccdb_tg_expiry (snd (qmsg_diamctx_construct E (Some b) (Some p) False s)) = ccdb_tg_expiry s"
proof -
  define t where "t = upd_buf b (\<lambda>c. c\<lparr>packageType := package_type (gd s p), localTid := tid_local (gd s p)\<rparr>) s"
  have t: "commandCode (bufs t b) = DIAM_CMD_CCR" "ccdb_tg_expiry t = ccdb_tg_expiry s" using assms(3) by (simp_all add: t_def)
  have c: "fst (construct_common b p x) = SUCCESS \<and> ccdb_tg_expiry (snd (construct_common b p x)) = ccdb_tg_expiry x" for x :: "'w dsm"
    by (simp add: construct_common_def Let_def case_prod_beta)
  have "\<exists>x. construct_diam E False b p s = (True, x) \<and> ccdb_tg_expiry x = ccdb_tg_expiry s"
    using t by (simp add: construct_diam_def construct_remote_def Let_def t_def)
  thus ?thesis using assms(1,2) c
    by (auto simp: qmsg_diamctx_construct_def view_fold)
qed

lemma start_tg_sample:
  assumes "live_list (world s) Callout_pool = []" "ccdb_tg_expiry s = 60000" "wheel_index s = 0" "co_id (callouts s 0) = 1"
  shows "ID_VALID (tg (start_tg sample_env 0 s) 0)"
  using assms by (simp add: start_tg_def Let_def case_prod_beta callout_set_def callout_new_def call_def sample_env_def first_free_empty
   slot_index_def CALLWHEELSIZE_def CALLWHEELMASK_def CALLOUTTIMER_def CALLWHEELBITS_def callout_insert_def tg_def ID_VALID_def upd_cc_def upd_us_def cnt_def upd_co_def)

lemma sample_finish:
  assumes I: "hinv sample_env sample_live {} {} s" and p: "uh s 0 \<noteq> None" "aid s 0 = APP_SM_CCAS" "ast s 0 = STATE_CCAS_IDLE"
    and b: "bufs s = (\<lambda>_. sample_ccr)" and w: "callouts s = callouts dsm1" "wheel_index s = 0" "ccdb_tg_expiry s = 60000"
  shows "fst (diam_finish sample_env 0 0 EVENT_CCAS_RX_DIAM_CCR_INIT s) = R_SUCCESS"
proof -
  define x where "x = qmsg_diamctx_construct sample_env (Some 0) (Some 0) False s"
  have x: "fst x = SUCCESS" "ccdb_tg_expiry (snd x) = 60000"
    using construct_diam_succ [OF p(1), of 0] w(3) by (simp_all add: x_def b sample_ccr_def bty_def)
  have k: "skel sample_live (snd x) = skel sample_live s" by (simp add: x_def)
  note v = skel_views [OF k]
  have "sample_live Callout_pool (world s) = {}"
    using invD(4) [OF hinvD(1) [OF I]] w(1) sample_views(1) [of dsm1]
    by (simp add: wf_live_def coh_def)
  hence l: "live_list (world (snd x)) Callout_pool = []"
    using v(18) [of Callout_pool] by (simp add: sample_live_def)
  have "co_id (callouts (snd x) 0) = 1"
    using v(13) w(1) sample_views(16) [of dsm1 0] by (simp add: INDEX_TO_ID_def)
  hence g: "ID_VALID (tg (start_tg sample_env 0 (snd x)) 0)"
    using start_tg_sample [OF l x(2)] v(15) w(2) by simp
  define y where "y = start_tg sample_env 0 (snd x)"
  have K: "kept s y" unfolding y_def by (rule kept_trans [OF kept_skel [OF k] kept_start(1)])
  have n: "fst (set_asm_state (Some 0) EVENT_CCAS_RX_DIAM_CCR_INIT y) = STATE_CCAS_PROC_REQ"
    using K p by (simp add: kept_def set_asm_state_result next_state_def stt_def stt_case_def stt_tables)
  show ?thesis
    using x(1) g n
    by (simp add: diam_finish_def diam_effect_def forward_events_def diam_forward_def Let_def
        case_prod_beta x_def [symmetric] tcc_id_cc y_def [symmetric])
qed

lemma sample_request:
  "\<exists>s'. process_diam sample_env m f (Some 0) (Some None) dsm1 = Some (R_SUCCESS, Some 0, s')"
proof -
  let ?h = "bucket sample_env (FEP_BUF_SID (bufs dsm1 0)) (sessionIdLength (bufs dsm1 0))"
  have F: "DIAM_CMD_FLAG_R (flags (bufs dsm1 0))" "\<not> DIAM_CMD_FLAG_E (flags (bufs dsm1 0))"
    by (simp_all add: dsm1_def sample_ccr_def diamctx0_def cmd_flags0_def)
  have I: "hinv sample_env sample_live {} {} dsm1" by (rule sample_hinv) simp
  obtain ms where D: "process_diam sample_env m f (Some 0) (Some None) dsm1
    = (case user_session_add sample_env (Some 0) (int ?h) (dsm1\<lparr>meas := ms\<rparr>) of
      (None, t) \<Rightarrow> Some (DIAMETER_UNABLE_TO_COMPLY, None, cnt ''ds_ccdb_process_diam_fail'' t)
    | (Some p, t) \<Rightarrow> (case diam_finish sample_env 0 p (request_event (bufs dsm1 0)) t of
        (rv, s') \<Rightarrow> Some (rv, Some p, s')))"
    using process_diam_request [OF I sample_opens F] by blast
  define t where "t = dsm1\<lparr>meas := ms\<rparr>"
  have k: "skel sample_live t = skel sample_live dsm1" "bufs t = bufs dsm1" by (simp_all add: t_def)
  have J: "hinv sample_env sample_live {} {} t" "opens_session sample_env 0 t"
    using I hinv_skel [OF k(1)] sample_opens opens_session_skel [OF I k] by simp_all
  have "?h \<le> 262143"
    using bucket_less [of sample_env "FEP_BUF_SID (bufs dsm1 0)" "sessionIdLength (bufs dsm1 0)"]
    by (simp add: USER_SESSION_SIZE_def)
  then obtain t1 where a: "user_session_add sample_env (Some 0) (int ?h) t = (Some 0, t1)"
    using sample_add [of "int ?h" ms] by (cases "user_session_add sample_env (Some 0) (int ?h) t") (simp add: t_def)
  note A = add_cases [OF J(1) sample_pool_contract J(2), unfolded k(2), OF a]
  have "ccdb_tg_expiry t1 = 60000"
    using tge_add [of sample_env "Some 0" "int ?h" t] a by (simp add: t_def dsm1_def dsm0_def)
  moreover have "callouts t1 = callouts dsm1" "wheel_index t1 = 0" "bufs t1 = (\<lambda>_. sample_ccr)"
    using A(4) k(2) by (simp_all add: t_def sample_views) (simp add: dsm1_def)
  moreover have "uh t1 0 \<noteq> None" "aid t1 0 = APP_SM_CCAS" "ast t1 0 = STATE_CCAS_IDLE"
    using A(3) [OF refl] A(4) [OF refl] by (simp_all add: named_def)
  ultimately have "fst (diam_finish sample_env 0 0 EVENT_CCAS_RX_DIAM_CCR_INIT t1) = R_SUCCESS"
    by (intro sample_finish [OF A(1)])
  moreover have "request_event (bufs dsm1 0) = EVENT_CCAS_RX_DIAM_CCR_INIT"
    by (simp add: request_event_def dsm1_def sample_ccr_def)
  ultimately show ?thesis
    using D a by (cases "diam_finish sample_env 0 0 EVENT_CCAS_RX_DIAM_CCR_INIT t1") (simp add: t_def)
qed

text \<open>The process after the request, with the guard timer of the session pending.\<close>

definition dsm3 :: "sample_world dsm" where
  "dsm3 = snd (snd (the (process_diam sample_env (\<lambda>_. 0) False (Some 0) (Some None) dsm1)))"

lemma dsm3_request:
  "process_diam sample_env (\<lambda>_. 0) False (Some 0) (Some None) dsm1 = Some (R_SUCCESS, Some 0, dsm3)"
  using sample_request [of "\<lambda>_. 0" False] by (auto simp: dsm3_def)

lemma dsm3_hinv: "hinv sample_env sample_live {} {} dsm3"
proof -
  have "bty dsm1 0 = DIAMCTX_DIAM" by (simp add: bty_def dsm1_def sample_ccr_def)
  from process_diam_ok [OF sample_hinv sample_pool_contract this, of "\<lambda>_. 0" False]
  show ?thesis by (simp add: dsm3_request diam_post_def)
qed

lemma dsm3_timer:
  "\<exists>n. timers dsm3 (ID_TO_INDEX (tg_id (cc dsm3 0))) = Some (Some Process_expire_tg, Some 0, n)"
proof -
  have F: "DIAM_CMD_FLAG_R (flags (bufs dsm1 0))" "\<not> DIAM_CMD_FLAG_E (flags (bufs dsm1 0))"
    by (simp_all add: dsm1_def sample_ccr_def diamctx0_def cmd_flags0_def)
  have I: "hinv sample_env sample_live {} {} dsm1" by (rule sample_hinv) simp
  note R = initial_request_ok [OF I sample_pool_contract sample_opens F dsm3_request]
  have d: "directory sample_env dsm3 (ctx_name 0 dsm1) = Some 0" "ID_VALID (tg dsm3 0)"
    using R by auto
  hence u: "uh dsm3 0 \<noteq> None" using directory_iff [OF dsm3_hinv] by (simp add: named_def)
  note W = invD [OF hinvD(1) [OF dsm3_hinv]]
  have "tg_owned dsm3 0" using W(5) u by (simp add: own_def)
  hence "coh dsm3 (ID_TO_INDEX (tg dsm3 0)) \<noteq> None
      \<and> cof dsm3 (ID_TO_INDEX (tg dsm3 0)) = Some Process_expire_tg
      \<and> coa dsm3 (ID_TO_INDEX (tg dsm3 0)) = Some 0" using d(2) by (simp add: tg_owned_def Let_def)
  thus ?thesis
    using timers_eq [OF W(1), of "ID_TO_INDEX (tg dsm3 0)"]
    by (auto simp: tcc_id_cc coh_def cof_def coa_def)
qed

end
