(* ===== verification/Dsm_Props.thy ===== *)
theory Dsm_Props
  imports Sample_Run
begin

text \<open>
  The properties of the session manager as a whole, each with a witness on the concrete system of
  theory \<open>Sample_Run\<close>.
\<close>

section \<open>The program\<close>



text \<open>
  C10: Start-up establishes the well-formedness of all data: every element of the three arrays is
  numbered, unlinked and in no list, and the invariant holds.
\<close>
theorem start_well_formed:
  assumes "blank_beyond s" and "main_contract M live"
    and "s' = initialize_ccdb (env_of M) (initialize_tdb (env_of M) s)"
  shows "hinv (env_of M) live {} {} s' \<and> emptied s'"
  using initialize_hinv [OF assms(1,2)] initialize_views [OF assms(1), where E = "env_of M"]
  by (simp add: emptied_def assms(3) initialize_ccdb_state)

theorem start_well_formed_witness:
  "hinv sample_env sample_live {} {} (initialize_ccdb sample_env (initialize_tdb sample_env dsm0))"
  using start_well_formed [OF sample_blank sample_main_contract refl] by (simp add: sample_main_def)



text \<open>
  C3: One tick of the timer returns and keeps the invariant, although the callbacks cancel and set
  timers, also in the slot the loop is walking through, and may remove their session.
\<close>
theorem process_timer_keeps_invariant:
  assumes "hinv E live {} {} s" and "pool_contract E live"
  shows "ok (\<lambda>s'. hinv E live {} {} s' \<and> wheel_index s' = (wheel_index s + 1) mod CALLWHEELSIZE)
    (process_timer E (dsm_handler E) s)"
  using process_timer_ok [OF assms] .

theorem process_timer_keeps_invariant_witness:
  "ok (\<lambda>s'. wheel_index s' = 1) (process_timer sample_env (dsm_handler sample_env) dsm0)"
  by (rule ok_mono [OF process_timer_keeps_invariant [OF sample_hinv sample_pool_contract]])
     (simp_all add: dsm0_def CALLWHEELSIZE_def)





section \<open>The session table\<close>

text \<open>
  C5: The table is a faithful directory. A lookup by a Session-Id finds a session exactly when the
  session is in use, runs the credit control state machine and has this Session-Id, whatever the
  hash function does with it.
\<close>
theorem lookup_exact:
  assumes "hinv E live {} {} s"
  shows "directory E s k = Some p \<longleftrightarrow> us_head (sessions s p) \<noteq> None
    \<and> asm_id (cc s p) = APP_SM_CCAS
    \<and> map (session_id (diam s p)) [0..<nat (session_id_len (diam s p))] = k"
  using directory_iff [OF assms, of k p]
  by (simp add: named_def us_name_def view_defs cc_def diam_def)

theorem lookup_exact_witness:
  "directory sample_env dsm2 (ctx_name 0 dsm1) = Some 0 \<and> us_head (sessions dsm2 0) \<noteq> None"
proof -
  note P = sessions.put_some [OF sample_db_ok sample_opens sample_put]
  have "hinv sample_env sample_live {} {} dsm2" using P by (simp add: db_ok_def)
  moreover have "directory sample_env dsm2 (ctx_name 0 dsm1) = Some 0" using P by simp
  ultimately show ?thesis using lookup_exact [of sample_env sample_live dsm2 "ctx_name 0 dsm1" 0] by blast
qed

text \<open>
  C4: Adding a session implements the update of the directory: the new session is found under the
  Session-Id of the message that opened it, every other lookup gives what it gave before.
\<close>
theorem add_refines_update:
  assumes "db_ok E live s" and "opens_session E b s" and "us_put E b s = (Some p, s')"
  shows "directory E s' = (directory E s)(ctx_name b s := Some p)"
  using sessions.put_some [OF assms] by simp

theorem add_refines_update_witness:
  "directory sample_env dsm2 = (directory sample_env dsm1)(ctx_name 0 dsm1 := Some 0)"
  by (rule add_refines_update [OF sample_db_ok sample_opens sample_put])

text \<open>
  C12: A session that cannot be added, because no element is free or its data cannot be saved,
  leaves the directory as it was and the invariant intact.
\<close>
theorem failed_add_changes_nothing:
  assumes "db_ok E live s" and "opens_session E b s" and "us_put E b s = (None, s')"
  shows "directory E s' = directory E s \<and> hinv E live {} {} s'"
  using sessions.put_none [OF assms] by (simp add: db_ok_def)

theorem failed_add_changes_nothing_witness:
  "directory full_env (snd (us_put full_env 0 dsm1)) = directory full_env dsm1"
proof -
  obtain q s' where r: "us_put full_env 0 dsm1 = (q, s')" by fastforce
  have "valid_sid full_env (sessionIdLength (bufs dsm1 0))"
    using full_opens by (simp add: opens_session_def)
  hence "q = None"
    using r by (auto simp: us_put_def Let_def user_session_hash_result user_session_add_def case_prod_beta
        full_env_def call_def split: if_splits)
  thus ?thesis using failed_add_changes_nothing [OF full_db_ok full_opens] r by simp
qed

text \<open>
  C11: Adding a session and removing it again leaves the directory as it was.
\<close>
theorem add_remove_roundtrip:
  assumes "db_ok E live s" and "opens_session E b s" and "us_put E b s = (Some p, s')"
  shows "ok (\<lambda>s''. directory E s'' = directory E s) (us_del E p s')"
  by (rule ok_mono [OF sessions.put_del [OF assms]]) simp

theorem add_remove_roundtrip_witness:
  "ok (\<lambda>s''. directory sample_env s'' = directory sample_env dsm1) (us_del sample_env 0 dsm2)"
  by (rule add_remove_roundtrip [OF sample_db_ok sample_opens sample_put])

section \<open>The handlers\<close>

text \<open>
  C6: A request that opens a session and is answered with success has a session in the directory
  under its Session-Id, in the state that waits for the ISCP (of the first or of the only request),
  with its guard timer running; no other entry of the directory changes.
\<close>
theorem request_opens_session:
  assumes "hinv E live {} {} s" and "pool_contract E live" and "opens_session E b s"
    and "DIAM_CMD_FLAG_R (flags (bufs s b))" and "\<not> DIAM_CMD_FLAG_E (flags (bufs s b))"
    and "process_diam E m flag_queued (Some b) (Some None) s = Some (R_SUCCESS, q, s')"
  shows "\<exists>p. q = Some p \<and> directory E s' = (directory E s)(ctx_name b s := Some p)
    \<and> asm_state (cc s' p) = (if ccRequestType (bufs s b) = DIAM_CC_INITIAL_REQUEST
         then STATE_CCAS_PROC_REQ else STATE_CCAS_PROC_REQ_FINAL)
    \<and> ID_VALID (tg_id (cc s' p))"
  using initial_request_ok [OF assms] by (simp only: view_fold)

theorem request_opens_session_witness:
  "ok (\<lambda>(rv, q, s'). rv = R_SUCCESS \<and> q = Some 0 \<and> asm_state (cc s' 0) = STATE_CCAS_PROC_REQ
      \<and> ID_VALID (tg_id (cc s' 0))) (process_diam sample_env (\<lambda>_. 0) False (Some 0) (Some None) dsm1)"
proof -
  have F: "DIAM_CMD_FLAG_R (flags (bufs dsm1 0))" "\<not> DIAM_CMD_FLAG_E (flags (bufs dsm1 0))"
    "ccRequestType (bufs dsm1 0) = DIAM_CC_INITIAL_REQUEST"
    by (simp_all add: dsm1_def sample_ccr_def diamctx0_def cmd_flags0_def)
  have I: "hinv sample_env sample_live {} {} dsm1" by (rule sample_hinv) simp
  obtain s' where s': "process_diam sample_env (\<lambda>_. 0) False (Some 0) (Some None) dsm1 = Some (R_SUCCESS, Some 0, s')"
    using sample_request by blast
  show ?thesis
    using request_opens_session [OF I sample_pool_contract sample_opens F(1,2) s'] F(3) s' by simp
qed

text \<open>
  C7: A message that needs a session and names one the directory does not have, an update or
  termination request, an ASA, an RAA or an STR, is refused with DIAMETER_UNKNOWN_SESSION_ID;
  nothing but counters changes, and the failure of the handler is counted once.
\<close>
theorem unknown_session_refused:
  assumes "hinv E live {} {} s" and "valid_sid E (sessionIdLength (bufs s b))"
    and "directory E s (ctx_name b s) = None" and "needs_session (bufs s b)"
  shows "ok (\<lambda>(rv, q, s'). rv = DIAMETER_UNKNOWN_SESSION_ID \<and> q = None
      \<and> only_counted ''ds_ccdb_process_diam_fail'' s s')
    (process_diam E m flag_queued (Some b) (Some None) s)"
  using unknown_session_ok [OF assms] .

theorem unknown_session_refused_witness:
  "ok (\<lambda>(rv, q, s'). rv = DIAMETER_UNKNOWN_SESSION_ID)
    (process_diam sample_env (\<lambda>_. 0) False (Some 0) (Some None) (dsm1\<lparr>bufs := (\<lambda>_. sample_ccr
       \<lparr>ccRequestType := DIAM_CC_UPDATE_REQUEST\<rparr>)\<rparr>))" (is "ok _ (process_diam _ _ _ _ _ ?s)")
proof -
  have k: "core sample_live ?s = core sample_live dsm1" by (simp add: core_def)
  have I: "hinv sample_env sample_live {} {} ?s" using sample_hinv hinv_core [OF k] by blast
  have "\<not> named ?s p" for p using core_views(1) [OF k] sample_views(3) [of dsm1] by (simp add: named_def)
  hence "directory sample_env ?s n = None" for n
    using directory_iff [OF I, of n] by (cases "directory sample_env ?s n") auto
  moreover have "valid_sid sample_env (sessionIdLength (bufs ?s 0))" "needs_session (bufs ?s 0)"
    by (simp_all add: valid_sid_def sample_env_def sample_ccr_def diamctx0_def needs_session_def cmd_flags0_def)
  ultimately show ?thesis
    using unknown_session_refused [OF I, of 0 "\<lambda>_. 0" False] by (auto intro: ok_mono)
qed

text \<open>
  C13: The control messages, the configuration update, the request for the counters, the three
  messages of the subscriber trap and the update of the guard time, leave sessions, queues and
  timers as they are.
\<close>
theorem control_messages_keep_sessions:
  assumes "m 0 = MSG_FEM_CONFIG_UPDATE M \<or> m 0 = MSG_FEM_GET_COUNTERS M \<or> m 0 = MSG_FEM_KEY_SET M
      \<or> m 0 = MSG_FEM_KEY_CLEAR M \<or> m 0 = MSG_FEM_KEY_DISPLAY_REQ M \<or> m 0 = MSG_DSM_UPDATE_TG M"
    and "m 0 \<noteq> MSG_DSM_TIMER M"
  shows "ok (same_db s) (dispatch M m s)"
  using assms by (auto simp: dispatch_def Let_def same_db_control)

theorem control_messages_keep_sessions_witness:
  "ok (same_db dsm1) (dispatch sample_main (\<lambda>_. 6) dsm1)"
  by (rule control_messages_keep_sessions) (simp_all add: sample_main_def)

text \<open>
  The report of the counters, when every service succeeds, carries the counters as they are
  when it is built, in a buffer of their size; the request with OMP_ZERO clears them afterwards,
  and any other one counts itself once.
\<close>
theorem get_counters_reports:
  assumes "fep_alloc_buffer (env_of M) (world s) = (Some b, w1)"
    and "buf_to_parm (env_of M) (Some b) w1 = (parm, w2)" and "0 \<le> parm"
    and "tell_fem (env_of M) (MSG_FEM_RET_COUNTERS M) (m 1) (FEP_Q_DSM M) (of_int parm) w2 = (SUCCESS, w3)"
    and "s' = process_get_counters M m s"
  shows "buf_data (bufs s' b) = memcpy (buf_data (bufs s b))
        (meas_bytes M (inc ''ds_api_fep_alloc_buffer_succ'' (meas s))) (nat (meas_size M))
    \<and> buf_len (bufs s' b) = meas_size M
    \<and> (if m 3 = OMP_ZERO M then meas s' = zero_meas
        else meas s' ''ds_main_process_get_counters_succ''
           = Suc (meas s ''ds_main_process_get_counters_succ''))"
  using get_counters_success [of M s b w1 parm w2 m w3, OF assms(1-4)] by (simp add: assms(5))

theorem get_counters_reports_witness:
  "meas (process_get_counters sample_main (\<lambda>_. 1) dsm1) = zero_meas"
  using get_counters_reports [of sample_main dsm1 0 "sample_w0\<lparr>next_buf := 1\<rparr>" 0
      "sample_w0\<lparr>next_buf := 1\<rparr>" "\<lambda>_. 1" "sample_w0\<lparr>next_buf := 1\<rparr>", OF _ _ _ _ refl]
  by (simp add: sample_main_def sample_env_def dsm1_def dsm0_def sample_w0_def)

end
