(* ===== verification/C_Text.thy ===== *)
theory C_Text
  imports Prelude
begin

text \<open>
  What the programs use of the C library on text: characters and buffers of them, character classes,
  \<open>atoi\<close> and \<open>%d\<close>. A read or a write outside a buffer is \<open>None\<close>.
\<close>

definition NUL :: char where "NUL = CHR 0x00"
definition CR :: char where "CR = CHR 0x0D"
definition NL :: char where "NL = CHR 0x0A"

definition cell_at :: "string \<Rightarrow> nat \<Rightarrow> char option" where
  "cell_at b i = (if i < length b then Some (b ! i) else None)"

definition put_cell :: "string \<Rightarrow> nat \<Rightarrow> char \<Rightarrow> string option" where
  "put_cell b i c = (if i < length b then Some (b[i := c]) else None)"

text \<open>The string in a buffer, up to the first NUL: what \<open>%s\<close> prints and \<open>strlen\<close> counts.\<close>

definition cstr :: "string \<Rightarrow> string" where
  "cstr = takeWhile (\<lambda>c. c \<noteq> NUL)"

text \<open>A string copied to the front of a buffer that holds it.\<close>

definition overwrite :: "string \<Rightarrow> string \<Rightarrow> string" where
  "overwrite new old = new @ drop (length new) old"

lemma put_next: "q = length a \<Longrightarrow> put_cell (a @ b0 # bs) q c = Some (a @ c # bs)"
  by (simp add: put_cell_def)

lemma cstr_NUL: "cstr (l @ NUL # b) = cstr l"
  by (induction l) (simp_all add: cstr_def)

lemma cstr_id: "NUL \<notin> set v \<Longrightarrow> cstr v = v"
  by (auto simp: cstr_def takeWhile_eq_all_conv)

definition isspace :: "char \<Rightarrow> bool" where
  "isspace c \<longleftrightarrow> c = CHR '' '' \<or> (0x09 :: nat) \<le> of_char c \<and> of_char c \<le> (0x0d :: nat)"

definition isdigit :: "char \<Rightarrow> bool" where
  "isdigit c \<longleftrightarrow> (0x30 :: nat) \<le> of_char c \<and> of_char c \<le> (0x39 :: nat)"

definition digit_val :: "char \<Rightarrow> nat" where
  "digit_val c = of_char c - 0x30"

definition digits_val :: "string \<Rightarrow> nat" where
  "digits_val = foldl (\<lambda>a c. 10 * a + digit_val c) 0"

definition atoi :: "string \<Rightarrow> int" where
  "atoi s = (let s = dropWhile isspace s in
     if take 1 s = ''-'' then - int (digits_val (takeWhile isdigit (drop 1 s)))
     else if take 1 s = ''+'' then int (digits_val (takeWhile isdigit (drop 1 s)))
     else int (digits_val (takeWhile isdigit s)))"

fun dec :: "nat \<Rightarrow> string" where
  "dec n = (if n < 10 then [char_of (0x30 + n)] else dec (n div 10) @ [char_of (0x30 + n mod 10)])"

declare dec.simps [simp del]

definition fmt_d :: "int \<Rightarrow> string" where
  "fmt_d x = (if x < 0 then CHR ''-'' # dec (nat (- x)) else dec (nat x))"

end
