(* ===== verification/Dsm_Debug.thy ===== *)
theory Dsm_Debug
  imports Fsm C_Text
begin

text \<open>
  The debug masks of \<open>dsm.h\<close> and the functions of \<open>dsm_main.c\<close> that format bits, dumps, times and
  strings. The array \<open>debug_mask\<close> is a list of words. What a function prints or formats is its result;
  where it would read outside a table or write outside a buffer the result is \<open>None\<close>. \<open>long\<close> has 32 bits,
  \<open>char\<close> is signed, and the log output of \<open>FEP_XPRINT\<close> is left out.
\<close>

unbundle bit_operations_syntax

section \<open>Debug masks\<close>

datatype debug =
    DEBUG_DIAMCTX_QUEUE | DEBUG_DIAMCTX_RECV | DEBUG_DIAMCTX_XMIT | DEBUG_DSM | DEBUG_DSM_1 | DEBUG_DSM_2 |
    DEBUG_ENTERED | DEBUG_FREQUENT | DEBUG_HEX_DUMP | DEBUG_MSG_CLOSE_ENTER | DEBUG_MSG_CLOSE_EXIT |
    DEBUG_MSG_DIAM_ENTER | DEBUG_MSG_DIAM_EXIT | DEBUG_MSG_EXPTCC_ENTER | DEBUG_MSG_EXPTCC_EXIT |
    DEBUG_MSG_EXPTG_ENTER | DEBUG_MSG_EXPTG_EXIT | DEBUG_MSG_GDI_ENTER | DEBUG_MSG_GDI_EXIT |
    DEBUG_MSG_MISC_ENTER | DEBUG_MSG_QUEUE_ENTER | DEBUG_MSG_QUEUE_EXIT | DEBUG_MSG_UPCP_ENTER |
    DEBUG_MSG_UPCP_EXIT | DEBUG_MSG_USRM_ENTER | DEBUG_MSG_USRM_EXIT | DEBUG_QMSG_RECV | DEBUG_QMSG_XMIT |
    DEBUG_US_REMOVE

definition debug_list :: "debug list" where
  "debug_list = [
    DEBUG_DIAMCTX_QUEUE, DEBUG_DIAMCTX_RECV, DEBUG_DIAMCTX_XMIT, DEBUG_DSM, DEBUG_DSM_1, DEBUG_DSM_2,
    DEBUG_ENTERED, DEBUG_FREQUENT, DEBUG_HEX_DUMP, DEBUG_MSG_CLOSE_ENTER, DEBUG_MSG_CLOSE_EXIT,
    DEBUG_MSG_DIAM_ENTER, DEBUG_MSG_DIAM_EXIT, DEBUG_MSG_EXPTCC_ENTER, DEBUG_MSG_EXPTCC_EXIT,
    DEBUG_MSG_EXPTG_ENTER, DEBUG_MSG_EXPTG_EXIT, DEBUG_MSG_GDI_ENTER, DEBUG_MSG_GDI_EXIT, DEBUG_MSG_MISC_ENTER,
    DEBUG_MSG_QUEUE_ENTER, DEBUG_MSG_QUEUE_EXIT, DEBUG_MSG_UPCP_ENTER, DEBUG_MSG_UPCP_EXIT,
    DEBUG_MSG_USRM_ENTER, DEBUG_MSG_USRM_EXIT, DEBUG_QMSG_RECV, DEBUG_QMSG_XMIT, DEBUG_US_REMOVE]"

definition debug_num :: "debug \<Rightarrow> int" where
  "debug_num = enum_index debug_list"

definition debug_str :: "string list" where
  "debug_str = [
    ''Type of DC to be queued'', ''Type of DC received'', ''Type of DC to be sent'',
    ''General DSM conditions (errors)'', ''General DSM conditions (warnings)'',
    ''General DSM conditions (informational)'', ''Entrance into functions'',
    ''Debugs associated with FREQUENTLY occuring code'', ''Memory hex dumps'',
    ''DC & US in GDI-DIM_Close processing (initial)'', ''DC & US in GDI-DIM_Close processing (final)'',
    ''DC & US in Diameter message processing (initial)'', ''DC & US in Diameter message processing (final)'',
    ''DC & US in Tcc expiration processing (initial)'', ''DC & US in Tcc expiration processing (final)'',
    ''DC & US in Tg expiration processing (initial)'', ''DC & US in Tg expiration processing (final)'',
    ''DC & US in GDI message processing (initial)'', ''DC & US in GDI message processing (final)'',
    ''DC with unrecognized type received'', ''DC in queued message processing (initial)'',
    ''DC in queued message processing (final)'', ''US in update CP processing (initial)'',
    ''US in update CP processing (final)'', ''DC & US in remove US processing (initial)'',
    ''DC & US in remove US processing (final)'', ''Command code of qmsg received'',
    ''Command code of qmsg sent'', ''Session-Id of US to be removed'']"

definition NUM_DEBUG :: nat where "NUM_DEBUG = nat (debug_num DEBUG_US_REMOVE) + 1"

definition DEBUG_ITOA :: "int \<Rightarrow> string" where
  "DEBUG_ITOA = table_itoa debug_str"

text \<open>\<open>debug_mask [d]\<close>\<close>

definition mask_of :: "uint list \<Rightarrow> debug \<Rightarrow> uint" where
  "mask_of m d = m ! nat (debug_num d)"

definition DEBUG_MASK_DIAMCTX_ALL :: "uint list \<Rightarrow> uint" where
  "DEBUG_MASK_DIAMCTX_ALL m = mask_of m DEBUG_DIAMCTX_QUEUE OR mask_of m DEBUG_DIAMCTX_RECV OR mask_of m DEBUG_DIAMCTX_XMIT"

definition DEBUG_MASK_EVENTS :: "uint list \<Rightarrow> uint" where
  "DEBUG_MASK_EVENTS m = DEBUG_MASK_DIAMCTX_ALL m OR mask_of m DEBUG_US_REMOVE"

definition DEBUG_MASK_DEFAULT :: "uint list \<Rightarrow> uint" where
  "DEBUG_MASK_DEFAULT m = mask_of m DEBUG_DSM OR mask_of m DEBUG_DSM_1 OR DEBUG_MASK_EVENTS m"

definition DEBUG_MASK_DSM_ALL :: "uint list \<Rightarrow> uint" where
  "DEBUG_MASK_DSM_ALL m = mask_of m DEBUG_DSM OR mask_of m DEBUG_DSM_1 OR mask_of m DEBUG_DSM_2"

definition DEBUG_MASK_MSG_CLOSE_ALL :: "uint list \<Rightarrow> uint" where
  "DEBUG_MASK_MSG_CLOSE_ALL m = mask_of m DEBUG_MSG_CLOSE_ENTER OR mask_of m DEBUG_MSG_CLOSE_EXIT"

definition DEBUG_MASK_MSG_DIAM_ALL :: "uint list \<Rightarrow> uint" where
  "DEBUG_MASK_MSG_DIAM_ALL m = mask_of m DEBUG_MSG_DIAM_ENTER OR mask_of m DEBUG_MSG_DIAM_EXIT"

definition DEBUG_MASK_MSG_EXPTCC_ALL :: "uint list \<Rightarrow> uint" where
  "DEBUG_MASK_MSG_EXPTCC_ALL m = mask_of m DEBUG_MSG_EXPTCC_ENTER OR mask_of m DEBUG_MSG_EXPTCC_EXIT"

definition DEBUG_MASK_MSG_EXPTG_ALL :: "uint list \<Rightarrow> uint" where
  "DEBUG_MASK_MSG_EXPTG_ALL m = mask_of m DEBUG_MSG_EXPTG_ENTER OR mask_of m DEBUG_MSG_EXPTG_EXIT"

definition DEBUG_MASK_MSG_GDI_ALL :: "uint list \<Rightarrow> uint" where
  "DEBUG_MASK_MSG_GDI_ALL m = mask_of m DEBUG_MSG_GDI_ENTER OR mask_of m DEBUG_MSG_GDI_EXIT"

definition DEBUG_MASK_MSG_MISC_ALL :: "uint list \<Rightarrow> uint" where
  "DEBUG_MASK_MSG_MISC_ALL m = mask_of m DEBUG_MSG_MISC_ENTER"

definition DEBUG_MASK_MSG_QUEUE_ALL :: "uint list \<Rightarrow> uint" where
  "DEBUG_MASK_MSG_QUEUE_ALL m = mask_of m DEBUG_MSG_QUEUE_ENTER OR mask_of m DEBUG_MSG_QUEUE_EXIT"

definition DEBUG_MASK_MSG_UPCP_ALL :: "uint list \<Rightarrow> uint" where
  "DEBUG_MASK_MSG_UPCP_ALL m = mask_of m DEBUG_MSG_UPCP_ENTER OR mask_of m DEBUG_MSG_UPCP_EXIT"

definition DEBUG_MASK_MSG_USRM_ALL :: "uint list \<Rightarrow> uint" where
  "DEBUG_MASK_MSG_USRM_ALL m = mask_of m DEBUG_MSG_USRM_ENTER OR mask_of m DEBUG_MSG_USRM_EXIT"

definition DEBUG_MASK_MSG_ALL :: "uint list \<Rightarrow> uint" where
  "DEBUG_MASK_MSG_ALL m = DEBUG_MASK_MSG_CLOSE_ALL m OR DEBUG_MASK_MSG_DIAM_ALL m OR DEBUG_MASK_MSG_EXPTCC_ALL m OR
    DEBUG_MASK_MSG_EXPTG_ALL m OR DEBUG_MASK_MSG_GDI_ALL m OR DEBUG_MASK_MSG_MISC_ALL m OR
    DEBUG_MASK_MSG_QUEUE_ALL m OR DEBUG_MASK_MSG_UPCP_ALL m OR DEBUG_MASK_MSG_USRM_ALL m"

definition DEBUG_MASK_QMSG_ALL :: "uint list \<Rightarrow> uint" where
  "DEBUG_MASK_QMSG_ALL m = mask_of m DEBUG_QMSG_RECV OR mask_of m DEBUG_QMSG_XMIT"

definition debug_msg_itoa :: "uint list \<Rightarrow> uint \<Rightarrow> string" where
  "debug_msg_itoa m debug_mask2 =
     (if debug_mask2 = mask_of m DEBUG_MSG_CLOSE_ENTER then ''__CLOSE_ENTER''
      else if debug_mask2 = mask_of m DEBUG_MSG_CLOSE_EXIT then ''__CLOSE_EXIT''
      else if debug_mask2 = mask_of m DEBUG_MSG_DIAM_ENTER then ''__DIAM_ENTER''
      else if debug_mask2 = mask_of m DEBUG_MSG_DIAM_EXIT then ''__DIAM_EXIT''
      else if debug_mask2 = mask_of m DEBUG_MSG_EXPTCC_ENTER then ''__EXPTCC_ENTER''
      else if debug_mask2 = mask_of m DEBUG_MSG_EXPTCC_EXIT then ''__EXPTCC_EXIT''
      else if debug_mask2 = mask_of m DEBUG_MSG_EXPTG_ENTER then ''__EXPTG_ENTER''
      else if debug_mask2 = mask_of m DEBUG_MSG_EXPTG_EXIT then ''__EXPTG_EXIT''
      else if debug_mask2 = mask_of m DEBUG_MSG_GDI_ENTER then ''__GDI_ENTER''
      else if debug_mask2 = mask_of m DEBUG_MSG_GDI_EXIT then ''__GDI_EXIT''
      else if debug_mask2 = mask_of m DEBUG_MSG_MISC_ENTER then ''__MISC_ENTER''
      else if debug_mask2 = mask_of m DEBUG_MSG_QUEUE_ENTER then ''__QUEUE_ENTER''
      else if debug_mask2 = mask_of m DEBUG_MSG_QUEUE_EXIT then ''__QUEUE_EXIT''
      else if debug_mask2 = mask_of m DEBUG_MSG_UPCP_ENTER then ''__UPCP_ENTER''
      else if debug_mask2 = mask_of m DEBUG_MSG_UPCP_EXIT then ''__UPCP_EXIT''
      else if debug_mask2 = mask_of m DEBUG_MSG_USRM_ENTER then ''__USRM_ENTER''
      else if debug_mask2 = mask_of m DEBUG_MSG_USRM_EXIT then ''__USRM_EXIT''
      else ''__?'')"

section \<open>Formats\<close>

definition hex_digit :: "nat \<Rightarrow> char" where
  "hex_digit n = (if n < 10 then char_of (0x30 + n) else char_of (0x57 + n))"

text \<open>\<open>%08x\<close> of a word, and \<open>%02d\<close> of a small number.\<close>

definition fmt_08x :: "uint \<Rightarrow> string" where
  "fmt_08x w = map (\<lambda>j. hex_digit (unat (drop_bit (28 - 4 * j) w AND 0xF))) [0..<8]"

definition fmt_02d :: "nat \<Rightarrow> string" where
  "fmt_02d n = (let s = dec n in replicate (2 - length s) (CHR ''0'') @ s)"

definition rule_line :: string where
  "rule_line = replicate 79 (CHR ''='') @ [NL]"

definition mask_line :: "uint \<Rightarrow> string \<Rightarrow> string" where
  "mask_line w s = ''0x'' @ fmt_08x w @ '': '' @ s @ [NL]"

text \<open>\<open>fep_debug_mask\<close> is the debug mask of the process.\<close>

definition PRINTF_ENTERED :: "uint list \<Rightarrow> uint \<Rightarrow> string \<Rightarrow> string" where
  "PRINTF_ENTERED m fep_debug_mask me =
     (if fep_debug_mask AND mask_of m DEBUG_ENTERED \<noteq> 0 then me @ '': Entered'' @ [NL] else [])"

definition print_debug_mask :: "uint list \<Rightarrow> uint \<Rightarrow> string \<Rightarrow> string" where
  "print_debug_mask m fep_debug_mask caller =
     PRINTF_ENTERED m fep_debug_mask ''print_debug_mask'' @
     ''print_debug_mask ('' @ caller @ ''):'' @ [NL, NL] @ ''Debug Masks'' @ [NL] @ rule_line @
     concat (map (\<lambda>i. fmt_02d i @ '': '' @ mask_line (m ! i) (DEBUG_ITOA (int i))) [0..<NUM_DEBUG]) @
     [NL] @ ''Select Combination Debug Masks'' @ [NL] @ rule_line @
     mask_line (DEBUG_MASK_DEFAULT m) ''Errors & warnings, type of DC, & Session-Id of US to be removed *'' @
     mask_line (DEBUG_MASK_DIAMCTX_ALL m) ''Type of DC to be queued, received, or to be sent'' @
     mask_line (DEBUG_MASK_DSM_ALL m) ''General DSM conditions (errors, warnings, & informational)'' @
     mask_line (DEBUG_MASK_EVENTS m) ''Type of DC, & Session-Id of US to be removed'' @
     mask_line (DEBUG_MASK_MSG_ALL m) ''DC & US in any message processing (init & final)'' @
     mask_line (DEBUG_MASK_MSG_CLOSE_ALL m) ''DC & US in GDI-DIM_Close processing (init & final)'' @
     mask_line (DEBUG_MASK_MSG_DIAM_ALL m) ''DC & US in Diameter message processing (init & final)'' @
     mask_line (DEBUG_MASK_MSG_EXPTCC_ALL m) ''DC & US in Tcc expiration processing (init & final)'' @
     mask_line (DEBUG_MASK_MSG_EXPTG_ALL m) ''DC & US in Tg expiration processing (init & final)'' @
     mask_line (DEBUG_MASK_MSG_GDI_ALL m) ''DC & US in GDI message processing (init & final)'' @
     mask_line (DEBUG_MASK_MSG_QUEUE_ALL m) ''DC in queued message processing (init & final)'' @
     mask_line (DEBUG_MASK_MSG_UPCP_ALL m) ''US in update CP processing (init & final)'' @
     mask_line (DEBUG_MASK_MSG_USRM_ALL m) ''DC & US in remove US processing (init & final)'' @
     mask_line (DEBUG_MASK_QMSG_ALL m) ''Command code of qmsg received or sent'' @
     [NL]"

text \<open>
  Start-up, given the size of the process debug mask in bits: the masks, the process mask and what is
  printed. \<open>None\<close> is the exit of the program, after a message to \<open>stderr\<close> whose two arguments are
  missing from the call.
\<close>

definition initialize_debug_mask :: "nat \<Rightarrow> (uint list \<times> uint \<times> string) option" where
  "initialize_debug_mask sizeof_fep_debug_mask =
     (if NUM_DEBUG > sizeof_fep_debug_mask then None
      else let m = map (\<lambda>i. push_bit i 1) [0..<NUM_DEBUG]
        in Some (m, 0, print_debug_mask m 0 ''initialize_debug_mask''))"

section \<open>Bits\<close>

text \<open>\<open>1 << 31\<close> is taken as the bit it denotes on the machine.\<close>

fun bit_loop :: "nat \<Rightarrow> nat \<Rightarrow> nat \<Rightarrow> uint \<Rightarrow> uint \<Rightarrow> string" where
  "bit_loop i num_bits 0 m h = []"
| "bit_loop i num_bits (Suc k) m h =
     (if h AND m \<noteq> 0 then CHR ''1'' else CHR ''0'') # (if i < num_bits \<and> i mod 8 = 0 then '' '' else []) @
     bit_loop (i + 1) num_bits k m (push_bit 1 h)"

definition bit_print :: "uint \<Rightarrow> int \<Rightarrow> string" where
  "bit_print h num_bytes = (if num_bytes \<le> 0 \<or> num_bytes > 4 then ''<Invalid num_bytes '' @ fmt_d num_bytes @ ''>''
     else let num_bits = nat num_bytes * 8 in bit_loop 1 num_bits num_bits (push_bit (num_bits - 1) 1) h)"

section \<open>Dumps\<close>

definition MAX_SZ_HEX_DUMP :: int where "MAX_SZ_HEX_DUMP = 1024"
definition offset_hex :: nat where "offset_hex = 12"
definition offset_ascii :: nat where "offset_ascii = 63"
definition hex_table :: string where "hex_table = ''0123456789ABCDEF''"

definition dump_template :: string where
  "dump_template = ''[0x01234567]'' @ replicate 68 (CHR '' '')"

text \<open>A \<open>char\<close> is signed; \<open>>>\<close> keeps its sign.\<close>

definition table_at :: "string \<Rightarrow> int \<Rightarrow> char option" where
  "table_at t i = (if 0 \<le> i \<and> i < int (length t) then Some (t ! nat i) else None)"

definition isprint :: "8 word \<Rightarrow> bool" where
  "isprint c \<longleftrightarrow> 0x20 \<le> sint c \<and> sint c < 0x7F"

definition ascii_of :: "8 word \<Rightarrow> char" where
  "ascii_of c = (if isprint c then char_of (unat c) else CHR ''.'')"

record dump =
  d_output :: string
  p_hex :: nat
  p_ascii :: nat
  addr_data :: ulong
  addr_output :: ulong
  d_text :: string

definition dump_byte :: "8 word \<Rightarrow> dump \<Rightarrow> dump option" where
  "dump_byte c t = do {
     hi \<leftarrow> table_at hex_table (sint c div 16);
     lo \<leftarrow> table_at hex_table (sint (c AND 0xF));
     o1 \<leftarrow> put_cell (d_output t) (p_hex t) (CHR '' '');
     o2 \<leftarrow> put_cell o1 (p_hex t + 1) hi;
     o3 \<leftarrow> put_cell o2 (p_hex t + 2) lo;
     o4 \<leftarrow> put_cell o3 (p_ascii t) (ascii_of c);
     Some (t\<lparr>d_output := o4, p_hex := p_hex t + 3, p_ascii := p_ascii t + 1, addr_data := addr_data t + 1\<rparr>)
   }"

definition dump_flush :: "dump \<Rightarrow> dump" where
  "dump_flush t = (let
     line = (overwrite (''[0x'' @ fmt_08x (addr_output t) @ '']'' @ [NUL]) (d_output t))[12 := CHR '' ''] in
     t\<lparr>d_output := overwrite (dump_template @ [NUL]) line, p_hex := offset_hex, p_ascii := offset_ascii,
       addr_output := addr_output t + 16, d_text := d_text t @ cstr line @ [NL]\<rparr>)"

fun dump_loop :: "8 word list \<Rightarrow> dump \<Rightarrow> dump option" where
  "dump_loop [] t = Some t"
| "dump_loop (c # cs) t = Option.bind (dump_byte c t)
     (\<lambda>t. dump_loop cs (if addr_data t AND 0xF = 0 \<or> cs = [] then dump_flush t else t))"

text \<open>
  The text written to the buffer and the number of characters; \<open>addr\<close> is the address of the data,
  \<open>garbage\<close> what the output area holds at first.
\<close>

definition hex_dump :: "bool \<Rightarrow> 8 word list option \<Rightarrow> int \<Rightarrow> bool \<Rightarrow> ulong \<Rightarrow> string \<Rightarrow> (string \<times> nat) option" where
  "hex_dump buffer_null data sz flag_relative addr garbage =
     (if buffer_null then Some ([], 0)
      else case data of None \<Rightarrow> Some ([], 0)
      | Some bs \<Rightarrow>
        if sz \<le> 0 then Some ([], 0)
        else do {
          let head = ''Size '' @ fmt_d sz @ '' '' @
            (if sz > MAX_SZ_HEX_DUMP then ''(only hex dumping 1st '' @ fmt_d MAX_SZ_HEX_DUMP @ '' bytes)'' else []) @ [NL];
          let sz = (if sz > MAX_SZ_HEX_DUMP then MAX_SZ_HEX_DUMP else sz);
          let addr_data = (if flag_relative then 0 else addr);
          let addr_output = (if flag_relative then 0 else addr AND NOT 0xF);
          let d = unat (addr_data - addr_output);
          if nat sz > length bs then None
          else do {
            t \<leftarrow> dump_loop (take (nat sz) bs) \<lparr>d_output = overwrite (dump_template @ [NUL]) garbage,
              p_hex = offset_hex + d * 3, p_ascii = offset_ascii + d, addr_data = addr_data,
              addr_output = addr_output, d_text = head\<rparr>;
            Some (d_text t, length (d_text t))
          }
        })"

section \<open>Times and strings\<close>

text \<open>
  \<open>struct tm\<close>, and the format that \<open>strftime\<close> is called with. \<open>localtime\<close> depends on the time zone and is an
  argument.
\<close>

record tm =
  tm_sec :: nat
  tm_min :: nat
  tm_hour :: nat
  tm_mday :: nat
  tm_mon :: nat
  tm_year :: nat

definition strftime :: "tm \<Rightarrow> string" where
  "strftime t = fmt_02d (tm_mon t + 1) @ ''/'' @ fmt_02d (tm_mday t) @ ''/'' @ fmt_02d (tm_year t mod 100) @
     '', '' @ fmt_02d (tm_hour t) @ '':'' @ fmt_02d (tm_min t) @ '':'' @ fmt_02d (tm_sec t)"

definition time_itoa :: "(ulong \<Rightarrow> tm option) \<Rightarrow> ulong \<Rightarrow> string" where
  "time_itoa localtime timestamp = (if timestamp \<le> 0 then DSM_UNDEF_STR
     else case localtime timestamp of None \<Rightarrow> DSM_UNDEF_STR | Some t \<Rightarrow> strftime t)"

text \<open>\<open>%02x\<close> of a \<open>char\<close>, which is extended with its sign.\<close>

definition fmt_02x :: "8 word \<Rightarrow> string" where
  "fmt_02x c = (let s = dropWhile (\<lambda>x. x = CHR ''0'') (fmt_08x (scast c))
     in replicate (2 - length s) (CHR ''0'') @ s)"

text \<open>
  The buffer has 512 characters, the string of printable characters \<open>max_octetstring\<close>, a constant of
  another component.
\<close>

definition string_hex_print :: "int \<Rightarrow> uint list \<Rightarrow> uint \<Rightarrow> 8 word list option \<Rightarrow> int \<Rightarrow> string option" where
  "string_hex_print max_octetstring m fep_debug_mask string n = (case string of
     None \<Rightarrow> Some ''<NULL string 0x0>''
   | Some bs \<Rightarrow>
     if n \<le> 0 \<or> n \<ge> max_octetstring then Some (''<Invalid length '' @ fmt_d n @ ''>'')
     else if nat n > length bs then None
     else let cs = take (nat n) bs;
            s = (if fep_debug_mask AND mask_of m DEBUG_HEX_DUMP \<noteq> 0
                 then ''0x '' @ concat (map (\<lambda>c. fmt_02x c @ '' '') cs) else []) @
              ''('' @ map ascii_of cs @ '')''
       in if length s < 512 then Some s else None)"

end
