(* ===== verification/Dsm_Debug_Props.thy ===== *)
theory Dsm_Debug_Props
  imports Dsm_Debug
begin

text \<open>
  The masks select the categories they name, \<open>bit_print\<close> prints the bits of a number, and a dump consists
  of the lines a reference definition gives.
\<close>

unbundle bit_operations_syntax

section \<open>Masks\<close>

lemma debug_num_cases: "nat (debug_num d) < 29 \<and> debug_list ! nat (debug_num d) = d"
  by (cases d) (simp_all add: debug_num_def debug_list_def)

lemma debug_num_inj: "nat (debug_num d) = nat (debug_num e) \<longleftrightarrow> d = e"
  using debug_num_cases by metis

lemma NUM_DEBUG_val: "NUM_DEBUG = 29"
  by (simp add: NUM_DEBUG_def debug_num_def debug_list_def)

definition start_masks :: "uint list" where
  "start_masks = map (\<lambda>i. push_bit i 1) [0..<29]"

lemma initialize_masks: "initialize_debug_mask bits =
    (if 29 \<le> bits then Some (start_masks, 0, print_debug_mask start_masks 0 ''initialize_debug_mask'') else None)"
  by (auto simp: initialize_debug_mask_def NUM_DEBUG_val start_masks_def Let_def)

lemma bit_mask: "bit (mask_of start_masks d) k \<longleftrightarrow> k = nat (debug_num d)"
  using debug_num_cases [of d] by (auto simp: mask_of_def start_masks_def bit_simps)

lemma mask_bit: "mask_of start_masks d = push_bit (nat (debug_num d)) 1"
  using debug_num_cases [of d] by (simp add: mask_of_def start_masks_def)

lemma and_mask: "w AND mask_of start_masks d \<noteq> 0 \<longleftrightarrow> bit w (nat (debug_num d))"
  by (simp only: mask_bit bit_iff_and_push_bit_not_eq_0)

lemma mask_eq: "mask_of start_masks d = mask_of start_masks e \<longleftrightarrow> d = e"
  using bit_mask debug_num_inj by metis

lemmas combined_masks = DEBUG_MASK_DIAMCTX_ALL_def DEBUG_MASK_EVENTS_def DEBUG_MASK_DEFAULT_def
  DEBUG_MASK_DSM_ALL_def DEBUG_MASK_MSG_ALL_def DEBUG_MASK_MSG_CLOSE_ALL_def DEBUG_MASK_MSG_DIAM_ALL_def
  DEBUG_MASK_MSG_EXPTCC_ALL_def DEBUG_MASK_MSG_EXPTG_ALL_def DEBUG_MASK_MSG_GDI_ALL_def
  DEBUG_MASK_MSG_MISC_ALL_def DEBUG_MASK_MSG_QUEUE_ALL_def DEBUG_MASK_MSG_UPCP_ALL_def
  DEBUG_MASK_MSG_USRM_ALL_def DEBUG_MASK_QMSG_ALL_def

lemma bit_masks:
  "bit (mask_of start_masks d) (nat (debug_num e)) \<longleftrightarrow> d = e"
  "bit (v OR w) (nat (debug_num e)) \<longleftrightarrow> bit v (nat (debug_num e)) \<or> bit w (nat (debug_num e))"
  by (auto simp: bit_simps bit_mask debug_num_inj)

section \<open>Bits\<close>

definition read_bits :: "string \<Rightarrow> nat" where
  "read_bits s = horner_sum of_bool 2 (rev (map (\<lambda>c. c = CHR ''1'') (filter (\<lambda>c. c \<noteq> CHR '' '') s)))"

lemma bit_loop_digits:
  "1 \<le> i \<Longrightarrow> i + k = n + 1 \<Longrightarrow> n \<le> 32 \<Longrightarrow>
    filter (\<lambda>c. c \<noteq> CHR '' '') (bit_loop i n k (push_bit (n - 1) 1) (push_bit (i - 1) h)) =
      map (\<lambda>j. if bit h j then CHR ''1'' else CHR ''0'') (rev [0..<k])"
proof (induction k arbitrary: i)
  case (Suc k)
  have p: "push_bit 1 (push_bit (i - 1) h) = push_bit (i + 1 - 1) h" using Suc.prems(1)
    by (simp add: push_bit_push_bit del: push_bit_of_1)
  have t: "push_bit (i - 1) h AND push_bit (n - 1) 1 \<noteq> 0 \<longleftrightarrow> bit h k"
  proof -
    have "n - 1 - (i - 1) = k" "i - 1 \<le> n - 1" "n - 1 < 32" using Suc.prems by simp_all
    then show ?thesis by (simp only: bit_iff_and_push_bit_not_eq_0 [symmetric]) (simp add: bit_simps)
  qed
  define r where "r = bit_loop (i + 1) n k (push_bit (n - 1) 1) (push_bit (i + 1 - 1) h)"
  have "filter (\<lambda>c. c \<noteq> CHR '' '') r = map (\<lambda>j. if bit h j then CHR ''1'' else CHR ''0'') (rev [0..<k])"
    unfolding r_def using Suc.prems by (intro Suc.IH) simp_all
  then show ?case unfolding bit_loop.simps p t r_def [symmetric] by simp
qed simp

lemma bit_loop_length:
  "length (bit_loop i n k m h) = k + length (filter (\<lambda>j. j < n \<and> j mod 8 = 0) [i..<i + k])"
  by (induction k arbitrary: i h) (simp_all add: upt_conv_Cons del: upt_Suc)

lemma bit_unat: "bit (unat w) = bit w"
  by (simp add: fun_eq_iff bit_unsigned_iff)

lemma bit_print_ok:
  assumes "1 \<le> n" "n \<le> 4"
  shows "read_bits (bit_print h n) = unat (take_bit (8 * nat n) h)" "length (bit_print h n) = 9 * nat n - 1"
proof -
  define b where "b = nat n * 8"
  have s: "bit_print h n = bit_loop 1 b b (push_bit (b - 1) 1) (push_bit (1 - 1) h)" and b: "b \<le> 32"
    using assms by (simp_all add: bit_print_def b_def Let_def)
  have "rev (map (\<lambda>c. c = CHR ''1'') (filter (\<lambda>c. c \<noteq> CHR '' '') (bit_print h n))) = map (bit h) [0..<b]"
    unfolding s using bit_loop_digits [of 1 b b h] b by (simp add: rev_map o_def)
  then have "read_bits (bit_print h n) = horner_sum of_bool 2 (map (bit (unat h)) [0..<b])"
    by (simp add: read_bits_def bit_unat)
  then show "read_bits (bit_print h n) = unat (take_bit (8 * nat n) h)"
    by (simp add: horner_sum_bit_eq_take_bit b_def unsigned_take_bit_eq mult.commute)
  have "nat n \<in> {1, 2, 3, 4}" using assms by auto
  then show "length (bit_print h n) = 9 * nat n - 1"
    unfolding s bit_loop_length b_def by (elim insertE emptyE) (simp_all add: upt_rec)
qed

section \<open>Dumps\<close>

definition hex_byte :: "8 word \<Rightarrow> string" where
  "hex_byte c = [CHR '' '', hex_table ! nat (sint c div 16), hex_table ! nat (sint c mod 16)]"

abbreviation blanks :: "nat \<Rightarrow> string" where
  "blanks n \<equiv> replicate n (CHR '' '')"

text \<open>A line for the bytes \<open>cs\<close> from column \<open>d\<close> on, without the address in front.\<close>

definition dump_cols :: "nat \<Rightarrow> 8 word list \<Rightarrow> string" where
  "dump_cols d cs = blanks (3 * d) @ concat (map hex_byte cs) @ blanks (3 * (16 - (d + length cs))) @ blanks 3 @
     blanks d @ map ascii_of cs @ blanks (16 - (d + length cs)) @ blanks 1"

definition dump_addr :: "ulong \<Rightarrow> string" where
  "dump_addr a = ''[0x'' @ fmt_08x a @ '']''"

definition dump_line :: "ulong \<Rightarrow> nat \<Rightarrow> 8 word list \<Rightarrow> string" where
  "dump_line a d cs = dump_addr a @ dump_cols d cs @ [NL]"

function dump_lines :: "ulong \<Rightarrow> nat \<Rightarrow> 8 word list \<Rightarrow> string" where
  "dump_lines a d cs = (if cs = [] \<or> 16 \<le> d then []
     else dump_line a d (take (16 - d) cs) @ dump_lines (a + 16) 0 (drop (16 - d) cs))"
  by pat_completeness auto
termination by (relation "measure (\<lambda>(a, d, cs). length cs)") (auto simp: neq_Nil_conv)

declare dump_lines.simps [simp del]

text \<open>The state of \<open>dump_loop\<close> within a line.\<close>

definition in_line :: "string \<Rightarrow> ulong \<Rightarrow> nat \<Rightarrow> 8 word list \<Rightarrow> string \<Rightarrow> dump" where
  "in_line g a d cs t = \<lparr>d_output = ''[0x01234567]'' @ dump_cols d cs @ NUL # g,
     p_hex = 12 + 3 * (d + length cs), p_ascii = 63 + (d + length cs),
     addr_data = a + of_nat (d + length cs), addr_output = a, d_text = t\<rparr>"

lemma length_hex: "length (concat (map hex_byte cs)) = 3 * length cs"
  by (induction cs) (simp_all add: hex_byte_def)

lemma length_cols: "d + length cs \<le> 16 \<Longrightarrow> length (dump_cols d cs) = 68"
  by (simp add: dump_cols_def length_hex)

lemma length_addr: "length (dump_addr a) = 12"
  by (simp add: dump_addr_def fmt_08x_def)

lemma put_four:
  "i = length p \<Longrightarrow> j = i + 3 + length r \<Longrightarrow>
    do { o1 \<leftarrow> put_cell (p @ b1 # b2 # b3 # r @ b4 # z) i c1; o2 \<leftarrow> put_cell o1 (i + 1) c2;
         o3 \<leftarrow> put_cell o2 (i + 2) c3; o4 \<leftarrow> put_cell o3 j c4; Some (f o4) } =
      Some (f (p @ c1 # c2 # c3 # r @ c4 # z))"
  by (simp add: put_cell_def list_update_append)

lemma table_hex:
  fixes c :: "8 word"
  assumes "0 \<le> sint c"
  shows "table_at hex_table (sint c div 16) = Some (hex_table ! nat (sint c div 16))"
    and "table_at hex_table (sint (c AND 0xF)) = Some (hex_table ! nat (sint c mod 16))"
proof -
  have u: "sint c < 128" using sint_lt [of c] by simp
  then have "sint c div 16 < 16" by linarith
  then show "table_at hex_table (sint c div 16) = Some (hex_table ! nat (sint c div 16))"
    using assms by (simp add: table_at_def hex_table_def pos_imp_zdiv_nonneg_iff)
  have "sint c AND mask 4 = sint c mod 16"
    by (simp only: take_bit_eq_mask [symmetric] take_bit_eq_mod) simp
  then have "sint (c AND 0xF) = sint c mod 16"
    by (simp add: signed_and_eq mask_eq_exp_minus_1)
  then show "table_at hex_table (sint (c AND 0xF)) = Some (hex_table ! nat (sint c mod 16))"
    by (simp add: table_at_def hex_table_def)
qed


lemma blanks_3: "blanks (3 + n) = CHR '' '' # CHR '' '' # CHR '' '' # blanks n"
  by (simp add: numeral_3_eq_3)

lemma dump_byte_in_line:
  assumes "d + length cs < 16" "0 \<le> sint c"
  shows "dump_byte c (in_line g a d cs t) = Some (in_line g a d (cs @ [c]) t)"
proof -
  define m where "m = 15 - (d + length cs)"
  have b: "3 * (16 - (d + length cs)) = 3 + 3 * m" "16 - (d + length cs) = Suc m" "15 - (d + length cs) = m"
    using assms(1) by (simp_all add: m_def)
  let ?h = "blanks (3 * d) @ concat (map hex_byte cs)"
  let ?x = "hex_table ! nat (sint c div 16)" and ?y = "hex_table ! nat (sint c mod 16)"
  let ?p = "''[0x01234567]'' @ ?h" and ?q = "blanks d @ map ascii_of cs"
  let ?r = "blanks (3 * m) @ blanks 3 @ ?q" and ?z = "blanks m @ blanks 1 @ NUL # g"
  let ?sp = "CHR '' ''"
  have o: "d_output (in_line g a d cs t) = ?p @ ?sp # ?sp # ?sp # ?r @ ?sp # ?z"
    by (simp add: in_line_def dump_cols_def b blanks_3)
  have n: "d_output (in_line g a d (cs @ [c]) t) = ?p @ ?sp # ?x # ?y # ?r @ ascii_of c # ?z"
    by (simp add: in_line_def dump_cols_def b hex_byte_def)
  let ?i = "12 + 3 * (d + length cs)" and ?j = "63 + (d + length cs)"
  have l: "?i = length ?p" "?j = ?i + 3 + length ?r"
    using assms(1) by (simp_all only: length_append length_hex length_replicate) (simp_all add: m_def)
  have f: "p_hex (in_line g a d cs t) = ?i" "p_ascii (in_line g a d cs t) = ?j" by (simp_all add: in_line_def)
  have u: "in_line g a d (cs @ [c]) t = (in_line g a d cs t)\<lparr>d_output := d_output (in_line g a d (cs @ [c]) t),
      p_hex := ?i + 3, p_ascii := ?j + 1, addr_data := addr_data (in_line g a d cs t) + 1\<rparr>"
    by (simp add: in_line_def)
  show ?thesis
    by (subst u) (simp only: dump_byte_def o f table_hex [OF assms(2)] Option.bind.simps(2) put_four [OF l] n)
qed

lemma char_of_NUL: "char_of n = NUL \<longleftrightarrow> n mod 256 = 0" for n :: nat
proof
  assume "char_of n = NUL"
  then have "of_char (char_of n :: char) = (of_char NUL :: nat)" by simp
  then show "n mod 256 = 0" by (simp add: NUL_def)
next
  assume "n mod 256 = 0"
  then have "of_char (char_of n :: char) = (of_char NUL :: nat)" by (simp add: NUL_def)
  then show "char_of n = NUL" by (simp only: of_char_eq_iff)
qed

lemma hex_digit_NUL: "n < 16 \<Longrightarrow> hex_digit n \<noteq> NUL"
  by (simp add: hex_digit_def char_of_NUL)

lemma ascii_of_NUL: "ascii_of c \<noteq> NUL"
proof -
  have "unat c mod 256 = 0 \<Longrightarrow> c = 0"
    using unsigned_less [of c, where ?'a = nat] by (simp add: unat_eq_zero)
  moreover have "isprint c \<Longrightarrow> c \<noteq> 0" by (auto simp: isprint_def)
  ultimately have "isprint c \<Longrightarrow> unat c mod 256 \<noteq> 0" by blast
  moreover have "CHR ''.'' \<noteq> NUL" by (simp add: NUL_def)
  ultimately show ?thesis unfolding ascii_of_def by (simp add: char_of_NUL del: unsigned_eq_0_iff)
qed

lemma addr_NUL: "NUL \<notin> set (dump_addr a)"
proof -
  have "unat (w AND 0xF) < 16" for w :: uint
    using take_bit_nat_less_exp [of 4 "unat w"]
    by (simp add: unsigned_and_eq take_bit_eq_mask mask_eq_exp_minus_1)
  from hex_digit_NUL [OF this, THEN not_sym] have "NUL \<notin> set (fmt_08x a)"
    unfolding fmt_08x_def set_map by blast
  moreover have "NUL \<notin> set ''[0x''" "NUL \<notin> set '']''" by (simp_all add: NUL_def)
  ultimately show ?thesis unfolding dump_addr_def set_append by blast
qed

lemma hex_byte_NUL: "0 \<le> sint c \<Longrightarrow> NUL \<notin> set (hex_byte c)"
proof -
  assume "0 \<le> sint c"
  moreover have "sint c < 128" using sint_lt [of c] by simp
  moreover have "nat (sint c mod 16) < 16" by simp
  ultimately have i: "nat (sint c div 16) < 16" "nat (sint c mod 16) < 16" by linarith+
  have t: "NUL \<noteq> hex_table ! i" if "i < 16" for i
    using nth_mem [of i hex_table] that by (auto simp: hex_table_def NUL_def)
  have "NUL \<noteq> CHR '' ''" by (simp add: NUL_def)
  then show ?thesis using t [OF i(1)] t [OF i(2)] by (simp add: hex_byte_def)
qed

lemma cols_NUL: "\<forall>c \<in> set cs. 0 \<le> sint c \<Longrightarrow> NUL \<notin> set (dump_cols d cs)"
proof -
  assume "\<forall>c \<in> set cs. 0 \<le> sint c"
  then have "NUL \<notin> set (concat (map hex_byte cs))" using hex_byte_NUL by auto
  moreover have "NUL \<notin> set (blanks n)" for n by (simp add: NUL_def)
  moreover have "NUL \<notin> set (map ascii_of cs)" using ascii_of_NUL [THEN not_sym] by auto
  ultimately show ?thesis unfolding dump_cols_def by (simp only: set_append) blast
qed

lemma overwrite_append: "length v = length w \<Longrightarrow> overwrite v (w @ z) = v @ z"
  by (simp add: overwrite_def)

lemma dump_cols_Nil: "d \<le> 16 \<Longrightarrow> dump_cols d [] = blanks 68"
  unfolding dump_cols_def
  by (simp only: list.map concat.simps append_Nil replicate_add [symmetric] list.size) simp

lemma blanks_pos: "0 < n \<Longrightarrow> blanks n = CHR '' '' # blanks (n - 1)"
  by (cases n) simp_all

lemma dump_cols_blank: "d + length cs \<le> 16 \<Longrightarrow> \<exists>r. dump_cols d cs = CHR '' '' # r"
proof (cases "d = 0")
  case False
  then show ?thesis by (simp add: dump_cols_def blanks_pos [of "3 * d"])
next
  case True
  then show ?thesis
    by (cases cs) (simp_all add: dump_cols_Nil blanks_pos [of 68], simp add: dump_cols_def hex_byte_def)
qed

lemma dump_flush_in_line:
  assumes "d + length cs \<le> 16" "\<forall>c \<in> set cs. 0 \<le> sint c"
  shows "dump_flush (in_line g a d cs t) =
    (in_line g (a + 16) 0 [] (t @ dump_line a d cs))\<lparr>addr_data := a + of_nat (d + length cs)\<rparr>"
proof -
  obtain r where r: "dump_cols d cs = CHR '' '' # r" using dump_cols_blank [OF assms(1)] by blast
  let ?line = "dump_addr a @ dump_cols d cs @ NUL # g"
  have o: "(overwrite (''[0x'' @ fmt_08x a @ '']'' @ [NUL]) (d_output (in_line g a d cs t)))[12 := CHR '' ''] = ?line"
    (is "?l = _")
  proof -
    have "?l = (overwrite (dump_addr a @ [NUL]) ((''[0x01234567]'' @ '' '') @ r @ NUL # g))[12 := CHR '' '']"
      by (simp add: in_line_def r dump_addr_def)
    also have "\<dots> = ((dump_addr a @ [NUL]) @ r @ NUL # g)[12 := CHR '' '']"
      by (subst overwrite_append) (simp_all add: length_addr)
    also have "\<dots> = ?line" by (simp add: r list_update_append length_addr)
    finally show ?thesis .
  qed
  have c: "cstr ?line = dump_addr a @ dump_cols d cs"
    using cstr_NUL [of "dump_addr a @ dump_cols d cs" g] addr_NUL [of a] cols_NUL [OF assms(2), of d]
    by (simp add: cstr_id)
  have n: "overwrite (dump_template @ [NUL]) ?line = ''[0x01234567]'' @ dump_cols 0 [] @ NUL # g"
    using overwrite_append [of "dump_template @ [NUL]" "dump_addr a @ dump_cols d cs @ [NUL]" g] assms(1)
    by (simp add: length_addr length_cols dump_template_def dump_cols_Nil)
  have f: "addr_output (in_line g a d cs t) = a" "d_text (in_line g a d cs t) = t" by (simp_all add: in_line_def)
  show ?thesis unfolding dump_flush_def Let_def f o c n
    by (simp add: in_line_def dump_line_def offset_hex_def offset_ascii_def)
qed

lemma dump_lines_full:
  "length cs = 16 - d \<Longrightarrow> d < 16 \<Longrightarrow> dump_lines a d (cs @ bs) = dump_line a d cs @ dump_lines (a + 16) 0 bs"
  by (subst dump_lines.simps) auto

lemma dump_lines_last: "cs \<noteq> [] \<Longrightarrow> d + length cs \<le> 16 \<Longrightarrow> dump_lines a d cs = dump_line a d cs"
  by (cases cs) (simp_all add: dump_lines.simps)

lemma and_15: "unat (w AND 0xF) = unat w mod 16" for w :: ulong
proof -
  have "unat w AND Bit_Operations.mask 4 = unat w mod 16"
    by (simp only: take_bit_eq_mask [symmetric] take_bit_eq_mod) simp
  then show ?thesis by (simp add: unsigned_and_eq mask_eq_exp_minus_1)
qed

lemma end_of_line: "a AND 0xF = 0 \<Longrightarrow> k \<le> 16 \<Longrightarrow> (a + of_nat k) AND 0xF = 0 \<longleftrightarrow> k = 0 \<or> k = 16"
  for a :: ulong
proof -
  assume a: "a AND 0xF = 0" "k \<le> 16"
  have "unat a mod 16 = 0" using a(1) and_15 [of a] by simp
  moreover have "unat (a + of_nat k) mod 16 = (unat a + k) mod 16"
  proof -
    have k: "unat (of_nat k :: ulong) = k" using a(2) by (simp add: unat_of_nat)
    have "unat (a + of_nat k) = (unat a + k) mod 2 ^ LENGTH(32)" unfolding unat_word_ariths(1) k ..
    moreover have "(16 :: nat) dvd 2 ^ LENGTH(32)" by simp
    ultimately show ?thesis by (simp only: mod_mod_cancel)
  qed
  moreover have "(unat a + k) mod 16 = (unat a mod 16 + k) mod 16" by (simp only: mod_add_left_eq)
  ultimately have "unat ((a + of_nat k) AND 0xF) = k mod 16" unfolding and_15 by simp
  then have "(a + of_nat k) AND 0xF = 0 \<longleftrightarrow> k mod 16 = 0"
    using unat_eq_zero [of "(a + of_nat k) AND 0xF"] by simp
  then show ?thesis using a(2) by presburger
qed

lemma dump_loop_lines:
  "a AND 0xF = 0 \<Longrightarrow> d + length cs < 16 \<Longrightarrow> bs \<noteq> [] \<Longrightarrow> \<forall>c \<in> set (cs @ bs). 0 \<le> sint c \<Longrightarrow>
    map_option d_text (dump_loop bs (in_line g a d cs t)) = Some (t @ dump_lines a d (cs @ bs))"
proof (induction bs arbitrary: a d cs t)
  case (Cons c bs)
  let ?cs = "cs @ [c]"
  have b: "dump_byte c (in_line g a d cs t) = Some (in_line g a d ?cs t)"
    using Cons.prems(2,4) by (intro dump_byte_in_line) simp_all
  have full: "addr_data (in_line g a d ?cs t) AND 0xF = 0 \<longleftrightarrow> d + length ?cs = 16"
    using end_of_line [OF Cons.prems(1), of "d + length ?cs"] Cons.prems(2) by (simp add: in_line_def)
  have fl: "dump_flush (in_line g a d ?cs t) =
      (in_line g (a + 16) 0 [] (t @ dump_line a d ?cs))\<lparr>addr_data := a + of_nat (d + length ?cs)\<rparr>"
    using Cons.prems(2,4) by (intro dump_flush_in_line) simp_all
  show ?case
  proof (cases "bs = []")
    case True
    then show ?thesis using Cons.prems(2) by (simp add: b fl dump_lines_last) (simp add: in_line_def)
  next
    case more: False
    show ?thesis
    proof (cases "d + length ?cs = 16")
      case True
      have "dump_flush (in_line g a d ?cs t) = in_line g (a + 16) 0 [] (t @ dump_line a d ?cs)"
        unfolding fl True by (simp add: in_line_def)
      moreover have "(a + 16) AND 0xF = 0" using end_of_line [OF Cons.prems(1), of 16] by simp
      moreover have "dump_loop (c # bs) (in_line g a d cs t) = dump_loop bs (dump_flush (in_line g a d ?cs t))"
        using full True by (simp only: dump_loop.simps b Option.bind.simps(2)) simp
      ultimately have "map_option d_text (dump_loop (c # bs) (in_line g a d cs t)) =
          Some ((t @ dump_line a d ?cs) @ dump_lines (a + 16) 0 ([] @ bs))"
        using Cons.IH [of "a + 16" 0 "[]" "t @ dump_line a d ?cs"] more Cons.prems(4) by simp
      then show ?thesis using dump_lines_full [of ?cs d a bs] True Cons.prems(2) by simp
    next
      case False
      have "dump_loop (c # bs) (in_line g a d cs t) = dump_loop bs (in_line g a d ?cs t)"
        using full False more by (simp only: dump_loop.simps b Option.bind.simps(2)) simp
      then show ?thesis using Cons.IH [of a d ?cs t] more Cons.prems False by simp
    qed
  qed
qed simp

lemma dump_loop_negative: "\<exists>c \<in> set bs. sint c < 0 \<Longrightarrow> dump_loop bs t = None"
proof (induction bs arbitrary: t)
  case (Cons c bs)
  have "sint c < 0 \<Longrightarrow> \<not> 0 \<le> sint c div 16" by linarith
  then have "sint c < 0 \<Longrightarrow> dump_byte c t = None"
    by (simp add: dump_byte_def table_at_def)
  then show ?case using Cons by (cases "dump_byte c t") auto
qed simp

definition dump_head :: "int \<Rightarrow> string" where
  "dump_head n = ''Size '' @ fmt_d n @ '' '' @
     (if n > 1024 then ''(only hex dumping 1st '' @ fmt_d 1024 @ '' bytes)'' else []) @ [NL]"

lemma address_parts:
  fixes w :: ulong
  shows "w - (w AND NOT 0xF) = w AND 0xF" "(w AND NOT 0xF) AND 0xF = 0" "(w AND NOT 0xF) + (w AND 0xF) = w"
proof -
  show 1: "w - (w AND NOT 0xF) = w AND 0xF"
    by (subst disjunctive_diff) (auto simp: bit_simps intro!: bit_word_eqI)
  show "(w AND NOT 0xF) AND 0xF = 0" by (simp only: and.assoc) simp
  show "(w AND NOT 0xF) + (w AND 0xF) = w" using 1 by (simp add: algebra_simps)
qed

lemma dump_start:
  assumes "length garbage = 128" "d < 16" "b = a + of_nat d"
  shows "\<lparr>d_output = overwrite (dump_template @ [NUL]) garbage, p_hex = offset_hex + d * 3,
      p_ascii = offset_ascii + d, addr_data = b, addr_output = a, d_text = t\<rparr> =
    in_line (drop 81 garbage) a d [] t"
proof -
  have "overwrite (dump_template @ [NUL]) garbage = ''[0x01234567]'' @ dump_cols d [] @ NUL # drop 81 garbage"
    using assms(2) by (simp add: overwrite_def dump_template_def dump_cols_Nil)
  then show ?thesis using assms(3) by (simp add: in_line_def offset_hex_def offset_ascii_def)
qed

section \<open>Strings\<close>

lemma length_fmt_02x: "2 \<le> length (fmt_02x c)"
  by (simp add: fmt_02x_def Let_def)

lemma length_hex_text: "3 * length cs \<le> length (concat (map (\<lambda>c. fmt_02x c @ '' '') cs))"
proof (induction cs)
  case (Cons c cs)
  then show ?case using length_fmt_02x [of c] by simp
qed simp

text \<open>
  With hexadecimal output on, a string of 127 bytes is too long for the buffer of 512 characters; without
  it the string fits.
\<close>

lemma string_hex_print_overflow:
  assumes "fep_debug_mask AND mask_of m DEBUG_HEX_DUMP \<noteq> 0" "127 \<le> n" "n < max_octetstring"
  shows "string_hex_print max_octetstring m fep_debug_mask (Some bs) n = None"
  using assms length_hex_text [of "take (nat n) bs"]
  by (auto simp: string_hex_print_def Let_def)

lemma string_hex_print_plain:
  assumes "fep_debug_mask AND mask_of m DEBUG_HEX_DUMP = 0" "0 < n" "n < max_octetstring" "n < 510" "nat n \<le> length bs"
  shows "string_hex_print max_octetstring m fep_debug_mask (Some bs) n = Some (''('' @ map ascii_of (take (nat n) bs) @ '')'')"
  using assms by (auto simp: string_hex_print_def Let_def)

section \<open>Properties\<close>

text \<open>
  The masks of the categories are independent bits, so the process mask turns each category on and
  off by itself; and the combined mask of all message categories selects exactly the categories that
  \<open>debug_msg_itoa\<close> has a name for, which are the ones it is called with.
\<close>

theorem debug_masks_select:
  assumes "initialize_debug_mask bits = Some (m, fep_debug_mask, printed)"
  shows "fep_debug_mask = 0 \<and> length m = NUM_DEBUG \<and>
    (mask_of m d AND mask_of m e \<noteq> 0 \<longleftrightarrow> d = e) \<and>
    (DEBUG_MASK_MSG_ALL m AND mask_of m d \<noteq> 0 \<longleftrightarrow> debug_msg_itoa m (mask_of m d) \<noteq> ''__?'') \<and>
    (DEBUG_MASK_EVENTS m AND mask_of m d \<noteq> 0 \<longrightarrow> DEBUG_MASK_DEFAULT m AND mask_of m d \<noteq> 0)"
proof -
  have m: "m = start_masks" "fep_debug_mask = 0"
    using assms by (simp_all add: initialize_masks split: if_splits)
  have "DEBUG_MASK_MSG_ALL m AND mask_of m d \<noteq> 0 \<longleftrightarrow> debug_msg_itoa m (mask_of m d) \<noteq> ''__?''"
    unfolding m and_mask combined_masks bit_masks debug_msg_itoa_def mask_eq by (cases d) simp_all
  then show ?thesis unfolding m and_mask combined_masks bit_masks
    by (auto simp: start_masks_def NUM_DEBUG_val)
qed

text \<open>Start-up with a mask of 32 bits.\<close>

theorem debug_masks_select_witness:
  "\<exists>m s. initialize_debug_mask 32 = Some (m, 0, s) \<and> mask_of m DEBUG_DSM AND mask_of m DEBUG_DSM_1 = 0"
proof -
  have i: "initialize_debug_mask 32 = Some (start_masks, 0, print_debug_mask start_masks 0 ''initialize_debug_mask'')"
    by (simp add: initialize_masks)
  show ?thesis using i debug_masks_select [OF i, of DEBUG_DSM DEBUG_DSM_1] by simp
qed

text \<open>
  C40: What \<open>bit_print\<close> prints of a valid number of octets is the number in binary: reading the text
  back gives the low octets of the number, the text has a blank between octets, and it fits the buffer of
  128 characters.
\<close>

theorem bit_print_reads_back:
  assumes "1 \<le> n" "n \<le> 4"
  shows "read_bits (bit_print h n) = unat (take_bit (8 * nat n) h) \<and> length (bit_print h n) = 9 * nat n - 1 \<and>
    length (bit_print h n) < 128"
  using bit_print_ok [OF assms] assms by simp

theorem bit_print_reads_back_witness: "read_bits ''00000010 10000001'' = 641"
proof -
  have "bit_print 641 2 = ''00000010 10000001''" by code_simp
  then show ?thesis using bit_print_reads_back [of 2 641] by simp
qed

text \<open>
  C39: For 7-bit data of any size \<open>hex_dump\<close> gives a header and then, for at most the first 1024 bytes,
  the lines of the reference definition \<open>dump_lines\<close>: each has the address of a group of 16 bytes, the
  bytes of the group in hexadecimal and as characters, the first one starting at the column of the first
  byte's address. A byte with the top bit set is a negative \<open>char\<close> and indexes the table of hexadecimal
  digits outside its bounds.
\<close>

theorem hex_dump_lines:
  assumes "0 < n" "nat (min n 1024) \<le> length bs" "length garbage = 128"
    and "data = take (nat (min n 1024)) bs"
    and "a = (if flag_relative then 0 else addr AND NOT 0xF)"
    and "d = (if flag_relative then 0 else unat (addr AND 0xF))"
  shows "hex_dump False (Some bs) n flag_relative addr garbage =
    (if \<forall>c \<in> set data. 0 \<le> sint c
     then let t = dump_head n @ dump_lines a d data in Some (t, length t) else None)"
proof -
  let ?b = "if flag_relative then 0 else addr"
  have e: "of_nat (unat addr mod 16) = addr AND 0xF" by (simp only: and_15 [symmetric]) simp
  have a: "a AND 0xF = 0" "?b - a = of_nat d" "?b = a + of_nat d" "d < 16" "unat (?b - a) = d"
    using address_parts [of addr] and_15 [of addr] e by (auto simp: assms(5,6))
  have data: "data \<noteq> []" using assms(1,2,4) by auto
  have m: "(if n > 1024 then 1024 else n) = min n 1024" by simp
  let ?s = "in_line (drop 81 garbage) a d [] (dump_head n)"
  have h: "hex_dump False (Some bs) n flag_relative addr garbage =
      map_option (\<lambda>t. (d_text t, length (d_text t))) (dump_loop data ?s)"
    unfolding hex_dump_def dump_head_def [symmetric] MAX_SZ_HEX_DUMP_def m assms(5) [symmetric]
    using assms(1,2) a(5) dump_start [OF assms(3) a(4,3)]
    by (cases "dump_loop data ?s") (simp_all add: Let_def assms(4) [symmetric])
  show ?thesis
  proof (cases "\<forall>c \<in> set data. 0 \<le> sint c")
    case True
    then show ?thesis unfolding h using dump_loop_lines [OF a(1), of d "[]" data "drop 81 garbage" "dump_head n"] data a(4)
      by (auto simp: Let_def)
  next
    case False
    then have "dump_loop data ?s = None" by (intro dump_loop_negative) (auto simp: not_le)
    then show ?thesis unfolding h using False by auto
  qed
qed

text \<open>Four bytes from an address at the end of a group of 16.\<close>

theorem hex_dump_lines_witness:
  "hex_dump False (Some [0x41, 0x0A, 0x42, 0x7F]) 4 False 0x1234567E (replicate 128 NUL) =
    Some (''Size 4 '' @ [NL] @
      ''[0x12345670]                                           41 0A                 A. '' @ [NL] @
      ''[0x12345680] 42 7F                                             B.               '' @ [NL], 170)"
proof -
  have t: "dump_head 4 @ dump_lines (0x1234567E AND NOT 0xF) (unat (0x1234567E AND 0xF :: ulong)) [0x41, 0x0A, 0x42, 0x7F] =
      ''Size 4 '' @ [NL] @
      ''[0x12345670]                                           41 0A                 A. '' @ [NL] @
      ''[0x12345680] 42 7F                                             B.               '' @ [NL]"
    by code_simp
  have p: "\<forall>c \<in> set [0x41, 0x0A, 0x42, 0x7F]. 0 \<le> sint (c :: 8 word)" by simp
  show ?thesis
    using hex_dump_lines [of 4 "[0x41, 0x0A, 0x42, 0x7F]" "replicate 128 NUL" "[0x41, 0x0A, 0x42, 0x7F]"
        "0x1234567E AND NOT 0xF" False "0x1234567E" "unat (0x1234567E AND 0xF :: ulong)"] p t
    by (simp only: Let_def) simp
qed

end
