(* ===== verification/Links.thy ===== *)
theory Links
  imports Prelude
begin

text \<open>
  The circular doubly-linked lists of \<open>fep_slab.c\<close>. A list is a head element and the elements that
  are linked behind it; the links of all elements are one memory, in which an operation on one list
  may damage another. \<open>None\<close> is a NULL link; following it is undefined behaviour.

  \<open>ring L h xs\<close> says that in memory \<open>L\<close> the list with head \<open>h\<close> has the elements \<open>xs\<close>. The lemmas
  say which list operation each function implements, and that it leaves other lists alone.
\<close>

section \<open>Operations\<close>

record 'n links =
  prev_of :: "'n \<Rightarrow> 'n option"
  next_of :: "'n \<Rightarrow> 'n option"

definition set_next :: "'n \<Rightarrow> 'n option \<Rightarrow> 'n links \<Rightarrow> 'n links" where
  "set_next a x L = L\<lparr>next_of := (next_of L)(a := x)\<rparr>"

definition set_prev :: "'n \<Rightarrow> 'n option \<Rightarrow> 'n links \<Rightarrow> 'n links" where
  "set_prev a x L = L\<lparr>prev_of := (prev_of L)(a := x)\<rparr>"

definition list_init :: "'n \<Rightarrow> 'n links \<Rightarrow> 'n links" where
  "list_init phead L = set_next phead (Some phead) (set_prev phead (Some phead) L)"

definition list_add :: "'n \<Rightarrow> 'n \<Rightarrow> 'n \<Rightarrow> 'n links \<Rightarrow> 'n links" where
  "list_add pnew pprev pnext L =
    (let L = set_next pprev (Some pnew) L;
         L = set_prev pnew (Some pprev) L;
         L = set_prev pnext (Some pnew) L
     in set_next pnew (Some pnext) L)"

definition list_add_head :: "'n \<Rightarrow> 'n \<Rightarrow> 'n links \<Rightarrow> 'n links option" where
  "list_add_head pnew phead L =
     Option.bind (next_of L phead) (\<lambda>pnext. Some (list_add pnew phead pnext L))"

definition list_add_tail :: "'n \<Rightarrow> 'n \<Rightarrow> 'n links \<Rightarrow> 'n links option" where
  "list_add_tail pnew phead L =
     Option.bind (prev_of L phead) (\<lambda>pprev. Some (list_add pnew pprev phead L))"

definition list_del :: "'n \<Rightarrow> 'n links \<Rightarrow> 'n links option" where
  "list_del pold L = do {
     p \<leftarrow> prev_of L pold;
     let L = set_next p (next_of L pold) L;
     n \<leftarrow> next_of L pold;
     let L = set_prev n (prev_of L pold) L;
     Some (set_prev pold None (set_next pold None L))
   }"

text \<open>Popping an empty list yields, and unlinks, the head itself.\<close>

definition list_pop_head :: "'n \<Rightarrow> 'n links \<Rightarrow> ('n \<times> 'n links) option" where
  "list_pop_head phead L = do {
     pbuf \<leftarrow> next_of L phead;
     L \<leftarrow> list_del pbuf L;
     Some (pbuf, L)
   }"

definition list_pop_tail :: "'n \<Rightarrow> 'n links \<Rightarrow> ('n \<times> 'n links) option" where
  "list_pop_tail phead L = do {
     pbuf \<leftarrow> prev_of L phead;
     L \<leftarrow> list_del pbuf L;
     Some (pbuf, L)
   }"

definition list_is_empty :: "'n \<Rightarrow> 'n links \<Rightarrow> bool" where
  "list_is_empty phead L \<longleftrightarrow> next_of L phead = Some phead"

section \<open>Rings\<close>

text \<open>From \<open>a\<close> along \<open>xs\<close> to \<open>b\<close>, in both directions.\<close>

fun path :: "'n links \<Rightarrow> 'n \<Rightarrow> 'n list \<Rightarrow> 'n \<Rightarrow> bool" where
  "path L a [] b \<longleftrightarrow> next_of L a = Some b \<and> prev_of L b = Some a"
| "path L a (x # xs) b \<longleftrightarrow> next_of L a = Some x \<and> prev_of L x = Some a \<and> path L x xs b"

definition ring :: "'n links \<Rightarrow> 'n \<Rightarrow> 'n list \<Rightarrow> bool" where
  "ring L h xs \<longleftrightarrow> distinct (h # xs) \<and> path L h xs h"

text \<open>Nothing outside \<open>X\<close> has changed.\<close>

definition agree :: "'n set \<Rightarrow> 'n links \<Rightarrow> 'n links \<Rightarrow> bool" where
  "agree X L L' \<longleftrightarrow> (\<forall>a. a \<notin> X \<longrightarrow> next_of L' a = next_of L a \<and> prev_of L' a = prev_of L a)"

lemma link_simps [simp]:
  "next_of (set_next a x L) = (next_of L)(a := x)" "prev_of (set_next a x L) = prev_of L"
  "prev_of (set_prev a x L) = (prev_of L)(a := x)" "next_of (set_prev a x L) = next_of L"
  by (simp_all add: set_next_def set_prev_def)

lemma path_append: "path L a (xs @ y # ys) b \<longleftrightarrow> path L a xs y \<and> path L y ys b"
  by (induction xs arbitrary: a) auto

text \<open>A path reads the forward links of all but its end, the backward links of all but its start.\<close>

lemma path_cong:
  assumes "path L a xs b" "\<And>x. x = a \<or> x \<in> set xs \<Longrightarrow> next_of L' x = next_of L x"
    "\<And>x. x = b \<or> x \<in> set xs \<Longrightarrow> prev_of L' x = prev_of L x"
  shows "path L' a xs b"
  using assms
proof (induction xs arbitrary: a)
  case (Cons y ys)
  have "path L' y ys b" using Cons.prems by (intro Cons.IH) auto
  thus ?case using Cons.prems by simp
qed simp

lemma path_end: "path L a xs b \<Longrightarrow> prev_of L b = Some (if xs = [] then a else last xs)"
  by (induction xs arbitrary: a) auto

lemma path_start: "path L a xs b \<Longrightarrow> next_of L a = Some (if xs = [] then b else hd xs)"
  by (cases xs) auto

lemma ring_frame:
  assumes "ring L h xs" "agree X L L'" "h \<notin> X" "set xs \<inter> X = {}"
  shows "ring L' h xs"
proof -
  have "path L' h xs h"
    by (rule path_cong [of L]) (use assms in \<open>auto simp: ring_def agree_def\<close>)
  thus ?thesis using assms(1) by (simp add: ring_def)
qed

lemma ring_init: "ring (list_init h L) h []" "agree {h} L (list_init h L)"
  by (simp_all add: ring_def list_init_def agree_def)

lemma ring_empty: "ring L h xs \<Longrightarrow> list_is_empty h L \<longleftrightarrow> xs = []"
  using path_start [of L h xs h] by (cases xs) (auto simp: ring_def list_is_empty_def)

text \<open>Linking \<open>n\<close> between two neighbours.\<close>

lemma list_add_path:
  assumes r: "ring L h (xs @ ys)" and n: "n \<notin> insert h (set (xs @ ys))"
  defines "p \<equiv> if xs = [] then h else last xs" and "q \<equiv> if ys = [] then h else hd ys"
  shows "ring (list_add n p q L) h (xs @ n # ys)"
    "agree (insert n (insert h (set (xs @ ys)))) L (list_add n p q L)"
proof -
  let ?L = "list_add n p q L"
  have d: "distinct (h # xs @ ys)" and P: "path L h (xs @ ys) h" using r by (simp_all add: ring_def)
  have pq: "p \<in> insert h (set xs)" "q \<in> insert h (set ys)" using assms by (auto simp: p_def q_def)
  have L': "next_of ?L = (next_of L)(p := Some n, n := Some q)"
    "prev_of ?L = (prev_of L)(n := Some p, q := Some n)"
    using n pq by (auto simp: list_add_def Let_def fun_eq_iff)
  have ends: "next_of ?L p = Some n" "prev_of ?L n = Some p" "next_of ?L n = Some q" "prev_of ?L q = Some n"
    using n pq by (auto simp: L')
  have 1: "path ?L h xs n"
  proof (cases xs rule: rev_cases)
    case Nil
    hence "p = h" by (simp add: p_def)
    thus ?thesis using ends Nil by simp
  next
    case (snoc zs z)
    have a: "path L h zs z" using P snoc by (simp add: path_append)
    have "p = z" using snoc by (simp add: p_def)
    have "path ?L h zs z"
      by (rule path_cong [OF a]) (use d n snoc pq L' \<open>p = z\<close> in auto)
    moreover have "path ?L z [] n" using ends snoc by (simp add: p_def)
    ultimately show ?thesis using snoc by (simp add: path_append del: path.simps)
  qed
  have 2: "path ?L n ys h"
  proof (cases ys)
    case Nil
    hence "q = h" by (simp add: q_def)
    thus ?thesis using ends Nil by simp
  next
    case (Cons z zs)
    have a: "path L z zs h" using P Cons by (simp add: path_append)
    have "q = z" using Cons by (simp add: q_def)
    have "path ?L z zs h"
      by (rule path_cong [OF a]) (use d n Cons pq L' \<open>q = z\<close> in auto)
    thus ?thesis using ends Cons by (simp add: q_def)
  qed
  show "ring ?L h (xs @ n # ys)" using 1 2 d n by (auto simp: ring_def path_append)
  show "agree (insert n (insert h (set (xs @ ys)))) L ?L"
    using pq by (auto simp: agree_def L')
qed

lemma ring_add_head:
  assumes "ring L h xs" "n \<notin> insert h (set xs)"
  shows "\<exists>L'. list_add_head n h L = Some L' \<and> ring L' h (n # xs) \<and> agree (insert n (insert h (set xs))) L L'"
proof -
  have "next_of L h = Some (if xs = [] then h else hd xs)"
    using path_start [of L h xs h] assms(1) by (simp add: ring_def)
  thus ?thesis
    using list_add_path [of L h "[]" xs n] assms by (simp add: list_add_head_def)
qed

lemma ring_add_tail:
  assumes "ring L h xs" "n \<notin> insert h (set xs)"
  shows "\<exists>L'. list_add_tail n h L = Some L' \<and> ring L' h (xs @ [n]) \<and> agree (insert n (insert h (set xs))) L L'"
proof -
  have "prev_of L h = Some (if xs = [] then h else last xs)"
    using path_end [of L h xs h] assms(1) by (simp add: ring_def)
  thus ?thesis
    using list_add_path [of L h xs "[]" n] assms by (simp add: list_add_tail_def)
qed

text \<open>Unlinking an element.\<close>

lemma ring_del:
  assumes r: "ring L h (xs @ y # ys)"
  shows "\<exists>L'. list_del y L = Some L' \<and> ring L' h (xs @ ys) \<and> next_of L' y = None \<and> prev_of L' y = None
    \<and> agree (insert h (set (xs @ y # ys))) L L'"
proof -
  define p where "p = (if xs = [] then h else last xs)"
  define q where "q = (if ys = [] then h else hd ys)"
  have d: "distinct (h # xs @ y # ys)" and P: "path L h xs y" "path L y ys h"
    using r by (simp_all add: ring_def path_append)
  have pq: "p \<in> insert h (set xs)" "q \<in> insert h (set ys)" by (auto simp: p_def q_def)
  have v: "prev_of L y = Some p" "next_of L y = Some q"
    using path_end [OF P(1)] path_start [OF P(2)] by (simp_all add: p_def q_def)
  have py: "p \<noteq> y" "q \<noteq> y" using pq d by auto
  define L' where "L' = set_prev y None (set_next y None (set_prev q (Some p) (set_next p (Some q) L)))"
  have e: "list_del y L = Some L'" using v py by (simp add: list_del_def L'_def Let_def)
  have L: "next_of L' = (next_of L)(p := Some q, y := None)" "prev_of L' = (prev_of L)(q := Some p, y := None)"
    by (simp_all add: L'_def)
  have "path L' h (xs @ ys) h"
  proof (cases ys)
    case Nil
    show ?thesis
    proof (cases xs rule: rev_cases)
      case Nil2: Nil
      thus ?thesis using Nil d by (auto simp: L p_def q_def)
    next
      case (snoc zs z)
      have a: "path L h zs z" using P(1) snoc by (simp add: path_append)
      have "path L' h zs z"
        by (rule path_cong [OF a]) (use d snoc Nil in \<open>auto simp: L p_def q_def\<close>)
      moreover have "path L' z [] h" using d snoc Nil by (auto simp: L p_def q_def)
      ultimately show ?thesis using snoc Nil by (simp add: path_append del: path.simps)
    qed
  next
    case (Cons w ws)
    have b: "path L w ws h" using P(2) Cons by simp
    have B: "path L' w ws h"
      by (rule path_cong [OF b]) (use d Cons pq in \<open>auto simp: L p_def q_def\<close>)
    have "path L' h xs w"
    proof (cases xs rule: rev_cases)
      case Nil thus ?thesis using Cons d by (auto simp: L p_def q_def)
    next
      case (snoc zs z)
      have a: "path L h zs z" using P(1) snoc by (simp add: path_append)
      have "path L' h zs z"
        by (rule path_cong [OF a]) (use d snoc Cons in \<open>auto simp: L p_def q_def\<close>)
      moreover have "path L' z [] w" using d snoc Cons by (auto simp: L p_def q_def)
      ultimately show ?thesis using snoc by (simp add: path_append del: path.simps)
    qed
    thus ?thesis using B Cons by (simp add: path_append)
  qed
  moreover have "agree (insert h (set (xs @ y # ys))) L L'" using pq by (auto simp: agree_def L)
  ultimately show ?thesis using e d by (auto simp: ring_def L)
qed

lemma ring_pop_head:
  assumes r: "ring L h (x # xs)"
  shows "\<exists>L'. list_pop_head h L = Some (x, L') \<and> ring L' h xs
    \<and> next_of L' x = None \<and> prev_of L' x = None \<and> agree (insert h (set (x # xs))) L L'"
proof -
  have "next_of L h = Some x" using r by (simp add: ring_def)
  thus ?thesis using ring_del [of L h "[]" x xs] r by (auto simp: list_pop_head_def)
qed

lemma ring_pop_tail:
  assumes r: "ring L h (xs @ [x])"
  shows "\<exists>L'. list_pop_tail h L = Some (x, L') \<and> ring L' h xs
    \<and> next_of L' x = None \<and> prev_of L' x = None \<and> agree (insert h (set (xs @ [x]))) L L'"
proof -
  have "prev_of L h = Some x" using r path_end [of L h "xs @ [x]" h] by (simp add: ring_def)
  thus ?thesis using ring_del [of L h xs x "[]"] r by (auto simp: list_pop_tail_def)
qed

text \<open>Popping an empty list destroys it.\<close>

lemma pop_empty:
  assumes "ring L h []"
  shows "\<exists>L'. list_pop_head h L = Some (h, L') \<and> next_of L' h = None \<and> prev_of L' h = None"
  using assms by (simp add: ring_def list_pop_head_def list_del_def Let_def)

text \<open>A list in memory has one reading.\<close>

lemma ring_unique: "ring L h xs \<Longrightarrow> ring L h ys \<Longrightarrow> xs = ys"
proof -
  have *: "path L a xs h \<Longrightarrow> path L a ys h \<Longrightarrow> h \<notin> set xs \<Longrightarrow> h \<notin> set ys \<Longrightarrow> xs = ys" for a
  proof (induction xs arbitrary: a ys)
    case Nil thus ?case by (cases ys) auto
  next
    case (Cons x xs) thus ?case by (cases ys) auto
  qed
  show "ring L h xs \<Longrightarrow> ring L h ys \<Longrightarrow> xs = ys" using * by (auto simp: ring_def)
qed


section \<open>Several lists in one memory\<close>

text \<open>\<open>f h\<close> is the list behind head \<open>h\<close>; no element is in two lists.\<close>

definition rings :: "'n links \<Rightarrow> 'n set \<Rightarrow> ('n \<Rightarrow> 'n list) \<Rightarrow> bool" where
  "rings L H f \<longleftrightarrow> (\<forall>h\<in>H. ring L h (f h)) \<and>
     (\<forall>h\<in>H. \<forall>k\<in>H. h \<noteq> k \<longrightarrow> set (h # f h) \<inter> set (k # f k) = {})"

definition off_lists :: "'n set \<Rightarrow> ('n \<Rightarrow> 'n list) \<Rightarrow> 'n \<Rightarrow> bool" where
  "off_lists H f n \<longleftrightarrow> n \<notin> H \<and> (\<forall>h\<in>H. n \<notin> set (f h))"

lemma ringsD:
  assumes "rings L H f" "h \<in> H"
  shows "ring L h (f h)" "distinct (f h)" "h \<notin> set (f h)" "k \<in> H \<Longrightarrow> k \<notin> set (f h)"
    "k \<in> H \<Longrightarrow> k \<noteq> h \<Longrightarrow> set (f k) \<inter> set (f h) = {}"
proof -
  show r: "ring L h (f h)" using assms by (simp add: rings_def)
  thus d: "distinct (f h)" "h \<notin> set (f h)" by (auto simp: ring_def)
  have s: "set (k # f k) \<inter> set (h # f h) = {}" if "k \<in> H" "k \<noteq> h"
    using assms that unfolding rings_def by blast
  show "k \<in> H \<Longrightarrow> k \<notin> set (f h)" using s d by (cases "k = h") auto
  show "k \<in> H \<Longrightarrow> k \<noteq> h \<Longrightarrow> set (f k) \<inter> set (f h) = {}" using s by auto
qed

lemma rings_step:
  assumes R: "rings L H f" and h: "h \<in> H" and r: "ring L' h xs" and a: "agree (insert h (X \<union> set (f h))) L L'"
    and xs: "set xs \<subseteq> X \<union> set (f h)" and X: "\<And>n. n \<in> X \<Longrightarrow> off_lists H f n"
  shows "rings L' H (f(h := xs))"
  unfolding rings_def
proof (intro conjI ballI impI)
  fix k assume k: "k \<in> H"
  show "ring L' k ((f(h := xs)) k)"
  proof (cases "k = h")
    case False
    have "ring L' k (f k)"
    proof (rule ring_frame [OF ringsD(1) [OF R k] a])
      show "k \<notin> insert h (X \<union> set (f h))" using False k X ringsD(4) [OF R h k] by (auto simp: off_lists_def)
      show "set (f k) \<inter> insert h (X \<union> set (f h)) = {}"
        using False k X ringsD(4) [OF R k h] ringsD(5) [OF R h k] by (auto simp: off_lists_def)
    qed
    thus ?thesis using False by simp
  qed (use r in simp)
next
  have d: "set (h # xs) \<inter> set (k # f k) = {}" if k: "k \<in> H" "k \<noteq> h" for k
  proof -
    have "set xs \<inter> set (k # f k) = {}"
      using xs X k ringsD(4) [OF R h k(1)] ringsD(5) [OF R h k] by (auto simp: off_lists_def)
    thus ?thesis using k ringsD(4) [OF R k(1) h] by simp
  qed
  fix k l assume k: "k \<in> H" "l \<in> H" "k \<noteq> l"
  show "set (k # (f(h := xs)) k) \<inter> set (l # (f(h := xs)) l) = {}"
  proof (cases "k = h \<or> l = h")
    case True
    thus ?thesis using d [of k] d [of l] k by (elim disjE) (simp_all add: Int_commute)
  next
    case False
    thus ?thesis using R k by (simp add: rings_def)
  qed
qed

lemma rings_add_tail:
  assumes "rings L H f" "h \<in> H" "off_lists H f n"
  shows "\<exists>L'. list_add_tail n h L = Some L' \<and> rings L' H (f(h := f h @ [n]))"
proof -
  have n: "n \<notin> insert h (set (f h))" using assms(2,3) by (auto simp: off_lists_def)
  obtain L' where L': "list_add_tail n h L = Some L'" "ring L' h (f h @ [n])"
    "agree (insert n (insert h (set (f h)))) L L'"
    using ring_add_tail [OF ringsD(1) [OF assms(1,2)] n] by blast
  have "rings L' H (f(h := f h @ [n]))"
    by (rule rings_step [where X = "{n}", OF assms(1,2) L'(2)])
      (use L'(3) assms(3) in \<open>auto simp: insert_commute\<close>)
  thus ?thesis using L'(1) by blast
qed

lemma rings_add_head:
  assumes "rings L H f" "h \<in> H" "off_lists H f n"
  shows "\<exists>L'. list_add_head n h L = Some L' \<and> rings L' H (f(h := n # f h))"
proof -
  have n: "n \<notin> insert h (set (f h))" using assms(2,3) by (auto simp: off_lists_def)
  obtain L' where L': "list_add_head n h L = Some L'" "ring L' h (n # f h)"
    "agree (insert n (insert h (set (f h)))) L L'"
    using ring_add_head [OF ringsD(1) [OF assms(1,2)] n] by blast
  have "rings L' H (f(h := n # f h))"
    by (rule rings_step [where X = "{n}", OF assms(1,2) L'(2)])
      (use L'(3) assms(3) in \<open>auto simp: insert_commute\<close>)
  thus ?thesis using L'(1) by blast
qed

lemma rings_del:
  assumes "rings L H f" "h \<in> H" "n \<in> set (f h)"
  shows "\<exists>L'. list_del n L = Some L' \<and> rings L' H (f(h := remove1 n (f h)))"
proof -
  obtain xs ys where f: "f h = xs @ n # ys" "n \<notin> set xs"
    using split_list_first [OF assms(3)] by blast
  have r: "remove1 n (f h) = xs @ ys" using f by (simp add: remove1_append)
  obtain L' where L': "list_del n L = Some L'" "ring L' h (xs @ ys)"
    "agree (insert h (set (xs @ n # ys))) L L'"
    using ring_del [of L h xs n ys] ringsD(1) [OF assms(1,2)] f by auto
  have "rings L' H (f(h := xs @ ys))"
    by (rule rings_step [where X = "{}", OF assms(1,2) L'(2)]) (use L'(3) f in auto)
  thus ?thesis using L'(1) r by auto
qed

lemma rings_pop_head:
  assumes "rings L H f" "h \<in> H" "f h = n # xs"
  shows "\<exists>L'. list_pop_head h L = Some (n, L') \<and> rings L' H (f(h := xs))"
proof -
  have "next_of L h = Some n" using ringsD(1) [OF assms(1,2)] assms(3) by (simp add: ring_def)
  thus ?thesis using rings_del [OF assms(1,2), of n] assms(3) by (auto simp: list_pop_head_def)
qed

lemma rings_init:
  assumes R: "rings L H f" and n: "off_lists H f h"
  shows "rings (list_init h L) (insert h H) (f(h := []))"
  unfolding rings_def
proof (intro conjI ballI impI)
  fix k assume k: "k \<in> insert h H"
  show "ring (list_init h L) k ((f(h := [])) k)"
  proof (cases "k = h")
    case False
    hence k: "k \<in> H" using k by simp
    have "ring (list_init h L) k (f k)"
      by (rule ring_frame [OF ringsD(1) [OF R k] ring_init(2)]) (use False n k in \<open>auto simp: off_lists_def\<close>)
    thus ?thesis using False by simp
  qed (simp add: ring_init)
next
  fix k l assume k: "k \<in> insert h H" "l \<in> insert h H" "k \<noteq> l"
  show "set (k # (f(h := [])) k) \<inter> set (l # (f(h := [])) l) = {}"
  proof (cases "k = h \<or> l = h")
    case True
    thus ?thesis using n k by (elim disjE) (simp_all add: off_lists_def)
  next
    case False
    thus ?thesis using R k by (simp add: rings_def)
  qed
qed

lemma rings_none: "rings L {} f"
  by (simp add: rings_def)

lemma rings_empty: "rings L H f \<Longrightarrow> h \<in> H \<Longrightarrow> list_is_empty h L \<longleftrightarrow> f h = []"
  by (rule ring_empty) (rule ringsD)

lemma rings_cong: "rings L H f \<Longrightarrow> (\<And>h. h \<in> H \<Longrightarrow> g h = f h) \<Longrightarrow> rings L H g"
  by (simp add: rings_def)

lemma rings_reads: "rings L H f \<Longrightarrow> rings L H g \<Longrightarrow> h \<in> H \<Longrightarrow> f h = g h"
  by (meson ringsD(1) ring_unique)

end
