(* ===== verification/Allocator.thy ===== *)
theory Allocator
  imports Prelude
begin

text \<open>
  What a client may expect of an allocator: the contract that the identifier generator and the slab
  allocator of \<open>fep_slab.c\<close> share, and what follows for a client that releases only what it holds.
\<close>

section \<open>Clients\<close>

text \<open>A client keeps what it was given, and gives back something it holds, chosen by position.\<close>

datatype 'q pool_op = Acquire 'q | Give_back nat

fun client_step :: "('q \<Rightarrow> 's \<Rightarrow> ('h option \<times> 's) option) \<Rightarrow> ('h \<Rightarrow> 's \<Rightarrow> 's option) \<Rightarrow>
    'q pool_op \<Rightarrow> 'h list \<times> 's \<Rightarrow> ('h list \<times> 's) option" where
  "client_step acq rel (Acquire q) (hs, s) = do {
     (r, s) \<leftarrow> acq q s;
     Some (case r of None \<Rightarrow> (hs, s) | Some h \<Rightarrow> (h # hs, s))
   }"
| "client_step acq rel (Give_back k) (hs, s) =
     (if k < length hs then do { s \<leftarrow> rel (hs ! k) s; Some (take k hs @ drop (Suc k) hs, s) }
      else Some (hs, s))"

fun client_run :: "('q \<Rightarrow> 's \<Rightarrow> ('h option \<times> 's) option) \<Rightarrow> ('h \<Rightarrow> 's \<Rightarrow> 's option) \<Rightarrow>
    'q pool_op list \<Rightarrow> 'h list \<times> 's \<Rightarrow> ('h list \<times> 's) option" where
  "client_run acq rel [] c = Some c"
| "client_run acq rel (x # xs) c = Option.bind (client_step acq rel x c) (client_run acq rel xs)"

text \<open>Giving everything back, the latest first.\<close>

fun give_back_all :: "('h \<Rightarrow> 's \<Rightarrow> 's option) \<Rightarrow> 'h list \<Rightarrow> 's \<Rightarrow> 's option" where
  "give_back_all rel [] s = Some s"
| "give_back_all rel (h # hs) s = Option.bind (rel h s) (give_back_all rel hs)"

section \<open>The contract\<close>

locale pool =
  fixes inv :: "'s \<Rightarrow> bool" and live :: "'s \<Rightarrow> 'h set"
    and acquire :: "'q \<Rightarrow> 's \<Rightarrow> ('h option \<times> 's) option" and release :: "'h \<Rightarrow> 's \<Rightarrow> 's option"
  assumes acquire_ok: "inv s \<Longrightarrow> ok (\<lambda>(r, s'). inv s' \<and>
      (case r of None \<Rightarrow> live s' = live s | Some h \<Rightarrow> h \<notin> live s \<and> live s' = insert h (live s))) (acquire q s)"
    and release_ok: "inv s \<Longrightarrow> h \<in> live s \<Longrightarrow> ok (\<lambda>s'. inv s' \<and> live s' = live s - {h}) (release h s)"
begin

definition holds :: "'h list \<times> 's \<Rightarrow> bool" where
  "holds c \<longleftrightarrow> inv (snd c) \<and> distinct (fst c) \<and> set (fst c) = live (snd c)"

lemma drop_nth:
  assumes "distinct hs" "k < length hs"
  shows "distinct (take k hs @ drop (Suc k) hs)" "set (take k hs @ drop (Suc k) hs) = set hs - {hs ! k}"
proof -
  have e: "hs = take k hs @ hs ! k # drop (Suc k) hs" using assms(2) by (rule id_take_nth_drop)
  have d: "distinct (take k hs @ hs ! k # drop (Suc k) hs)" using assms(1) e by simp
  have s: "set hs = set (take k hs @ hs ! k # drop (Suc k) hs)" using e by simp
  show "distinct (take k hs @ drop (Suc k) hs)" using d by simp
  show "set (take k hs @ drop (Suc k) hs) = set hs - {hs ! k}" using d unfolding s by auto
qed

lemma step_holds:
  assumes "holds c"
  shows "ok holds (client_step acquire release x c)"
proof (cases c)
  case (Pair hs s)
  hence I: "inv s" "distinct hs" "set hs = live s" using assms by (simp_all add: holds_def)
  show ?thesis
  proof (cases x)
    case (Acquire q)
    show ?thesis unfolding Pair Acquire client_step.simps ok_bind
      by (rule ok_mono [OF acquire_ok [OF I(1), of q]]) (use I in \<open>auto simp: holds_def split: option.splits\<close>)
  next
    case (Give_back k)
    show ?thesis
    proof (cases "k < length hs")
      case True
      have "ok holds (Option.bind (release (hs ! k) s) (\<lambda>s. Some (take k hs @ drop (Suc k) hs, s)))"
        unfolding ok_bind
        by (rule ok_mono [OF release_ok [OF I(1)]])
          (use True I drop_nth [OF I(2) True] in \<open>auto simp: holds_def simp del: set_append distinct_append\<close>)
      thus ?thesis using True by (simp add: Pair Give_back)
    qed (use I in \<open>simp add: Pair Give_back holds_def\<close>)
  qed
qed

text \<open>However a client mixes its operations, it always holds exactly what is live, nothing twice.\<close>

lemma run_holds: "holds c \<Longrightarrow> ok holds (client_run acquire release xs c)"
proof (induction xs arbitrary: c)
  case (Cons x xs)
  show ?case unfolding client_run.simps ok_bind
    by (rule ok_mono [OF step_holds [OF Cons.prems]]) (rule Cons.IH)
qed simp

lemma all_back: "inv s \<Longrightarrow> distinct hs \<Longrightarrow> set hs = live s \<Longrightarrow>
    ok (\<lambda>s'. inv s' \<and> live s' = {}) (give_back_all release hs s)"
proof (induction hs arbitrary: s)
  case (Cons h hs)
  show ?case unfolding give_back_all.simps ok_bind
  proof (rule ok_mono [OF release_ok [OF Cons.prems(1)]])
    show "h \<in> live s" using Cons.prems by auto
    fix s' assume "inv s' \<and> live s' = live s - {h}"
    thus "ok (\<lambda>s'. inv s' \<and> live s' = {}) (give_back_all release hs s')"
      using Cons.prems by (intro Cons.IH) auto
  qed
qed simp

text \<open>Whatever the client did, giving back what it holds empties the pool.\<close>

lemma run_all_back:
  assumes "inv s" "live s = {}"
  shows "ok (\<lambda>(hs, s'). ok (\<lambda>s''. inv s'' \<and> live s'' = {}) (give_back_all release hs s'))
    (client_run acquire release xs ([], s))"
  by (rule ok_mono [OF run_holds]) (use assms in \<open>auto simp: holds_def intro: all_back\<close>)

end

end
