(* ===== verification/Slab.thy ===== *)
theory Slab
  imports Links Allocator
begin

text \<open>
  The slab allocator of \<open>fep_slab.c\<close>. A store is cut into blocks of 65 KB. A block is either on the
  list of free blocks or cut into objects of one slot's size, each on the slot's list of free or of
  used objects. A slot takes a new block when it has no free object, and gives a block back when
  the last of its objects is freed.

  A pointer to an allocator is an option, NULL being \<open>None\<close>. A block is the index of its 65 KB in
  the store, an object the index of its block and its index in the block; \<open>obj_addr\<close> is the
  address the code works with. The mutex is held throughout each operation, so the locked sections
  are sequential code. Measurement macros and the "show memory" registry belong to
  \<open>fep_memory.h\<close> and \<open>fep_map.h\<close>, which are not part of the repository: they are parameters.
\<close>

section \<open>Data\<close>

definition FEP_SLAB_MAX_SLOTS :: nat where "FEP_SLAB_MAX_SLOTS = 8"
definition FEP_SLAB_SZ_NAME :: nat where "FEP_SLAB_SZ_NAME = 16"
definition FEP_SLAB_SZ_BLK :: nat where "FEP_SLAB_SZ_BLK = 65 * 1024"
definition FEP_SLAB_INIT_HDRNUM :: "32 word" where "FEP_SLAB_INIT_HDRNUM = - 1"
definition FEP_SLAB_MAGIC_BLK :: "32 word" where "FEP_SLAB_MAGIC_BLK = 0xb10ca91c"
definition FEP_SLAB_MAGIC_OBJ :: "32 word" where "FEP_SLAB_MAGIC_OBJ = 0x0b93a91c"

text \<open>
  The headers take 32 bytes each: with pointers of 8 bytes because of the fields, with pointers of
  4 bytes because of the fillers the header declares for that target.
\<close>

definition SIZEOF_OBJ :: nat where "SIZEOF_OBJ = 32"
definition SIZEOF_BLK :: nat where "SIZEOF_BLK = 32"

text \<open>The list elements: the head of the free blocks, two heads per slot, blocks, objects.\<close>

datatype slab_node = Free_blks | Free_objs nat | Used_objs nat | Blk nat | Obj nat nat

datatype mem_kind = MEMORY_PRIVATE | Other_memory nat

text \<open>\<open>mem_rest\<close> stands for the fields of \<open>Memory\<close> this file does not name.\<close>

record 'm memory =
  mem_address :: "nat option"
  mem_count :: ulong
  mem_length :: ulong
  mem_name :: "string option"
  mem_size :: ulong
  mem_type :: mem_kind
  mem_text :: string
  mem_struct :: string
  mem_fatal :: int
  mem_fail :: nat
  mem_rest :: 'm

text \<open>
  \<open>pulBsize\<close>, \<open>pMemory\<close> and \<open>pszPrivName\<close> of \<open>PrivInfo\<close> point back into the slot, at its
  \<open>data_size\<close>, its memory and the memory's \<open>mem_text\<close>; they are not stored here.
\<close>

record 'm slab_slot =
  memory :: "'m memory"
  ulCount :: ulong
  data_size :: ulong
  n_objs :: "32 word"
  objs_free :: int
  objs_in_use :: int
  objs_max :: int
  n_allocs :: "32 word"
  n_fail :: "32 word"

record slab_obj =
  parent :: nat
  hdrnum :: "32 word"
  obj_magic :: "32 word"

record slab_blk =
  blkref :: int
  blk_slot :: int
  obj_size :: "32 word"
  blk_magic :: "32 word"

record 'm slab =
  slab_links :: "slab_node links"
  slab_name :: string
  slab_flags :: ulong
  blks_free :: int
  blks_in_use :: int
  blks_max :: int
  next_hdrnum :: "32 word"
  pblks :: nat
  nblks :: int
  n_slots :: nat
  slots :: "'m slab_slot list"
  blk :: "nat \<Rightarrow> slab_blk"
  obj :: "nat \<times> nat \<Rightarrow> slab_obj"

record slot_info =
  info_data_size :: ulong
  info_n_objs :: "32 word"
  slot_name :: string
  type_name :: string

text \<open>
  What is outside: the macros that count an allocation and a deallocation in \<open>Memory\<close>, the
  registry of memories with state \<open>'w\<close>, the sizes of the name arrays of \<open>Memory\<close>, and the value
  \<open>UNINITIALIZED\<close>.
\<close>

record ('m, 'w) slab_env =
  MEMORY_ALLOCATED :: "'m memory \<Rightarrow> 'm memory"
  MEMORY_DEALLOCATED :: "'m memory \<Rightarrow> 'm memory"
  map_insert_both :: "'m memory \<Rightarrow> 'w \<Rightarrow> 'w"
  sizeof_mem_text :: nat
  sizeof_mem_struct :: nat
  slab_UNINITIALIZED :: int
  zero_memory :: "'m memory"

definition upd_slot :: "nat \<Rightarrow> ('m slab_slot \<Rightarrow> 'm slab_slot) \<Rightarrow> 'm slab \<Rightarrow> 'm slab" where
  "upd_slot i f s = s\<lparr>slots := (slots s)[i := f (slots s ! i)]\<rparr>"

definition upd_blk :: "nat \<Rightarrow> (slab_blk \<Rightarrow> slab_blk) \<Rightarrow> 'm slab \<Rightarrow> 'm slab" where
  "upd_blk b f s = s\<lparr>blk := (blk s)(b := f (blk s b))\<rparr>"

definition upd_obj :: "nat \<times> nat \<Rightarrow> (slab_obj \<Rightarrow> slab_obj) \<Rightarrow> 'm slab \<Rightarrow> 'm slab" where
  "upd_obj p f s = s\<lparr>obj := (obj s)(p := f (obj s p))\<rparr>"

text \<open>
  Where an object is: behind the header of its block, at a multiple of the object size. The caller
  gets the address behind the object's own header.
\<close>

definition obj_addr :: "'m slab \<Rightarrow> nat \<times> nat \<Rightarrow> nat" where
  "obj_addr s p = pblks s + fst p * FEP_SLAB_SZ_BLK + SIZEOF_BLK + snd p * unat (obj_size (blk s (fst p)))"

definition data_addr :: "'m slab \<Rightarrow> nat \<times> nat \<Rightarrow> nat" where
  "data_addr s p = obj_addr s p + SIZEOF_OBJ"

section \<open>Blocks\<close>

text \<open>The divisions of the code; dividing by zero is undefined.\<close>

definition objs_per_blk :: "32 word \<Rightarrow> nat option" where
  "objs_per_blk sz = (if sz = 0 then None else Some ((FEP_SLAB_SZ_BLK - SIZEOF_BLK) div unat sz))"

definition push_tail :: "slab_node \<Rightarrow> slab_node \<Rightarrow> 'm slab \<Rightarrow> 'm slab option" where
  "push_tail n h s = Option.bind (list_add_tail n h (slab_links s)) (\<lambda>L. Some (s\<lparr>slab_links := L\<rparr>))"

definition push_head :: "slab_node \<Rightarrow> slab_node \<Rightarrow> 'm slab \<Rightarrow> 'm slab option" where
  "push_head n h s = Option.bind (list_add_head n h (slab_links s)) (\<lambda>L. Some (s\<lparr>slab_links := L\<rparr>))"

definition unlink :: "slab_node \<Rightarrow> 'm slab \<Rightarrow> 'm slab option" where
  "unlink n s = Option.bind (list_del n (slab_links s)) (\<lambda>L. Some (s\<lparr>slab_links := L\<rparr>))"

fun part_objs :: "nat \<Rightarrow> nat \<Rightarrow> nat \<Rightarrow> nat \<Rightarrow> 'm slab \<Rightarrow> 'm slab option" where
  "part_objs b slot j 0 s = Some s"
| "part_objs b slot j (Suc k) s = do {
     let s = upd_obj (b, j) (\<lambda>o'. o'\<lparr>parent := b, hdrnum := FEP_SLAB_INIT_HDRNUM,
       obj_magic := FEP_SLAB_MAGIC_OBJ\<rparr>) s;
     s \<leftarrow> push_tail (Obj b j) (Free_objs slot) s;
     part_objs b slot (Suc j) k (upd_slot slot (\<lambda>t. t\<lparr>objs_free := objs_free t + 1\<rparr>) s)
   }"

definition fep_slab_block_alloc :: "int \<Rightarrow> 'm slab option \<Rightarrow> (status \<times> 'm slab option) option" where
  "fep_slab_block_alloc slot pslab = (case pslab of
     None \<Rightarrow> Some (FAILURE, None)
   | Some s \<Rightarrow>
     if slot < 0 \<or> slot \<ge> int (n_slots s) then Some (FAILURE, Some s)
     else if list_is_empty Free_blks (slab_links s) then Some (FAILURE, Some s)
     else do {
       (n, L) \<leftarrow> list_pop_head Free_blks (slab_links s);
       let s = s\<lparr>slab_links := L, blks_free := blks_free s - 1, blks_in_use := blks_in_use s + 1\<rparr>;
       case n of
         Blk b \<Rightarrow> do {
           let s = (if blks_in_use s > blks_max s then s\<lparr>blks_max := blks_in_use s\<rparr> else s);
           let size = of_nat SIZEOF_OBJ + data_size (slots s ! nat slot);
           let s = upd_blk b (\<lambda>t. t\<lparr>obj_size := size, blkref := 0, blk_slot := slot,
             blk_magic := FEP_SLAB_MAGIC_BLK\<rparr>) s;
           k \<leftarrow> objs_per_blk (obj_size (blk s b));
           s \<leftarrow> part_objs b (nat slot) 0 k s;
           Some (SUCCESS, Some s)
         }
       | _ \<Rightarrow> None
     })"

fun unpart_objs :: "nat \<Rightarrow> nat \<Rightarrow> nat \<Rightarrow> nat \<Rightarrow> 'm slab \<Rightarrow> 'm slab option" where
  "unpart_objs b slot j 0 s = Some s"
| "unpart_objs b slot j (Suc k) s = do {
     s \<leftarrow> unlink (Obj b j) s;
     unpart_objs b slot (Suc j) k (upd_slot slot (\<lambda>t. t\<lparr>objs_free := objs_free t - 1\<rparr>) s)
   }"

definition fep_slab_block_free :: "('m, 'w) slab_env \<Rightarrow> nat \<Rightarrow> nat \<Rightarrow> 'm slab \<Rightarrow> 'm slab option" where
  "fep_slab_block_free E b slot s = do {
     k \<leftarrow> objs_per_blk (obj_size (blk s b));
     s \<leftarrow> unpart_objs b slot 0 k s;
     s \<leftarrow> push_tail (Blk b) Free_blks
       (upd_blk b (\<lambda>t. t\<lparr>obj_size := 0, blk_slot := slab_UNINITIALIZED E\<rparr>) s);
     Some (s\<lparr>blks_free := blks_free s + 1, blks_in_use := blks_in_use s - 1\<rparr>)
   }"

section \<open>The accounting of private memory\<close>

definition fep_slab_fep_create_private :: "('m, 'w) slab_env \<Rightarrow> 'm slab_slot \<times> 'w \<Rightarrow> 'm slab_slot \<times> 'w" where
  "fep_slab_fep_create_private E = (\<lambda>(t, w).
     let m = (memory t)\<lparr>mem_address := None, mem_count := ulCount t, mem_length := ulCount t * data_size t,
       mem_name := Some (mem_text (memory t)), mem_size := data_size t, mem_type := MEMORY_PRIVATE\<rparr>
     in (t\<lparr>memory := m\<rparr>, map_insert_both E m w))"

text \<open>
  The memory is that of a slot, or NULL. Data is an object, or NULL.
\<close>

definition fep_slab_new_private ::
    "('m, 'w) slab_env \<Rightarrow> nat option \<Rightarrow> (nat \<times> nat) option \<Rightarrow> 'm slab \<Rightarrow> (nat \<times> nat) option \<times> 'm slab" where
  "fep_slab_new_private E pMemory data s = (case pMemory of
     None \<Rightarrow> (None, s)
   | Some i \<Rightarrow> (case data of
       None \<Rightarrow> (None, upd_slot i (\<lambda>t. t\<lparr>memory := (memory t)\<lparr>mem_fail := mem_fail (memory t) + 1\<rparr>\<rparr>) s)
     | Some p \<Rightarrow> (Some p, upd_slot i (\<lambda>t. t\<lparr>memory := MEMORY_ALLOCATED E (memory t)\<rparr>) s)))"

definition fep_slab_delete_private :: "('m, 'w) slab_env \<Rightarrow> nat option \<Rightarrow> 'm slab \<Rightarrow> 'm slab" where
  "fep_slab_delete_private E pMemory s = (case pMemory of
     None \<Rightarrow> s
   | Some i \<Rightarrow> upd_slot i (\<lambda>t. t\<lparr>memory := MEMORY_DEALLOCATED E (memory t)\<rparr>) s)"

section \<open>Initialisation\<close>

definition strncpy_name :: "nat \<Rightarrow> string \<Rightarrow> string" where
  "strncpy_name n src = take n src"

text \<open>The loop over the store: block \<open>b\<close> begins at \<open>next\<close> and \<open>left\<close> bytes follow.\<close>

function part_blks :: "('m, 'w) slab_env \<Rightarrow> nat \<Rightarrow> int \<Rightarrow> 'm slab \<Rightarrow> 'm slab option" where
  "part_blks E b left s =
     (if left \<ge> int FEP_SLAB_SZ_BLK then do {
        let s = upd_blk b (\<lambda>t. t\<lparr>blk_magic := FEP_SLAB_MAGIC_BLK, obj_size := 0,
          blk_slot := slab_UNINITIALIZED E\<rparr>) s;
        s \<leftarrow> push_tail (Blk b) Free_blks s;
        part_blks E (Suc b) (left - int FEP_SLAB_SZ_BLK) (s\<lparr>blks_free := blks_free s + 1\<rparr>)
      }
      else Some s)"
  by pat_completeness auto

termination
  by (relation "measure (\<lambda>(_, _, left, _). nat left)") (auto simp: FEP_SLAB_SZ_BLK_def)

text \<open>Rounding of a data size, in the width of the machine.\<close>

definition align_size :: "ulong \<Rightarrow> ulong \<Rightarrow> ulong option" where
  "align_size align n = (if align = 0 then None else Some ((n + align - 1) div align * align))"

definition init_slot :: "('m, 'w) slab_env \<Rightarrow> ulong \<Rightarrow> slot_info \<Rightarrow> nat \<Rightarrow> 'm slab \<times> 'w \<Rightarrow> ('m slab \<times> 'w) option" where
  "init_slot E align pinfo i = (\<lambda>(s, w). do {
     size \<leftarrow> align_size align (info_data_size pinfo);
     let s = upd_slot i (\<lambda>t. t\<lparr>n_objs := info_n_objs pinfo, data_size := size\<rparr>) s;
     let s = s\<lparr>slab_links := list_init (Used_objs i) (list_init (Free_objs i) (slab_links s))\<rparr>;
     let s = upd_slot i (\<lambda>t. t\<lparr>memory := (memory t)\<lparr>
       mem_text := strncpy_name (sizeof_mem_text E - 1) (slot_name pinfo),
       mem_struct := strncpy_name (sizeof_mem_struct E - 1) (type_name pinfo), mem_fatal := 0\<rparr>\<rparr>) s;
     k \<leftarrow> objs_per_blk (of_nat SIZEOF_OBJ + size);
     let count = of_int (blks_free s * int k);
     let s = upd_slot i (\<lambda>t. t\<lparr>ulCount := if count > n_objs t then n_objs t else count\<rparr>) s;
     let (t, w) = fep_slab_fep_create_private E (slots s ! i, w);
     Some (upd_slot i (\<lambda>_. t) s, w)
   })"

text \<open>At most eight slots; a slot of size zero ends the list. Reading past its end is undefined.\<close>

fun init_slots :: "('m, 'w) slab_env \<Rightarrow> ulong \<Rightarrow> slot_info list \<Rightarrow> nat \<Rightarrow> nat \<Rightarrow> 'm slab \<times> 'w \<Rightarrow>
    ('m slab \<times> 'w) option" where
  "init_slots E align infos i 0 c = Some c"
| "init_slots E align [] i (Suc k) c = None"
| "init_slots E align (pinfo # infos) i (Suc k) c =
     (if info_data_size pinfo = 0 then Some c
      else do {
        (s, w) \<leftarrow> init_slot E align pinfo i c;
        init_slots E align infos (Suc i) k (s\<lparr>n_slots := n_slots s + 1\<rparr>, w)
      })"

definition zero_heads :: "slab_node links \<Rightarrow> slab_node links" where
  "zero_heads L = fold (\<lambda>h L. set_next h None (set_prev h None L))
     (Free_blks # map Free_objs [0..<FEP_SLAB_MAX_SLOTS] @ map Used_objs [0..<FEP_SLAB_MAX_SLOTS]) L"

text \<open>
  The state is cleared; then the store, whose address is rounded up to 1 KB, becomes free blocks.
  The number of bytes left is computed unsigned and read as a signed number.
\<close>

definition zero_slab :: "('m, 'w) slab_env \<Rightarrow> 'm slab \<Rightarrow> 'm slab" where
  "zero_slab E s = s\<lparr>slab_links := zero_heads (slab_links s), slab_name := [], slab_flags := 0, blks_free := 0, blks_in_use := 0, blks_max := 0,
     next_hdrnum := 0, pblks := 0, nblks := 0, n_slots := 0,
     slots := replicate FEP_SLAB_MAX_SLOTS \<lparr>memory = zero_memory E, ulCount = 0, data_size = 0, n_objs = 0,
       objs_free = 0, objs_in_use = 0, objs_max = 0, n_allocs = 0, n_fail = 0\<rparr>\<rparr>"

definition fep_slab_init :: "('m, 'w) slab_env \<Rightarrow> string \<Rightarrow> ulong \<Rightarrow> ulong \<Rightarrow> slot_info list \<Rightarrow> ulong \<Rightarrow> ulong \<Rightarrow>
    'm slab option \<times> 'w \<Rightarrow> (status \<times> 'm slab option \<times> 'w) option" where
  "fep_slab_init E name obj_align flags infos pstore zstore = (\<lambda>(pslab, w). case pslab of
     None \<Rightarrow> Some (FAILURE, None, w)
   | Some s \<Rightarrow> do {
       let s = (zero_slab E s)\<lparr>slab_name := strncpy_name (FEP_SLAB_SZ_NAME - 1) name, slab_flags := flags\<rparr>;
       let s = s\<lparr>slab_links := list_init Free_blks (slab_links s)\<rparr>;
       let nxt = (pstore + 1024 - 1) div 1024 * 1024;
       let left = sint (zstore - (nxt - pstore));
       s \<leftarrow> part_blks E 0 left (s\<lparr>pblks := unat nxt\<rparr>);
       (s, w) \<leftarrow> init_slots E obj_align infos 0 FEP_SLAB_MAX_SLOTS (s\<lparr>nblks := blks_free s\<rparr>, w);
       Some (SUCCESS, Some s, w)
     })"

section \<open>Allocation\<close>

definition take_obj :: "('m, 'w) slab_env \<Rightarrow> nat \<Rightarrow> 'm slab \<Rightarrow> ((nat \<times> nat) option \<times> 'm slab) option" where
  "take_obj E i s = do {
     (n, L) \<leftarrow> list_pop_head (Free_objs i) (slab_links s);
     case n of
       Obj b j \<Rightarrow> do {
         let s = upd_slot i (\<lambda>t. t\<lparr>n_allocs := n_allocs t + 1\<rparr>) (s\<lparr>slab_links := L\<rparr>);
         let s = upd_blk (parent (obj s (b, j))) (\<lambda>t. t\<lparr>blkref := blkref t + 1\<rparr>) s;
         let s = upd_obj (b, j) (\<lambda>t. t\<lparr>hdrnum := next_hdrnum s\<rparr>) s;
         s \<leftarrow> push_head (Obj b j) (Used_objs i) (s\<lparr>next_hdrnum := next_hdrnum s + 1\<rparr>);
         let s = upd_slot i (\<lambda>t. t\<lparr>objs_in_use := objs_in_use t + 1, objs_free := objs_free t - 1\<rparr>) s;
         let s = upd_slot i (\<lambda>t. if objs_in_use t > objs_max t then t\<lparr>objs_max := objs_in_use t\<rparr> else t) s;
         Some (fep_slab_new_private E (Some i) (Some (b, j)) s)
       }
     | _ \<Rightarrow> None
   }"

definition fep_slab_alloc_from_slot :: "('m, 'w) slab_env \<Rightarrow> int \<Rightarrow> 'm slab option \<Rightarrow>
    ((nat \<times> nat) option \<times> 'm slab option) option" where
  "fep_slab_alloc_from_slot E slot pslab = (case pslab of
     None \<Rightarrow> Some (None, None)
   | Some s \<Rightarrow>
     if slot < 0 \<or> slot \<ge> int (n_slots s) then Some (None, Some s)
     else do {
       (r, ps) \<leftarrow> (if list_is_empty (Free_objs (nat slot)) (slab_links s)
                  then fep_slab_block_alloc slot (Some s) else Some (SUCCESS, Some s));
       case (r, ps) of
         (SUCCESS, Some s) \<Rightarrow> map_option (\<lambda>(p, s). (p, Some s)) (take_obj E (nat slot) s)
       | (FAILURE, Some s) \<Rightarrow>
           (let (p, s) = fep_slab_new_private E (Some (nat slot)) None s in Some (p, Some s))
       | (_, None) \<Rightarrow> None
     })"

text \<open>The smallest slot that satisfies the request, the first of several.\<close>

fun best_slot :: "'m slab \<Rightarrow> ulong \<Rightarrow> nat \<Rightarrow> nat \<Rightarrow> nat option \<Rightarrow> nat option" where
  "best_slot s n i 0 best = best"
| "best_slot s n i (Suc k) best = best_slot s n (Suc i) k
     (if n \<le> data_size (slots s ! i) then
        (case best of None \<Rightarrow> Some i
         | Some j \<Rightarrow> if data_size (slots s ! i) < data_size (slots s ! j) then Some i else Some j)
      else best)"

definition fep_slab_alloc :: "('m, 'w) slab_env \<Rightarrow> ulong \<Rightarrow> 'm slab option \<Rightarrow>
    ((nat \<times> nat) option \<times> 'm slab option) option" where
  "fep_slab_alloc E n pslab = (case pslab of
     None \<Rightarrow> Some (None, None)
   | Some s \<Rightarrow>
     if n = 0 then Some (None, Some s)
     else (case best_slot s n 0 (n_slots s) None of
       None \<Rightarrow> Some (None, Some s)
     | Some j \<Rightarrow> fep_slab_alloc_from_slot E (int j) (Some s)))"

section \<open>Release\<close>

definition fep_slab_free :: "('m, 'w) slab_env \<Rightarrow> (nat \<times> nat) option \<Rightarrow> 'm slab option \<Rightarrow> 'm slab option option" where
  "fep_slab_free E pdata pslab = (case (pslab, pdata) of
     (Some s, Some (b, j)) \<Rightarrow>
       (let slot = blk_slot (blk s (parent (obj s (b, j)))) in
        if slot < 0 \<or> slot \<ge> int (n_slots s) then Some (Some s)
        else do {
          let i = nat slot;
          s \<leftarrow> unlink (Obj b j) s;
          let s = upd_slot i (\<lambda>t. t\<lparr>objs_in_use := objs_in_use t - 1\<rparr>) s;
          s \<leftarrow> push_tail (Obj b j) (Free_objs i) s;
          let s = upd_slot i (\<lambda>t. t\<lparr>objs_free := objs_free t + 1\<rparr>) s;
          let s = upd_obj (b, j) (\<lambda>t. t\<lparr>hdrnum := FEP_SLAB_INIT_HDRNUM\<rparr>) s;
          let c = parent (obj s (b, j));
          let s = upd_blk c (\<lambda>t. t\<lparr>blkref := blkref t - 1\<rparr>) s;
          s \<leftarrow> (if blkref (blk s c) \<le> 0 then fep_slab_block_free E c i s else Some s);
          Some (Some (fep_slab_delete_private E (Some i) s))
        })
   | _ \<Rightarrow> Some pslab)"

section \<open>Sizing a store\<close>

text \<open>
  The number of objects is converted to unsigned; sums and products wrap around.
\<close>

definition calc_zstore :: "32 word \<Rightarrow> ulong \<Rightarrow> ulong \<Rightarrow> ulong option" where
  "calc_zstore n sz obj_align = do {
     sz \<leftarrow> align_size obj_align sz;
     k \<leftarrow> objs_per_blk (of_nat SIZEOF_OBJ + sz);
     if k = 0 then None
     else Some ((n div of_nat k + 1 + 1) * of_nat FEP_SLAB_SZ_BLK)
   }"

end
