(* ===== verification/Slab_Inv.thy ===== *)
theory Slab_Inv
  imports Slab
begin

text \<open>
  The invariant of the slab allocator and what each operation does to it: the lists of a slot hold
  exactly the objects of the blocks cut for that slot, the reference count of a block is the number
  of its used objects, and the counters are the lengths of the lists.
\<close>

section \<open>Access\<close>

lemma slots_upd [simp]:
  "length (slots (upd_slot i f s)) = length (slots s)"
  "i < length (slots s) \<Longrightarrow> slots (upd_slot i f s) ! k = (if k = i then f (slots s ! i) else slots s ! k)"
  "slots (upd_blk b g s) = slots s" "slots (upd_obj p h s) = slots s"
  by (simp_all add: upd_slot_def upd_blk_def upd_obj_def)

lemma blk_upd [simp]:
  "blk (upd_slot i f s) = blk s" "blk (upd_obj p h s) = blk s" "blk (upd_blk b g s) = (blk s)(b := g (blk s b))"
  by (simp_all add: upd_slot_def upd_blk_def upd_obj_def)

lemma obj_upd [simp]:
  "obj (upd_slot i f s) = obj s" "obj (upd_blk b g s) = obj s" "obj (upd_obj p h s) = (obj s)(p := h (obj s p))"
  by (simp_all add: upd_slot_def upd_blk_def upd_obj_def)

lemma slab_upd [simp]:
  "slab_links (upd_slot i f s) = slab_links s" "slab_links (upd_blk b g s) = slab_links s"
  "slab_links (upd_obj p h s) = slab_links s"
  "n_slots (upd_slot i f s) = n_slots s" "n_slots (upd_blk b g s) = n_slots s" "n_slots (upd_obj p h s) = n_slots s"
  "nblks (upd_slot i f s) = nblks s" "nblks (upd_blk b g s) = nblks s" "nblks (upd_obj p h s) = nblks s"
  "pblks (upd_slot i f s) = pblks s" "pblks (upd_blk b g s) = pblks s" "pblks (upd_obj p h s) = pblks s"
  "blks_free (upd_slot i f s) = blks_free s" "blks_free (upd_blk b g s) = blks_free s"
  "blks_free (upd_obj p h s) = blks_free s"
  "blks_in_use (upd_slot i f s) = blks_in_use s" "blks_in_use (upd_blk b g s) = blks_in_use s"
  "blks_in_use (upd_obj p h s) = blks_in_use s"
  "blks_max (upd_slot i f s) = blks_max s" "blks_max (upd_blk b g s) = blks_max s" "blks_max (upd_obj p h s) = blks_max s"
  by (simp_all add: upd_slot_def upd_blk_def upd_obj_def)

text \<open>What no operation after initialisation changes.\<close>

definition same_slab :: "'m slab \<Rightarrow> 'm slab \<Rightarrow> bool" where
  "same_slab s s' \<longleftrightarrow> n_slots s' = n_slots s \<and> nblks s' = nblks s \<and> pblks s' = pblks s \<and>
     length (slots s') = length (slots s) \<and> (\<forall>i. data_size (slots s' ! i) = data_size (slots s ! i))"

lemma same_refl [simp]: "same_slab s s"
  by (simp add: same_slab_def)

lemma same_trans: "same_slab s t \<Longrightarrow> same_slab t u \<Longrightarrow> same_slab s u"
  by (simp add: same_slab_def)

section \<open>Invariant\<close>

definition osize :: "'m slab \<Rightarrow> nat \<Rightarrow> 32 word" where
  "osize s i = of_nat SIZEOF_OBJ + data_size (slots s ! i)"

text \<open>How many objects of slot \<open>i\<close> a block holds.\<close>

definition cap :: "'m slab \<Rightarrow> nat \<Rightarrow> nat" where
  "cap s i = (FEP_SLAB_SZ_BLK - SIZEOF_BLK) div unat (osize s i)"

definition heads :: "nat \<Rightarrow> slab_node set" where
  "heads n = insert Free_blks (Free_objs ` {..<n} \<union> Used_objs ` {..<n})"

definition obj_node :: "nat \<times> nat \<Rightarrow> slab_node" where
  "obj_node p = Obj (fst p) (snd p)"

definition slab_lists :: "nat list \<Rightarrow> (nat \<Rightarrow> (nat \<times> nat) list) \<Rightarrow> (nat \<Rightarrow> (nat \<times> nat) list) \<Rightarrow>
    slab_node \<Rightarrow> slab_node list" where
  "slab_lists fb fo uo h = (case h of Free_blks \<Rightarrow> map Blk fb
     | Free_objs i \<Rightarrow> map obj_node (fo i) | Used_objs i \<Rightarrow> map obj_node (uo i) | _ \<Rightarrow> [])"

definition carved :: "'m slab \<Rightarrow> nat list \<Rightarrow> nat set" where
  "carved s fb = {..<nat (nblks s)} - set fb"

definition refs :: "(nat \<times> nat) list \<Rightarrow> nat \<Rightarrow> nat" where
  "refs us b = length (filter (\<lambda>p. fst p = b) us)"

definition links_ok where
  "links_ok s fb fo uo \<longleftrightarrow> rings (slab_links s) (heads (n_slots s)) (slab_lists fb fo uo) \<and>
     n_slots s \<le> length (slots s) \<and> (\<forall>i<n_slots s. 0 < cap s i)"

text \<open>A block of \<open>Z\<close> may have no used object.\<close>

definition blocks_ok where
  "blocks_ok Z s fb uo \<longleftrightarrow> set fb \<subseteq> {..<nat (nblks s)} \<and>
     (\<forall>b\<in>carved s fb. \<exists>i<n_slots s. blk_slot (blk s b) = int i \<and> obj_size (blk s b) = osize s i \<and>
        (\<forall>j<cap s i. parent (obj s (b, j)) = b) \<and> blkref (blk s b) = int (refs (uo i) b) \<and>
        (b \<notin> Z \<longrightarrow> 0 < refs (uo i) b))"

definition objs_ok where
  "objs_ok s fb fo uo \<longleftrightarrow> (\<forall>i<n_slots s. \<forall>p. p \<in> set (fo i) \<union> set (uo i) \<longleftrightarrow>
     fst p \<in> carved s fb \<and> blk_slot (blk s (fst p)) = int i \<and> snd p < cap s i)"

definition counts_ok where
  "counts_ok s fb fo uo \<longleftrightarrow> 0 \<le> nblks s \<and> blks_free s = int (length fb) \<and>
     blks_in_use s = nblks s - blks_free s \<and> blks_in_use s \<le> blks_max s \<and> blks_max s \<le> nblks s \<and>
     (\<forall>i<n_slots s. objs_free (slots s ! i) = int (length (fo i)) \<and>
        objs_in_use (slots s ! i) = int (length (uo i)) \<and> objs_in_use (slots s ! i) \<le> objs_max (slots s ! i))"

definition slab_inv :: "nat set \<Rightarrow> 'm slab \<Rightarrow> nat list \<Rightarrow> (nat \<Rightarrow> (nat \<times> nat) list) \<Rightarrow>
    (nat \<Rightarrow> (nat \<times> nat) list) \<Rightarrow> bool" where
  "slab_inv Z s fb fo uo \<longleftrightarrow> links_ok s fb fo uo \<and> blocks_ok Z s fb uo \<and> objs_ok s fb fo uo \<and>
     counts_ok s fb fo uo"

lemma cap_same [simp]: "same_slab s s' \<Longrightarrow> cap s' = cap s" "same_slab s s' \<Longrightarrow> osize s' = osize s"
  "same_slab s s' \<Longrightarrow> carved s' = carved s"
  by (simp_all add: same_slab_def cap_def osize_def carved_def fun_eq_iff)

lemma obj_node_inj [simp]: "obj_node p = obj_node q \<longleftrightarrow> p = q" "inj obj_node" "obj_node (b, j) = Obj b j"
  by (auto simp: obj_node_def inj_def prod_eq_iff)

lemma obj_node_neq [simp]: "obj_node p \<noteq> Blk b" "obj_node p \<noteq> Free_blks" "obj_node p \<noteq> Free_objs i"
  "obj_node p \<noteq> Used_objs i" "Blk b \<noteq> obj_node p"
  by (simp_all add: obj_node_def)

lemma slab_lists_simps [simp]:
  "slab_lists fb fo uo Free_blks = map Blk fb" "slab_lists fb fo uo (Free_objs i) = map obj_node (fo i)"
  "slab_lists fb fo uo (Used_objs i) = map obj_node (uo i)"
  by (simp_all add: slab_lists_def)

lemma in_heads [simp]: "Free_blks \<in> heads n" "Free_objs i \<in> heads n \<longleftrightarrow> i < n" "Used_objs i \<in> heads n \<longleftrightarrow> i < n"
  "Blk b \<notin> heads n" "Obj b j \<notin> heads n" "obj_node p \<notin> heads n"
  by (auto simp: heads_def obj_node_def)

lemma ball_heads: "(\<forall>h\<in>heads n. P h) \<longleftrightarrow> P Free_blks \<and> (\<forall>i<n. P (Free_objs i)) \<and> (\<forall>i<n. P (Used_objs i))"
  by (auto simp: heads_def)

lemma in_map_node [simp]: "obj_node p \<in> obj_node ` A \<longleftrightarrow> p \<in> A"
  by (auto simp: image_iff)

lemma off_blk: "off_lists (heads n) (slab_lists fb fo uo) (Blk b) \<longleftrightarrow> b \<notin> set fb"
  by (auto simp: off_lists_def ball_heads)

lemma off_obj: "off_lists (heads n) (slab_lists fb fo uo) (obj_node p) \<longleftrightarrow>
    (\<forall>i<n. p \<notin> set (fo i) \<union> set (uo i))"
  by (auto simp: off_lists_def ball_heads)

lemma map_node_remove1: "map obj_node (remove1 p xs) = remove1 (obj_node p) (map obj_node xs)"
  by (induction xs) auto

lemma slab_lists_cong:
  assumes "rings L (heads n) f" "f Free_blks = map Blk fb"
    "\<And>i. i < n \<Longrightarrow> f (Free_objs i) = map obj_node (fo i)" "\<And>i. i < n \<Longrightarrow> f (Used_objs i) = map obj_node (uo i)"
  shows "rings L (heads n) (slab_lists fb fo uo)"
  by (rule rings_cong [OF assms(1)]) (use assms in \<open>auto simp: heads_def\<close>)

text \<open>The lists of the slots are apart.\<close>

lemma inv_distinct:
  assumes "slab_inv Z s fb fo uo"
  shows "distinct fb" "i < n_slots s \<Longrightarrow> distinct (fo i)" "i < n_slots s \<Longrightarrow> distinct (uo i)"
    "i < n_slots s \<Longrightarrow> set (fo i) \<inter> set (uo i) = {}"
proof -
  have R: "rings (slab_links s) (heads (n_slots s)) (slab_lists fb fo uo)"
    using assms by (simp add: slab_inv_def links_ok_def)
  show "distinct fb" using ringsD(2) [OF R, of Free_blks] by (simp add: distinct_map)
  show "distinct (fo i)" if "i < n_slots s"
    using ringsD(2) [OF R, of "Free_objs i"] that by (simp add: distinct_map)
  show "distinct (uo i)" if "i < n_slots s"
    using ringsD(2) [OF R, of "Used_objs i"] that by (simp add: distinct_map)
  show "set (fo i) \<inter> set (uo i) = {}" if "i < n_slots s"
    using ringsD(5) [OF R, of "Free_objs i" "Used_objs i"] that by auto
qed

lemma objs_okD: "objs_ok s fb fo uo \<Longrightarrow> i < n_slots s \<Longrightarrow>
    p \<in> set (fo i) \<union> set (uo i) \<longleftrightarrow>
    fst p \<in> carved s fb \<and> blk_slot (blk s (fst p)) = int i \<and> snd p < cap s i"
  unfolding objs_ok_def by blast

lemma objs_okI: "(\<And>i p. i < n_slots s \<Longrightarrow> p \<in> set (fo i) \<union> set (uo i) \<longleftrightarrow>
    fst p \<in> carved s fb \<and> blk_slot (blk s (fst p)) = int i \<and> snd p < cap s i) \<Longrightarrow> objs_ok s fb fo uo"
  unfolding objs_ok_def by blast

lemma inv_obj:
  assumes "slab_inv Z s fb fo uo" "i < n_slots s" "p \<in> set (fo i) \<union> set (uo i)"
  shows "fst p \<in> carved s fb" "blk_slot (blk s (fst p)) = int i" "snd p < cap s i" "parent (obj s p) = fst p"
    "blkref (blk s (fst p)) = int (refs (uo i) (fst p))" "obj_size (blk s (fst p)) = osize s i"
proof -
  show b: "fst p \<in> carved s fb" "blk_slot (blk s (fst p)) = int i" and c: "snd p < cap s i"
    using objs_okD [of s fb fo uo i p] assms by (simp_all add: slab_inv_def)
  obtain k where "blk_slot (blk s (fst p)) = int k" "\<forall>j<cap s k. parent (obj s (fst p, j)) = fst p"
    "blkref (blk s (fst p)) = int (refs (uo k) (fst p))" "obj_size (blk s (fst p)) = osize s k"
    using assms(1) b(1) by (auto simp: slab_inv_def blocks_ok_def)
  thus "parent (obj s p) = fst p" "blkref (blk s (fst p)) = int (refs (uo i) (fst p))"
    "obj_size (blk s (fst p)) = osize s i" using b(2) c by (cases p, simp)+
qed

lemma inv_refs: "slab_inv Z s fb fo uo \<Longrightarrow> b \<in> carved s fb \<Longrightarrow> blk_slot (blk s b) = int i \<Longrightarrow>
    blkref (blk s b) = int (refs (uo i) b) \<and> i < n_slots s \<and> (b \<notin> Z \<longrightarrow> 0 < refs (uo i) b)"
proof -
  assume I: "slab_inv Z s fb fo uo" and b: "b \<in> carved s fb" and i: "blk_slot (blk s b) = int i"
  obtain k where "k < n_slots s" "blk_slot (blk s b) = int k" "blkref (blk s b) = int (refs (uo k) b)"
    "b \<notin> Z \<longrightarrow> 0 < refs (uo k) b"
    using I b unfolding slab_inv_def blocks_ok_def by blast
  thus ?thesis using i by simp
qed

text \<open>An object belongs to one slot.\<close>

lemma inv_slot:
  assumes "slab_inv Z s fb fo uo" "i < n_slots s" "k < n_slots s"
    "p \<in> set (fo i) \<union> set (uo i)" "p \<in> set (fo k) \<union> set (uo k)"
  shows "k = i"
  using inv_obj(2) [OF assms(1,2,4)] inv_obj(2) [OF assms(1,3,5)] by simp

section \<open>Cutting a block\<close>

lemma objs_per_blk_cap: "0 < cap s i \<Longrightarrow> objs_per_blk (osize s i) = Some (cap s i)"
  by (cases "osize s i = 0") (auto simp: objs_per_blk_def cap_def)

definition parted :: "slab_node links \<Rightarrow> nat \<Rightarrow> nat \<Rightarrow> nat \<Rightarrow> nat \<Rightarrow> 'm slab \<Rightarrow> 'm slab" where
  "parted L b i j k s = s\<lparr>slab_links := L,
     slots := (slots s)[i := (slots s ! i)\<lparr>objs_free := objs_free (slots s ! i) + int k\<rparr>],
     obj := \<lambda>p. if fst p = b \<and> j \<le> snd p \<and> snd p < j + k
       then \<lparr>parent = b, hdrnum = FEP_SLAB_INIT_HDRNUM, obj_magic = FEP_SLAB_MAGIC_OBJ\<rparr> else obj s p\<rparr>"

lemma parted_0: "parted (slab_links s) b i j 0 s = s"
proof -
  have O: "(\<lambda>p. if fst p = b \<and> j \<le> snd p \<and> snd p < j
      then \<lparr>parent = b, hdrnum = FEP_SLAB_INIT_HDRNUM, obj_magic = FEP_SLAB_MAGIC_OBJ\<rparr> else obj s p) = obj s"
    by (rule ext) auto
  show ?thesis by (simp add: parted_def O)
qed

lemma parted_Suc:
  assumes "i < length (slots s)"
  shows "parted M b i (Suc j) k (upd_slot i (\<lambda>t. t\<lparr>objs_free := objs_free t + 1\<rparr>)
    ((upd_obj (b, j) (\<lambda>o'. o'\<lparr>parent := b, hdrnum := FEP_SLAB_INIT_HDRNUM, obj_magic := FEP_SLAB_MAGIC_OBJ\<rparr>) s)
      \<lparr>slab_links := L\<rparr>)) = parted M b i j (Suc k) s"
  using assms by (auto simp: parted_def upd_slot_def upd_obj_def fun_eq_iff prod_eq_iff add.assoc)

lemma part_objs_eq:
  assumes "rings (slab_links s) H f" "Free_objs i \<in> H" "i < length (slots s)"
    "\<And>j'. j \<le> j' \<Longrightarrow> j' < j + k \<Longrightarrow> off_lists H f (Obj b j')"
  shows "\<exists>L. part_objs b i j k s = Some (parted L b i j k s)
      \<and> rings L H (f(Free_objs i := f (Free_objs i) @ map (Obj b) [j..<j + k]))"
  using assms
proof (induction k arbitrary: j s f)
  case 0
  thus ?case using parted_0 [of s b i j] by (intro exI [of _ "slab_links s"]) simp
next
  case (Suc k)
  obtain L where L: "list_add_tail (Obj b j) (Free_objs i) (slab_links s) = Some L"
    "rings L H (f(Free_objs i := f (Free_objs i) @ [Obj b j]))" (is "rings L H ?f")
    using rings_add_tail [OF Suc.prems(1,2) Suc.prems(4) [of j]] by auto
  define s1 where "s1 = upd_slot i (\<lambda>t. t\<lparr>objs_free := objs_free t + 1\<rparr>)
    ((upd_obj (b, j) (\<lambda>o'. o'\<lparr>parent := b, hdrnum := FEP_SLAB_INIT_HDRNUM, obj_magic := FEP_SLAB_MAGIC_OBJ\<rparr>) s)
      \<lparr>slab_links := L\<rparr>)"
  have u: "off_lists H ?f (Obj b j')" if "Suc j \<le> j'" "j' < Suc j + k" for j'
    using Suc.prems(4) [of j'] that by (auto simp: off_lists_def)
  have s1: "rings (slab_links s1) H ?f" "i < length (slots s1)"
    using L(2) Suc.prems(3) by (simp_all add: s1_def upd_slot_def)
  obtain M where M: "part_objs b i (Suc j) k s1 = Some (parted M b i (Suc j) k s1)"
    "rings M H (?f(Free_objs i := ?f (Free_objs i) @ map (Obj b) [Suc j..<Suc j + k]))"
    using Suc.IH [OF s1(1) Suc.prems(2) s1(2) u] by blast
  have "part_objs b i j (Suc k) s = part_objs b i (Suc j) k s1"
    using L(1) by (simp add: push_tail_def s1_def upd_obj_def Let_def)
  hence "part_objs b i j (Suc k) s = Some (parted M b i j (Suc k) s)"
    using M(1) parted_Suc [OF Suc.prems(3), of M b j k L, folded s1_def] by simp
  moreover have "rings M H (f(Free_objs i := f (Free_objs i) @ map (Obj b) [j..<j + Suc k]))"
    by (rule rings_cong [OF M(2)]) (simp add: upt_conv_Cons del: upt_Suc)
  ultimately show ?case by blast
qed

lemma part_objs_all:
  assumes "rings (slab_links s) H f" "Free_objs i \<in> H" "i < length (slots s)" "\<And>j. off_lists H f (Obj b j)"
  shows "\<exists>L. part_objs b i 0 k s = Some (parted L b i 0 k s)
      \<and> rings L H (f(Free_objs i := f (Free_objs i) @ map (Obj b) [0..<k]))"
  using part_objs_eq [OF assms(1-3), of 0 k b] assms(4) by simp

lemma refs_append [simp]: "refs (xs @ ys) b = refs xs b + refs ys b" "refs [] b = 0"
  "refs (p # xs) b = (if fst p = b then 1 else 0) + refs xs b"
  by (simp_all add: refs_def)

lemma refs_remove1: "p \<in> set xs \<Longrightarrow> refs xs b = refs (remove1 p xs) b + (if fst p = b then 1 else 0)"
  by (induction xs) (auto simp: refs_def)

lemma refs_pos: "0 < refs xs b \<longleftrightarrow> (\<exists>p\<in>set xs. fst p = b)"
  by (auto simp: refs_def filter_empty_conv)

text \<open>A new block for slot \<open>i\<close>.\<close>

definition taken :: "'m slab \<Rightarrow> nat \<Rightarrow> nat \<Rightarrow> slab_node links \<Rightarrow> 'm slab" where
  "taken s b i L = upd_blk b (\<lambda>t. t\<lparr>obj_size := osize s i, blkref := 0, blk_slot := int i,
     blk_magic := FEP_SLAB_MAGIC_BLK\<rparr>) (s\<lparr>slab_links := L, blks_free := blks_free s - 1,
     blks_in_use := blks_in_use s + 1, blks_max := max (blks_max s) (blks_in_use s + 1)\<rparr>)"

lemma block_alloc_call:
  assumes "list_pop_head Free_blks (slab_links s) = Some (Blk b, L)" "\<not> list_is_empty Free_blks (slab_links s)"
    "i < n_slots s"
  shows "fep_slab_block_alloc (int i) (Some s) = Option.bind (objs_per_blk (osize s i))
    (\<lambda>k. Option.bind (part_objs b i 0 k (taken s b i L)) (\<lambda>s. Some (SUCCESS, Some s)))"
proof -
  define s1 where "s1 = s\<lparr>slab_links := L, blks_free := blks_free s - 1, blks_in_use := blks_in_use s + 1\<rparr>"
  define s2 where "s2 = upd_blk b (\<lambda>t. t\<lparr>obj_size := osize s i, blkref := 0, blk_slot := int i,
    blk_magic := FEP_SLAB_MAGIC_BLK\<rparr>) (if blks_in_use s1 > blks_max s1 then s1\<lparr>blks_max := blks_in_use s1\<rparr> else s1)"
  have "s2 = taken s b i L"
    by (cases "blks_in_use s + 1 > blks_max s") (simp_all add: s2_def s1_def taken_def max_absorb1 max_absorb2)
  moreover have "fep_slab_block_alloc (int i) (Some s) = Option.bind (objs_per_blk (obj_size (blk s2 b)))
      (\<lambda>k. Option.bind (part_objs b i 0 k s2) (\<lambda>s. Some (SUCCESS, Some s)))"
    using assms by (simp add: fep_slab_block_alloc_def s2_def s1_def osize_def Let_def)
  moreover have "obj_size (blk s2 b) = osize s i" by (simp add: s2_def)
  ultimately show ?thesis by simp
qed

lemma block_alloc_none:
  assumes "slab_inv Z s [] fo uo" "i < n_slots s"
  shows "fep_slab_block_alloc (int i) (Some s) = Some (FAILURE, Some s)"
proof -
  have "list_is_empty Free_blks (slab_links s)"
    using assms rings_empty [of "slab_links s" "heads (n_slots s)" "slab_lists [] fo uo" Free_blks]
    by (simp add: slab_inv_def links_ok_def)
  thus ?thesis using assms(2) by (simp add: fep_slab_block_alloc_def)
qed

lemma block_alloc_some:
  assumes I: "slab_inv {} s (b # fb) fo uo" and i: "i < n_slots s"
  shows "\<exists>s'. fep_slab_block_alloc (int i) (Some s) = Some (SUCCESS, Some s') \<and> same_slab s s' \<and>
    slab_inv {b} s' fb (fo(i := fo i @ map (Pair b) [0..<cap s i])) uo"
proof -
  let ?H = "heads (n_slots s)" and ?c = "cap s i"
  let ?fo = "fo(i := fo i @ map (Pair b) [0..<?c])"
  have R: "rings (slab_links s) ?H (slab_lists (b # fb) fo uo)" and l: "i < length (slots s)" and c: "0 < ?c"
    using I i by (auto simp: slab_inv_def links_ok_def)
  have d: "b \<notin> set fb" using inv_distinct(1) [OF I] by simp
  have b: "b < nat (nblks s)" using I by (simp add: slab_inv_def blocks_ok_def)
  obtain L where L: "list_pop_head Free_blks (slab_links s) = Some (Blk b, L)"
    "rings L ?H ((slab_lists (b # fb) fo uo)(Free_blks := map Blk fb))"
    using rings_pop_head [OF R, of Free_blks "Blk b" "map Blk fb"] by auto
  have R1: "rings L ?H (slab_lists fb fo uo)" by (rule slab_lists_cong [OF L(2)]) auto
  define s2 where "s2 = taken s b i L"
  have s2: "slab_links s2 = L" "slots s2 = slots s" "obj s2 = obj s" "n_slots s2 = n_slots s" "nblks s2 = nblks s"
    "pblks s2 = pblks s" "blks_free s2 = blks_free s - 1" "blks_in_use s2 = blks_in_use s + 1"
    "blks_max s2 = max (blks_max s) (blks_in_use s + 1)" "obj_size (blk s2 b) = osize s i"
    "blk s2 = (blk s)(b := \<lparr>blkref = 0, blk_slot = int i, obj_size = osize s i, blk_magic = FEP_SLAB_MAGIC_BLK\<rparr>)"
    by (cases "blk s b"; simp add: s2_def taken_def upd_blk_def)+
  have u: "off_lists ?H (slab_lists fb fo uo) (Obj b j)" for j
  proof -
    have "(b, j) \<notin> set (fo k) \<union> set (uo k)" if "k < n_slots s" for k
      using inv_obj(1) [OF I that, of "(b, j)"] by (auto simp: carved_def)
    thus ?thesis using off_obj [of "n_slots s" fb fo uo "(b, j)"] by simp
  qed
  obtain M where M: "part_objs b i 0 ?c s2 = Some (parted M b i 0 ?c s2)"
    "rings M ?H ((slab_lists fb fo uo)(Free_objs i := slab_lists fb fo uo (Free_objs i) @ map (Obj b) [0..<?c]))"
    using part_objs_all [of s2 ?H "slab_lists fb fo uo" i b ?c] R1 u i l s2(1,2) by auto
  have R2: "rings M ?H (slab_lists fb ?fo uo)"
    by (rule slab_lists_cong [OF M(2)]) (auto simp: obj_node_def comp_def)
  define s' where "s' = parted M b i 0 ?c s2"
  have e: "\<not> list_is_empty Free_blks (slab_links s)" using rings_empty [OF R, of Free_blks] by simp
  have call: "fep_slab_block_alloc (int i) (Some s) = Some (SUCCESS, Some s')"
    using M(1) unfolding block_alloc_call [OF L(1) e i] by (simp add: objs_per_blk_cap [OF c] s'_def s2_def)
  have same: "same_slab s s'"
    using l s2 by (auto simp: same_slab_def s'_def parted_def nth_list_update)
  have cv: "carved s' fb = insert b (carved s (b # fb))"
    using b d s2(5) by (auto simp: carved_def s'_def parted_def)
  have fields: "blk s' = blk s2" "slab_links s' = M" "n_slots s' = n_slots s" "nblks s' = nblks s"
    "obj s' p = (if fst p = b \<and> snd p < ?c
        then \<lparr>parent = b, hdrnum = FEP_SLAB_INIT_HDRNUM, obj_magic = FEP_SLAB_MAGIC_OBJ\<rparr> else obj s p)"
    "slots s' ! k = (if k = i then (slots s ! i)\<lparr>objs_free := objs_free (slots s ! i) + int ?c\<rparr> else slots s ! k)"
    for k p using s2 l by (simp_all add: s'_def parted_def nth_list_update)
  have free: "b \<notin> carved s (b # fb)" by (simp add: carved_def)
  have none: "refs (uo k) b = 0" if "k < n_slots s" for k
    using inv_obj(1) [OF I that] free by (auto simp: refs_def filter_empty_conv)
  have "links_ok s' fb ?fo uo"
    using I same R2 fields by (simp add: slab_inv_def links_ok_def same_slab_def)
      (metis cap_same(1) same)
  moreover have "blocks_ok {b} s' fb uo"
    unfolding blocks_ok_def
  proof (intro conjI ballI)
    show "set fb \<subseteq> {..<nat (nblks s')}" using I fields by (simp add: slab_inv_def blocks_ok_def)
    fix x assume x: "x \<in> carved s' fb"
    show "\<exists>k<n_slots s'. blk_slot (blk s' x) = int k \<and> obj_size (blk s' x) = osize s' k \<and>
        (\<forall>j<cap s' k. parent (obj s' (x, j)) = x) \<and> blkref (blk s' x) = int (refs (uo k) x) \<and>
        (x \<notin> {b} \<longrightarrow> 0 < refs (uo k) x)"
    proof (cases "x = b")
      case True
      thus ?thesis using i none [OF i] same s2 fields by (intro exI [of _ i]) (simp add: s2(11))
    next
      case False
      hence "x \<in> carved s (b # fb)" using x cv by simp
      then obtain k where "k < n_slots s" "blk_slot (blk s x) = int k" "obj_size (blk s x) = osize s k"
        "\<forall>j<cap s k. parent (obj s (x, j)) = x" "blkref (blk s x) = int (refs (uo k) x)" "0 < refs (uo k) x"
        using I unfolding slab_inv_def blocks_ok_def by blast
      thus ?thesis using False same fields s2(11) by (intro exI [of _ k]) simp
    qed
  qed
  moreover have "objs_ok s' fb ?fo uo"
  proof (rule objs_okI)
    fix k p assume "k < n_slots s'"
    hence k: "k < n_slots s" using fields by simp
    note O = objs_okD [of s "b # fb" fo uo k p] I k
    show "p \<in> set (?fo k) \<union> set (uo k) \<longleftrightarrow>
      fst p \<in> carved s' fb \<and> blk_slot (blk s' (fst p)) = int k \<and> snd p < cap s' k"
    proof (cases "fst p = b")
      case True
      hence "p \<notin> set (fo k) \<union> set (uo k)" using O free by (simp add: slab_inv_def)
      thus ?thesis using True same cv fields(1) s2(11) k by (cases p) auto
    next
      case False
      thus ?thesis using O same cv fields(1) s2(11) by (cases p) (auto simp: slab_inv_def)
    qed
  qed
  moreover have "counts_ok s' fb ?fo uo"
    using I fields s2 i d b by (auto simp: slab_inv_def counts_ok_def s'_def parted_def nth_list_update)
  ultimately show ?thesis using call same by (auto simp: slab_inv_def)
qed


section \<open>Taking an object\<close>

lemma take_obj_ok:
  assumes I: "slab_inv Z s fb fo uo" and i: "i < n_slots s" and f: "fo i = p # ps" and Z: "Z \<subseteq> {fst p}"
  shows "\<exists>s'. take_obj E i s = Some (Some p, s') \<and> same_slab s s' \<and>
    slab_inv {} s' fb (fo(i := ps)) (uo(i := p # uo i))"
proof -
  let ?H = "heads (n_slots s)" and ?fo = "fo(i := ps)" and ?uo = "uo(i := p # uo i)"
  obtain b j where p: "p = (b, j)" by (cases p)
  have R: "rings (slab_links s) ?H (slab_lists fb fo uo)" and l: "i < length (slots s)"
    using I i by (auto simp: slab_inv_def links_ok_def)
  have pin: "p \<in> set (fo i) \<union> set (uo i)" using f by simp
  note po = inv_obj [OF I i pin]
  obtain L where L: "list_pop_head (Free_objs i) (slab_links s) = Some (Obj b j, L)"
    "rings L ?H ((slab_lists fb fo uo)(Free_objs i := map obj_node ps))"
    using rings_pop_head [OF R, of "Free_objs i" "Obj b j" "map obj_node ps"] i f p by auto
  have R1: "rings L ?H (slab_lists fb ?fo uo)" by (rule slab_lists_cong [OF L(2)]) auto
  have d: "p \<notin> set ps" "distinct ps" "p \<notin> set (uo i)"
    using inv_distinct(2,4) [OF I i] f by auto
  have "p \<notin> set (?fo k) \<union> set (uo k)" if k: "k < n_slots s" for k
    using inv_slot [OF I i k pin] d by (cases "k = i") auto
  hence u: "off_lists ?H (slab_lists fb ?fo uo) (Obj b j)"
    using off_obj [of "n_slots s" fb ?fo uo p] by (simp add: p)
  obtain M where M: "list_add_head (Obj b j) (Used_objs i) L = Some M"
    "rings M ?H ((slab_lists fb ?fo uo)(Used_objs i := Obj b j # map obj_node (uo i)))"
    using rings_add_head [OF R1 _ u, of "Used_objs i"] i by auto
  have R2: "rings M ?H (slab_lists fb ?fo ?uo)" by (rule slab_lists_cong [OF M(2)]) (auto simp: p)
  define s1 where "s1 = upd_obj p (\<lambda>t. t\<lparr>hdrnum := next_hdrnum s\<rparr>) (upd_blk b (\<lambda>t. t\<lparr>blkref := blkref t + 1\<rparr>)
     (upd_slot i (\<lambda>t. t\<lparr>n_allocs := n_allocs t + 1\<rparr>) (s\<lparr>slab_links := L\<rparr>)))"
  define s2 where "s2 = s1\<lparr>next_hdrnum := next_hdrnum s1 + 1, slab_links := M\<rparr>"
  define s3 where "s3 = upd_slot i (\<lambda>t. if objs_in_use t > objs_max t then t\<lparr>objs_max := objs_in_use t\<rparr> else t)
    (upd_slot i (\<lambda>t. t\<lparr>objs_in_use := objs_in_use t + 1, objs_free := objs_free t - 1\<rparr>) s2)"
  define s' where "s' = upd_slot i (\<lambda>t. t\<lparr>memory := MEMORY_ALLOCATED E (memory t)\<rparr>) s3"
  have call: "take_obj E i s = Some (Some p, s')"
    using L(1) M(1) po(4) p
    by (simp add: take_obj_def fep_slab_new_private_def s'_def s3_def s2_def s1_def push_head_def Let_def
        upd_slot_def upd_blk_def upd_obj_def)
  have fields: "slab_links s' = M" "n_slots s' = n_slots s" "nblks s' = nblks s" "pblks s' = pblks s"
    "blks_free s' = blks_free s" "blks_in_use s' = blks_in_use s" "blks_max s' = blks_max s"
    "length (slots s') = length (slots s)"
    "blk s' = (blk s)(b := (blk s b)\<lparr>blkref := blkref (blk s b) + 1\<rparr>)"
    "obj s' = (obj s)(p := (obj s p)\<lparr>hdrnum := next_hdrnum s\<rparr>)"
    by (simp_all add: s'_def s3_def s2_def s1_def)
  have sl: "data_size (slots s' ! k) = data_size (slots s ! k)"
    "objs_free (slots s' ! k) = objs_free (slots s ! k) - (if k = i then 1 else 0)"
    "objs_in_use (slots s' ! k) = objs_in_use (slots s ! k) + (if k = i then 1 else 0)"
    "objs_max (slots s' ! k) = (if k = i then max (objs_max (slots s ! i)) (objs_in_use (slots s ! i) + 1)
       else objs_max (slots s ! k))" for k
    using l by (simp_all add: s'_def s3_def s2_def s1_def)
  have same: "same_slab s s'" using fields sl by (simp add: same_slab_def)
  have cv: "carved s' fb = carved s fb" using same by simp
  have par: "parent (obj s' q) = parent (obj s q)" for q using fields(10) by simp
  have bs: "blk_slot (blk s' x) = blk_slot (blk s x)" "obj_size (blk s' x) = obj_size (blk s x)" for x
    using fields(9) by simp_all
  have "links_ok s' fb ?fo ?uo"
    using I R2 fields same by (simp add: slab_inv_def links_ok_def)
  moreover have "blocks_ok {} s' fb ?uo"
    unfolding blocks_ok_def cv
  proof (intro conjI ballI)
    show "set fb \<subseteq> {..<nat (nblks s')}" using I fields by (simp add: slab_inv_def blocks_ok_def)
    fix x assume x: "x \<in> carved s fb"
    obtain k where k: "k < n_slots s" "blk_slot (blk s x) = int k" "obj_size (blk s x) = osize s k"
      "\<forall>j<cap s k. parent (obj s (x, j)) = x" "blkref (blk s x) = int (refs (uo k) x)" "x \<notin> Z \<longrightarrow> 0 < refs (uo k) x"
      using I x unfolding slab_inv_def blocks_ok_def by blast
    have "x = b \<Longrightarrow> k = i" using po(2) k(2) p by simp
    hence "blkref (blk s' x) = int (refs (?uo k) x) \<and> 0 < refs (?uo k) x"
      using k(5,6) Z p fields(9) by auto
    thus "\<exists>k<n_slots s'. blk_slot (blk s' x) = int k \<and> obj_size (blk s' x) = osize s' k \<and>
        (\<forall>j<cap s' k. parent (obj s' (x, j)) = x) \<and> blkref (blk s' x) = int (refs (?uo k) x) \<and>
        (x \<notin> {} \<longrightarrow> 0 < refs (?uo k) x)"
      using k same fields(2) by (intro exI [of _ k]) (simp add: bs par)
  qed
  moreover have "objs_ok s' fb ?fo ?uo"
  proof (rule objs_okI)
    fix k q assume "k < n_slots s'"
    hence "q \<in> set (fo k) \<union> set (uo k) \<longleftrightarrow> fst q \<in> carved s fb \<and> blk_slot (blk s (fst q)) = int k \<and> snd q < cap s k"
      using objs_okD [of s fb fo uo k q] I fields(2) by (simp add: slab_inv_def)
    moreover have "q \<in> set (?fo k) \<union> set (?uo k) \<longleftrightarrow> q \<in> set (fo k) \<union> set (uo k)" using f by auto
    ultimately show "q \<in> set (?fo k) \<union> set (?uo k) \<longleftrightarrow>
        fst q \<in> carved s' fb \<and> blk_slot (blk s' (fst q)) = int k \<and> snd q < cap s' k"
      using same by (simp add: bs)
  qed
  moreover have "counts_ok s' fb ?fo ?uo"
    using I fields sl f i by (auto simp: slab_inv_def counts_ok_def)
  ultimately show ?thesis using call same by (auto simp: slab_inv_def)
qed

lemma inv_memory:
  fixes F :: "'m memory \<Rightarrow> 'm memory"
  assumes I: "slab_inv Z s fb fo uo" and i: "i < n_slots s"
  defines "s' \<equiv> upd_slot i (\<lambda>t. t\<lparr>memory := F (memory t)\<rparr>) s"
  shows "same_slab s s' \<and> slab_inv Z s' fb fo uo"
proof -
  have l: "i < length (slots s)" using I i by (auto simp: slab_inv_def links_ok_def)
  have f: "slab_links s' = slab_links s" "n_slots s' = n_slots s" "nblks s' = nblks s" "blk s' = blk s" "obj s' = obj s"
    "blks_free s' = blks_free s" "blks_in_use s' = blks_in_use s" "blks_max s' = blks_max s"
    "length (slots s') = length (slots s)" by (simp_all add: s'_def)
  have g: "objs_free (slots s' ! k) = objs_free (slots s ! k)" "objs_in_use (slots s' ! k) = objs_in_use (slots s ! k)"
    "objs_max (slots s' ! k) = objs_max (slots s ! k)" "data_size (slots s' ! k) = data_size (slots s ! k)" for k
    using l by (simp_all add: s'_def)
  have same: "same_slab s s'" using f g by (simp add: same_slab_def) (simp add: s'_def)
  have "links_ok s' fb fo uo" using I same by (simp add: slab_inv_def links_ok_def f)
  moreover have "counts_ok s' fb fo uo" using I by (auto simp: slab_inv_def counts_ok_def f g)
  moreover have "blocks_ok Z s' fb uo" "objs_ok s' fb fo uo"
    using I same by (simp_all add: slab_inv_def blocks_ok_def objs_ok_def f del: split_paired_All)
  ultimately show ?thesis using same by (simp add: slab_inv_def)
qed

lemma inv_new_private_fail:
  assumes "slab_inv Z s fb fo uo" "i < n_slots s"
  shows "\<exists>s'. fep_slab_new_private E (Some i) None s = (None, s') \<and> same_slab s s' \<and> slab_inv Z s' fb fo uo"
  using inv_memory [OF assms, of "\<lambda>m. m\<lparr>mem_fail := mem_fail m + 1\<rparr>"] by (simp add: fep_slab_new_private_def)

text \<open>
  From a slot: an object that is not in use, unless the slot has no free object and there is no
  free block.
\<close>

lemma alloc_from_slot_ok:
  assumes I: "slab_inv {} s fb fo uo" and i: "i < n_slots s"
  shows "\<exists>r s' fb' fo' uo'. fep_slab_alloc_from_slot E (int i) (Some s) = Some (r, Some s') \<and> same_slab s s' \<and>
    slab_inv {} s' fb' fo' uo' \<and>
    (case r of None \<Rightarrow> fo i = [] \<and> fb = [] \<and> uo' = uo
     | Some p \<Rightarrow> uo' = uo(i := p # uo i) \<and> \<not> (fo i = [] \<and> fb = []))"
proof -
  have R: "rings (slab_links s) (heads (n_slots s)) (slab_lists fb fo uo)" and c: "0 < cap s i"
    using I i by (auto simp: slab_inv_def links_ok_def)
  have e: "list_is_empty (Free_objs i) (slab_links s) \<longleftrightarrow> fo i = []"
    using rings_empty [OF R, of "Free_objs i"] i by simp
  consider (has) p ps where "fo i = p # ps" | (none) "fo i = []" "fb = []" | (new) b fb' where "fo i = []" "fb = b # fb'"
    by (cases "fo i"; cases fb) auto
  thus ?thesis
  proof cases
    case has
    obtain s' where "take_obj E i s = Some (Some p, s')" "same_slab s s'"
      "slab_inv {} s' fb (fo(i := ps)) (uo(i := p # uo i))"
      using take_obj_ok [OF I i has] by auto
    thus ?thesis using e i has
      by (intro exI [of _ "Some p"] exI [of _ s'] exI [of _ fb] exI [of _ "fo(i := ps)"] exI [of _ "uo(i := p # uo i)"])
        (simp add: fep_slab_alloc_from_slot_def)
  next
    case none
    have N: "fep_slab_block_alloc (int i) (Some s) = Some (FAILURE, Some s)"
      using block_alloc_none [of "{}" s fo uo i] I i none by simp
    obtain s' where "fep_slab_new_private E (Some i) None s = (None, s')" "same_slab s s'" "slab_inv {} s' fb fo uo"
      using inv_new_private_fail [OF I i, of E] by blast
    thus ?thesis using e i N none
      by (intro exI [of _ None] exI [of _ s'] exI [of _ fb] exI [of _ fo] exI [of _ uo])
        (simp add: fep_slab_alloc_from_slot_def)
  next
    case new
    obtain s1 where s1: "fep_slab_block_alloc (int i) (Some s) = Some (SUCCESS, Some s1)" "same_slab s s1"
      "slab_inv {b} s1 fb' (fo(i := fo i @ map (Pair b) [0..<cap s i])) uo"
      using block_alloc_some [of s b fb' fo uo i] I i new by auto
    have i1: "i < n_slots s1" using s1(2) i by (simp add: same_slab_def)
    have h: "(fo(i := fo i @ map (Pair b) [0..<cap s i])) i = (b, 0) # map (Pair b) [1..<cap s i]"
      using new c by (simp add: upt_conv_Cons)
    obtain s' where s': "take_obj E i s1 = Some (Some (b, 0), s')" "same_slab s1 s'"
      "slab_inv {} s' fb' (fo(i := map (Pair b) [1..<cap s i])) (uo(i := (b, 0) # uo i))"
      using take_obj_ok [OF s1(3) i1 h, of E] by (auto simp del: fun_upd_apply)
    show ?thesis using e i s1 s' new same_trans [OF s1(2) s'(2)]
      by (intro exI [of _ "Some (b, 0)"] exI [of _ s'] exI [of _ fb'] exI [of _ "fo(i := map (Pair b) [1..<cap s i])"]
          exI [of _ "uo(i := (b, 0) # uo i)"]) (simp add: fep_slab_alloc_from_slot_def)
  qed
qed


section \<open>Freeing an object\<close>

lemma unpart_objs_eq:
  assumes "rings (slab_links s) H f" "Free_objs i \<in> H" "i < length (slots s)"
    "\<And>j'. j \<le> j' \<Longrightarrow> j' < j + k \<Longrightarrow> Obj b j' \<in> set (f (Free_objs i))"
  shows "\<exists>L. unpart_objs b i j k s = Some (s\<lparr>slab_links := L,
        slots := (slots s)[i := (slots s ! i)\<lparr>objs_free := objs_free (slots s ! i) - int k\<rparr>]\<rparr>)
      \<and> rings L H (f(Free_objs i := filter (\<lambda>n. n \<notin> Obj b ` {j..<j + k}) (f (Free_objs i))))"
  using assms
proof (induction k arbitrary: j s f)
  case 0
  thus ?case by (intro exI [of _ "slab_links s"]) simp
next
  case (Suc k)
  obtain L where L: "list_del (Obj b j) (slab_links s) = Some L"
    "rings L H (f(Free_objs i := remove1 (Obj b j) (f (Free_objs i))))" (is "rings L H ?f")
    using rings_del [OF Suc.prems(1,2), of "Obj b j"] Suc.prems(4) [of j] by auto
  define s1 where "s1 = upd_slot i (\<lambda>t. t\<lparr>objs_free := objs_free t - 1\<rparr>) (s\<lparr>slab_links := L\<rparr>)"
  have d: "distinct (f (Free_objs i))" by (rule ringsD(2) [OF Suc.prems(1,2)])
  have u: "Obj b j' \<in> set (?f (Free_objs i))" if "Suc j \<le> j'" "j' < Suc j + k" for j'
    using Suc.prems(4) [of j'] that d by simp
  have s1: "rings (slab_links s1) H ?f" "i < length (slots s1)"
    using L(2) Suc.prems(3) by (simp_all add: s1_def upd_slot_def)
  obtain M where M: "unpart_objs b i (Suc j) k s1 = Some (s1\<lparr>slab_links := M,
        slots := (slots s1)[i := (slots s1 ! i)\<lparr>objs_free := objs_free (slots s1 ! i) - int k\<rparr>]\<rparr>)"
    "rings M H (?f(Free_objs i := filter (\<lambda>n. n \<notin> Obj b ` {Suc j..<Suc j + k}) (?f (Free_objs i))))"
    using Suc.IH [OF s1(1) Suc.prems(2) s1(2) u] by blast
  have "unpart_objs b i j (Suc k) s = unpart_objs b i (Suc j) k s1"
    using L(1) by (simp add: unlink_def s1_def)
  also have "\<dots> = Some (s\<lparr>slab_links := M,
        slots := (slots s)[i := (slots s ! i)\<lparr>objs_free := objs_free (slots s ! i) - int (Suc k)\<rparr>]\<rparr>)"
    unfolding M(1) using Suc.prems(3) by (simp add: s1_def upd_slot_def diff_diff_eq)
  finally have call: "unpart_objs b i j (Suc k) s = \<dots>" .
  have r: "{j..<j + Suc k} = insert j {Suc j..<Suc j + k}" by auto
  have "filter (\<lambda>n. n \<notin> Obj b ` {Suc j..<Suc j + k}) (remove1 (Obj b j) (f (Free_objs i))) =
      filter (\<lambda>n. n \<notin> Obj b ` {j..<j + Suc k}) (f (Free_objs i))"
    unfolding distinct_remove1_removeAll [OF d] removeAll_filter_not_eq r by (auto intro!: filter_cong)
  hence "rings M H (f(Free_objs i := filter (\<lambda>n. n \<notin> Obj b ` {j..<j + Suc k}) (f (Free_objs i))))"
    using M(2) by simp
  thus ?case using call by blast
qed

text \<open>The last object of a block was freed: the block goes back.\<close>

lemma block_free_ok:
  assumes I: "slab_inv {b} s fb fo uo" and i: "i < n_slots s" and b: "b \<in> carved s fb"
    and bi: "blk_slot (blk s b) = int i" and z: "refs (uo i) b = 0"
  shows "\<exists>s'. fep_slab_block_free E b i s = Some s' \<and> same_slab s s' \<and>
    slab_inv {} s' (fb @ [b]) (fo(i := filter (\<lambda>p. fst p \<noteq> b) (fo i))) uo"
proof -
  let ?H = "heads (n_slots s)" and ?c = "cap s i"
  let ?fo = "fo(i := filter (\<lambda>p. fst p \<noteq> b) (fo i))"
  have R: "rings (slab_links s) ?H (slab_lists fb fo uo)" and l: "i < length (slots s)" and c: "0 < ?c"
    using I i by (auto simp: slab_inv_def links_ok_def)
  have sz: "obj_size (blk s b) = osize s i"
    using I b bi unfolding slab_inv_def blocks_ok_def by fastforce
  have nu: "q \<notin> set (uo i)" if "fst q = b" for q
    using z that by (auto simp: refs_def filter_empty_conv)
  have mem: "q \<in> set (fo i) \<longleftrightarrow> snd q < ?c" if "fst q = b" for q
    using objs_okD [of s fb fo uo i q] I i b bi nu [OF that] that by (simp add: slab_inv_def)
  have "Obj b j \<in> set (slab_lists fb fo uo (Free_objs i))" if "0 \<le> j" "j < 0 + ?c" for j
    using mem [of "(b, j)"] that by (force simp: obj_node_def)
  then obtain L where L: "unpart_objs b i 0 ?c s = Some (s\<lparr>slab_links := L,
        slots := (slots s)[i := (slots s ! i)\<lparr>objs_free := objs_free (slots s ! i) - int ?c\<rparr>]\<rparr>)"
    "rings L ?H ((slab_lists fb fo uo)(Free_objs i :=
       filter (\<lambda>n. n \<notin> Obj b ` {0..<0 + ?c}) (slab_lists fb fo uo (Free_objs i))))"
    using unpart_objs_eq [of s ?H "slab_lists fb fo uo" i 0 ?c b, OF R _ l] i by auto
  have fl: "filter (\<lambda>n. n \<notin> Obj b ` {0..<?c}) (map obj_node (fo i)) = map obj_node (filter (\<lambda>p. fst p \<noteq> b) (fo i))"
  proof -
    have "filter (\<lambda>q. obj_node q \<notin> Obj b ` {0..<?c}) (fo i) = filter (\<lambda>q. fst q \<noteq> b) (fo i)"
    proof (rule filter_cong [OF refl])
      fix q assume q: "q \<in> set (fo i)"
      show "obj_node q \<notin> Obj b ` {0..<?c} \<longleftrightarrow> fst q \<noteq> b"
        using mem [of q] q by (auto simp: obj_node_def)
    qed
    thus ?thesis unfolding filter_map comp_def by (rule arg_cong)
  qed
  have R1: "rings L ?H (slab_lists fb ?fo uo)"
    by (rule slab_lists_cong [OF L(2)]) (auto simp: fl)
  have u: "off_lists ?H (slab_lists fb ?fo uo) (Blk b)" using b by (simp add: off_blk carved_def)
  obtain M where M: "list_add_tail (Blk b) Free_blks L = Some M"
    "rings M ?H ((slab_lists fb ?fo uo)(Free_blks := map Blk fb @ [Blk b]))"
    using rings_add_tail [OF R1 _ u, of Free_blks] by auto
  have R2: "rings M ?H (slab_lists (fb @ [b]) ?fo uo)" by (rule slab_lists_cong [OF M(2)]) auto
  define s' where "s' = s\<lparr>slab_links := M,
        slots := (slots s)[i := (slots s ! i)\<lparr>objs_free := objs_free (slots s ! i) - int ?c\<rparr>],
        blk := (blk s)(b := (blk s b)\<lparr>obj_size := 0, blk_slot := slab_UNINITIALIZED E\<rparr>),
        blks_free := blks_free s + 1, blks_in_use := blks_in_use s - 1\<rparr>"
  have call: "fep_slab_block_free E b i s = Some s'"
    using L(1) M(1) by (simp add: fep_slab_block_free_def sz objs_per_blk_cap [OF c] push_tail_def s'_def upd_blk_def)
  have same: "same_slab s s'" using l by (auto simp: same_slab_def s'_def nth_list_update)
  have fields: "slab_links s' = M" "n_slots s' = n_slots s" "nblks s' = nblks s" "obj s' = obj s"
    "length (slots s') = length (slots s)" "\<And>x. x \<noteq> b \<Longrightarrow> blk s' x = blk s x" by (simp_all add: s'_def)
  have cv: "carved s' (fb @ [b]) = carved s fb - {b}" by (auto simp: carved_def s'_def)
  have "links_ok s' (fb @ [b]) ?fo uo" using I R2 fields same by (simp add: slab_inv_def links_ok_def)
  moreover have "blocks_ok {} s' (fb @ [b]) uo"
    unfolding blocks_ok_def cv
  proof (intro conjI ballI)
    show "set (fb @ [b]) \<subseteq> {..<nat (nblks s')}" using I b fields by (simp add: slab_inv_def blocks_ok_def carved_def)
    fix x assume "x \<in> carved s fb - {b}"
    hence x: "x \<in> carved s fb" "x \<noteq> b" by auto
    obtain k where k: "k < n_slots s" "blk_slot (blk s x) = int k" "obj_size (blk s x) = osize s k"
      "\<forall>j<cap s k. parent (obj s (x, j)) = x" "blkref (blk s x) = int (refs (uo k) x)" "0 < refs (uo k) x"
      using I x unfolding slab_inv_def blocks_ok_def by blast
    thus "\<exists>k<n_slots s'. blk_slot (blk s' x) = int k \<and> obj_size (blk s' x) = osize s' k \<and>
        (\<forall>j<cap s' k. parent (obj s' (x, j)) = x) \<and> blkref (blk s' x) = int (refs (uo k) x) \<and>
        (x \<notin> {} \<longrightarrow> 0 < refs (uo k) x)"
      using same x(2) by (intro exI [of _ k]) (simp add: fields)
  qed
  moreover have "objs_ok s' (fb @ [b]) ?fo uo"
  proof (rule objs_okI)
    fix k q assume k: "k < n_slots s'"
    hence O: "q \<in> set (fo k) \<union> set (uo k) \<longleftrightarrow> fst q \<in> carved s fb \<and> blk_slot (blk s (fst q)) = int k \<and> snd q < cap s k"
      using objs_okD [of s fb fo uo k q] I fields(2) by (simp add: slab_inv_def)
    have "q \<in> set (?fo k) \<union> set (uo k) \<longleftrightarrow> q \<in> set (fo k) \<union> set (uo k) \<and> fst q \<noteq> b"
      using O nu [of q] bi by (cases "k = i") auto
    thus "q \<in> set (?fo k) \<union> set (uo k) \<longleftrightarrow>
        fst q \<in> carved s' (fb @ [b]) \<and> blk_slot (blk s' (fst q)) = int k \<and> snd q < cap s' k"
      using O same fields(6) [of "fst q"] unfolding cv by auto
  qed
  moreover have "length (fo i) = length (filter (\<lambda>p. fst p \<noteq> b) (fo i)) + ?c"
  proof -
    have "set (filter (\<lambda>p. fst p = b) (fo i)) = Pair b ` {..<?c}" using mem by (auto simp: image_iff)
    hence "card (set (filter (\<lambda>p. fst p = b) (fo i))) = ?c" by (simp add: card_image inj_on_def)
    hence "length (filter (\<lambda>p. fst p = b) (fo i)) = ?c"
      using inv_distinct(2) [OF I i] by (simp add: distinct_card del: set_filter)
    thus ?thesis using sum_length_filter_compl [of "\<lambda>p. fst p = b" "fo i"] by simp
  qed
  hence "counts_ok s' (fb @ [b]) ?fo uo"
    using I l same by (auto simp: slab_inv_def counts_ok_def s'_def nth_list_update)
  ultimately show ?thesis using call same by (auto simp: slab_inv_def)
qed


text \<open>
  An object in use is no longer in use; if it was the last one of its block, the block is free.
\<close>

lemma slab_free_ok:
  assumes I: "slab_inv {} s fb fo uo" and i: "i < n_slots s" and p: "p \<in> set (uo i)"
  shows "\<exists>s' fb' fo'. fep_slab_free E (Some p) (Some s) = Some (Some s') \<and> same_slab s s' \<and>
    slab_inv {} s' fb' fo' (uo(i := remove1 p (uo i)))"
proof -
  let ?H = "heads (n_slots s)" and ?uo = "uo(i := remove1 p (uo i))" and ?fo = "fo(i := fo i @ [p])"
  obtain b j where pp: "p = (b, j)" by (cases p)
  have R: "rings (slab_links s) ?H (slab_lists fb fo uo)" and l: "i < length (slots s)"
    using I i by (auto simp: slab_inv_def links_ok_def)
  have pin: "p \<in> set (fo i) \<union> set (uo i)" using p by simp
  note po = inv_obj [OF I i pin]
  note d = inv_distinct(2-4) [OF I i]
  have "obj_node p \<in> set (slab_lists fb fo uo (Used_objs i))" using p by simp
  then obtain L where L: "list_del (Obj b j) (slab_links s) = Some L"
    "rings L ?H ((slab_lists fb fo uo)(Used_objs i := remove1 (obj_node p) (map obj_node (uo i))))"
    using rings_del [OF R, of "Used_objs i" "obj_node p"] i by (auto simp: pp)
  have R1: "rings L ?H (slab_lists fb fo ?uo)"
    by (rule slab_lists_cong [OF L(2)]) (auto simp: map_node_remove1)
  have "p \<notin> set (fo k) \<union> set (?uo k)" if k: "k < n_slots s" for k
    using inv_slot [OF I i k pin] d p by (cases "k = i") auto
  hence u: "off_lists ?H (slab_lists fb fo ?uo) (Obj b j)"
    using off_obj [of "n_slots s" fb fo ?uo p] by (simp add: pp)
  obtain M where M: "list_add_tail (Obj b j) (Free_objs i) L = Some M"
    "rings M ?H ((slab_lists fb fo ?uo)(Free_objs i := map obj_node (fo i) @ [Obj b j]))"
    using rings_add_tail [OF R1 _ u, of "Free_objs i"] i by auto
  have R2: "rings M ?H (slab_lists fb ?fo ?uo)" by (rule slab_lists_cong [OF M(2)]) (auto simp: pp)
  define s1 where "s1 = upd_slot i (\<lambda>t. t\<lparr>objs_in_use := objs_in_use t - 1\<rparr>) (s\<lparr>slab_links := L\<rparr>)"
  define s2 where "s2 = upd_obj p (\<lambda>t. t\<lparr>hdrnum := FEP_SLAB_INIT_HDRNUM\<rparr>)
    (upd_slot i (\<lambda>t. t\<lparr>objs_free := objs_free t + 1\<rparr>) (s1\<lparr>slab_links := M\<rparr>))"
  define s3 where "s3 = upd_blk b (\<lambda>t. t\<lparr>blkref := blkref t - 1\<rparr>) s2"
  have fields: "slab_links s3 = M" "n_slots s3 = n_slots s" "nblks s3 = nblks s" "pblks s3 = pblks s"
    "blks_free s3 = blks_free s" "blks_in_use s3 = blks_in_use s" "blks_max s3 = blks_max s"
    "length (slots s3) = length (slots s)"
    "blk s3 = (blk s)(b := (blk s b)\<lparr>blkref := blkref (blk s b) - 1\<rparr>)"
    "obj s3 = (obj s)(p := (obj s p)\<lparr>hdrnum := FEP_SLAB_INIT_HDRNUM\<rparr>)"
    by (simp_all add: s3_def s2_def s1_def)
  have sl: "data_size (slots s3 ! k) = data_size (slots s ! k)"
    "objs_free (slots s3 ! k) = objs_free (slots s ! k) + (if k = i then 1 else 0)"
    "objs_in_use (slots s3 ! k) = objs_in_use (slots s ! k) - (if k = i then 1 else 0)"
    "objs_max (slots s3 ! k) = objs_max (slots s ! k)" for k
    using l by (simp_all add: s3_def s2_def s1_def)
  have same: "same_slab s s3" using fields sl by (simp add: same_slab_def)
  have cv: "carved s3 fb = carved s fb" using same by simp
  have par: "parent (obj s3 q) = parent (obj s q)" for q using fields(10) by simp
  have bs: "blk_slot (blk s3 x) = blk_slot (blk s x)" "obj_size (blk s3 x) = obj_size (blk s x)" for x
    using fields(9) by simp_all
  have rf: "refs (uo i) x = refs (?uo i) x + (if b = x then 1 else 0)" for x
    using refs_remove1 [OF p, of x] pp by simp
  have "links_ok s3 fb ?fo ?uo" using I R2 fields same by (simp add: slab_inv_def links_ok_def)
  moreover have "blocks_ok {b} s3 fb ?uo"
    unfolding blocks_ok_def cv
  proof (intro conjI ballI)
    show "set fb \<subseteq> {..<nat (nblks s3)}" using I fields by (simp add: slab_inv_def blocks_ok_def)
    fix x assume x: "x \<in> carved s fb"
    obtain k where k: "k < n_slots s" "blk_slot (blk s x) = int k" "obj_size (blk s x) = osize s k"
      "\<forall>j<cap s k. parent (obj s (x, j)) = x" "blkref (blk s x) = int (refs (uo k) x)" "0 < refs (uo k) x"
      using I x unfolding slab_inv_def blocks_ok_def by blast
    have "x = b \<Longrightarrow> k = i" using po(2) k(2) pp by simp
    hence "blkref (blk s3 x) = int (refs (?uo k) x) \<and> (x \<noteq> b \<longrightarrow> 0 < refs (?uo k) x)"
      using k(5,6) rf [of x] fields(9) by (cases "k = i") auto
    thus "\<exists>k<n_slots s3. blk_slot (blk s3 x) = int k \<and> obj_size (blk s3 x) = osize s3 k \<and>
        (\<forall>j<cap s3 k. parent (obj s3 (x, j)) = x) \<and> blkref (blk s3 x) = int (refs (?uo k) x) \<and>
        (x \<notin> {b} \<longrightarrow> 0 < refs (?uo k) x)"
      using k same fields(2) by (intro exI [of _ k]) (simp add: bs par)
  qed
  moreover have "objs_ok s3 fb ?fo ?uo"
  proof (rule objs_okI)
    fix k q assume "k < n_slots s3"
    hence "q \<in> set (fo k) \<union> set (uo k) \<longleftrightarrow> fst q \<in> carved s fb \<and> blk_slot (blk s (fst q)) = int k \<and> snd q < cap s k"
      using objs_okD [of s fb fo uo k q] I fields(2) by (simp add: slab_inv_def)
    moreover have "q \<in> set (?fo k) \<union> set (?uo k) \<longleftrightarrow> q \<in> set (fo k) \<union> set (uo k)" using p d by auto
    ultimately show "q \<in> set (?fo k) \<union> set (?uo k) \<longleftrightarrow>
        fst q \<in> carved s3 fb \<and> blk_slot (blk s3 (fst q)) = int k \<and> snd q < cap s3 k"
      using same by (simp add: bs)
  qed
  moreover have "int (length (remove1 p (uo i))) = int (length (uo i)) - 1"
  proof -
    have "length (remove1 p (uo i)) = length (uo i) - 1" using p by (simp add: length_remove1)
    thus ?thesis using length_pos_if_in_set [OF p] by linarith
  qed
  hence "counts_ok s3 fb ?fo ?uo"
    using I fields sl i by (auto simp: slab_inv_def counts_ok_def)
  ultimately have J: "slab_inv {b} s3 fb ?fo ?uo" by (simp add: slab_inv_def)
  have b: "b \<in> carved s3 fb" "blk_slot (blk s3 b) = int i" using po(1,2) pp bs by (simp_all add: cv)
  have ref: "blkref (blk s3 b) = int (refs (?uo i) b)"
    using inv_refs [OF J b] by simp
  have call: "fep_slab_free E (Some p) (Some s) = Option.bind
      (if blkref (blk s3 b) \<le> 0 then fep_slab_block_free E b i s3 else Some s3)
      (\<lambda>s. Some (Some (fep_slab_delete_private E (Some i) s)))"
    using L(1) M(1) po(2,4) i pp
    by (simp add: fep_slab_free_def unlink_def push_tail_def s3_def s2_def s1_def Let_def
        upd_slot_def upd_blk_def upd_obj_def)
  have "\<exists>s4 fb' fo'. (if blkref (blk s3 b) \<le> 0 then fep_slab_block_free E b i s3 else Some s3) = Some s4 \<and>
      same_slab s s4 \<and> slab_inv {} s4 fb' fo' ?uo"
  proof (cases "refs (?uo i) b = 0")
    case True
    obtain s4 where s4: "fep_slab_block_free E b i s3 = Some s4" "same_slab s3 s4"
      "slab_inv {} s4 (fb @ [b]) (?fo(i := filter (\<lambda>p. fst p \<noteq> b) (?fo i))) ?uo"
      using block_free_ok [OF J _ b True, of E] i fields(2) by (auto simp del: fun_upd_apply filter.simps)
    have z: "blkref (blk s3 b) \<le> 0" using True ref by simp
    show ?thesis
      using s4(1) same_trans [OF same s4(2)] s4(3) by (simp only: z if_True) blast
  next
    case False
    hence z: "\<not> blkref (blk s3 b) \<le> 0" using ref by simp
    have "blocks_ok {} s3 fb ?uo"
      unfolding blocks_ok_def
    proof (intro conjI ballI)
      show "set fb \<subseteq> {..<nat (nblks s3)}" using J by (simp add: slab_inv_def blocks_ok_def)
      fix x assume x: "x \<in> carved s3 fb"
      obtain k where k: "k < n_slots s3" "blk_slot (blk s3 x) = int k" "obj_size (blk s3 x) = osize s3 k"
        "\<forall>j<cap s3 k. parent (obj s3 (x, j)) = x" "blkref (blk s3 x) = int (refs (?uo k) x)"
        "x \<notin> {b} \<longrightarrow> 0 < refs (?uo k) x"
        using J x unfolding slab_inv_def blocks_ok_def by blast
      have "x = b \<Longrightarrow> k = i" using k(2) b(2) by simp
      hence "0 < refs (?uo k) x" using k(6) False by (cases "x = b") (auto simp del: fun_upd_apply)
      thus "\<exists>k<n_slots s3. blk_slot (blk s3 x) = int k \<and> obj_size (blk s3 x) = osize s3 k \<and>
        (\<forall>j<cap s3 k. parent (obj s3 (x, j)) = x) \<and> blkref (blk s3 x) = int (refs (?uo k) x) \<and>
        (x \<notin> {} \<longrightarrow> 0 < refs (?uo k) x)" using k by blast
    qed
    hence "slab_inv {} s3 fb ?fo ?uo" using J by (simp add: slab_inv_def)
    thus ?thesis using same by (simp only: z if_False) blast
  qed
  then obtain s4 fb' fo' where s4: "(if blkref (blk s3 b) \<le> 0 then fep_slab_block_free E b i s3 else Some s3) = Some s4"
    "same_slab s s4" "slab_inv {} s4 fb' fo' ?uo" by blast
  have call4: "fep_slab_free E (Some p) (Some s) = Some (Some (fep_slab_delete_private E (Some i) s4))"
    unfolding call s4(1) by simp
  have i4: "i < n_slots s4" using s4(2) i by (simp add: same_slab_def)
  have D: "same_slab s4 (fep_slab_delete_private E (Some i) s4) \<and>
      slab_inv {} (fep_slab_delete_private E (Some i) s4) fb' fo' ?uo"
    using inv_memory [OF s4(3) i4, of "MEMORY_DEALLOCATED E"] by (simp add: fep_slab_delete_private_def)
  show ?thesis
    using call4 same_trans [OF s4(2)] D by blast
qed

end
