(* ===== verification/Slab_Use.thy ===== *)
theory Slab_Use
  imports Slab_Inv
begin

text \<open>
  Initialisation establishes the invariant of the slab allocator, and the allocator is a pool: what
  a client holds is exactly what is in use. The memory of the objects in use does not overlap.
\<close>

section \<open>Sizes\<close>

text \<open>No object is larger than the room of a block.\<close>

definition sizes_ok :: "'m slab \<Rightarrow> bool" where
  "sizes_ok s \<longleftrightarrow> (\<forall>i<n_slots s. unat (data_size (slots s ! i)) \<le> FEP_SLAB_SZ_BLK - SIZEOF_BLK - SIZEOF_OBJ)"

lemma osize_unat:
  assumes "unat (data_size (slots s ! i)) \<le> FEP_SLAB_SZ_BLK - SIZEOF_BLK - SIZEOF_OBJ"
  shows "unat (osize s i) = SIZEOF_OBJ + unat (data_size (slots s ! i))" "0 < cap s i"
proof -
  show u: "unat (osize s i) = SIZEOF_OBJ + unat (data_size (slots s ! i))"
    using assms by (simp add: osize_def SIZEOF_OBJ_def SIZEOF_BLK_def FEP_SLAB_SZ_BLK_def unat_word_ariths(1))
  show "0 < cap s i"
    using assms by (simp add: cap_def u SIZEOF_OBJ_def SIZEOF_BLK_def FEP_SLAB_SZ_BLK_def div_greater_zero_iff)
qed

lemma sizes_same: "same_slab s s' \<Longrightarrow> sizes_ok s \<Longrightarrow> sizes_ok s'"
  by (simp add: sizes_ok_def same_slab_def)

text \<open>What a slot table must satisfy: it ends, and its aligned sizes fit a block.\<close>

definition slot_fits :: "ulong \<Rightarrow> slot_info \<Rightarrow> bool" where
  "slot_fits align pinfo = (case align_size align (info_data_size pinfo) of None \<Rightarrow> False
     | Some sz \<Rightarrow> unat sz \<le> FEP_SLAB_SZ_BLK - SIZEOF_BLK - SIZEOF_OBJ)"

text \<open>Every slot of the table satisfies \<open>P\<close>.\<close>

fun infos_all :: "(slot_info \<Rightarrow> bool) \<Rightarrow> slot_info list \<Rightarrow> nat \<Rightarrow> bool" where
  "infos_all P infos 0 = True"
| "infos_all P [] (Suc k) = False"
| "infos_all P (pinfo # infos) (Suc k) = (info_data_size pinfo = 0 \<or> P pinfo \<and> infos_all P infos k)"

definition infos_ok :: "ulong \<Rightarrow> slot_info list \<Rightarrow> bool" where
  "infos_ok align infos = infos_all (slot_fits align) infos FEP_SLAB_MAX_SLOTS"

text \<open>Initialisation divides by the alignment and by the object size.\<close>

definition slot_defined :: "ulong \<Rightarrow> slot_info \<Rightarrow> bool" where
  "slot_defined align pinfo = (case align_size align (info_data_size pinfo) of None \<Rightarrow> False
     | Some sz \<Rightarrow> of_nat SIZEOF_OBJ + sz \<noteq> 0)"

definition infos_count :: "slot_info list \<Rightarrow> nat" where
  "infos_count infos = length (takeWhile (\<lambda>p. info_data_size p \<noteq> 0) (take FEP_SLAB_MAX_SLOTS infos))"

lemma unat_osize:
  "unat sz \<le> FEP_SLAB_SZ_BLK - SIZEOF_BLK - SIZEOF_OBJ \<Longrightarrow>
    unat (of_nat SIZEOF_OBJ + sz :: 32 word) = SIZEOF_OBJ + unat sz"
  by (simp add: SIZEOF_OBJ_def SIZEOF_BLK_def FEP_SLAB_SZ_BLK_def unat_word_ariths(1))

lemma fits_defined: "slot_fits align pinfo \<Longrightarrow> slot_defined align pinfo"
  using unat_osize by (fastforce simp: slot_fits_def slot_defined_def SIZEOF_OBJ_def split: option.splits)

lemma infos_all_mono: "infos_all P infos k \<Longrightarrow> (\<And>x. P x \<Longrightarrow> Q x) \<Longrightarrow> infos_all Q infos k"
  by (induction P infos k rule: infos_all.induct) auto

lemma infos_all_nth: "infos_all P infos k \<Longrightarrow>
    j < length (takeWhile (\<lambda>p. info_data_size p \<noteq> 0) (take k infos)) \<Longrightarrow> P (infos ! j)"
proof (induction P infos k arbitrary: j rule: infos_all.induct)
  case (3 P pinfo infos k)
  thus ?case by (cases j) (auto split: if_splits)
qed auto

section \<open>Initialisation\<close>

declare part_blks.simps [simp del]

definition no_objs :: "nat \<Rightarrow> (nat \<times> nat) list" where
  "no_objs i = []"

definition fresh :: "nat list \<Rightarrow> 'm slab \<Rightarrow> bool" where
  "fresh fb s \<longleftrightarrow> rings (slab_links s) (heads (n_slots s)) (slab_lists fb no_objs no_objs) \<and>
     n_slots s \<le> length (slots s) \<and> blks_free s = int (length fb) \<and>
     blks_in_use s = 0 \<and> blks_max s = 0 \<and>
     (\<forall>t\<in>set (slots s). objs_free t = 0 \<and> objs_in_use t = 0 \<and> objs_max t = 0)"

lemma part_blks_ok:
  assumes "fresh fb s" "n_slots s = 0" "\<And>c. b \<le> c \<Longrightarrow> c \<notin> set fb"
  shows "\<exists>s'. part_blks E b left s = Some s' \<and> fresh (fb @ [b..<b + nat left div FEP_SLAB_SZ_BLK]) s' \<and>
    n_slots s' = 0 \<and> pblks s' = pblks s \<and> slots s' = slots s"
  using assms
proof (induction E b left s arbitrary: fb rule: part_blks.induct)
  case (1 E b left s)
  show ?case
  proof (cases "left \<ge> int FEP_SLAB_SZ_BLK")
    case True
    define s1 where "s1 = upd_blk b (\<lambda>t. t\<lparr>blk_magic := FEP_SLAB_MAGIC_BLK, obj_size := 0,
      blk_slot := slab_UNINITIALIZED E\<rparr>) s"
    have R: "rings (slab_links s1) (heads 0) (slab_lists fb no_objs no_objs)"
      using "1.prems"(1,2) by (simp add: fresh_def s1_def)
    obtain L where L: "list_add_tail (Blk b) Free_blks (slab_links s1) = Some L"
      "rings L (heads 0) ((slab_lists fb no_objs no_objs)(Free_blks := map Blk fb @ [Blk b]))"
      using rings_add_tail [OF R, of Free_blks "Blk b"] "1.prems"(3) [of b] by (auto simp: off_blk)
    have R2: "rings L (heads 0) (slab_lists (fb @ [b]) no_objs no_objs)"
      by (rule slab_lists_cong [OF L(2)]) auto
    define s2 where "s2 = (s1\<lparr>slab_links := L\<rparr>)\<lparr>blks_free := blks_free (s1\<lparr>slab_links := L\<rparr>) + 1\<rparr>"
    have f: "fresh (fb @ [b]) s2" "n_slots s2 = 0" "pblks s2 = pblks s" "slots s2 = slots s"
      using R2 "1.prems" by (auto simp: fresh_def s2_def s1_def)
    have step: "part_blks E b left s = part_blks E (Suc b) (left - int FEP_SLAB_SZ_BLK) s2"
      by (subst part_blks.simps) (use True L(1) in \<open>simp add: push_tail_def s2_def s1_def Let_def\<close>)
    have "nat left div FEP_SLAB_SZ_BLK = Suc (nat (left - int FEP_SLAB_SZ_BLK) div FEP_SLAB_SZ_BLK)"
    proof -
      have "nat left = nat (left - int FEP_SLAB_SZ_BLK) + FEP_SLAB_SZ_BLK" using True by simp
      thus ?thesis by (simp add: FEP_SLAB_SZ_BLK_def)
    qed
    hence r: "fb @ [b..<b + nat left div FEP_SLAB_SZ_BLK] =
        (fb @ [b]) @ [Suc b..<Suc b + nat (left - int FEP_SLAB_SZ_BLK) div FEP_SLAB_SZ_BLK]"
      by (simp add: upt_conv_Cons del: upt_Suc)
    have "push_tail (Blk b) Free_blks s1 = Some (s1\<lparr>slab_links := L\<rparr>)" using L(1) by (simp add: push_tail_def)
    note IH = "1.IH" [OF True s1_def this, folded s2_def]
    have "\<exists>s'. part_blks E (Suc b) (left - int FEP_SLAB_SZ_BLK) s2 = Some s' \<and>
        fresh ((fb @ [b]) @ [Suc b..<Suc b + nat (left - int FEP_SLAB_SZ_BLK) div FEP_SLAB_SZ_BLK]) s' \<and>
        n_slots s' = 0 \<and> pblks s' = pblks s2 \<and> slots s' = slots s2"
      by (rule IH) (use f "1.prems"(3) in auto)
    thus ?thesis unfolding step r f(3,4) .
  next
    case False
    have "nat left div FEP_SLAB_SZ_BLK = 0" using False by (simp add: FEP_SLAB_SZ_BLK_def)
    thus ?thesis by (subst part_blks.simps) (use False "1.prems" in simp)
  qed
qed


lemma init_slot_ok:
  assumes F: "fresh fb s" and i: "i = n_slots s" "i < length (slots s)" and fit: "slot_defined align pinfo"
  shows "\<exists>s' w'. init_slot E align pinfo i (s, w) = Some (s', w') \<and> fresh fb (s'\<lparr>n_slots := n_slots s' + 1\<rparr>) \<and>
    n_slots s' = n_slots s \<and> length (slots s') = length (slots s) \<and> nblks s' = nblks s \<and> pblks s' = pblks s \<and>
    align_size align (info_data_size pinfo) = Some (data_size (slots s' ! i)) \<and>
    (\<forall>j<i. slots s' ! j = slots s ! j)"
proof -
  obtain sz where sz: "align_size align (info_data_size pinfo) = Some sz"
    "of_nat SIZEOF_OBJ + sz \<noteq> 0"
    using fit by (auto simp: slot_defined_def split: option.splits)
  let ?L = "list_init (Used_objs i) (list_init (Free_objs i) (slab_links s))"
  have R: "rings (slab_links s) (heads i) (slab_lists fb no_objs no_objs)" using F i by (simp add: fresh_def)
  have "rings (list_init (Free_objs i) (slab_links s)) (insert (Free_objs i) (heads i))
      ((slab_lists fb no_objs no_objs)(Free_objs i := []))"
    by (rule rings_init [OF R]) (auto simp: off_lists_def ball_heads no_objs_def)
  hence "rings ?L (insert (Used_objs i) (insert (Free_objs i) (heads i)))
      ((slab_lists fb no_objs no_objs)(Free_objs i := [], Used_objs i := []))"
    by (rule rings_init) (auto simp: off_lists_def ball_heads no_objs_def)
  moreover have "insert (Used_objs i) (insert (Free_objs i) (heads i)) = heads (Suc i)"
    by (auto simp: heads_def)
  ultimately have R1: "rings ?L (heads (Suc i)) ((slab_lists fb no_objs no_objs)(Free_objs i := [], Used_objs i := []))"
    by simp
  have R2: "rings ?L (heads (Suc i)) (slab_lists fb no_objs no_objs)"
    by (rule slab_lists_cong [OF R1]) (auto simp: no_objs_def)
  obtain k where k: "objs_per_blk (of_nat SIZEOF_OBJ + sz) = Some k" using sz(2) by (simp add: objs_per_blk_def)
  define s1 where "s1 = upd_slot i (\<lambda>t. t\<lparr>memory := (memory t)\<lparr>
       mem_text := strncpy_name (sizeof_mem_text E - 1) (slot_name pinfo),
       mem_struct := strncpy_name (sizeof_mem_struct E - 1) (type_name pinfo), mem_fatal := 0\<rparr>\<rparr>)
     ((upd_slot i (\<lambda>t. t\<lparr>n_objs := info_n_objs pinfo, data_size := sz\<rparr>) s)\<lparr>slab_links := ?L\<rparr>)"
  define s2 where "s2 = upd_slot i (\<lambda>t. t\<lparr>ulCount := if of_int (blks_free s * int k) > n_objs t
      then n_objs t else of_int (blks_free s * int k)\<rparr>) s1"
  obtain t w' where t: "fep_slab_fep_create_private E (slots s2 ! i, w) = (t, w')"
    by (cases "fep_slab_fep_create_private E (slots s2 ! i, w)")
  define s' where "s' = upd_slot i (\<lambda>_. t) s2"
  have call: "init_slot E align pinfo i (s, w) = Some (s', w')"
    using sz(1) k t by (simp add: init_slot_def s'_def s2_def s1_def Let_def cong del: if_weak_cong)
  have sl: "length (slots s') = length (slots s)" "slots s' ! j = (if j = i then t else slots s ! j)" for j
    using i(2) by (simp_all add: s'_def s2_def s1_def upd_slot_def nth_list_update)
  have tt: "objs_free t = objs_free (slots s ! i)" "objs_in_use t = objs_in_use (slots s ! i)"
    "objs_max t = objs_max (slots s ! i)" "data_size t = sz"
    using t i(2) by (auto simp: fep_slab_fep_create_private_def Let_def s2_def s1_def upd_slot_def)
  have rest: "slab_links s' = ?L" "n_slots s' = n_slots s" "nblks s' = nblks s" "pblks s' = pblks s"
    "blks_free s' = blks_free s" "blks_in_use s' = blks_in_use s" "blks_max s' = blks_max s"
    by (simp_all add: s'_def s2_def s1_def)
  have "fresh fb (s'\<lparr>n_slots := n_slots s' + 1\<rparr>)"
    using F R2 i sl tt rest by (auto simp: fresh_def all_set_conv_all_nth)
  thus ?thesis using call sl rest sz(1) tt by (intro exI [of _ s'] exI [of _ w']) simp
qed

text \<open>The sizes of the slots are those of the table, in its order, aligned.\<close>

lemma init_slots_ok:
  assumes "fresh fb s" "i = n_slots s" "i + k \<le> length (slots s)" "infos_all (slot_defined align) infos k"
  shows "\<exists>s' w'. init_slots E align infos i k (s, w) = Some (s', w') \<and> fresh fb s' \<and>
    length (slots s') = length (slots s) \<and> nblks s' = nblks s \<and> pblks s' = pblks s \<and>
    n_slots s' = i + length (takeWhile (\<lambda>p. info_data_size p \<noteq> 0) (take k infos)) \<and>
    (\<forall>j<i. slots s' ! j = slots s ! j) \<and>
    (\<forall>j. i + j < n_slots s' \<longrightarrow> align_size align (info_data_size (infos ! j)) = Some (data_size (slots s' ! (i + j))))"
  using assms
proof (induction k arbitrary: s i infos w)
  case 0
  thus ?case by (intro exI [of _ s] exI [of _ w]) simp
next
  case (Suc k)
  then obtain pinfo rest where inf: "infos = pinfo # rest" by (cases infos) auto
  show ?case
  proof (cases "info_data_size pinfo = 0")
    case True
    thus ?thesis using Suc.prems inf by (intro exI [of _ s] exI [of _ w]) simp
  next
    case False
    hence fit: "slot_defined align pinfo" "infos_all (slot_defined align) rest k" using Suc.prems(4) inf by auto
    obtain s1 w1 where s1: "init_slot E align pinfo i (s, w) = Some (s1, w1)"
      "fresh fb (s1\<lparr>n_slots := n_slots s1 + 1\<rparr>)" "n_slots s1 = n_slots s" "length (slots s1) = length (slots s)"
      "nblks s1 = nblks s" "pblks s1 = pblks s"
      "align_size align (info_data_size pinfo) = Some (data_size (slots s1 ! i))" "\<forall>j<i. slots s1 ! j = slots s ! j"
    proof -
      have "i < length (slots s)" using Suc.prems(3) by simp
      from init_slot_ok [OF Suc.prems(1,2) this fit(1), of E w] show ?thesis using that by blast
    qed
    obtain s' w' where s': "init_slots E align rest (Suc i) k (s1\<lparr>n_slots := n_slots s1 + 1\<rparr>, w1) = Some (s', w')"
      "fresh fb s'" "length (slots s') = length (slots s1)" "nblks s' = nblks s1" "pblks s' = pblks s1"
      "n_slots s' = Suc i + length (takeWhile (\<lambda>p. info_data_size p \<noteq> 0) (take k rest))"
      "\<forall>j<Suc i. slots s' ! j = slots s1 ! j"
      "\<forall>j. Suc i + j < n_slots s' \<longrightarrow> align_size align (info_data_size (rest ! j)) = Some (data_size (slots s' ! (Suc i + j)))"
      using Suc.IH [OF s1(2), of "Suc i" rest w1] Suc.prems s1 fit by auto
    have "align_size align (info_data_size (infos ! j)) = Some (data_size (slots s' ! (i + j)))"
      if "i + j < n_slots s'" for j
      using that s1(7) s'(7,8) by (cases j) (auto simp: inf)
    moreover have "init_slots E align infos i (Suc k) (s, w) = Some (s', w')"
      using False s1(1) s'(1) by (simp add: inf)
    ultimately show ?thesis using s1 s' False by (intro exI [of _ s'] exI [of _ w']) (auto simp: inf)
  qed
qed

lemma fresh_inv:
  assumes "fresh [0..<n] s" "nblks s = blks_free s" "sizes_ok s"
  shows "slab_inv {} s [0..<n] no_objs no_objs"
proof -
  have c: "carved s [0..<n] = {}" using assms by (auto simp: carved_def fresh_def)
  have "links_ok s [0..<n] no_objs no_objs"
    using assms osize_unat(2) by (auto simp: links_ok_def fresh_def sizes_ok_def)
  moreover have "blocks_ok {} s [0..<n] no_objs" using assms by (auto simp: blocks_ok_def c fresh_def)
  moreover have "objs_ok s [0..<n] no_objs no_objs" by (simp add: objs_ok_def c no_objs_def)
  moreover have "counts_ok s [0..<n] no_objs no_objs"
    using assms by (auto simp: counts_ok_def fresh_def no_objs_def)
  ultimately show "slab_inv {} s [0..<n] no_objs no_objs" by (simp add: slab_inv_def)
qed

text \<open>How many blocks a store of \<open>z\<close> bytes at address \<open>a\<close> gives.\<close>

definition store_start :: "ulong \<Rightarrow> ulong" where
  "store_start a = (a + 1024 - 1) div 1024 * 1024"

definition store_blks :: "ulong \<Rightarrow> ulong \<Rightarrow> nat" where
  "store_blks a z = nat (sint (z - (store_start a - a))) div FEP_SLAB_SZ_BLK"

lemma slab_init_fresh:
  assumes "infos_all (slot_defined align) infos FEP_SLAB_MAX_SLOTS"
  shows "\<exists>s' w'. fep_slab_init E name align flags infos a z (Some s, w) = Some (SUCCESS, Some s', w') \<and>
    fresh [0..<store_blks a z] s' \<and> nblks s' = int (store_blks a z) \<and> pblks s' = unat (store_start a) \<and>
    n_slots s' = infos_count infos \<and>
    (\<forall>j<n_slots s'. align_size align (info_data_size (infos ! j)) = Some (data_size (slots s' ! j)))"
proof -
  define s0 where "s0 = (zero_slab E s)\<lparr>slab_name := strncpy_name (FEP_SLAB_SZ_NAME - 1) name, slab_flags := flags\<rparr>"
  define s1 where "s1 = s0\<lparr>slab_links := list_init Free_blks (slab_links s0), pblks := unat (store_start a)\<rparr>"
  have R: "rings (slab_links s1) (heads 0) ((\<lambda>_. [])(Free_blks := []))"
    unfolding s1_def using rings_init [OF rings_none, of "\<lambda>_. []" Free_blks "slab_links s0"]
    by (simp add: off_lists_def heads_def)
  have "rings (slab_links s1) (heads 0) (slab_lists [] no_objs no_objs)"
    by (rule slab_lists_cong [OF R]) auto
  hence F: "fresh [] s1" "n_slots s1 = 0" "length (slots s1) = FEP_SLAB_MAX_SLOTS"
    by (simp_all add: fresh_def s1_def s0_def zero_slab_def)
  let ?left = "sint (z - (store_start a - a))"
  obtain s2 where s2: "part_blks E 0 ?left s1 = Some s2" "fresh [0..<store_blks a z] s2" "n_slots s2 = 0"
    "pblks s2 = pblks s1" "slots s2 = slots s1"
    using part_blks_ok [OF F(1,2), of 0 E ?left] by (auto simp: store_blks_def)
  define s3 where "s3 = s2\<lparr>nblks := blks_free s2\<rparr>"
  have f3: "fresh [0..<store_blks a z] s3" "n_slots s3 = 0" "length (slots s3) = FEP_SLAB_MAX_SLOTS"
    "nblks s3 = int (store_blks a z)" "pblks s3 = unat (store_start a)"
    using s2 F by (simp_all add: fresh_def s3_def) (simp add: s1_def)
  obtain s' w' where s': "init_slots E align infos 0 FEP_SLAB_MAX_SLOTS (s3, w) = Some (s', w')"
    "fresh [0..<store_blks a z] s'" "nblks s' = nblks s3" "pblks s' = pblks s3" "n_slots s' = infos_count infos"
    "\<forall>j<n_slots s'. align_size align (info_data_size (infos ! j)) = Some (data_size (slots s' ! j))"
    using init_slots_ok [OF f3(1), of 0 FEP_SLAB_MAX_SLOTS align infos E w] f3 assms by (auto simp: infos_count_def)
  have "fep_slab_init E name align flags infos a z (Some s, w) = Some (SUCCESS, Some s', w')"
    using s2(1) s'(1) by (simp add: fep_slab_init_def s3_def s1_def s0_def store_start_def Let_def)
  thus ?thesis using s' f3 by auto
qed

lemma slab_init_ok:
  assumes "infos_ok align infos"
  shows "\<exists>s' w'. fep_slab_init E name align flags infos a z (Some s, w) = Some (SUCCESS, Some s', w') \<and>
    slab_inv {} s' [0..<store_blks a z] no_objs no_objs \<and> sizes_ok s' \<and> nblks s' = int (store_blks a z) \<and>
    pblks s' = unat (store_start a) \<and> n_slots s' = infos_count infos \<and>
    (\<forall>j<n_slots s'. align_size align (info_data_size (infos ! j)) = Some (data_size (slots s' ! j)))"
proof -
  have d: "infos_all (slot_defined align) infos FEP_SLAB_MAX_SLOTS"
    by (rule infos_all_mono [OF assms [unfolded infos_ok_def] fits_defined])
  obtain s' w' where s': "fep_slab_init E name align flags infos a z (Some s, w) = Some (SUCCESS, Some s', w')"
    "fresh [0..<store_blks a z] s'" "nblks s' = int (store_blks a z)" "pblks s' = unat (store_start a)"
    "n_slots s' = infos_count infos"
    "\<forall>j<n_slots s'. align_size align (info_data_size (infos ! j)) = Some (data_size (slots s' ! j))"
    using slab_init_fresh [OF d, of E name flags a z s w] by blast
  have z: "sizes_ok s'"
    unfolding sizes_ok_def
  proof (intro allI impI)
    fix i assume i: "i < n_slots s'"
    have "slot_fits align (infos ! i)"
      using infos_all_nth [OF assms [unfolded infos_ok_def]] i s'(5) by (simp add: infos_count_def)
    thus "unat (data_size (slots s' ! i)) \<le> FEP_SLAB_SZ_BLK - SIZEOF_BLK - SIZEOF_OBJ"
      using s'(6) i by (simp add: slot_fits_def)
  qed
  have "nblks s' = blks_free s'" using s'(2,3) by (simp add: fresh_def)
  from fresh_inv [OF s'(2) this z] show ?thesis using z s' by blast
qed

section \<open>The allocator as a pool\<close>

text \<open>The allocator is in order, and it is the one that \<open>s0\<close> was.\<close>

definition slab_good :: "'m slab \<Rightarrow> 'm slab option \<Rightarrow> bool" where
  "slab_good s0 ps \<longleftrightarrow> (\<exists>s fb fo uo. ps = Some s \<and> slab_inv {} s fb fo uo \<and> sizes_ok s \<and> same_slab s0 s)"

text \<open>The objects on the lists of used objects.\<close>

definition objs_live :: "'m slab option \<Rightarrow> (nat \<times> nat) set" where
  "objs_live ps = {p. \<exists>s fb fo uo i. ps = Some s \<and> slab_inv {} s fb fo uo \<and> i < n_slots s \<and> p \<in> set (uo i)}"

lemma slab_goodI: "slab_inv {} s fb fo uo \<Longrightarrow> sizes_ok s \<Longrightarrow> same_slab s0 s \<Longrightarrow> slab_good s0 (Some s)"
  unfolding slab_good_def by blast

lemma inv_unique:
  assumes "slab_inv Z s fb fo uo" "slab_inv Y s fb' fo' uo'" "i < n_slots s"
  shows "uo' i = uo i"
proof -
  have R: "rings (slab_links s) (heads (n_slots s)) (slab_lists fb fo uo)"
    "rings (slab_links s) (heads (n_slots s)) (slab_lists fb' fo' uo')"
    using assms by (simp_all add: slab_inv_def links_ok_def)
  show ?thesis
    using rings_reads [OF R, of "Used_objs i"] assms(3) by (simp add: inj_map_eq_map)
qed

lemma objs_live_eq:
  assumes "slab_inv {} s fb fo uo"
  shows "objs_live (Some s) = (\<Union>i<n_slots s. set (uo i))"
proof -
  have "p \<in> objs_live (Some s) \<longleftrightarrow> (\<exists>i<n_slots s. p \<in> set (uo i))" for p
  proof
    assume "p \<in> objs_live (Some s)"
    then obtain fb' fo' uo' i where "slab_inv {} s fb' fo' uo'" "i < n_slots s" "p \<in> set (uo' i)"
      by (auto simp: objs_live_def)
    thus "\<exists>i<n_slots s. p \<in> set (uo i)" using inv_unique [OF assms] by auto
  qed (use assms in \<open>unfold objs_live_def, blast\<close>)
  thus ?thesis by blast
qed

lemma live_notin:
  assumes I: "slab_inv {} s fb fo uo" and i: "i < n_slots s" and J: "slab_inv {} s' fb' fo' (uo(i := p # uo i))"
    and same: "same_slab s s'"
  shows "objs_live (Some s') = insert p (objs_live (Some s))" "p \<notin> objs_live (Some s)"
proof -
  have n: "n_slots s' = n_slots s" using same by (simp add: same_slab_def)
  show "objs_live (Some s') = insert p (objs_live (Some s))"
    unfolding objs_live_eq [OF I] objs_live_eq [OF J] n using i by (auto split: if_splits)
  have "p \<notin> set (uo k)" if k: "k < n_slots s" for k
  proof (cases "k = i")
    case True
    thus ?thesis using inv_distinct(3) [OF J, of i] i n by simp
  next
    case False
    show ?thesis
      using inv_slot [OF J, of i k p] False k i n by auto
  qed
  thus "p \<notin> objs_live (Some s)" unfolding objs_live_eq [OF I] by simp
qed

lemma alloc_slot_good:
  assumes I: "slab_inv {} s fb fo uo" and z: "sizes_ok s" "same_slab s0 s" and i: "i < n_slots s"
  shows "ok (\<lambda>(r, ps). slab_good s0 ps \<and> (case r of None \<Rightarrow> objs_live ps = objs_live (Some s)
      | Some p \<Rightarrow> p \<notin> objs_live (Some s) \<and> objs_live ps = insert p (objs_live (Some s))))
    (fep_slab_alloc_from_slot E (int i) (Some s))"
proof -
  obtain r s' fb' fo' uo' where a: "fep_slab_alloc_from_slot E (int i) (Some s) = Some (r, Some s')" "same_slab s s'"
    "slab_inv {} s' fb' fo' uo'" "case r of None \<Rightarrow> fo i = [] \<and> fb = [] \<and> uo' = uo
     | Some p \<Rightarrow> uo' = uo(i := p # uo i) \<and> \<not> (fo i = [] \<and> fb = [])"
    using alloc_from_slot_ok [OF I i, of E] by blast
  have g: "slab_good s0 (Some s')"
    using slab_goodI [OF a(3)] sizes_same [OF a(2) z(1)] same_trans [OF z(2) a(2)] by simp
  show ?thesis
  proof (cases r)
    case None
    have "uo' = uo" using a(4) None by simp
    hence "objs_live (Some s') = objs_live (Some s)"
      unfolding objs_live_eq [OF I] objs_live_eq [OF a(3)] using a(2) by (simp add: same_slab_def)
    thus ?thesis using a(1) g None by simp
  next
    case (Some p)
    have "slab_inv {} s' fb' fo' (uo(i := p # uo i))" using a(3,4) Some by simp
    from live_notin [OF I i this a(2)] show ?thesis using a(1) g Some by simp
  qed
qed

text \<open>The slot that is chosen: large enough, and no other that is large enough is smaller.\<close>

lemma best_slot_spec:
  assumes "case best of None \<Rightarrow> \<forall>k<i. \<not> n \<le> data_size (slots s ! k)
    | Some j \<Rightarrow> j < i \<and> n \<le> data_size (slots s ! j) \<and>
        (\<forall>k<i. n \<le> data_size (slots s ! k) \<longrightarrow> data_size (slots s ! j) \<le> data_size (slots s ! k))"
  shows "case best_slot s n i m best of None \<Rightarrow> \<forall>k<i + m. \<not> n \<le> data_size (slots s ! k)
    | Some j \<Rightarrow> j < i + m \<and> n \<le> data_size (slots s ! j) \<and>
        (\<forall>k<i + m. n \<le> data_size (slots s ! k) \<longrightarrow> data_size (slots s ! j) \<le> data_size (slots s ! k))"
  using assms
proof (induction m arbitrary: i best)
  case (Suc m)
  let ?b = "if n \<le> data_size (slots s ! i) then
        (case best of None \<Rightarrow> Some i
         | Some j \<Rightarrow> if data_size (slots s ! i) < data_size (slots s ! j) then Some i else Some j)
      else best"
  have "case ?b of None \<Rightarrow> \<forall>k<Suc i. \<not> n \<le> data_size (slots s ! k)
    | Some j \<Rightarrow> j < Suc i \<and> n \<le> data_size (slots s ! j) \<and>
        (\<forall>k<Suc i. n \<le> data_size (slots s ! k) \<longrightarrow> data_size (slots s ! j) \<le> data_size (slots s ! k))"
    using Suc.prems by (auto simp: less_Suc_eq split: option.splits)
  from Suc.IH [OF this] show ?case unfolding best_slot.simps add_Suc_right add_Suc .
next
  case 0
  thus ?case unfolding best_slot.simps add_0_right .
qed

lemmas best_slot_from_0 = best_slot_spec [where i = 0 and best = None, simplified]

lemma slab_alloc_good:
  assumes "slab_good s0 ps"
  shows "ok (\<lambda>(r, ps'). slab_good s0 ps' \<and> (case r of None \<Rightarrow> objs_live ps' = objs_live ps
      | Some p \<Rightarrow> p \<notin> objs_live ps \<and> objs_live ps' = insert p (objs_live ps))) (fep_slab_alloc E n ps)"
proof -
  obtain s fb fo uo where s: "ps = Some s" "slab_inv {} s fb fo uo" "sizes_ok s" "same_slab s0 s"
    using assms by (auto simp: slab_good_def)
  have g: "slab_good s0 (Some s)" using assms s(1) by simp
  show ?thesis
  proof (cases "n = 0")
    case True
    thus ?thesis using s(1) g by (simp add: fep_slab_alloc_def)
  next
    case False
    show ?thesis
    proof (cases "best_slot s n 0 (n_slots s) None")
      case None
      thus ?thesis using False s(1) g by (simp add: fep_slab_alloc_def)
    next
      case (Some j)
      have j: "j < n_slots s" using best_slot_from_0 [where s = s and n = n and m = "n_slots s"] Some by simp
      show ?thesis using alloc_slot_good [OF s(2,3,4) j, of E] False Some unfolding s(1)
        by (simp add: fep_slab_alloc_def)
    qed
  qed
qed

lemma slab_free_good:
  assumes g: "slab_good s0 ps" and p: "p \<in> objs_live ps"
  shows "ok (\<lambda>ps'. slab_good s0 ps' \<and> objs_live ps' = objs_live ps - {p}) (fep_slab_free E (Some p) ps)"
proof -
  obtain s fb fo uo where s: "ps = Some s" "slab_inv {} s fb fo uo" "sizes_ok s" "same_slab s0 s"
    using g by (auto simp: slab_good_def)
  obtain i where i: "i < n_slots s" "p \<in> set (uo i)"
    using p objs_live_eq [OF s(2)] s(1) by auto
  obtain s' fb' fo' where f: "fep_slab_free E (Some p) (Some s) = Some (Some s')" "same_slab s s'"
    "slab_inv {} s' fb' fo' (uo(i := remove1 p (uo i)))"
    using slab_free_ok [OF s(2) i, of E] by blast
  have n: "n_slots s' = n_slots s" using f(2) by (simp add: same_slab_def)
  have "p \<notin> set (uo k)" if "k < n_slots s" "k \<noteq> i" for k
    using inv_slot [OF s(2) i(1) that(1), of p] i(2) that(2) by auto
  hence "objs_live (Some s') = objs_live (Some s) - {p}"
    unfolding objs_live_eq [OF s(2)] objs_live_eq [OF f(3)] n
    using inv_distinct(3) [OF s(2) i(1)] i(1) by (auto split: if_splits)
  thus ?thesis using f(1) s(1) slab_goodI [OF f(3) sizes_same [OF f(2) s(3)] same_trans [OF s(4) f(2)]] by simp
qed

interpretation slab_pool: pool "slab_good s0" objs_live "fep_slab_alloc E" "\<lambda>p. fep_slab_free E (Some p)"
  for E :: "('m, 'w) slab_env" and s0
  by unfold_locales (fact slab_alloc_good slab_free_good)+

section \<open>Memory\<close>

text \<open>The bytes of an object from its header to its end, and the part its user may write.\<close>

definition obj_bytes :: "'m slab \<Rightarrow> nat \<times> nat \<Rightarrow> nat set" where
  "obj_bytes s p = {obj_addr s p ..< obj_addr s p + unat (obj_size (blk s (fst p)))}"

definition data_bytes :: "'m slab \<Rightarrow> nat \<times> nat \<Rightarrow> nat set" where
  "data_bytes s p = {data_addr s p ..< data_addr s p + unat (data_size (slots s ! nat (blk_slot (blk s (fst p)))))}"

definition blk_bytes :: "'m slab \<Rightarrow> nat \<Rightarrow> nat set" where
  "blk_bytes s b = {pblks s + b * FEP_SLAB_SZ_BLK ..< pblks s + (b + 1) * FEP_SLAB_SZ_BLK}"

lemma live_layout:
  assumes I: "slab_inv {} s fb fo uo" and z: "sizes_ok s" and p: "p \<in> objs_live (Some s)"
  shows "obj_bytes s p \<subseteq> blk_bytes s (fst p)" "data_bytes s p \<subseteq> obj_bytes s p" "fst p < nat (nblks s)"
    "data_bytes s p \<inter> {obj_addr s p ..< obj_addr s p + SIZEOF_OBJ} = {}"
proof -
  obtain i where i: "i < n_slots s" "p \<in> set (uo i)" using p objs_live_eq [OF I] by auto
  hence "p \<in> set (fo i) \<union> set (uo i)" by simp
  note o = inv_obj [OF I i(1) this]
  have u: "unat (osize s i) = SIZEOF_OBJ + unat (data_size (slots s ! i))"
    using osize_unat(1) [of s i] z i(1) by (simp add: sizes_ok_def)
  define k where "k = unat (osize s i)"
  have k: "0 < k" using u by (simp add: k_def SIZEOF_OBJ_def)
  have "(snd p + 1) * k \<le> FEP_SLAB_SZ_BLK - SIZEOF_BLK"
  proof -
    have "(snd p + 1) * k \<le> cap s i * k" using o(3) by (intro mult_le_mono) auto
    also have "\<dots> \<le> FEP_SLAB_SZ_BLK - SIZEOF_BLK" unfolding cap_def k_def by simp
    finally show ?thesis .
  qed
  thus "obj_bytes s p \<subseteq> blk_bytes s (fst p)"
    by (auto simp: obj_bytes_def blk_bytes_def obj_addr_def o(6) k_def [symmetric] FEP_SLAB_SZ_BLK_def SIZEOF_BLK_def)
  show "data_bytes s p \<subseteq> obj_bytes s p"
    by (auto simp: obj_bytes_def data_bytes_def data_addr_def o(2,6) u)
  show "fst p < nat (nblks s)" using o(1) by (simp add: carved_def)
  show "data_bytes s p \<inter> {obj_addr s p ..< obj_addr s p + SIZEOF_OBJ} = {}"
    by (auto simp: data_bytes_def data_addr_def)
qed

lemma blks_apart: "b \<noteq> c \<Longrightarrow> blk_bytes s b \<inter> blk_bytes s c = {}"
proof -
  have "blk_bytes s b \<inter> blk_bytes s c = {}" if "b < c" for b c
  proof -
    have "(b + 1) * FEP_SLAB_SZ_BLK \<le> c * FEP_SLAB_SZ_BLK" using that by (intro mult_le_mono1) simp
    thus ?thesis unfolding blk_bytes_def by auto
  qed
  thus "b \<noteq> c \<Longrightarrow> blk_bytes s b \<inter> blk_bytes s c = {}" by (metis Int_commute linorder_neqE_nat)
qed

lemma live_apart:
  assumes I: "slab_inv {} s fb fo uo" and z: "sizes_ok s"
    and p: "p \<in> objs_live (Some s)" and q: "q \<in> objs_live (Some s)" and n: "p \<noteq> q"
  shows "obj_bytes s p \<inter> obj_bytes s q = {}"
proof (cases "fst p = fst q")
  case False
  thus ?thesis using blks_apart [of "fst p" "fst q" s] live_layout(1) [OF I z p] live_layout(1) [OF I z q] by blast
next
  case True
  have "obj_bytes s x \<inter> obj_bytes s y = {}" if "snd x < snd y" "fst x = fst y" for x y
  proof -
    let ?k = "unat (obj_size (blk s (fst y)))"
    have "(snd x + 1) * ?k \<le> snd y * ?k" using that(1) by (intro mult_le_mono1) simp
    thus ?thesis unfolding obj_bytes_def obj_addr_def using that(2) by auto
  qed
  moreover have "snd p \<noteq> snd q" using True n by (simp add: prod_eq_iff)
  ultimately show ?thesis using True by (metis Int_commute linorder_neqE_nat)
qed

end
