(* ===== verification/Idgen.thy ===== *)
theory Idgen
  imports Links Allocator
begin

text \<open>
  The identifier generator of \<open>fep_slab.c\<close>: an array of \<open>n_ids\<close> elements with the identifiers
  \<open>1 .. n_ids\<close>, threaded on a list of free and a list of used identifiers.

  A pointer to a generator is an option, NULL being \<open>None\<close>; a pointer to an element of the array is
  its index. Only the holder of the mutex changes a generator, so the locked sections are
  sequential code and the mutex itself is not modelled. Whether \<open>calloc\<close> finds memory is a
  parameter.
\<close>

section \<open>Data\<close>

text \<open>List elements: the two heads and the array elements, whose first field is the list.\<close>

datatype id_node = Free_ids | Used_ids | Id_elem nat

record 'd fep_id =
  id_num :: ulong
  pdata :: "'d option"

datatype 'd id_array = No_ids | Freed_ids | Ids "'d fep_id list"

record 'd id_gen =
  id_links :: "id_node links"
  n_ids :: ulong
  ids :: "'d id_array"

definition elem :: "'d id_gen \<Rightarrow> nat \<Rightarrow> 'd fep_id option" where
  "elem g i = (case ids g of Ids xs \<Rightarrow> if i < length xs then Some (xs ! i) else None | _ \<Rightarrow> None)"

definition set_elem :: "nat \<Rightarrow> ('d fep_id \<Rightarrow> 'd fep_id) \<Rightarrow> 'd id_gen \<Rightarrow> 'd id_gen option" where
  "set_elem i f g = (case ids g of Ids xs \<Rightarrow>
     if i < length xs then Some (g\<lparr>ids := Ids (xs[i := f (xs ! i)])\<rparr>) else None | _ \<Rightarrow> None)"

definition to_tail :: "id_node \<Rightarrow> id_node \<Rightarrow> 'd id_gen \<Rightarrow> 'd id_gen option" where
  "to_tail n h g = Option.bind (list_add_tail n h (id_links g)) (\<lambda>L. Some (g\<lparr>id_links := L\<rparr>))"

section \<open>Operations\<close>

fun init_ids :: "nat \<Rightarrow> nat \<Rightarrow> 'd id_gen \<Rightarrow> 'd id_gen option" where
  "init_ids i 0 g = Some g"
| "init_ids i (Suc k) g = do {
     g \<leftarrow> set_elem i (\<lambda>e. e\<lparr>id_num := of_nat i + 1\<rparr>) g;
     g \<leftarrow> to_tail (Id_elem i) Free_ids g;
     init_ids (Suc i) k g
   }"

definition fep_id_gen_init :: "bool \<Rightarrow> ulong \<Rightarrow> 'd id_gen option \<Rightarrow> (status \<times> 'd id_gen option) option" where
  "fep_id_gen_init calloc_ok n pid_gen = (case pid_gen of
     None \<Rightarrow> Some (FAILURE, None)
   | Some g \<Rightarrow>
     let g = g\<lparr>id_links := list_init Used_ids (list_init Free_ids (id_links g)), n_ids := n,
       ids := if calloc_ok then Ids (replicate (unat n) \<lparr>id_num = 0, pdata = None\<rparr>) else No_ids\<rparr>
     in if \<not> calloc_ok then Some (FAILURE, Some g)
        else Option.bind (init_ids 0 (unat n) g) (\<lambda>g. Some (SUCCESS, Some g)))"

definition fep_id_gen_free :: "'d id_gen option \<Rightarrow> 'd id_gen option option" where
  "fep_id_gen_free pid_gen = (case pid_gen of
     None \<Rightarrow> Some None
   | Some g \<Rightarrow> (case ids g of
       No_ids \<Rightarrow> Some (Some g)
     | Freed_ids \<Rightarrow> None
     | Ids xs \<Rightarrow> Some (Some (g\<lparr>ids := Freed_ids\<rparr>))))"

definition fep_id_alloc :: "'d option \<Rightarrow> 'd id_gen option \<Rightarrow> (nat option \<times> 'd id_gen option) option" where
  "fep_id_alloc data pid_gen = (case pid_gen of
     None \<Rightarrow> Some (None, None)
   | Some g \<Rightarrow>
     if list_is_empty Free_ids (id_links g) then Some (None, Some g)
     else do {
       (n, L) \<leftarrow> list_pop_head Free_ids (id_links g);
       let g = g\<lparr>id_links := L\<rparr>;
       case n of
         Id_elem i \<Rightarrow> do {
           g \<leftarrow> set_elem i (\<lambda>e. e\<lparr>pdata := data\<rparr>) g;
           g \<leftarrow> to_tail (Id_elem i) Used_ids g;
           Some (Some i, Some g)
         }
       | _ \<Rightarrow> None
     })"

definition fep_id_free :: "nat option \<Rightarrow> 'd id_gen option \<Rightarrow> 'd id_gen option option" where
  "fep_id_free pid pid_gen = (case (pid_gen, pid) of
     (Some g, Some i) \<Rightarrow> do {
       g \<leftarrow> set_elem i (\<lambda>e. e\<lparr>pdata := None\<rparr>) g;
       L \<leftarrow> list_del (Id_elem i) (id_links g);
       g \<leftarrow> to_tail (Id_elem i) Free_ids (g\<lparr>id_links := L\<rparr>);
       Some (Some g)
     }
   | _ \<Rightarrow> Some pid_gen)"

definition fep_id_free_by_id :: "ulong \<Rightarrow> 'd id_gen option \<Rightarrow> 'd id_gen option option" where
  "fep_id_free_by_id i pid_gen = (case pid_gen of
     None \<Rightarrow> Some None
   | Some g \<Rightarrow> if i < 1 \<or> i > n_ids g then Some (Some g) else fep_id_free (Some (unat (i - 1))) (Some g))"

definition fep_id_get_data :: "'d id_gen option \<Rightarrow> ulong \<Rightarrow> 'd option option" where
  "fep_id_get_data pid_gen i = (case pid_gen of
     None \<Rightarrow> Some None
   | Some g \<Rightarrow> if i < 1 \<or> i > n_ids g then Some None
       else map_option pdata (elem g (unat (i - 1))))"


section \<open>Invariant\<close>

definition id_lists :: "nat list \<Rightarrow> nat list \<Rightarrow> id_node \<Rightarrow> id_node list" where
  "id_lists fs us h = (case h of Free_ids \<Rightarrow> map Id_elem fs | Used_ids \<Rightarrow> map Id_elem us | Id_elem i \<Rightarrow> [])"

text \<open>
  The indices \<open>fs\<close> are free, in the order of the list, and \<open>us\<close> are used. Every element has its
  identifier, and the free ones have no data.
\<close>

definition gen_inv :: "'d id_gen \<Rightarrow> nat list \<Rightarrow> nat list \<Rightarrow> bool" where
  "gen_inv g fs us \<longleftrightarrow> rings (id_links g) {Free_ids, Used_ids} (id_lists fs us)
     \<and> set fs \<union> set us = {..<unat (n_ids g)}
     \<and> (\<forall>i<unat (n_ids g). \<exists>d. elem g i = Some \<lparr>id_num = of_nat i + 1, pdata = d\<rparr> \<and> (i \<in> set fs \<longrightarrow> d = None))"

lemma id_lists_simps [simp]:
  "id_lists fs us Free_ids = map Id_elem fs" "id_lists fs us Used_ids = map Id_elem us"
  by (simp_all add: id_lists_def)

lemma gen_inv_disjoint:
  assumes "gen_inv g fs us"
  shows "distinct fs" "distinct us" "set fs \<inter> set us = {}"
proof -
  have R: "rings (id_links g) {Free_ids, Used_ids} (id_lists fs us)" using assms by (simp add: gen_inv_def)
  show "distinct fs" "distinct us"
    using ringsD(2) [OF R, of Free_ids] ringsD(2) [OF R, of Used_ids] by (simp_all add: distinct_map)
  show "set fs \<inter> set us = {}"
    using ringsD(5) [OF R, of Free_ids Used_ids] by auto
qed

lemma elem_set:
  assumes "elem g i = Some e"
  shows "\<exists>g'. set_elem i F g = Some g' \<and> elem g' = (elem g)(i := Some (F e)) \<and> id_links g' = id_links g
    \<and> n_ids g' = n_ids g"
  using assms by (auto simp: elem_def set_elem_def fun_eq_iff nth_list_update split: id_array.splits if_splits)

lemma elem_links [simp]: "elem (g\<lparr>id_links := L\<rparr>) = elem g"
  by (simp add: elem_def fun_eq_iff)

lemma off_ids: "off_lists {Free_ids, Used_ids} (id_lists fs us) (Id_elem i) \<longleftrightarrow> i \<notin> set fs \<union> set us"
  by (auto simp: off_lists_def)

section \<open>Initialisation\<close>

lemma init_ids_ok:
  assumes "rings (id_links g) {Free_ids, Used_ids} (id_lists [0..<i] [])"
    "\<And>j. j < i + k \<Longrightarrow> elem g j = Some \<lparr>id_num = (if j < i then of_nat j + 1 else 0), pdata = None\<rparr>"
  shows "ok (\<lambda>g'. rings (id_links g') {Free_ids, Used_ids} (id_lists [0..<i + k] []) \<and> n_ids g' = n_ids g
      \<and> (\<forall>j<i + k. elem g' j = Some \<lparr>id_num = of_nat j + 1, pdata = None\<rparr>)) (init_ids i k g)"
  using assms
proof (induction k arbitrary: i g)
  case 0 thus ?case by simp
next
  case (Suc k)
  have e: "elem g i = Some \<lparr>id_num = 0, pdata = None\<rparr>" using Suc.prems(2) [of i] by simp
  obtain g1 where g1: "set_elem i (\<lambda>e. e\<lparr>id_num := of_nat i + 1\<rparr>) g = Some g1"
    "elem g1 = (elem g)(i := Some \<lparr>id_num = of_nat i + 1, pdata = None\<rparr>)" "id_links g1 = id_links g" "n_ids g1 = n_ids g"
    using elem_set [OF e, of "\<lambda>e. e\<lparr>id_num := of_nat i + 1\<rparr>"] by auto
  obtain L where L: "list_add_tail (Id_elem i) Free_ids (id_links g) = Some L"
    "rings L {Free_ids, Used_ids} ((id_lists [0..<i] [])(Free_ids := id_lists [0..<i] [] Free_ids @ [Id_elem i]))"
    using rings_add_tail [OF Suc.prems(1), of Free_ids "Id_elem i"] by (auto simp: off_ids)
  have R: "rings L {Free_ids, Used_ids} (id_lists [0..<Suc i] [])"
    by (rule rings_cong [OF L(2)]) auto
  have "ok (\<lambda>g'. rings (id_links g') {Free_ids, Used_ids} (id_lists [0..<Suc i + k] []) \<and>
      n_ids g' = n_ids (g1\<lparr>id_links := L\<rparr>)
      \<and> (\<forall>j<Suc i + k. elem g' j = Some \<lparr>id_num = of_nat j + 1, pdata = None\<rparr>))
    (init_ids (Suc i) k (g1\<lparr>id_links := L\<rparr>))"
    by (rule Suc.IH) (use R Suc.prems(2) g1(2) in auto)
  thus ?case using g1 L(1) by (simp add: to_tail_def)
qed

lemma id_gen_init_ok:
  "ok (\<lambda>(r, g'). r = SUCCESS \<and> (\<exists>g''. g' = Some g'' \<and> n_ids g'' = n \<and> gen_inv g'' [0..<unat n] []))
     (fep_id_gen_init True n (Some g))"
proof -
  define g1 where "g1 = g\<lparr>id_links := list_init Used_ids (list_init Free_ids (id_links g)), n_ids := n,
       ids := Ids (replicate (unat n) \<lparr>id_num = 0, pdata = None\<rparr>)\<rparr>"
  have "rings (list_init Free_ids (id_links g)) {Free_ids} ((\<lambda>_. [])(Free_ids := []))"
    using rings_init [OF rings_none, of "\<lambda>_. []" Free_ids "id_links g"] by (simp add: off_lists_def)
  hence "rings (id_links g1) (insert Used_ids {Free_ids}) ((\<lambda>_. [])(Free_ids := [], Used_ids := []))"
    using rings_init [of "list_init Free_ids (id_links g)" "{Free_ids}" _ Used_ids]
    by (simp add: off_lists_def g1_def)
  hence "rings (id_links g1) {Free_ids, Used_ids} (id_lists [0..<0] [])"
    by (subst (asm) insert_commute) (rule rings_cong, assumption, auto)
  hence "ok (\<lambda>g'. rings (id_links g') {Free_ids, Used_ids} (id_lists [0..<0 + unat n] []) \<and> n_ids g' = n_ids g1
      \<and> (\<forall>j<0 + unat n. elem g' j = Some \<lparr>id_num = of_nat j + 1, pdata = None\<rparr>)) (init_ids 0 (unat n) g1)"
    by (rule init_ids_ok) (simp add: g1_def elem_def)
  thus ?thesis
    by (auto simp: fep_id_gen_init_def g1_def [symmetric] Let_def ok_iff gen_inv_def lessThan_atLeast0)
      (auto simp: g1_def)
qed

section \<open>Operations keep the invariant\<close>

lemma alloc_none:
  assumes "gen_inv g [] us"
  shows "fep_id_alloc d (Some g) = Some (None, Some g)"
  using assms rings_empty [of "id_links g" "{Free_ids, Used_ids}" "id_lists [] us" Free_ids]
  by (simp add: fep_id_alloc_def gen_inv_def)

lemma alloc_some:
  assumes I: "gen_inv g (i # fs) us"
  shows "\<exists>g'. fep_id_alloc d (Some g) = Some (Some i, Some g') \<and> gen_inv g' fs (us @ [i]) \<and> n_ids g' = n_ids g
    \<and> elem g' = (elem g)(i := Some \<lparr>id_num = of_nat i + 1, pdata = d\<rparr>)"
proof -
  let ?H = "{Free_ids, Used_ids}"
  have R: "rings (id_links g) ?H (id_lists (i # fs) us)" and n: "insert i (set fs) \<union> set us = {..<unat (n_ids g)}"
    using I by (simp_all add: gen_inv_def)
  obtain L where L: "list_pop_head Free_ids (id_links g) = Some (Id_elem i, L)"
    "rings L ?H ((id_lists (i # fs) us)(Free_ids := map Id_elem fs))"
    using rings_pop_head [OF R, of Free_ids "Id_elem i" "map Id_elem fs"] by auto
  have R1: "rings L ?H (id_lists fs us)" by (rule rings_cong [OF L(2)]) auto
  have i: "i < unat (n_ids g)" using n by auto
  have e: "elem (g\<lparr>id_links := L\<rparr>) i = Some \<lparr>id_num = of_nat i + 1, pdata = None\<rparr>"
    using I i by (auto simp: gen_inv_def)
  obtain g1 where g1: "set_elem i (\<lambda>e. e\<lparr>pdata := d\<rparr>) (g\<lparr>id_links := L\<rparr>) = Some g1"
    "elem g1 = (elem g)(i := Some \<lparr>id_num = of_nat i + 1, pdata = d\<rparr>)" "id_links g1 = L" "n_ids g1 = n_ids g"
    using elem_set [OF e, of "\<lambda>e. e\<lparr>pdata := d\<rparr>"] by auto
  have new: "i \<notin> set fs \<union> set us" using gen_inv_disjoint [OF I] by auto
  obtain L2 where L2: "list_add_tail (Id_elem i) Used_ids L = Some L2"
    "rings L2 ?H ((id_lists fs us)(Used_ids := map Id_elem us @ [Id_elem i]))"
    using rings_add_tail [OF R1, of Used_ids "Id_elem i"] new by (auto simp: off_ids)
  have R2: "rings L2 ?H (id_lists fs (us @ [i]))" by (rule rings_cong [OF L2(2)]) auto
  define g2 where "g2 = g1\<lparr>id_links := L2\<rparr>"
  have "\<not> list_is_empty Free_ids (id_links g)" using rings_empty [OF R, of Free_ids] by simp
  hence "fep_id_alloc d (Some g) = Some (Some i, Some g2)"
    using L(1) L2(1) g1 by (simp add: fep_id_alloc_def to_tail_def g2_def)
  moreover have "gen_inv g2 fs (us @ [i])"
    unfolding gen_inv_def
  proof (intro conjI allI impI)
    show "rings (id_links g2) ?H (id_lists fs (us @ [i]))" using R2 by (simp add: g2_def)
    show "set fs \<union> set (us @ [i]) = {..<unat (n_ids g2)}" using n g1 by (auto simp: g2_def)
    fix j assume "j < unat (n_ids g2)"
    thus "\<exists>d'. elem g2 j = Some \<lparr>id_num = of_nat j + 1, pdata = d'\<rparr> \<and> (j \<in> set fs \<longrightarrow> d' = None)"
      using I new g1 by (auto simp: gen_inv_def g2_def)
  qed
  ultimately show ?thesis using g1 by (auto simp: g2_def)
qed

text \<open>Freeing an identifier that is free already only moves it to the end of the free list.\<close>

lemma free_ok:
  assumes I: "gen_inv g fs us" and i: "i < unat (n_ids g)"
  shows "\<exists>g'. fep_id_free (Some i) (Some g) = Some (Some g') \<and> gen_inv g' (remove1 i fs @ [i]) (remove1 i us)
    \<and> n_ids g' = n_ids g \<and> elem g' = (elem g)(i := Some \<lparr>id_num = of_nat i + 1, pdata = None\<rparr>)"
proof -
  let ?H = "{Free_ids, Used_ids}"
  have R: "rings (id_links g) ?H (id_lists fs us)" and n: "set fs \<union> set us = {..<unat (n_ids g)}"
    using I by (simp_all add: gen_inv_def)
  note d = gen_inv_disjoint [OF I]
  obtain x where e: "elem g i = Some \<lparr>id_num = of_nat i + 1, pdata = x\<rparr>"
    using I i by (auto simp: gen_inv_def)
  obtain g1 where g1: "set_elem i (\<lambda>e. e\<lparr>pdata := None\<rparr>) g = Some g1"
    "elem g1 = (elem g)(i := Some \<lparr>id_num = of_nat i + 1, pdata = None\<rparr>)" "id_links g1 = id_links g" "n_ids g1 = n_ids g"
    using elem_set [OF e, of "\<lambda>e. e\<lparr>pdata := None\<rparr>"] by auto
  have inj: "map Id_elem (remove1 i zs) = remove1 (Id_elem i) (map Id_elem zs)" for zs
    by (induction zs) auto
  have "\<exists>L. list_del (Id_elem i) (id_links g) = Some L \<and> rings L ?H (id_lists (remove1 i fs) (remove1 i us))"
  proof (cases "i \<in> set fs")
    case True
    hence u: "i \<notin> set us" using d by auto
    obtain L where L: "list_del (Id_elem i) (id_links g) = Some L"
      "rings L ?H ((id_lists fs us)(Free_ids := remove1 (Id_elem i) (map Id_elem fs)))"
      using rings_del [OF R, of Free_ids "Id_elem i"] True by auto
    have "rings L ?H (id_lists (remove1 i fs) (remove1 i us))"
      by (rule rings_cong [OF L(2)]) (use u in \<open>auto simp: inj remove1_idem\<close>)
    thus ?thesis using L(1) by blast
  next
    case False
    hence u: "i \<in> set us" using n i by auto
    obtain L where L: "list_del (Id_elem i) (id_links g) = Some L"
      "rings L ?H ((id_lists fs us)(Used_ids := remove1 (Id_elem i) (map Id_elem us)))"
      using rings_del [OF R, of Used_ids "Id_elem i"] u by auto
    have "rings L ?H (id_lists (remove1 i fs) (remove1 i us))"
      by (rule rings_cong [OF L(2)]) (use False in \<open>auto simp: inj remove1_idem\<close>)
    thus ?thesis using L(1) by blast
  qed
  then obtain L where L: "list_del (Id_elem i) (id_links g) = Some L"
    "rings L ?H (id_lists (remove1 i fs) (remove1 i us))" by blast
  have new: "i \<notin> set (remove1 i fs) \<union> set (remove1 i us)" using d by simp
  obtain L2 where L2: "list_add_tail (Id_elem i) Free_ids L = Some L2"
    "rings L2 ?H ((id_lists (remove1 i fs) (remove1 i us))(Free_ids := map Id_elem (remove1 i fs) @ [Id_elem i]))"
    using rings_add_tail [OF L(2), of Free_ids "Id_elem i"] new by (auto simp: off_ids)
  have R2: "rings L2 ?H (id_lists (remove1 i fs @ [i]) (remove1 i us))" by (rule rings_cong [OF L2(2)]) auto
  define g2 where "g2 = g1\<lparr>id_links := L2\<rparr>"
  have "fep_id_free (Some i) (Some g) = Some (Some g2)"
    using L(1) L2(1) g1 by (simp add: fep_id_free_def to_tail_def g2_def)
  moreover have "gen_inv g2 (remove1 i fs @ [i]) (remove1 i us)"
    unfolding gen_inv_def
  proof (intro conjI allI impI)
    show "rings (id_links g2) ?H (id_lists (remove1 i fs @ [i]) (remove1 i us))" using R2 by (simp add: g2_def)
    show "set (remove1 i fs @ [i]) \<union> set (remove1 i us) = {..<unat (n_ids g2)}"
      using n g1 d i by (auto simp: g2_def)
    fix j assume "j < unat (n_ids g2)"
    thus "\<exists>d'. elem g2 j = Some \<lparr>id_num = of_nat j + 1, pdata = d'\<rparr>
        \<and> (j \<in> set (remove1 i fs @ [i]) \<longrightarrow> d' = None)"
      using I g1 d by (auto simp: gen_inv_def g2_def)
  qed
  ultimately show ?thesis using g1 by (auto simp: g2_def)
qed


section \<open>Specification\<close>

text \<open>
  A generator holds a queue of free identifiers and a table of the used ones. An identifier given
  back goes to the end of the queue, so it is the last to be used again.
\<close>

type_synonym 'd id_spec = "ulong list \<times> (ulong \<rightharpoonup> 'd option)"

fun spec_alloc :: "'d option \<Rightarrow> 'd id_spec \<Rightarrow> ulong option \<times> 'd id_spec" where
  "spec_alloc d ([], t) = (None, [], t)"
| "spec_alloc d (i # q, t) = (Some i, q, t(i \<mapsto> d))"

definition spec_free :: "ulong \<Rightarrow> 'd id_spec \<Rightarrow> 'd id_spec" where
  "spec_free i S = (if i \<in> set (fst S) \<union> dom (snd S) then (remove1 i (fst S) @ [i], (snd S)(i := None)) else S)"

definition spec_data :: "'d id_spec \<Rightarrow> ulong \<Rightarrow> 'd option" where
  "spec_data S i = Option.bind (snd S i) (\<lambda>d. d)"

definition id_of_index :: "nat \<Rightarrow> ulong" where
  "id_of_index i = of_nat i + 1"

definition id_table :: "'d id_gen \<Rightarrow> nat list \<Rightarrow> ulong \<rightharpoonup> 'd option" where
  "id_table g us k = (if k \<in> id_of_index ` set us then map_option pdata (elem g (unat (k - 1))) else None)"

definition implements :: "'d id_gen option \<Rightarrow> 'd id_spec \<Rightarrow> bool" where
  "implements pg S \<longleftrightarrow> (\<exists>g fs us. pg = Some g \<and> gen_inv g fs us \<and> S = (map id_of_index fs, id_table g us))"

lemma implementsI: "gen_inv g fs us \<Longrightarrow> implements (Some g) (map id_of_index fs, id_table g us)"
  by (auto simp: implements_def)

lemma unat_ulong: "unat (n :: ulong) < 4294967296"
  using unsigned_less [where 'a = nat, of n] by simp

lemma index_of_id [simp]: "unat (id_of_index i - 1) = i" if "i < unat (n :: ulong)"
  using that unat_ulong [of n] by (simp add: id_of_index_def unat_of_nat take_bit_eq_mod)

lemma id_of_index_inj: "inj_on id_of_index {..<unat (n :: ulong)}"
  by (rule inj_on_inverseI [where g = "\<lambda>k. unat (k - 1)"]) (simp add: index_of_id [of _ n])

lemma valid_id_index:
  fixes k n :: ulong
  assumes "\<not> (k < 1 \<or> k > n)"
  shows "unat (k - 1) < unat n" "id_of_index (unat (k - 1)) = k"
proof -
  have "k \<noteq> 0" using assms by auto
  hence "unat (k - 1) = unat k - 1" by (simp add: unat_minus_one)
  moreover have "unat k \<le> unat n" "unat k \<noteq> 0" using assms \<open>k \<noteq> 0\<close>
    by (simp_all add: word_le_nat_alt [symmetric] unat_eq_0)
  ultimately show "unat (k - 1) < unat n" by simp
  show "id_of_index (unat (k - 1)) = k" by (simp add: id_of_index_def)
qed

lemma id_of_index_valid:
  fixes n :: ulong
  assumes "i < unat n"
  shows "\<not> (id_of_index i < 1 \<or> id_of_index i > n)"
proof -
  have b: "Suc i < 4294967296" using assms unat_ulong [of n] by simp
  have u: "unat (id_of_index i) = Suc i"
  proof -
    have "id_of_index i = of_nat (Suc i)" by (simp add: id_of_index_def)
    thus ?thesis using b by (simp add: unat_of_nat take_bit_eq_mod del: of_nat_Suc)
  qed
  have "1 \<le> id_of_index i" using u by (simp add: word_le_nat_alt)
  moreover have "id_of_index i \<le> n" using u assms by (simp add: word_le_nat_alt)
  ultimately show ?thesis by auto
qed

lemma implements_alloc:
  assumes "implements pg S"
  shows "ok (\<lambda>(r, pg'). map_option id_of_index r = fst (spec_alloc d S) \<and> implements pg' (snd (spec_alloc d S))
      \<and> (\<forall>i. r = Some i \<longrightarrow> (\<exists>g e. pg' = Some g \<and> elem g i = Some e \<and> id_num e = id_of_index i)))
    (fep_id_alloc d pg)"
proof -
  obtain g fs us where g: "pg = Some g" "gen_inv g fs us" "S = (map id_of_index fs, id_table g us)"
    using assms by (auto simp: implements_def)
  show ?thesis
  proof (cases fs)
    case Nil
    thus ?thesis using g alloc_none [of g us d] by (simp add: implements_def) blast
  next
    case (Cons i fs')
    obtain g' where g': "fep_id_alloc d (Some g) = Some (Some i, Some g')" "gen_inv g' fs' (us @ [i])"
      "n_ids g' = n_ids g" "elem g' = (elem g)(i := Some \<lparr>id_num = of_nat i + 1, pdata = d\<rparr>)"
      using alloc_some [of g i fs' us d] g(2) Cons by blast
    have n: "insert i (set fs') \<union> set us = {..<unat (n_ids g)}" "i \<notin> set us"
      using g(2) gen_inv_disjoint(3) [OF g(2)] Cons by (auto simp: gen_inv_def)
    have less: "j < unat (n_ids g)" if "j = i \<or> j \<in> set us" for j using that n(1) by auto
    have "id_table g' (us @ [i]) = (id_table g us)(id_of_index i \<mapsto> d)"
    proof
      fix k
      show "id_table g' (us @ [i]) k = ((id_table g us)(id_of_index i \<mapsto> d)) k"
      proof (cases "k = id_of_index i")
        case True
        thus ?thesis using less [of i] by (simp add: id_table_def g'(4) index_of_id [of _ "n_ids g"])
      next
        case False
        have "unat (k - 1) \<noteq> i" if "j \<in> set us" "k = id_of_index j" for j
          using that False less [of j] by (auto simp: index_of_id [of _ "n_ids g"])
        thus ?thesis using False by (auto simp: id_table_def g'(4))
      qed
    qed
    thus ?thesis using g g' Cons implementsI [OF g'(2)] by (simp add: id_of_index_def)
  qed
qed

lemma implements_free:
  assumes "implements pg S"
  shows "ok (\<lambda>pg'. implements pg' (spec_free k S)) (fep_id_free_by_id k pg)"
proof -
  obtain g fs us where g: "pg = Some g" "gen_inv g fs us" "S = (map id_of_index fs, id_table g us)"
    using assms by (auto simp: implements_def)
  have n: "set fs \<union> set us = {..<unat (n_ids g)}" using g(2) by (simp add: gen_inv_def)
  have less: "j < unat (n_ids g)" if "j \<in> set fs \<union> set us" for j using that n by auto
  have el: "elem g j \<noteq> None" if "j \<in> set us" for j using g(2) less [of j] that by (auto simp: gen_inv_def)
  have dom: "dom (id_table g us) = id_of_index ` set us"
    using el less by (auto simp: id_table_def dom_def index_of_id [of _ "n_ids g"] split: if_splits)
  have known: "set (fst S) \<union> dom (snd S) = id_of_index ` {..<unat (n_ids g)}"
    using g(3) dom n by (simp add: image_Un [symmetric])
  show ?thesis
  proof (cases "k < 1 \<or> k > n_ids g")
    case True
    have "k \<notin> set (fst S) \<union> dom (snd S)"
      unfolding known using True id_of_index_valid [of _ "n_ids g"] by blast
    thus ?thesis using True g assms by (simp add: fep_id_free_by_id_def spec_free_def)
  next
    case False
    note k = valid_id_index [OF False]
    define i where "i = unat (k - 1)"
    have i: "i < unat (n_ids g)" "id_of_index i = k" using k by (simp_all add: i_def)
    obtain g' where g': "fep_id_free (Some i) (Some g) = Some (Some g')" "gen_inv g' (remove1 i fs @ [i]) (remove1 i us)"
      "n_ids g' = n_ids g" "elem g' = (elem g)(i := Some \<lparr>id_num = of_nat i + 1, pdata = None\<rparr>)"
      using free_ok [OF g(2) i(1)] by blast
    have eq: "id_of_index j = k \<longleftrightarrow> j = i" if "j \<in> set fs \<union> set us" for j
      using inj_onD [OF id_of_index_inj, of j i] less [OF that] i by auto
    have "map id_of_index (remove1 i fs) = remove1 k (map id_of_index fs)"
      using eq by (induction fs) auto
    moreover have "id_table g' (remove1 i us) = (id_table g us)(k := None)"
    proof
      fix l
      have d: "set (remove1 i us) = set us - {i}" using gen_inv_disjoint(2) [OF g(2)] by simp
      show "id_table g' (remove1 i us) l = ((id_table g us)(k := None)) l"
      proof (cases "l = k")
        case True
        hence "l \<notin> id_of_index ` (set us - {i})" using eq by auto
        thus ?thesis using True by (simp add: id_table_def d)
      next
        case False
        have "l \<in> id_of_index ` (set us - {i}) \<longleftrightarrow> l \<in> id_of_index ` set us" using False i by auto
        moreover have "unat (l - 1) \<noteq> i" if "l \<in> id_of_index ` set us"
          using that False i less by (auto simp: index_of_id [of _ "n_ids g"])
        ultimately show ?thesis using False by (auto simp: id_table_def d g'(4))
      qed
    qed
    moreover have "k \<in> set (fst S) \<union> dom (snd S)" unfolding known using i by auto
    moreover have "implements (Some g') (map id_of_index (remove1 i fs @ [i]), id_table g' (remove1 i us))"
      by (rule implementsI [OF g'(2)])
    moreover have "fep_id_free_by_id k pg = Some (Some g')"
      using False g g' by (simp add: fep_id_free_by_id_def i_def)
    ultimately show ?thesis using g(3) i by (simp add: spec_free_def)
  qed
qed

lemma implements_data:
  assumes "implements pg S"
  shows "fep_id_get_data pg k = Some (spec_data S k)"
proof -
  obtain g fs us where g: "pg = Some g" "gen_inv g fs us" "S = (map id_of_index fs, id_table g us)"
    using assms by (auto simp: implements_def)
  have n: "set fs \<union> set us = {..<unat (n_ids g)}" using g(2) by (simp add: gen_inv_def)
  show ?thesis
  proof (cases "k < 1 \<or> k > n_ids g")
    case True
    have "k \<notin> id_of_index ` set us"
    proof
      assume "k \<in> id_of_index ` set us"
      then obtain j where "j \<in> set us" "k = id_of_index j" by blast
      thus False using True id_of_index_valid [of j "n_ids g"] n by auto
    qed
    thus ?thesis using True g by (simp add: fep_id_get_data_def spec_data_def id_table_def)
  next
    case False
    note k = valid_id_index [OF False]
    obtain x where x: "elem g (unat (k - 1)) = Some \<lparr>id_num = of_nat (unat (k - 1)) + 1, pdata = x\<rparr>"
      "unat (k - 1) \<in> set fs \<longrightarrow> x = None"
      using g(2) k by (auto simp: gen_inv_def)
    show ?thesis
    proof (cases "unat (k - 1) \<in> set us")
      case True
      hence "k \<in> id_of_index ` set us" using k(2) by force
      thus ?thesis using False g x by (simp add: fep_id_get_data_def spec_data_def id_table_def)
    next
      case nu: False
      have "k \<notin> id_of_index ` set us"
      proof
        assume "k \<in> id_of_index ` set us"
        then obtain j where j: "j \<in> set us" "k = id_of_index j" by blast
        moreover have "j < unat (n_ids g)" using j(1) n by auto
        ultimately show False using nu by (simp add: index_of_id [of _ "n_ids g"])
      qed
      moreover have "x = None" using x(2) nu n k by auto
      ultimately show ?thesis using False g x by (simp add: fep_id_get_data_def spec_data_def id_table_def)
    qed
  qed
qed

lemma implements_init:
  "ok (\<lambda>(r, pg). r = SUCCESS \<and> implements pg (map id_of_index [0..<unat n], Map.empty))
     (fep_id_gen_init True n (Some g))"
proof (rule ok_mono [OF id_gen_init_ok], clarify)
  fix r and g' g'' :: "'a id_gen"
  assume I: "gen_inv g'' [0..<unat (n_ids g'')] []"
  have "id_table g'' [] = Map.empty" by (simp add: id_table_def fun_eq_iff)
  thus "SUCCESS = SUCCESS \<and> implements (Some g'') (map id_of_index [0..<unat (n_ids g'')], Map.empty)"
    using implementsI [OF I] by simp
qed

section \<open>The generator as a pool\<close>

text \<open>The handles are identifiers; what is live are the used ones.\<close>

lemma gen_inv_unique:
  assumes "gen_inv g fs us" "gen_inv g fs' us'"
  shows "fs = fs'" "us = us'"
proof -
  have R: "rings (id_links g) {Free_ids, Used_ids} (id_lists fs us)"
    "rings (id_links g) {Free_ids, Used_ids} (id_lists fs' us')" using assms by (simp_all add: gen_inv_def)
  have inj: "inj Id_elem" by (simp add: inj_def)
  show "fs = fs'" using rings_reads [OF R, of Free_ids] by (simp add: inj_map_eq_map [OF inj])
  show "us = us'" using rings_reads [OF R, of Used_ids] by (simp add: inj_map_eq_map [OF inj])
qed

lemma implements_unique: "implements pg S \<Longrightarrow> implements pg T \<Longrightarrow> S = T"
proof -
  assume "implements pg S" "implements pg T"
  then obtain g fs us fs' us' where g: "gen_inv g fs us" "gen_inv g fs' us'"
    and "S = (map id_of_index fs, id_table g us)" "T = (map id_of_index fs', id_table g us')"
    by (auto simp: implements_def)
  thus "S = T" using gen_inv_unique [OF g] by simp
qed

text \<open>The generator is in order, and its identifiers, free or used, are those of \<open>K\<close>.\<close>

definition gen_good :: "ulong set \<Rightarrow> 'd id_gen option \<Rightarrow> bool" where
  "gen_good K pg \<longleftrightarrow> (\<exists>S. implements pg S \<and> set (fst S) \<union> dom (snd S) = K)"

definition used_now :: "'d id_gen option \<Rightarrow> ulong set" where
  "used_now pg = {k. \<exists>S. implements pg S \<and> k \<in> dom (snd S)}"

text \<open>What a caller does: allocate, and read the identifier from the element it is given.\<close>

definition alloc_id :: "'d option \<Rightarrow> 'd id_gen option \<Rightarrow> (ulong option \<times> 'd id_gen option) option" where
  "alloc_id d pg = Option.bind (fep_id_alloc d pg) (\<lambda>(r, pg'). case r of
     None \<Rightarrow> Some (None, pg')
   | Some i \<Rightarrow> Option.bind pg' (\<lambda>g. Option.bind (elem g i) (\<lambda>e. Some (Some (id_num e), pg'))))"

lemma used_now_eq: "implements pg S \<Longrightarrow> used_now pg = dom (snd S)"
proof -
  assume S: "implements pg S"
  have "(\<exists>T. implements pg T \<and> k \<in> dom (snd T)) \<longleftrightarrow> k \<in> dom (snd S)" for k
    using S implements_unique [OF S] by blast
  thus ?thesis unfolding used_now_def by blast
qed

text \<open>The free identifiers are not in the table and all different.\<close>

lemma implements_apart:
  assumes "implements pg S"
  shows "distinct (fst S)" "set (fst S) \<inter> dom (snd S) = {}"
proof -
  obtain g fs us where g: "pg = Some g" "gen_inv g fs us" "S = (map id_of_index fs, id_table g us)"
    using assms by (auto simp: implements_def)
  note d = gen_inv_disjoint [OF g(2)]
  have n: "set fs \<union> set us = {..<unat (n_ids g)}" using g(2) by (simp add: gen_inv_def)
  have inj: "inj_on id_of_index (set fs \<union> set us)" unfolding n by (rule id_of_index_inj)
  show "distinct (fst S)" using d(1) inj g(3) by (simp add: distinct_map inj_on_Un)
  have "dom (id_table g us) \<subseteq> id_of_index ` set us" by (auto simp: id_table_def split: if_splits)
  moreover have "id_of_index ` set fs \<inter> id_of_index ` set us = {}"
    using inj_on_image_Int [OF inj, of "set fs" "set us"] d(3) by simp
  ultimately show "set (fst S) \<inter> dom (snd S) = {}" using g(3) by auto
qed

lemma alloc_id_ok:
  assumes "implements pg S"
  shows "ok (\<lambda>(r, pg'). r = fst (spec_alloc d S) \<and> implements pg' (snd (spec_alloc d S))) (alloc_id d pg)"
  unfolding alloc_id_def ok_bind
  by (rule ok_mono [OF implements_alloc [OF assms, of d]]) (auto split: option.split)

lemma used_below: "gen_good K pg \<Longrightarrow> used_now pg \<subseteq> K"
  by (auto simp: gen_good_def used_now_eq)

lemma gen_init_good:
  "ok (\<lambda>(r, pg). r = SUCCESS \<and> gen_good (id_of_index ` {..<unat n}) pg \<and> used_now pg = {})
     (fep_id_gen_init True n (Some g))"
proof (rule ok_mono [OF implements_init], clarify)
  fix pg :: "'a id_gen option"
  assume I: "implements pg (map id_of_index [0..<unat n], Map.empty)"
  have "gen_good (id_of_index ` {..<unat n}) pg"
    unfolding gen_good_def
    by (rule exI [of _ "(map id_of_index [0..<unat n], Map.empty)"]) (use I in \<open>simp add: lessThan_atLeast0\<close>)
  thus "SUCCESS = SUCCESS \<and> gen_good (id_of_index ` {..<unat n}) pg \<and> used_now pg = {}"
    by (simp add: used_now_eq [OF I])
qed

lemma id_of_index_card: "card (id_of_index ` {..<unat (n :: ulong)}) = unat n"
  by (simp add: card_image [OF id_of_index_inj])

lemma id_of_index_range: "id_of_index ` {..<unat (n :: ulong)} = {1..n}"
proof
  show "id_of_index ` {..<unat n} \<subseteq> {1..n}"
  proof (rule image_subsetI)
    fix i assume "i \<in> {..<unat n}"
    thus "id_of_index i \<in> {1..n}" using id_of_index_valid [of i n]
      by (metis atLeastAtMost_iff lessThan_iff linorder_not_less)
  qed
  show "{1..n} \<subseteq> id_of_index ` {..<unat n}"
  proof
    fix k assume "k \<in> {1..n}"
    hence "\<not> (k < 1 \<or> k > n)" by auto
    from valid_id_index [OF this] show "k \<in> id_of_index ` {..<unat n}" by (metis imageI lessThan_iff)
  qed
qed

lemma gen_alloc:
  assumes "gen_good K pg"
  shows "ok (\<lambda>(r, pg'). gen_good K pg' \<and> (case r of None \<Rightarrow> used_now pg' = used_now pg \<and> used_now pg = K
      | Some h \<Rightarrow> h \<notin> used_now pg \<and> used_now pg' = insert h (used_now pg))) (alloc_id d pg)"
proof -
  obtain S where S: "implements pg S" "set (fst S) \<union> dom (snd S) = K" using assms by (auto simp: gen_good_def)
  show ?thesis
  proof (rule ok_mono [OF alloc_id_ok [OF S(1), of d]], clarify)
    fix r pg' assume I: "implements pg' (snd (spec_alloc d S))"
    note u = used_now_eq [OF S(1)] used_now_eq [OF I]
    have "set (fst (snd (spec_alloc d S))) \<union> dom (snd (snd (spec_alloc d S))) = K"
      using S(2) by (cases "(d, S)" rule: spec_alloc.cases) auto
    hence "gen_good K pg'" using I unfolding gen_good_def by blast
    thus "gen_good K pg' \<and> (case fst (spec_alloc d S) of None \<Rightarrow> used_now pg' = used_now pg \<and> used_now pg = K
      | Some h \<Rightarrow> h \<notin> used_now pg \<and> used_now pg' = insert h (used_now pg))"
      using u S(2) implements_apart(2) [OF S(1)] by (cases "(d, S)" rule: spec_alloc.cases) auto
  qed
qed

lemma gen_free:
  assumes "gen_good K pg" and k: "k \<in> used_now pg"
  shows "ok (\<lambda>pg'. gen_good K pg' \<and> used_now pg' = used_now pg - {k}) (fep_id_free_by_id k pg)"
proof -
  obtain S where S: "implements pg S" "set (fst S) \<union> dom (snd S) = K" using assms by (auto simp: gen_good_def)
  have k: "k \<in> dom (snd S)" using k used_now_eq [OF S(1)] by simp
  show ?thesis
  proof (rule ok_mono [OF implements_free [OF S(1), of k]])
    fix pg' assume I: "implements pg' (spec_free k S)"
    have d: "dom (snd (spec_free k S)) = dom (snd S) - {k}" using k by (simp add: spec_free_def)
    have "set (fst (spec_free k S)) \<union> dom (snd (spec_free k S)) = K"
      using k S(2) implements_apart [OF S(1)] by (auto simp: spec_free_def)
    hence "gen_good K pg'" using I unfolding gen_good_def by blast
    thus "gen_good K pg' \<and> used_now pg' = used_now pg - {k}"
      by (simp add: used_now_eq [OF S(1)] used_now_eq [OF I] d)
  qed
qed

interpretation id_pool: pool "gen_good K" used_now alloc_id fep_id_free_by_id for K
proof
  fix pg :: "'a id_gen option" and d :: "'a option"
  assume "gen_good K pg"
  from gen_alloc [OF this, of d]
  show "ok (\<lambda>(r, pg'). gen_good K pg' \<and> (case r of None \<Rightarrow> used_now pg' = used_now pg
      | Some h \<Rightarrow> h \<notin> used_now pg \<and> used_now pg' = insert h (used_now pg))) (alloc_id d pg)"
    by (rule ok_mono) (auto split: option.splits)
qed (fact gen_free)

end
