(* ===== verification/Slab_Props.thy ===== *)
theory Slab_Props
  imports Slab_Use Idgen
begin

text \<open>
  Properties of the slab allocator and the identifier generator, with a closed instance of each.
\<close>

section \<open>A sample allocator\<close>

definition slab_env0 :: "(unit, unit) slab_env" where
  "slab_env0 = \<lparr>MEMORY_ALLOCATED = (\<lambda>m. m), MEMORY_DEALLOCATED = (\<lambda>m. m), map_insert_both = (\<lambda>m w. w),
     sizeof_mem_text = 16, sizeof_mem_struct = 16, slab_UNINITIALIZED = - 1,
     zero_memory = \<lparr>mem_address = None, mem_count = 0, mem_length = 0, mem_name = None, mem_size = 0,
       mem_type = Other_memory 0, mem_text = [], mem_struct = [], mem_fatal = 0, mem_fail = 0, mem_rest = ()\<rparr>\<rparr>"

definition slab0 :: "unit slab" where
  "slab0 = \<lparr>slab_links = \<lparr>prev_of = (\<lambda>_. None), next_of = (\<lambda>_. None)\<rparr>, slab_name = [], slab_flags = 0,
     blks_free = 0, blks_in_use = 0, blks_max = 0, next_hdrnum = 0, pblks = 0, nblks = 0, n_slots = 0,
     slots = [], blk = (\<lambda>_. \<lparr>blkref = 0, blk_slot = 0, obj_size = 0, blk_magic = 0\<rparr>),
     obj = (\<lambda>_. \<lparr>parent = 0, hdrnum = 0, obj_magic = 0\<rparr>)\<rparr>"

text \<open>Two slots, for 100 and 1000 bytes.\<close>

definition infos0 :: "slot_info list" where
  "infos0 = [\<lparr>info_data_size = 100, info_n_objs = 50, slot_name = ''small'', type_name = ''s''\<rparr>,
     \<lparr>info_data_size = 1000, info_n_objs = 50, slot_name = ''large'', type_name = ''l''\<rparr>,
     \<lparr>info_data_size = 0, info_n_objs = 0, slot_name = [], type_name = []\<rparr>]"

lemma infos0_ok: "infos_ok 8 infos0"
proof -
  have e: "FEP_SLAB_MAX_SLOTS = Suc (Suc (Suc 5))" by (simp add: FEP_SLAB_MAX_SLOTS_def)
  show ?thesis unfolding infos_ok_def e infos0_def infos_all.simps
    by (simp add: slot_fits_def align_size_def FEP_SLAB_SZ_BLK_def SIZEOF_BLK_def SIZEOF_OBJ_def)
qed

section \<open>Clients of the slab allocator\<close>

text \<open>The run of a client on a new allocator.\<close>

definition slab_client where
  "slab_client E name align flags infos a z s w xs =
     Option.bind (fep_slab_init E name align flags infos a z (Some s, w)) (\<lambda>(r, ps, w).
       client_run (fep_slab_alloc E) (\<lambda>p. fep_slab_free E (Some p)) xs ([], ps))"

lemma slab_client_good:
  assumes "infos_ok align infos"
  shows "\<exists>s0. slab_inv {} s0 [0..<store_blks a z] no_objs no_objs \<and> nblks s0 = int (store_blks a z) \<and>
    pblks s0 = unat (store_start a) \<and> n_slots s0 = infos_count infos \<and>
    (\<forall>j<n_slots s0. align_size align (info_data_size (infos ! j)) = Some (data_size (slots s0 ! j))) \<and>
    ok (\<lambda>(hs, ps). slab_good s0 ps \<and> distinct hs \<and> set hs = objs_live ps)
      (slab_client E name align flags infos a z s w xs)"
proof -
  obtain s0 w' where s0: "fep_slab_init E name align flags infos a z (Some s, w) = Some (SUCCESS, Some s0, w')"
    "slab_inv {} s0 [0..<store_blks a z] no_objs no_objs" "sizes_ok s0" "nblks s0 = int (store_blks a z)"
    "pblks s0 = unat (store_start a)" "n_slots s0 = infos_count infos"
    "\<forall>j<n_slots s0. align_size align (info_data_size (infos ! j)) = Some (data_size (slots s0 ! j))"
    using slab_init_ok [OF assms, of E name flags a z s w] by blast
  have "slab_good s0 (Some s0)" using slab_goodI [OF s0(2,3)] by simp
  moreover have "objs_live (Some s0) = {}" unfolding objs_live_eq [OF s0(2)] by (simp add: no_objs_def)
  ultimately have "slab_pool.holds s0 ([], Some s0)" by (simp add: slab_pool.holds_def)
  from slab_pool.run_holds [OF this, of E xs] have
    "ok (\<lambda>(hs, ps). slab_good s0 ps \<and> distinct hs \<and> set hs = objs_live ps)
      (slab_client E name align flags infos a z s w xs)"
    unfolding slab_client_def s0(1) by (auto simp: slab_pool.holds_def elim!: ok_mono)
  thus ?thesis using s0 by blast
qed

text \<open> C23: whatever a client allocates and frees, on any store and any slot table whose sizes fit a
  block, no call runs into undefined behaviour, and the client holds exactly the objects in use,
  none of them twice. \<close>

theorem slab_clients_hold_what_is_used:
  assumes "infos_ok align infos"
  shows "ok (\<lambda>(hs, ps). distinct hs \<and> set hs = objs_live ps) (slab_client E name align flags infos a z s w xs)"
proof -
  obtain s0 where "ok (\<lambda>(hs, ps). slab_good s0 ps \<and> distinct hs \<and> set hs = objs_live ps)
      (slab_client E name align flags infos a z s w xs)"
    using slab_client_good [OF assms, where E = E and name = name and flags = flags and a = a and z = z
        and s = s and w = w and xs = xs] by blast
  thus ?thesis by (rule ok_mono) auto
qed

theorem slab_clients_hold_what_is_used_witness:
  "ok (\<lambda>(hs, ps). distinct hs \<and> set hs = objs_live ps)
    (slab_client slab_env0 ''slab'' 8 0 infos0 0x1001 200000 slab0 () [Acquire 100, Acquire 101, Give_back 1, Acquire 5])"
  by (rule slab_clients_hold_what_is_used [OF infos0_ok])



text \<open>When nothing is in use, no block is.\<close>

lemma inv_all_free:
  assumes I: "slab_inv {} s fb fo uo" and e: "objs_live (Some s) = {}"
  shows "blks_in_use s = 0 \<and> blks_free s = nblks s \<and>
    (\<forall>i<n_slots s. objs_free (slots s ! i) = 0 \<and> objs_in_use (slots s ! i) = 0)"
proof -
  have u: "uo i = []" if "i < n_slots s" for i using e that unfolding objs_live_eq [OF I] by auto
  have c: "carved s fb = {}"
  proof (rule ccontr)
    assume "carved s fb \<noteq> {}"
    then obtain b where "b \<in> carved s fb" by blast
    then obtain i where "i < n_slots s" "0 < refs (uo i) b"
      using I unfolding slab_inv_def blocks_ok_def by blast
    thus False using u by simp
  qed
  have C: "counts_ok s fb fo uo" "set fb \<subseteq> {..<nat (nblks s)}" using I by (simp_all add: slab_inv_def blocks_ok_def)
  have "set fb = {..<nat (nblks s)}" using c C(2) by (auto simp: carved_def)
  hence "length fb = nat (nblks s)" using distinct_card [OF inv_distinct(1) [OF I]] by simp
  hence "blks_free s = nblks s" using C(1) by (simp add: counts_ok_def)
  moreover have "fo i = []" if i: "i < n_slots s" for i
  proof -
    have "p \<notin> set (fo i)" for p using inv_obj(1) [OF I i, of p] c by blast
    thus ?thesis by (cases "fo i") auto
  qed
  ultimately show ?thesis using C(1) u by (auto simp: counts_ok_def)
qed

text \<open> C25: when a client has given back all it holds, every block is free again: nothing leaks. \<close>

theorem slab_no_leak:
  assumes "infos_ok align infos"
  shows "ok (\<lambda>(hs, ps). ok (\<lambda>ps'. \<exists>s'. ps' = Some s' \<and> blks_free s' = int (store_blks a z) \<and> blks_in_use s' = 0 \<and>
      (\<forall>i<n_slots s'. objs_free (slots s' ! i) = 0 \<and> objs_in_use (slots s' ! i) = 0))
    (give_back_all (\<lambda>p. fep_slab_free E (Some p)) hs ps)) (slab_client E name align flags infos a z s w xs)"
proof -
  obtain s0 where s0: "nblks s0 = int (store_blks a z)" and
    run: "ok (\<lambda>(hs, ps). slab_good s0 ps \<and> distinct hs \<and> set hs = objs_live ps)
      (slab_client E name align flags infos a z s w xs)"
    using slab_client_good [OF assms, where E = E and name = name and flags = flags and a = a and z = z
        and s = s and w = w and xs = xs] by blast
  show ?thesis
  proof (rule ok_mono [OF run], clarify)
    fix hs ps assume g: "slab_good s0 ps" "distinct hs" "set hs = objs_live ps"
    show "ok (\<lambda>ps'. \<exists>s'. ps' = Some s' \<and> blks_free s' = int (store_blks a z) \<and> blks_in_use s' = 0 \<and>
      (\<forall>i<n_slots s'. objs_free (slots s' ! i) = 0 \<and> objs_in_use (slots s' ! i) = 0))
      (give_back_all (\<lambda>p. fep_slab_free E (Some p)) hs ps)"
    proof (rule ok_mono [OF slab_pool.all_back [OF g, of E]])
      fix ps' assume "slab_good s0 ps' \<and> objs_live ps' = {}"
      then obtain s' fb fo uo where s': "ps' = Some s'" "slab_inv {} s' fb fo uo" "same_slab s0 s'" "objs_live (Some s') = {}"
        by (auto simp: slab_good_def)
      show "\<exists>s'. ps' = Some s' \<and> blks_free s' = int (store_blks a z) \<and> blks_in_use s' = 0 \<and>
          (\<forall>i<n_slots s'. objs_free (slots s' ! i) = 0 \<and> objs_in_use (slots s' ! i) = 0)"
        using inv_all_free [OF s'(2,4)] s'(1,3) s0 by (simp add: same_slab_def)
    qed
  qed
qed

theorem slab_no_leak_witness:
  "ok (\<lambda>(hs, ps). ok (\<lambda>ps'. \<exists>s'. ps' = Some s' \<and> blks_free s' = int (store_blks 0x1001 200000) \<and> blks_in_use s' = 0 \<and>
      (\<forall>i<n_slots s'. objs_free (slots s' ! i) = 0 \<and> objs_in_use (slots s' ! i) = 0))
    (give_back_all (\<lambda>p. fep_slab_free slab_env0 (Some p)) hs ps))
    (slab_client slab_env0 ''slab'' 8 0 infos0 0x1001 200000 slab0 () [Acquire 100, Acquire 101, Give_back 1, Acquire 5])"
  by (rule slab_no_leak [OF infos0_ok])


section \<open>The choice of a slot\<close>

definition slot_of :: "'m slab \<Rightarrow> nat \<times> nat \<Rightarrow> nat" where
  "slot_of s p = nat (blk_slot (blk s (fst p)))"

text \<open>Slot \<open>i\<close> is large enough for \<open>n\<close> bytes, and no smaller one is.\<close>

definition best_fit :: "'m slab \<Rightarrow> ulong \<Rightarrow> nat \<Rightarrow> bool" where
  "best_fit s n i \<longleftrightarrow> i < n_slots s \<and> n \<le> data_size (slots s ! i) \<and>
     (\<forall>k<n_slots s. n \<le> data_size (slots s ! k) \<longrightarrow> data_size (slots s ! i) \<le> data_size (slots s ! k))"

lemma slab_alloc_cases:
  assumes "slab_good s0 (Some s)"
  shows "ok (\<lambda>(r, ps). case r of
      Some p \<Rightarrow> (\<exists>s'. ps = Some s' \<and> best_fit s n (slot_of s' p) \<and> n \<noteq> 0)
    | None \<Rightarrow> n = 0 \<or> (\<forall>i<n_slots s. data_size (slots s ! i) < n) \<or>
        (\<exists>i. best_fit s n i \<and> objs_free (slots s ! i) = 0 \<and> blks_free s = 0)) (fep_slab_alloc E n (Some s))"
proof (cases "n = 0")
  case True
  thus ?thesis by (simp add: fep_slab_alloc_def)
next
  case n: False
  obtain fb fo uo where I: "slab_inv {} s fb fo uo" using assms by (auto simp: slab_good_def)
  show ?thesis
  proof (cases "best_slot s n 0 (n_slots s) None")
    case None
    hence "\<forall>k<n_slots s. \<not> n \<le> data_size (slots s ! k)"
      using best_slot_from_0 [where s = s and n = n and m = "n_slots s"] by simp
    thus ?thesis using None n by (simp add: fep_slab_alloc_def not_le)
  next
    case (Some i)
    have b: "best_fit s n i"
      using best_slot_from_0 [where s = s and n = n and m = "n_slots s"] Some by (simp add: best_fit_def)
    hence i: "i < n_slots s" by (simp add: best_fit_def)
    obtain r s' fb' fo' uo' where a: "fep_slab_alloc_from_slot E (int i) (Some s) = Some (r, Some s')" "same_slab s s'"
      "slab_inv {} s' fb' fo' uo'" "case r of None \<Rightarrow> fo i = [] \<and> fb = [] \<and> uo' = uo
       | Some p \<Rightarrow> uo' = uo(i := p # uo i) \<and> \<not> (fo i = [] \<and> fb = [])"
      using alloc_from_slot_ok [OF I i, of E] by blast
    have call: "fep_slab_alloc E n (Some s) = Some (r, Some s')"
      using a(1) n Some by (simp add: fep_slab_alloc_def)
    show ?thesis
    proof (cases r)
      case None
      have "objs_free (slots s ! i) = 0" "blks_free s = 0"
        using I a(4) None i by (simp_all add: slab_inv_def counts_ok_def)
      thus ?thesis using call None b by auto
    next
      case (Some p)
      have "p \<in> set (uo' i)" "i < n_slots s'" using a(2,4) Some i by (simp_all add: same_slab_def)
      hence "slot_of s' p = i" using inv_obj(2) [OF a(3), of i p] by (simp add: slot_of_def)
      thus ?thesis using call Some b n by simp
    qed
  qed
qed

text \<open> C26: an allocation returns an object of the smallest slot that is large enough; it fails only
  for zero bytes, for more bytes than any slot has, or when that slot has no free object and
  there is no free block. \<close>

theorem slab_alloc_best_fit:
  assumes "slab_good s0 (Some s)"
  shows "ok (\<lambda>(r, ps). case r of
      Some p \<Rightarrow> (\<exists>s'. ps = Some s' \<and> best_fit s n (slot_of s' p) \<and> n \<noteq> 0)
    | None \<Rightarrow> n = 0 \<or> (\<forall>i<n_slots s. data_size (slots s ! i) < n) \<or>
        (\<exists>i. best_fit s n i \<and> objs_free (slots s ! i) = 0 \<and> blks_free s = 0)) (fep_slab_alloc E n (Some s))"
  by (rule slab_alloc_cases [OF assms])

theorem slab_alloc_best_fit_witness:
  "\<exists>s. fep_slab_init slab_env0 ''slab'' 8 0 infos0 0x1001 200000 (Some slab0, ()) = Some (SUCCESS, Some s, ()) \<and>
    ok (\<lambda>(r, ps). case r of
      Some p \<Rightarrow> (\<exists>s'. ps = Some s' \<and> best_fit s 101 (slot_of s' p) \<and> (101 :: ulong) \<noteq> 0)
    | None \<Rightarrow> (101 :: ulong) = 0 \<or> (\<forall>i<n_slots s. data_size (slots s ! i) < 101) \<or>
        (\<exists>i. best_fit s 101 i \<and> objs_free (slots s ! i) = 0 \<and> blks_free s = 0)) (fep_slab_alloc slab_env0 101 (Some s))"
proof -
  obtain s where s: "fep_slab_init slab_env0 ''slab'' 8 0 infos0 0x1001 200000 (Some slab0, ()) = Some (SUCCESS, Some s, ())"
    "slab_inv {} s [0..<store_blks 0x1001 200000] no_objs no_objs" "sizes_ok s"
    using slab_init_ok [OF infos0_ok, of slab_env0 "''slab''" 0 "0x1001" 200000 slab0 "()"] by auto
  have "slab_good s (Some s)" by (rule slab_goodI [OF s(2,3) same_refl])
  from slab_alloc_best_fit [OF this, of 101 slab_env0] show ?thesis using s(1) by blast
qed

section \<open>Sizing\<close>

lemma align_pad:
  assumes "unat a + 1023 < 4294967296"
  shows "unat (store_start a - a) < 1024"
proof -
  have u: "unat (a + 1023) = unat a + 1023" using assms by (simp add: unat_word_ariths(1))
  define q where "q = (unat a + 1023) div 1024"
  have q: "q * 1024 \<le> unat a + 1023" "unat a + 1023 < q * 1024 + 1024" by (simp_all add: q_def)
  have "unat ((a + 1024 - 1) div 1024) = q"
  proof -
    have e: "a + 1024 - 1 = a + 1023" by simp
    show ?thesis unfolding e unat_div u q_def by simp
  qed
  hence s: "unat (store_start a) = q * 1024"
    using q(1) assms by (simp add: store_start_def unat_word_ariths(2))
  hence "a \<le> store_start a" using q(2) by (simp add: word_le_nat_alt)
  hence "unat (store_start a - a) = q * 1024 - unat a" using s by (simp add: unat_sub)
  thus ?thesis using q by simp
qed

lemma store_blks_enough:
  assumes "unat a + 1023 < 4294967296" "unat z = m * FEP_SLAB_SZ_BLK" "0 < m" "unat z < 2147483648"
  shows "m - 1 \<le> store_blks a z"
proof -
  define d where "d = store_start a - a"
  have d: "unat d < 1024" using align_pad [OF assms(1)] by (simp add: d_def)
  have "1024 \<le> unat z" using assms(2,3) by (cases m) (auto simp: FEP_SLAB_SZ_BLK_def)
  hence le: "d \<le> z" using d by (simp add: word_le_nat_alt)
  have u: "unat (z - d) = unat z - unat d" using le by (simp add: unat_sub)
  have "unat (z - d) < 2147483648" using u assms(4) by simp
  hence "sint (z - d) = int (unat (z - d))"
    by (simp add: sint_uint uint_nat signed_take_bit_eq_if_positive take_bit_int_eq_self bit_iff_odd del: of_nat_unat) 
  hence b: "store_blks a z = (unat z - unat d) div FEP_SLAB_SZ_BLK" by (simp add: store_blks_def d_def u [unfolded d_def])
  have "(m - 1) * FEP_SLAB_SZ_BLK \<le> unat z - unat d"
    using d assms(2,3) by (cases m) (auto simp: FEP_SLAB_SZ_BLK_def)
  thus ?thesis unfolding b by (simp add: less_eq_div_iff_mult_less_eq FEP_SLAB_SZ_BLK_def)
qed


text \<open>A full slot uses every object of every block, when it is the only slot.\<close>

lemma only_slot_full:
  assumes I: "slab_inv {} s [] fo uo" and n: "n_slots s = 1" and f: "fo 0 = []"
  shows "card (objs_live (Some s)) = nat (nblks s) * cap s 0"
proof -
  have "p \<in> set (uo 0) \<longleftrightarrow> fst p < nat (nblks s) \<and> snd p < cap s 0" for p
  proof -
    have "blk_slot (blk s (fst p)) = 0" if "fst p \<in> carved s []"
      using I that n unfolding slab_inv_def blocks_ok_def by fastforce
    thus ?thesis
      using objs_okD [of s "[]" fo uo 0 p] I n f by (auto simp: slab_inv_def carved_def)
  qed
  hence "set (uo 0) = {..<nat (nblks s)} \<times> {..<cap s 0}" by (auto simp: mem_Times_iff)
  moreover have "objs_live (Some s) = set (uo 0)" unfolding objs_live_eq [OF I] n by auto
  ultimately show ?thesis by (simp add: card_cartesian_product)
qed

lemma calc_zstore_value:
  assumes z: "calc_zstore n sz align = Some z" and d: "align_size align sz = Some d"
    and D: "unat d \<le> FEP_SLAB_SZ_BLK - SIZEOF_BLK - SIZEOF_OBJ"
    and small: "(unat n div ((FEP_SLAB_SZ_BLK - SIZEOF_BLK) div (SIZEOF_OBJ + unat d)) + 2) * FEP_SLAB_SZ_BLK < 2147483648"
  shows "unat z = (unat n div ((FEP_SLAB_SZ_BLK - SIZEOF_BLK) div (SIZEOF_OBJ + unat d)) + 2) * FEP_SLAB_SZ_BLK"
proof -
  define k where "k = (FEP_SLAB_SZ_BLK - SIZEOF_BLK) div (SIZEOF_OBJ + unat d)"
  have u: "unat (of_nat SIZEOF_OBJ + d :: 32 word) = SIZEOF_OBJ + unat d" by (rule unat_osize [OF D])
  have kp: "0 < k" using D by (simp add: k_def SIZEOF_OBJ_def SIZEOF_BLK_def FEP_SLAB_SZ_BLK_def div_greater_zero_iff)
  have kb: "k < 4294967296"
    by (rule le_less_trans [of _ "FEP_SLAB_SZ_BLK - SIZEOF_BLK"]) (simp_all add: k_def FEP_SLAB_SZ_BLK_def SIZEOF_BLK_def)
  have nz: "of_nat SIZEOF_OBJ + d \<noteq> (0 :: 32 word)" using u by (auto simp: SIZEOF_OBJ_def)
  have "objs_per_blk (of_nat SIZEOF_OBJ + d) = Some k" using nz by (simp add: objs_per_blk_def u k_def)
  hence ze: "z = (n div of_nat k + 1 + 1) * of_nat FEP_SLAB_SZ_BLK"
    using z d kp by (simp add: calc_zstore_def)
  have "unat (of_nat k :: 32 word) = k" using kb by (simp add: unat_of_nat take_bit_eq_mod)
  hence q: "unat (n div of_nat k) = unat n div k" by (simp add: unat_div)
  have s: "(unat n div k + 2) * 66560 < 2147483648" using small by (simp add: k_def FEP_SLAB_SZ_BLK_def)
  define x where "x = n div of_nat k + 1 + 1"
  have x: "unat x = unat n div k + 2"
    using s q by (simp add: x_def unat_word_ariths(1))
  have "unat (x * 66560) = unat x * 66560" using s x by (simp add: unat_word_ariths(2))
  thus ?thesis unfolding ze k_def [symmetric] x_def [symmetric] by (simp add: x FEP_SLAB_SZ_BLK_def)
qed

text \<open> C27: a store of the size that \<open>calc_zstore\<close> computes for \<open>n\<close> objects serves \<open>n\<close> objects, wherever
  it is and whatever was allocated and freed before: while fewer are in use, an allocation
  succeeds. \<close>

theorem calc_zstore_enough:
  fixes E :: "('m, 'w) slab_env"
  assumes infos: "infos_ok align infos" "infos_count infos = 1" "info_data_size (infos ! 0) = sz"
    and z: "calc_zstore n sz align = Some z" and d: "align_size align sz = Some d"
    and small: "(unat n div ((FEP_SLAB_SZ_BLK - SIZEOF_BLK) div (SIZEOF_OBJ + unat d)) + 2) * FEP_SLAB_SZ_BLK < 2147483648"
    and a: "unat a + 1023 < 4294967296" and m: "0 < m" "m \<le> d"
  shows "ok (\<lambda>(hs, ps). length hs < unat n \<longrightarrow> ok (\<lambda>(r, _). r \<noteq> None) (fep_slab_alloc E m ps))
    (slab_client E name align flags infos a z s w xs)"
proof -
  let ?k = "(FEP_SLAB_SZ_BLK - SIZEOF_BLK) div (SIZEOF_OBJ + unat d)"
  obtain s0 where s0: "slab_inv {} s0 [0..<store_blks a z] no_objs no_objs" "nblks s0 = int (store_blks a z)" "n_slots s0 = 1"
    "data_size (slots s0 ! 0) = d" and
    run: "ok (\<lambda>(hs, ps). slab_good s0 ps \<and> distinct hs \<and> set hs = objs_live ps)
      (slab_client E name align flags infos a z s w xs)"
    using slab_client_good [OF infos(1), where E = E and name = name and flags = flags and a = a and z = z
        and s = s and w = w and xs = xs] infos(2,3) d by auto
  have "slot_fits align (infos ! 0)"
    by (rule infos_all_nth [OF infos(1) [unfolded infos_ok_def]])
      (use infos(2) in \<open>unfold infos_count_def, linarith\<close>)
  hence D: "unat d \<le> FEP_SLAB_SZ_BLK - SIZEOF_BLK - SIZEOF_OBJ" using infos(3) d by (simp add: slot_fits_def)
  note zv = calc_zstore_value [OF z d D small]
  have "(unat n div ?k + 2) - 1 \<le> store_blks a z"
    by (rule store_blks_enough [OF a zv]) (use zv small in auto)
  hence B: "unat n div ?k + 1 \<le> store_blks a z" by simp
  have kp: "0 < ?k" using D by (simp add: SIZEOF_OBJ_def SIZEOF_BLK_def FEP_SLAB_SZ_BLK_def div_greater_zero_iff)
  have N: "unat n < store_blks a z * ?k"
  proof -
    have "unat n < (unat n div ?k + 1) * ?k" using dividend_less_div_times [OF kp, of "unat n"] by simp
    also have "\<dots> \<le> store_blks a z * ?k" by (rule mult_le_mono1 [OF B])
    finally show ?thesis .
  qed
  show ?thesis
  proof (rule ok_mono [OF run], clarify)
    fix hs ps assume g: "slab_good s0 ps" "distinct hs" "set hs = objs_live ps" and l: "length hs < unat n"
    then obtain s' fb fo uo where s': "ps = Some s'" "slab_inv {} s' fb fo uo" "sizes_ok s'" "same_slab s0 s'"
      by (auto simp: slab_good_def)
    have one: "n_slots s' = 1" "data_size (slots s' ! 0) = d" "nat (nblks s') = store_blks a z"
      using s'(4) s0 by (simp_all add: same_slab_def)
    have "unat (osize s' 0) = SIZEOF_OBJ + unat d" using osize_unat(1) [of s' 0] D one(2) by simp
    hence cap: "cap s' 0 = ?k" by (simp add: cap_def)
    have C: "counts_ok s' fb fo uo" using s'(2) by (simp add: slab_inv_def)
    have full: False if f: "objs_free (slots s' ! 0) = 0" "blks_free s' = 0"
    proof -
      have "fo 0 = []" "fb = []" using C f one(1) by (simp_all add: counts_ok_def)
      hence "card (objs_live (Some s')) = store_blks a z * ?k"
        using only_slot_full [of s' fo uo] s'(2) one cap by simp
      moreover have "card (objs_live (Some s')) = length hs" using g(2,3) s'(1) distinct_card by metis
      ultimately show False using l N by simp
    qed
    have "slab_good s0 (Some s')" using g(1) s'(1) by simp
    from slab_alloc_cases [OF this, of m E]
    have "ok (\<lambda>(r, _). r \<noteq> None) (fep_slab_alloc E m (Some s'))"
    proof (rule ok_mono)
      fix x :: "(nat \<times> nat) option \<times> 'm slab option"
      obtain r ps where x: "x = (r, ps)" by (cases x)
      assume A: "case x of (r, ps) \<Rightarrow> (case r of
          Some p \<Rightarrow> (\<exists>s''. ps = Some s'' \<and> best_fit s' m (slot_of s'' p) \<and> m \<noteq> 0)
        | None \<Rightarrow> m = 0 \<or> (\<forall>i<n_slots s'. data_size (slots s' ! i) < m) \<or>
            (\<exists>i. best_fit s' m i \<and> objs_free (slots s' ! i) = 0 \<and> blks_free s' = 0))"
      have False if "r = None"
      proof -
        have "\<exists>i. best_fit s' m i \<and> objs_free (slots s' ! i) = 0 \<and> blks_free s' = 0"
          using A that x m one(1,2) by auto
        thus False using full one(1) by (auto simp: best_fit_def)
      qed
      hence "r \<noteq> None" by blast
      thus "case x of (r, _) \<Rightarrow> r \<noteq> None" using x by simp
    qed
    thus "ok (\<lambda>(r, _). r \<noteq> None) (fep_slab_alloc E m ps)" using s'(1) by simp
  qed
qed

section \<open>Slots that are too large\<close>

text \<open> C30: a slot whose objects do not fit a block is accepted by \<open>fep_slab_init\<close>, and the first
  allocation from it takes a block that yields no object, pops the head of the empty list and
  writes through it: the behaviour is undefined. \<close>

theorem oversized_slot_undefined:
  assumes infos: "infos_all (slot_defined align) infos FEP_SLAB_MAX_SLOTS" "i < infos_count infos"
    and d: "align_size align (info_data_size (infos ! i)) = Some d"
    and big: "FEP_SLAB_SZ_BLK - SIZEOF_BLK < unat (of_nat SIZEOF_OBJ + d)"
    and store: "0 < store_blks a z"
  shows "ok (\<lambda>(r, ps, _). r = SUCCESS \<and> fep_slab_alloc_from_slot E (int i) ps = None)
    (fep_slab_init E name align flags infos a z (Some s, w))"
proof -
  obtain s' w' where s': "fep_slab_init E name align flags infos a z (Some s, w) = Some (SUCCESS, Some s', w')"
    "fresh [0..<store_blks a z] s'" "n_slots s' = infos_count infos"
    "\<forall>j<n_slots s'. align_size align (info_data_size (infos ! j)) = Some (data_size (slots s' ! j))"
    using slab_init_fresh [OF infos(1), of E name flags a z s w] by blast
  let ?H = "heads (n_slots s')" and ?n = "store_blks a z"
  have i: "i < n_slots s'" and ds: "data_size (slots s' ! i) = d" using infos(2) s'(3,4) d by auto
  have R: "rings (slab_links s') ?H (slab_lists [0..<?n] no_objs no_objs)" using s'(2) by (simp add: fresh_def)
  have e: "list_is_empty (Free_objs i) (slab_links s')" "\<not> list_is_empty Free_blks (slab_links s')"
    using rings_empty [OF R, of "Free_objs i"] rings_empty [OF R, of Free_blks] i store by (simp_all add: no_objs_def)
  have up: "[0..<?n] = 0 # [1..<?n]" using store by (simp add: upt_conv_Cons)
  have f: "slab_lists [0..<?n] no_objs no_objs Free_blks = Blk 0 # map Blk [1..<?n]"
    by (simp only: slab_lists_simps up list.map)
  obtain L where L: "list_pop_head Free_blks (slab_links s') = Some (Blk 0, L)"
    "rings L ?H ((slab_lists [0..<?n] no_objs no_objs)(Free_blks := map Blk [1..<?n]))"
    using rings_pop_head [OF R in_heads(1) f] by blast
  have r: "ring L (Free_objs i) []" using ringsD(1) [OF L(2), of "Free_objs i"] i by (simp add: no_objs_def)
  obtain L' where L': "list_pop_head (Free_objs i) L = Some (Free_objs i, L')" using pop_empty [OF r] by blast
  have nz: "of_nat SIZEOF_OBJ + d \<noteq> (0 :: 32 word)" using big by auto
  have k: "objs_per_blk (of_nat SIZEOF_OBJ + d) = Some 0" using nz big by (simp add: objs_per_blk_def)
  define s1 where "s1 = taken s' 0 i L"
  have s1: "fep_slab_block_alloc (int i) (Some s') = Some (SUCCESS, Some s1)" "slab_links s1 = L"
    using k unfolding block_alloc_call [OF L(1) e(2) i] by (simp_all add: osize_def ds s1_def taken_def)
  have "take_obj E i s1 = None" using L' s1(2) by (simp add: take_obj_def)
  hence "fep_slab_alloc_from_slot E (int i) (Some s') = None"
    using e(1) i s1(1) by (simp add: fep_slab_alloc_from_slot_def)
  thus ?thesis using s'(1) by simp
qed


section \<open>Sample stores\<close>

text \<open>One slot for 100 bytes, in a store sized for 600 objects.\<close>

definition infos1 :: "slot_info list" where
  "infos1 = [\<lparr>info_data_size = 100, info_n_objs = 600, slot_name = ''one'', type_name = ''s''\<rparr>,
     \<lparr>info_data_size = 0, info_n_objs = 0, slot_name = [], type_name = []\<rparr>]"

text \<open>One slot for 70000 bytes.\<close>

definition infos2 :: "slot_info list" where
  "infos2 = [\<lparr>info_data_size = 70000, info_n_objs = 2, slot_name = ''big'', type_name = ''b''\<rparr>,
     \<lparr>info_data_size = 0, info_n_objs = 0, slot_name = [], type_name = []\<rparr>]"

lemma max_slots_Suc: "FEP_SLAB_MAX_SLOTS = Suc (Suc 6)"
  by (simp add: FEP_SLAB_MAX_SLOTS_def)

lemma infos1_ok: "infos_ok 8 infos1" "infos_count infos1 = 1" "info_data_size (infos1 ! 0) = 100"
  unfolding infos_ok_def infos_count_def max_slots_Suc infos1_def infos_all.simps
  by (simp_all add: slot_fits_def align_size_def FEP_SLAB_SZ_BLK_def SIZEOF_BLK_def SIZEOF_OBJ_def)

lemma infos2_defined: "infos_all (slot_defined 8) infos2 FEP_SLAB_MAX_SLOTS" "infos_count infos2 = 1"
  "align_size 8 (info_data_size (infos2 ! 0)) = Some 70000"
  unfolding infos_count_def max_slots_Suc infos2_def infos_all.simps
  by (simp_all add: slot_defined_def align_size_def SIZEOF_OBJ_def)

lemma store_blks_sample: "store_blks 0x1001 266240 = 3"
  by (simp add: store_blks_def store_start_def FEP_SLAB_SZ_BLK_def)

theorem calc_zstore_enough_witness:
  "calc_zstore 600 100 8 = Some 199680 \<and>
    ok (\<lambda>(hs, ps). length hs < unat (600 :: 32 word) \<longrightarrow> ok (\<lambda>(r, _). r \<noteq> None) (fep_slab_alloc slab_env0 77 ps))
      (slab_client slab_env0 ''slab'' 8 0 infos1 0x1001 199680 slab0 () (replicate 500 (Acquire 100) @ [Give_back 7]))"
proof -
  have z: "calc_zstore 600 100 8 = Some 199680"
    by (simp add: calc_zstore_def align_size_def objs_per_blk_def SIZEOF_OBJ_def SIZEOF_BLK_def FEP_SLAB_SZ_BLK_def)
  have d: "align_size 8 100 = Some 104" by (simp add: align_size_def)
  show ?thesis
    by (intro conjI z, rule calc_zstore_enough [OF infos1_ok z d])
      (simp_all add: SIZEOF_OBJ_def SIZEOF_BLK_def FEP_SLAB_SZ_BLK_def)
qed

theorem oversized_slot_undefined_witness:
  "ok (\<lambda>(r, ps, _). r = SUCCESS \<and> fep_slab_alloc_from_slot slab_env0 (int 0) ps = None)
    (fep_slab_init slab_env0 ''slab'' 8 0 infos2 0x1001 266240 (Some slab0, ()))"
  by (rule oversized_slot_undefined [OF infos2_defined(1) _ infos2_defined(3)])
    (simp_all add: infos2_defined(2) store_blks_sample SIZEOF_OBJ_def SIZEOF_BLK_def FEP_SLAB_SZ_BLK_def)

section \<open>The identifier generator\<close>

text \<open> C28: allocating, freeing and reading are the operations of the queue and the table: the
  identifier that has been free longest is handed out with its data, a freed one loses its data
  and goes to the end of the queue, also when it was free already, and an identifier outside
  the range is ignored. \<close>

theorem id_gen_refines_queue:
  assumes "implements pg S"
  shows "ok (\<lambda>(r, pg'). r = fst (spec_alloc d S) \<and> implements pg' (snd (spec_alloc d S))) (alloc_id d pg) \<and>
    ok (\<lambda>pg'. implements pg' (spec_free k S)) (fep_id_free_by_id k pg) \<and>
    fep_id_get_data pg k = Some (spec_data S k)"
  using alloc_id_ok [OF assms] implements_free [OF assms] implements_data [OF assms] by blast

definition gen0 :: "nat id_gen" where
  "gen0 = \<lparr>id_links = \<lparr>prev_of = (\<lambda>_. None), next_of = (\<lambda>_. None)\<rparr>, n_ids = 0, ids = No_ids\<rparr>"

theorem id_gen_refines_queue_witness:
  "\<exists>pg. fep_id_gen_init True 3 (Some gen0) = Some (SUCCESS, pg) \<and>
    ok (\<lambda>(r, pg'). r = Some 1 \<and> implements pg' ([2, 3], [1 \<mapsto> Some 7])) (alloc_id (Some 7) pg) \<and>
    ok (\<lambda>pg'. implements pg' ([1, 3, 2], Map.empty)) (fep_id_free_by_id 2 pg) \<and>
    fep_id_get_data pg 2 = Some None"
proof -
  let ?S = "([1, 2, 3], Map.empty) :: nat id_spec"
  have q: "map id_of_index [0..<unat (3 :: ulong)] = [1, 2, 3]"
    by (simp add: upt_rec id_of_index_def)
  from implements_init [of 3 gen0] obtain pg where pg: "fep_id_gen_init True 3 (Some gen0) = Some (SUCCESS, pg)"
    "implements pg ?S"
    unfolding q by (auto simp: ok_iff)
  from id_gen_refines_queue [OF pg(2), of "Some 7" 2] show ?thesis
    using pg(1) by (auto simp: spec_free_def spec_data_def)
qed

text \<open> C29: however a client allocates and frees identifiers, it holds exactly the used ones, each
  once and between \<open>1\<close> and \<open>n\<close>; the next allocation fails just when all \<open>n\<close> are held. \<close>

theorem id_clients_hold_what_is_used:
  "ok (\<lambda>(r, pg). r = SUCCESS \<and>
     ok (\<lambda>(hs, pg'). distinct hs \<and> set hs = used_now pg' \<and> set hs \<subseteq> {1..n} \<and>
          ok (\<lambda>(r, _). r = None \<longleftrightarrow> length hs = unat n) (alloc_id d pg'))
       (client_run alloc_id fep_id_free_by_id xs ([], pg)))
   (fep_id_gen_init True n (Some g))"
proof (rule ok_mono [OF gen_init_good], clarify)
  fix pg :: "'a id_gen option"
  let ?K = "id_of_index ` {..<unat n}"
  assume g: "gen_good ?K pg" and e: "used_now pg = {}"
  have run: "ok (id_pool.holds ?K) (client_run alloc_id fep_id_free_by_id xs ([], pg))"
    by (rule id_pool.run_holds) (use g e in \<open>simp add: id_pool.holds_def\<close>)
  show "SUCCESS = SUCCESS \<and> ok (\<lambda>(hs, pg'). distinct hs \<and> set hs = used_now pg' \<and> set hs \<subseteq> {1..n} \<and>
          ok (\<lambda>(r, _). r = None \<longleftrightarrow> length hs = unat n) (alloc_id d pg'))
       (client_run alloc_id fep_id_free_by_id xs ([], pg))"
  proof (intro conjI refl, rule ok_mono [OF run], clarify)
    fix hs and pg' :: "'a id_gen option"
    assume "id_pool.holds ?K (hs, pg')"
    hence h: "gen_good ?K pg'" "distinct hs" "set hs = used_now pg'" by (simp_all add: id_pool.holds_def)
    have l: "length hs = card (used_now pg')" using h distinct_card by metis
    have below: "used_now pg' \<subseteq> ?K" by (rule used_below [OF h(1)])
    have "ok (\<lambda>(r, _). r = None \<longleftrightarrow> length hs = unat n) (alloc_id d pg')"
    proof (rule ok_mono [OF gen_alloc [OF h(1)]], clarify)
      fix r and pg'' :: "'a id_gen option"
      assume G: "gen_good ?K pg''" and r: "case r of None \<Rightarrow> used_now pg'' = used_now pg' \<and> used_now pg' = ?K
        | Some h \<Rightarrow> h \<notin> used_now pg' \<and> used_now pg'' = insert h (used_now pg')"
      show "r = None \<longleftrightarrow> length hs = unat n"
      proof (cases r)
        case None
        thus ?thesis using r l by (simp add: id_of_index_card)
      next
        case (Some h)
        hence "used_now pg' \<subset> ?K" using r below used_below [OF G] by auto
        hence "card (used_now pg') < card ?K" by (intro psubset_card_mono) auto
        thus ?thesis using Some l by (simp add: id_of_index_card)
      qed
    qed
    thus "distinct hs \<and> set hs = used_now pg' \<and> set hs \<subseteq> {1..n} \<and>
        ok (\<lambda>(r, _). r = None \<longleftrightarrow> length hs = unat n) (alloc_id d pg')"
      using h below id_of_index_range by simp
  qed
qed

end
