(* ===== verification/Bigint.thy ===== *)
theory Bigint
  imports C_Text
begin

text \<open>
  The arbitrary length integers of \<open>bigint.c\<close>. A number is stored in limbs of nine decimal digits,
  the most significant one first, in an array that its object owns; \<open>sign\<close> is the number of limbs
  with the sign of the number.

  An array is a list of cells, a cell an option: \<open>None\<close> is an \<open>int\<close> that was never written. Pointers
  into an array are positions. A function yields \<open>None\<close> when the code reads a cell that was never
  written or is not in the array, writes outside it, or when an \<open>int\<close> overflows.
\<close>

section \<open>Data\<close>

record bigint =
  k_head :: "int option list"
  head :: int
  sign :: int

definition MAX_DIGITS :: nat where "MAX_DIGITS = 9"
definition MAX_N_ONE :: int where "MAX_N_ONE = 1000000000"

text \<open>The result of an \<open>int\<close> operation, undefined when it overflows.\<close>

definition c_int :: "int \<Rightarrow> int option" where
  "c_int x = (if - 2147483648 \<le> x \<and> x \<le> 2147483647 then Some x else None)"

definition get_cell :: "int option list \<Rightarrow> int \<Rightarrow> int option" where
  "get_cell cs i = (if 0 \<le> i \<and> i < int (length cs) then cs ! nat i else None)"

definition set_cell :: "int option list \<Rightarrow> int \<Rightarrow> int \<Rightarrow> int option list option" where
  "set_cell cs i x = (if 0 \<le> i \<and> i < int (length cs) then Some (cs[nat i := Some x]) else None)"

text \<open>\<open>b.head [i]\<close>\<close>

definition limb :: "bigint \<Rightarrow> int \<Rightarrow> int option" where
  "limb b i = get_cell (k_head b) (head b + i)"

definition new_array :: "nat \<Rightarrow> int option list" where
  "new_array n = replicate n None"

text \<open>\<open>memcpy\<close> of \<open>n\<close> cells: both ranges must lie in their arrays.\<close>

definition copy_cells :: "nat \<Rightarrow> int option list \<Rightarrow> int \<Rightarrow> int option list \<Rightarrow> int \<Rightarrow> int option list option" where
  "copy_cells n dst d src s = (if 0 \<le> d \<and> 0 \<le> s \<and> d + int n \<le> int (length dst) \<and> s + int n \<le> int (length src)
     then Some (take (nat d) dst @ take n (drop (nat s) src) @ drop (nat d + n) dst) else None)"

section \<open>Constructors\<close>

text \<open>\<open>ABS (number)\<close> overflows for the least \<open>int\<close>.\<close>

definition bigint_of_int :: "32 word \<Rightarrow> bigint option" where
  "bigint_of_int number = do {
     num \<leftarrow> c_int \<bar>sint number\<bar>;
     if num div MAX_N_ONE \<noteq> 0
     then Some \<lparr>k_head = [Some (num div MAX_N_ONE), Some (num mod MAX_N_ONE)], head = 0,
       sign = (if sint number < 0 then - 2 else 2)\<rparr>
     else Some \<lparr>k_head = [Some num, None], head = 0, sign = (if sint number < 0 then - 1 else 1)\<rparr>
   }"

text \<open>
  The groups of nine characters are read in turn. While \<open>check_zero\<close> is set, a group of value zero
  is counted in \<open>zero_count\<close> and not stored.
\<close>

record parse_state =
  p_cells :: "int option list"
  check_zero :: bool
  zero_count :: int

definition store_group :: "int \<Rightarrow> int \<Rightarrow> parse_state \<Rightarrow> parse_state option" where
  "store_group i info st =
     (if check_zero st \<and> info = 0 then Some (st\<lparr>zero_count := zero_count st + 1\<rparr>)
      else Option.bind (set_cell (p_cells st) i info) (\<lambda>cs. Some (st\<lparr>p_cells := cs, check_zero := False\<rparr>)))"

fun store_groups :: "int \<Rightarrow> nat \<Rightarrow> string \<Rightarrow> parse_state \<Rightarrow> parse_state option" where
  "store_groups i 0 ptr st = Some st"
| "store_groups i (Suc k) ptr st =
     Option.bind (store_group i (atoi (take MAX_DIGITS ptr)) st)
       (store_groups (i + 1) k (drop MAX_DIGITS ptr))"

text \<open>
  The character before the end of the string is \<open>ptr [-1]\<close> when nothing is left: for the empty
  string this is outside it.
\<close>

definition bigint_of_string :: "string \<Rightarrow> bigint option" where
  "bigint_of_string number = do {
     let (sg, skip) = (if take 1 number = ''+'' then (1 :: int, 1) else if take 1 number = ''-'' then (- 1, 1) else (1, 0));
     let skip = skip + length (takeWhile (\<lambda>c. c = CHR ''0'') (drop skip number));
     ptr \<leftarrow> (if drop skip number \<noteq> [] then Some (drop skip number)
            else if skip = 0 then None else Some (drop (skip - 1) number));
     let len = length ptr;
     let flr = len div MAX_DIGITS;
     let remain = len mod MAX_DIGITS;
     let st = \<lparr>p_cells = new_array (flr + 1), check_zero = True, zero_count = 0\<rparr>;
     st \<leftarrow> (if remain \<noteq> 0 then store_group 0 (atoi (take remain ptr)) st else Some st);
     let groups = (if remain \<noteq> 0 then flr + 1 else flr);
     st \<leftarrow> (if flr \<noteq> 0 then store_groups (if remain \<noteq> 0 then 1 else 0) flr (drop remain ptr) st else Some st);
     let sg = sg * (int groups - zero_count st);
     if sg = 0 then do { cs \<leftarrow> set_cell (p_cells st) 0 0; Some \<lparr>k_head = cs, head = 0, sign = 1\<rparr> }
     else Some \<lparr>k_head = p_cells st, head = 0, sign = sg\<rparr>
   }"

definition bigint_copy :: "bigint \<Rightarrow> bigint option" where
  "bigint_copy number = do {
     let n = nat \<bar>sign number\<bar>;
     cs \<leftarrow> copy_cells n (new_array n) 0 (k_head number) (head number);
     Some \<lparr>k_head = cs, head = 0, sign = sign number\<rparr>
   }"

text \<open>The array is kept when it is at least as long as the number assigned.\<close>

definition bigint_assign :: "bigint \<Rightarrow> bigint \<Rightarrow> bigint option" where
  "bigint_assign this number = do {
     let n = nat \<bar>sign number\<bar>;
     let this = (if \<bar>sign this\<bar> < \<bar>sign number\<bar> then this\<lparr>k_head := new_array n, head := 0\<rparr> else this);
     cs \<leftarrow> copy_cells n (k_head this) (head this) (k_head number) (head number);
     Some (this\<lparr>k_head := cs, sign := sign number\<rparr>)
   }"

section \<open>Addition\<close>

text \<open>The loops walk from the last limb to the first; \<open>pos\<close> is \<open>answer.head\<close>.\<close>

record diff_state =
  d_cells :: "int option list"
  d_pos :: int
  borrow :: int
  zero :: bool
  z_ptr :: "int option"

definition diff_store :: "int \<Rightarrow> diff_state \<Rightarrow> diff_state option" where
  "diff_store v st = do {
     v \<leftarrow> c_int v;
     let (v, br) = (if v < 0 then (v + MAX_N_ONE, 1) else (v, 0));
     cs \<leftarrow> set_cell (d_cells st) (d_pos st) v;
     Some (st\<lparr>d_cells := cs, d_pos := d_pos st - 1, borrow := br, zero := (v = 0),
       z_ptr := (if v = 0 \<and> \<not> zero st then Some (d_pos st) else z_ptr st)\<rparr>)
   }"

text \<open>\<open>l_ptr\<close> and \<open>r_ptr\<close> point at \<open>i\<close> and, counted from its head, at \<open>n - 1\<close>.\<close>

fun diff_both :: "bigint \<Rightarrow> bigint \<Rightarrow> int \<Rightarrow> nat \<Rightarrow> diff_state \<Rightarrow> diff_state option" where
  "diff_both l r i 0 st = Some st"
| "diff_both l r i (Suc n) st = do {
     x \<leftarrow> limb l i;
     y \<leftarrow> limb r (int n);
     d \<leftarrow> c_int (x - y);
     st \<leftarrow> diff_store (d - borrow st) st;
     diff_both l r (i - 1) n st
   }"

fun diff_rest :: "bigint \<Rightarrow> nat \<Rightarrow> diff_state \<Rightarrow> diff_state option" where
  "diff_rest l 0 st = Some st"
| "diff_rest l (Suc n) st = do {
     x \<leftarrow> limb l (int n);
     st \<leftarrow> diff_store (x - borrow st) st;
     diff_rest l n st
   }"

definition add_diff :: "bigint \<Rightarrow> bigint \<Rightarrow> bigint option" where
  "add_diff l r = do {
     let al = nat \<bar>sign l\<bar>;
     let ar = nat \<bar>sign r\<bar>;
     let last_pos = int al - 1;
     st \<leftarrow> diff_both l r (int al - 1) ar
       \<lparr>d_cells = new_array al, d_pos = last_pos, borrow = 0, zero = False, z_ptr = None\<rparr>;
     st \<leftarrow> (if al \<noteq> ar then diff_rest l (al - ar) st else Some st);
     let hd_pos = d_pos st + 1;
     if zero st then do {
       z \<leftarrow> z_ptr st;
       let hd_pos = (if z \<noteq> last_pos then z + 1 else last_pos);
       v \<leftarrow> get_cell (d_cells st) hd_pos;
       Some \<lparr>k_head = d_cells st, head = hd_pos,
         sign = (if hd_pos = last_pos \<and> v = 0 then 1
                 else if sign l < 0 then - (last_pos - hd_pos + 1) else last_pos - hd_pos + 1)\<rparr>
     }
     else Some \<lparr>k_head = d_cells st, head = hd_pos,
         sign = (if sign l < 0 then - (last_pos - hd_pos + 1) else last_pos - hd_pos + 1)\<rparr>
   }"

record sum_state =
  s_cells :: "int option list"
  s_pos :: int
  carry :: int

definition sum_store :: "int \<Rightarrow> sum_state \<Rightarrow> sum_state option" where
  "sum_store v st = do {
     v \<leftarrow> c_int v;
     let c = v div MAX_N_ONE;
     cs \<leftarrow> set_cell (s_cells st) (s_pos st) (if c \<noteq> 0 then v mod MAX_N_ONE else v);
     Some (st\<lparr>s_cells := cs, s_pos := s_pos st - 1, carry := c\<rparr>)
   }"

fun sum_both :: "bigint \<Rightarrow> bigint \<Rightarrow> int \<Rightarrow> nat \<Rightarrow> sum_state \<Rightarrow> sum_state option" where
  "sum_both l r i 0 st = Some st"
| "sum_both l r i (Suc n) st = do {
     x \<leftarrow> limb l i;
     y \<leftarrow> limb r (int n);
     d \<leftarrow> c_int (x + y);
     st \<leftarrow> sum_store (d + carry st) st;
     sum_both l r (i - 1) n st
   }"

fun sum_rest :: "bigint \<Rightarrow> nat \<Rightarrow> sum_state \<Rightarrow> sum_state option" where
  "sum_rest l 0 st = Some st"
| "sum_rest l (Suc n) st = do {
     x \<leftarrow> limb l (int n);
     st \<leftarrow> sum_store (x + carry st) st;
     sum_rest l n st
   }"

definition add_same :: "bigint \<Rightarrow> bigint \<Rightarrow> bigint option" where
  "add_same l r = do {
     let al = nat \<bar>sign l\<bar>;
     let ar = nat \<bar>sign r\<bar>;
     st \<leftarrow> sum_both l r (int al - 1) ar \<lparr>s_cells = new_array (al + 1), s_pos = int al, carry = 0\<rparr>;
     st \<leftarrow> (if al \<noteq> ar then sum_rest l (al - ar) st else Some st);
     if carry st \<noteq> 0 then do {
       cs \<leftarrow> set_cell (s_cells st) (s_pos st) (carry st);
       Some \<lparr>k_head = cs, head = s_pos st, sign = (if sign l < 0 then - (int al + 1) else int al + 1)\<rparr>
     }
     else Some \<lparr>k_head = s_cells st, head = s_pos st + 1, sign = (if sign l < 0 then - int al else int al)\<rparr>
   }"

section \<open>Comparison\<close>

text \<open>The first limbs that differ decide; \<open>memcmp\<close> only finds out earlier that there are none.\<close>

fun cmp_from :: "bigint \<Rightarrow> bigint \<Rightarrow> int \<Rightarrow> nat \<Rightarrow> int option" where
  "cmp_from l r i 0 = Some 0"
| "cmp_from l r i (Suc n) = do {
     x \<leftarrow> limb l i;
     y \<leftarrow> limb r i;
     if x < y then Some (- 1) else if x > y then Some 1 else cmp_from l r (i + 1) n
   }"

fun read_limbs :: "bigint \<Rightarrow> int \<Rightarrow> nat \<Rightarrow> int list option" where
  "read_limbs b i 0 = Some []"
| "read_limbs b i (Suc n) = do { x \<leftarrow> limb b i; xs \<leftarrow> read_limbs b (i + 1) n; Some (x # xs) }"

definition abs_compare :: "bigint \<Rightarrow> bigint \<Rightarrow> int option" where
  "abs_compare l r = (let al = \<bar>sign l\<bar>; ar = \<bar>sign r\<bar> in
     if al < ar then Some (- 1)
     else if al > ar then Some 1
     else do {
       xs \<leftarrow> read_limbs l 0 (nat al);
       ys \<leftarrow> read_limbs r 0 (nat al);
       if xs = ys then Some 0 else cmp_from l r 0 (nat al)
     })"

definition sgn_of :: "bigint \<Rightarrow> int" where
  "sgn_of b = (if sign b < 0 then - 1 else 1)"

definition compare_big :: "bigint \<Rightarrow> bigint \<Rightarrow> int option" where
  "compare_big l r =
     (if sgn_of l * sgn_of r < 0 then Some (sgn_of l)
      else if sgn_of l < 0 then map_option uminus (abs_compare l r)
      else abs_compare l r)"

definition eq_big :: "bigint \<Rightarrow> bigint \<Rightarrow> bool option" where
  "eq_big l r = map_option (\<lambda>c. c = 0) (compare_big l r)"
definition neq_big :: "bigint \<Rightarrow> bigint \<Rightarrow> bool option" where
  "neq_big l r = map_option (\<lambda>c. c \<noteq> 0) (compare_big l r)"
definition less_big :: "bigint \<Rightarrow> bigint \<Rightarrow> bool option" where
  "less_big l r = map_option (\<lambda>c. c < 0) (compare_big l r)"
definition le_big :: "bigint \<Rightarrow> bigint \<Rightarrow> bool option" where
  "le_big l r = map_option (\<lambda>c. c \<le> 0) (compare_big l r)"
definition gt_big :: "bigint \<Rightarrow> bigint \<Rightarrow> bool option" where
  "gt_big l r = map_option (\<lambda>c. c > 0) (compare_big l r)"
definition ge_big :: "bigint \<Rightarrow> bigint \<Rightarrow> bool option" where
  "ge_big l r = map_option (\<lambda>c. c \<ge> 0) (compare_big l r)"

section \<open>Operators\<close>

definition abs_big :: "bigint \<Rightarrow> bigint option" where
  "abs_big number = Option.bind (bigint_copy number) (\<lambda>answer. Some (answer\<lparr>sign := \<bar>sign answer\<bar>\<rparr>))"

definition uminus_big :: "bigint \<Rightarrow> bigint option" where
  "uminus_big number = do {
     answer \<leftarrow> bigint_copy number;
     v \<leftarrow> limb answer 0;
     Some (if v \<noteq> 0 then answer\<lparr>sign := - sign answer\<rparr> else answer)
   }"

definition plus_big :: "bigint \<Rightarrow> bigint \<Rightarrow> bigint option" where
  "plus_big l r = do {
     al \<leftarrow> abs_big l;
     ar \<leftarrow> abs_big r;
     gt \<leftarrow> gt_big al ar;
     if sgn_of l * sgn_of r < 0
     then (if gt then add_diff l r else add_diff r l)
     else (if gt then add_same l r else add_same r l)
   }"

definition minus_big :: "bigint \<Rightarrow> bigint \<Rightarrow> bigint option" where
  "minus_big l r = Option.bind (uminus_big r) (plus_big l)"

definition plus_assign :: "bigint \<Rightarrow> bigint \<Rightarrow> bigint option" where
  "plus_assign this number = Option.bind (plus_big this number) (bigint_assign this)"

definition minus_assign :: "bigint \<Rightarrow> bigint \<Rightarrow> bigint option" where
  "minus_assign this number =
     Option.bind (uminus_big number) (\<lambda>n. Option.bind (plus_big this n) (bigint_assign this))"

definition P_ONE :: bigint where "P_ONE = \<lparr>k_head = [Some 1, None], head = 0, sign = 1\<rparr>"
definition N_ONE :: bigint where "N_ONE = \<lparr>k_head = [Some 1, None], head = 0, sign = - 1\<rparr>"

definition incr_big :: "bigint \<Rightarrow> bigint option" where
  "incr_big this = Option.bind (plus_big this P_ONE) (bigint_assign this)"

definition decr_big :: "bigint \<Rightarrow> bigint option" where
  "decr_big this = Option.bind (plus_big this N_ONE) (bigint_assign this)"

section \<open>Output\<close>

text \<open>\<open>%09d\<close>: zeros after the sign, up to nine characters.\<close>

definition fmt_09d :: "int \<Rightarrow> string" where
  "fmt_09d x = (let s = dec (nat \<bar>x\<bar>); w = (if x < 0 then 8 else 9)
     in (if x < 0 then ''-'' else []) @ replicate (w - length s) (CHR ''0'') @ s)"

definition print_big :: "bigint \<Rightarrow> string option" where
  "print_big number = do {
     x \<leftarrow> limb number 0;
     xs \<leftarrow> read_limbs number 1 (nat \<bar>sign number\<bar> - 1);
     Some ((if sign number < 0 then ''-'' else []) @ fmt_d x @ concat (map fmt_09d xs))
   }"

end
