(* ===== verification/Bigint_Val.thy ===== *)
theory Bigint_Val
  imports Bigint
begin

text \<open>
  What a big integer stands for, and that the operations compute it: \<open>rep b n\<close> says that the object
  \<open>b\<close> is well formed and has the value \<open>n\<close>. The loops of addition and subtraction are followed limb
  by limb with an invariant that relates the cells written so far to the values of the suffixes
  read so far.
\<close>

section \<open>Values of limb lists\<close>

fun nval :: "int list \<Rightarrow> int" where
  "nval [] = 0"
| "nval (x # xs) = x * MAX_N_ONE ^ length xs + nval xs"

definition limbs_ok :: "int list \<Rightarrow> bool" where
  "limbs_ok xs \<longleftrightarrow> (\<forall>x\<in>set xs. 0 \<le> x \<and> x < MAX_N_ONE)"

lemma base_pos [simp]: "0 < MAX_N_ONE" "1 < MAX_N_ONE" "0 < MAX_N_ONE ^ k"
  by (simp_all add: MAX_N_ONE_def)

lemma limbs_ok_simps [simp]: "limbs_ok []" "limbs_ok (x # xs) \<longleftrightarrow> 0 \<le> x \<and> x < MAX_N_ONE \<and> limbs_ok xs"
  "limbs_ok (xs @ ys) \<longleftrightarrow> limbs_ok xs \<and> limbs_ok ys"
  by (auto simp: limbs_ok_def)

lemma nval_append: "nval (xs @ ys) = nval xs * MAX_N_ONE ^ length ys + nval ys"
  by (induction xs) (simp_all add: algebra_simps power_add)

lemma nval_bound: "limbs_ok xs \<Longrightarrow> 0 \<le> nval xs \<and> nval xs < MAX_N_ONE ^ length xs"
proof (induction xs)
  case (Cons x xs)
  hence "0 \<le> nval xs" "nval xs < MAX_N_ONE ^ length xs" "0 \<le> x" "x + 1 \<le> MAX_N_ONE" by auto
  moreover have "(x + 1) * MAX_N_ONE ^ length xs \<le> MAX_N_ONE * MAX_N_ONE ^ length xs"
    using calculation(4) by (intro mult_right_mono) (simp_all add: less_imp_le)
  ultimately show ?case by (simp add: algebra_simps less_imp_le)
qed simp

lemma nval_strip: "nval (dropWhile (\<lambda>x. x = 0) xs) = nval xs"
  by (induction xs) auto

lemma nval_zeros: "dropWhile (\<lambda>x. x = 0) xs = [] \<Longrightarrow> nval xs = 0"
  by (metis nval.simps(1) nval_strip)

text \<open>No leading zero, except for zero itself.\<close>

definition normal :: "int list \<Rightarrow> bool" where
  "normal xs \<longleftrightarrow> xs \<noteq> [] \<and> (length xs = 1 \<or> hd xs \<noteq> 0)"

lemma nval_lower: "limbs_ok xs \<Longrightarrow> xs \<noteq> [] \<Longrightarrow> hd xs \<noteq> 0 \<Longrightarrow> MAX_N_ONE ^ (length xs - 1) \<le> nval xs"
proof (cases xs)
  case (Cons x ys)
  assume "limbs_ok xs" "hd xs \<noteq> 0"
  hence "1 \<le> x" "0 \<le> nval ys" using Cons nval_bound [of ys] by auto
  have m: "1 * MAX_N_ONE ^ length ys \<le> x * MAX_N_ONE ^ length ys"
    using \<open>1 \<le> x\<close> by (intro mult_right_mono) (simp_all add: less_imp_le)
  have e: "MAX_N_ONE ^ (length xs - 1) = 1 * MAX_N_ONE ^ length ys" "nval xs = x * MAX_N_ONE ^ length ys + nval ys"
    by (simp_all add: Cons)
  show ?thesis unfolding e using m \<open>0 \<le> nval ys\<close> by linarith
qed simp

text \<open>More limbs, more value.\<close>

lemma nval_longer:
  assumes "limbs_ok xs" "limbs_ok ys" "normal ys" "length xs < length ys" "xs \<noteq> []"
  shows "nval xs < nval ys"
proof -
  have "ys \<noteq> []" "hd ys \<noteq> 0" using assms by (auto simp: normal_def)
  hence "MAX_N_ONE ^ (length ys - 1) \<le> nval ys" by (rule nval_lower [OF assms(2)])
  moreover have "MAX_N_ONE ^ length xs \<le> MAX_N_ONE ^ (length ys - 1)"
    using assms(4) by (intro power_increasing) (simp_all add: less_imp_le)
  moreover have "nval xs < MAX_N_ONE ^ length xs" using nval_bound [OF assms(1)] by simp
  ultimately show ?thesis by linarith
qed

lemma nval_zero_iff: "limbs_ok xs \<Longrightarrow> normal xs \<Longrightarrow> nval xs = 0 \<longleftrightarrow> xs = [0]"
proof
  assume o: "limbs_ok xs" "normal xs" "nval xs = 0"
  have "hd xs = 0"
  proof (rule ccontr)
    assume "hd xs \<noteq> 0"
    hence "MAX_N_ONE ^ (length xs - 1) \<le> 0" using nval_lower [OF o(1)] o by (simp add: normal_def)
    thus False using base_pos(3) [of "length xs - 1"] by linarith
  qed
  thus "xs = [0]" using o(2) by (cases xs) (auto simp: normal_def)
qed simp

section \<open>Objects\<close>

definition has :: "bigint \<Rightarrow> int list \<Rightarrow> bool" where
  "has b xs \<longleftrightarrow> 0 \<le> head b \<and> nat (head b) + length xs \<le> length (k_head b) \<and> \<bar>sign b\<bar> = int (length xs) \<and>
     take (length xs) (drop (nat (head b)) (k_head b)) = map Some xs \<and> limbs_ok xs"

definition rep :: "bigint \<Rightarrow> int \<Rightarrow> bool" where
  "rep b n \<longleftrightarrow> (\<exists>xs. has b xs \<and> normal xs \<and> n = sgn_of b * nval xs \<and> (nval xs = 0 \<longrightarrow> 0 < sign b))"

lemma repI: "has b xs \<Longrightarrow> normal xs \<Longrightarrow> (nval xs = 0 \<Longrightarrow> 0 < sign b) \<Longrightarrow> n = sgn_of b * nval xs \<Longrightarrow> rep b n"
  unfolding rep_def by blast

lemma repE:
  assumes "rep b n"
  obtains xs where "has b xs" "normal xs" "n = sgn_of b * nval xs" "nval xs = 0 \<longrightarrow> 0 < sign b" "limbs_ok xs"
    "0 \<le> nval xs" "\<bar>n\<bar> = nval xs" "sign b = sgn_of b * int (length xs)" "xs \<noteq> []"
proof -
  from assms obtain xs where xs: "has b xs" "normal xs" "n = sgn_of b * nval xs" "nval xs = 0 \<longrightarrow> 0 < sign b"
    unfolding rep_def by blast
  have o: "limbs_ok xs" using xs(1) by (simp add: has_def)
  have z: "0 \<le> nval xs" using nval_bound [OF o] by simp
  have "\<bar>n\<bar> = nval xs" using z xs(3) by (simp add: sgn_of_def)
  moreover have "sign b = sgn_of b * int (length xs)" using xs(1) by (auto simp: has_def sgn_of_def)
  ultimately show ?thesis using that xs o z by (simp add: normal_def)
qed

lemma limb_has: "has b xs \<Longrightarrow> i < length xs \<Longrightarrow> limb b (int i) = Some (xs ! i)"
proof -
  assume h: "has b xs" and i: "i < length xs"
  have "take (length xs) (drop (nat (head b)) (k_head b)) ! i = Some (xs ! i)"
    using h i by (simp add: has_def)
  hence "k_head b ! (nat (head b) + i) = Some (xs ! i)" using h i by (simp add: has_def)
  moreover have "nat (head b + int i) = nat (head b) + i" using h by (simp add: has_def nat_add_distrib)
  ultimately show ?thesis using h i by (auto simp: limb_def get_cell_def has_def)
qed

lemma sgn_pos: "rep b n \<Longrightarrow> sgn_of b = (if n < 0 then - 1 else 1)"
proof -
  assume "rep b n"
  then obtain xs where x: "n = sgn_of b * nval xs" "nval xs = 0 \<longrightarrow> 0 < sign b" "0 \<le> nval xs" by (rule repE)
  show ?thesis
  proof (cases "sign b < 0")
    case True
    hence "0 < nval xs" using x by linarith
    thus ?thesis using True x(1) by (simp add: sgn_of_def)
  qed (use x in \<open>simp add: sgn_of_def\<close>)
qed

lemma c_int_small [simp]: "- 2147483648 \<le> x \<Longrightarrow> x \<le> 2147483647 \<Longrightarrow> c_int x = Some x"
  by (simp add: c_int_def)

section \<open>Subtraction\<close>

text \<open>The limbs \<open>res\<close> are written at the end of the array, and the array has room for \<open>N\<close>.\<close>

definition diff_inv :: "nat \<Rightarrow> int list \<Rightarrow> diff_state \<Rightarrow> bool" where
  "diff_inv N res st \<longleftrightarrow> length res \<le> N \<and> length (d_cells st) = N \<and> d_pos st = int N - 1 - int (length res) \<and>
     drop (N - length res) (d_cells st) = map Some res \<and> limbs_ok res \<and> (borrow st = 0 \<or> borrow st = 1) \<and>
     zero st = (res \<noteq> [] \<and> hd res = 0) \<and>
     (zero st \<longrightarrow> z_ptr st = Some (int N - 1 - int (length (dropWhile (\<lambda>x. x = 0) res))))"

lemma drop_update: "i < length cs \<Longrightarrow> drop i (cs[i := x]) = x # drop (Suc i) cs"
  by (simp add: Cons_nth_drop_Suc [symmetric])

lemma diff_store_ok:
  assumes I: "diff_inv N res st" and t: "length res < N" and w: "- MAX_N_ONE \<le> w" "w < MAX_N_ONE"
  defines "v \<equiv> if w < 0 then w + MAX_N_ONE else w"
  shows "\<exists>st'. diff_store w st = Some st' \<and> diff_inv N (v # res) st' \<and> borrow st' = (if w < 0 then 1 else 0)"
proof -
  let ?p = "N - Suc (length res)"
  have p: "d_pos st = int ?p" "?p < N" "nat (d_pos st) = ?p" using I t by (auto simp: diff_inv_def)
  have len: "length (d_cells st) = N" using I by (simp add: diff_inv_def)
  have v: "0 \<le> v" "v < MAX_N_ONE" using w by (auto simp: v_def)
  have c: "c_int w = Some w" using w by (simp add: MAX_N_ONE_def)
  define st' where "st' = st\<lparr>d_cells := (d_cells st)[?p := Some v], d_pos := d_pos st - 1,
    borrow := (if w < 0 then 1 else 0), zero := (v = 0),
    z_ptr := (if v = 0 \<and> \<not> zero st then Some (d_pos st) else z_ptr st)\<rparr>"
  have "diff_store w st = Some st'"
    using c p len by (simp add: diff_store_def set_cell_def st'_def v_def)
  moreover have "drop ?p ((d_cells st)[?p := Some v]) = map Some (v # res)"
  proof -
    have "Suc ?p = N - length res" using t by simp
    thus ?thesis using I len p(2) by (simp add: drop_update diff_inv_def)
  qed
  moreover have "zero st \<Longrightarrow> dropWhile (\<lambda>x. x = 0) (v # res) = dropWhile (\<lambda>x. x = 0) res" if "v = 0"
    using that by simp
  moreover have "\<not> zero st \<Longrightarrow> dropWhile (\<lambda>x. x = 0) res = res"
    using I by (cases res) (auto simp: diff_inv_def)
  ultimately show ?thesis using I t v p len
    by (intro exI [of _ st']) (auto simp: st'_def diff_inv_def)
qed

lemma nval_cons_value: "nval (v # res) = v * MAX_N_ONE ^ length res + nval res"
  by simp

text \<open>One more limb: the borrow moves one place up.\<close>

lemma borrow_step:
  assumes "nval res = L - R + br * MAX_N_ONE ^ t" "length res = t"
    "v = (if w < 0 then w + MAX_N_ONE else w)" "w = x - y - br"
  shows "nval (v # res) = (x * MAX_N_ONE ^ t + L) - (y * MAX_N_ONE ^ t + R) + (if w < 0 then 1 else 0) * MAX_N_ONE ^ Suc t"
proof -
  have x: "x = w + y + br" using assms(4) by simp
  show ?thesis using assms(1-3) by (cases "w < 0") (simp_all add: x algebra_simps)
qed

lemma diff_both_ok:
  assumes l: "has l ls" and r: "has r rs" and le: "length rs \<le> length ls"
    and "diff_inv (length ls) res st" "n + length res = length rs" "i = int (length ls) - 1 - int (length res)"
    "nval res = nval (drop (length ls - length res) ls) - nval (drop n rs) + borrow st * MAX_N_ONE ^ length res"
  shows "\<exists>st' res'. diff_both l r i n st = Some st' \<and> diff_inv (length ls) res' st' \<and> length res' = length rs \<and>
    nval res' = nval (drop (length ls - length rs) ls) - nval rs + borrow st' * MAX_N_ONE ^ length rs"
  using assms(4-)
proof (induction n arbitrary: i st res)
  case 0
  thus ?case by auto
next
  case (Suc n)
  let ?N = "length ls" and ?t = "length res"
  define k where "k = ?N - Suc ?t"
  have t: "?t < ?N" using Suc.prems(2) le by simp
  have k: "k < ?N" "int k = i" "Suc k = ?N - ?t" using t Suc.prems(3) by (auto simp: k_def)
  have n: "n < length rs" using Suc.prems(2) by simp
  have x: "limb l i = Some (ls ! k)" using limb_has [OF l k(1)] k(2) by simp
  have y: "limb r (int n) = Some (rs ! n)" by (rule limb_has [OF r n])
  have xb: "0 \<le> ls ! k" "ls ! k < MAX_N_ONE" using l k(1) by (auto simp: has_def limbs_ok_def)
  have yb: "0 \<le> rs ! n" "rs ! n < MAX_N_ONE" using r n by (auto simp: has_def limbs_ok_def)
  have b: "borrow st = 0 \<or> borrow st = 1" using Suc.prems(1) by (simp add: diff_inv_def)
  define w where "w = ls ! k - rs ! n - borrow st"
  have w: "- MAX_N_ONE \<le> w" "w < MAX_N_ONE" using xb yb b by (auto simp: w_def)
  have c: "c_int (ls ! k - rs ! n) = Some (ls ! k - rs ! n)" using xb yb by (simp add: MAX_N_ONE_def)
  define v where "v = (if w < 0 then w + MAX_N_ONE else w)"
  obtain st1 where st1: "diff_store w st = Some st1" "diff_inv ?N (v # res) st1" "borrow st1 = (if w < 0 then 1 else 0)"
    using diff_store_ok [OF Suc.prems(1) t w] by (auto simp: v_def)
  have d: "drop (?N - Suc ?t) ls = ls ! k # drop (?N - ?t) ls"
    using Cons_nth_drop_Suc [OF k(1)] k(3) by (simp add: k_def)
  have e: "drop n rs = rs ! n # drop (Suc n) rs" using Cons_nth_drop_Suc [OF n] by simp
  have ld: "length (drop (?N - ?t) ls) = ?t" "length (drop (Suc n) rs) = ?t"
    using t Suc.prems(2) by auto
  have V: "nval (v # res) = nval (drop (?N - length (v # res)) ls) - nval (drop n rs) + borrow st1 * MAX_N_ONE ^ length (v # res)"
    using borrow_step [OF Suc.prems(4) refl v_def w_def]
    unfolding length_Cons d e nval.simps ld st1(3) .
  have step: "diff_both l r i (Suc n) st = diff_both l r (i - 1) n st1"
    using x y c st1(1) by (simp add: w_def)
  show ?case unfolding step
    by (rule Suc.IH [OF st1(2)]) (use Suc.prems V in auto)
qed

lemma diff_rest_ok:
  assumes l: "has l ls"
    and "diff_inv (length ls) res st" "n + length res = length ls"
    "nval res = nval (drop n ls) - R + borrow st * MAX_N_ONE ^ length res"
  shows "\<exists>st' res'. diff_rest l n st = Some st' \<and> diff_inv (length ls) res' st' \<and> length res' = length ls \<and>
    nval res' = nval ls - R + borrow st' * MAX_N_ONE ^ length ls"
  using assms(2-)
proof (induction n arbitrary: st res)
  case 0
  thus ?case by auto
next
  case (Suc n)
  let ?N = "length ls" and ?t = "length res"
  have t: "?t < ?N" "n < ?N" using Suc.prems(2) by simp_all
  have x: "limb l (int n) = Some (ls ! n)" by (rule limb_has [OF l t(2)])
  have xb: "0 \<le> ls ! n" "ls ! n < MAX_N_ONE" using l t(2) by (auto simp: has_def limbs_ok_def)
  have b: "borrow st = 0 \<or> borrow st = 1" using Suc.prems(1) by (simp add: diff_inv_def)
  define w where "w = ls ! n - 0 - borrow st"
  have w: "- MAX_N_ONE \<le> w" "w < MAX_N_ONE" using xb b by (auto simp: w_def MAX_N_ONE_def)
  define v where "v = (if w < 0 then w + MAX_N_ONE else w)"
  obtain st1 where st1: "diff_store w st = Some st1" "diff_inv ?N (v # res) st1" "borrow st1 = (if w < 0 then 1 else 0)"
    using diff_store_ok [OF Suc.prems(1) t(1) w] by (auto simp: v_def)
  have e: "drop n ls = ls ! n # drop (Suc n) ls" using Cons_nth_drop_Suc [OF t(2)] by simp
  have ld: "length (drop (Suc n) ls) = ?t" using Suc.prems(2) by auto
  have V: "nval (v # res) = nval (drop n ls) - R + borrow st1 * MAX_N_ONE ^ length (v # res)"
    using borrow_step [OF Suc.prems(3) refl v_def, where x = "ls ! n" and y = 0] w_def
    unfolding length_Cons e nval.simps ld st1(3) by simp
  have step: "diff_rest l (Suc n) st = diff_rest l n st1"
    using x st1(1) by (simp add: w_def)
  show ?case unfolding step
    by (rule Suc.IH [OF st1(2)]) (use Suc.prems V in auto)
qed


text \<open>The difference of the absolute values, with the sign of the larger.\<close>

lemma add_diff_ok:
  assumes l: "rep l m" and r: "rep r n" and le: "\<bar>n\<bar> \<le> \<bar>m\<bar>"
  shows "\<exists>b. add_diff l r = Some b \<and> rep b (sgn_of l * (\<bar>m\<bar> - \<bar>n\<bar>))"
proof -
  obtain ls where ls: "has l ls" "normal ls" "limbs_ok ls" "\<bar>m\<bar> = nval ls" "sign l = sgn_of l * int (length ls)" "ls \<noteq> []"
    using l by (rule repE)
  obtain rs where rs: "has r rs" "normal rs" "limbs_ok rs" "\<bar>n\<bar> = nval rs" "sign r = sgn_of r * int (length rs)" "rs \<noteq> []"
    using r by (rule repE)
  let ?N = "length ls"
  have al: "nat \<bar>sign l\<bar> = ?N" and ar: "nat \<bar>sign r\<bar> = length rs"
    using ls(1) rs(1) by (simp_all add: has_def)
  have len: "length rs \<le> ?N"
  proof (rule ccontr)
    assume "\<not> length rs \<le> ?N"
    hence "nval ls < nval rs" using nval_longer [OF ls(3) rs(3,2) _ ls(6)] by simp
    thus False using ls(4) rs(4) le by linarith
  qed
  let ?st = "\<lparr>d_cells = new_array ?N, d_pos = int ?N - 1, borrow = 0, zero = False, z_ptr = None\<rparr>"
  have I: "diff_inv ?N [] ?st" by (simp add: diff_inv_def new_array_def)
  obtain st1 res1 where st1: "diff_both l r (int ?N - 1) (length rs) ?st = Some st1" "diff_inv ?N res1 st1"
    "length res1 = length rs"
    "nval res1 = nval (drop (?N - length rs) ls) - nval rs + borrow st1 * MAX_N_ONE ^ length rs"
    using diff_both_ok [OF ls(1) rs(1) len I, of "length rs" "int ?N - 1"] by auto
  obtain st res where st: "(if ?N \<noteq> length rs then diff_rest l (?N - length rs) st1 else Some st1) = Some st"
    "diff_inv ?N res st" "length res = ?N" "nval res = nval ls - nval rs + borrow st * MAX_N_ONE ^ ?N"
  proof (cases "?N = length rs")
    case True
    thus ?thesis using that [of st1 res1] st1 by simp
  next
    case False
    have "?N - length rs + length res1 = ?N" using len st1(3) by simp
    from diff_rest_ok [OF ls(1) st1(2) this, of "nval rs"] st1(3,4) False show ?thesis using that by auto
  qed
  have b: "borrow st = 0 \<or> borrow st = 1" "limbs_ok res" using st(2) by (simp_all add: diff_inv_def)
  have "nval res < MAX_N_ONE ^ ?N" using nval_bound [OF b(2)] st(3) by simp
  hence "borrow st = 0" using st(4) b(1) le ls(4) rs(4) by auto
  hence val: "nval res = \<bar>m\<bar> - \<bar>n\<bar>" using st(4) ls(4) rs(4) by simp
  have cells: "d_cells st = map Some res" "d_pos st = - 1" "length (d_cells st) = ?N"
    using st(2,3) by (auto simp: diff_inv_def)
  let ?rest = "dropWhile (\<lambda>x. x = 0) res"
  define fin where "fin = (if ?rest = [] then [0] else ?rest)"
  define p where "p = ?N - length fin"
  have N: "0 < ?N" using ls(6) by simp
  have rl: "length ?rest \<le> ?N" using length_dropWhile_le [of "\<lambda>x. x = 0" res] st(3) by simp
  have fl: "length fin \<le> ?N" "0 < length fin" using rl Suc_leI [OF N] by (simp_all add: fin_def)
  have drp: "drop p res = fin"
  proof (cases "?rest = []")
    case True
    have z: "\<forall>x\<in>set res. x = 0" using True by (simp add: dropWhile_eq_Nil_conv)
    have "drop (?N - 1) res = [res ! (?N - 1)]"
      using N st(3) Cons_nth_drop_Suc [of "?N - 1" res] by simp
    moreover have "res ! (?N - 1) = 0" using z N st(3) by simp
    ultimately show ?thesis using True by (simp add: p_def fin_def)
  next
    case False
    thus ?thesis using st(3) by (simp add: p_def fin_def dropWhile_eq_drop)
  qed
  have okf: "limbs_ok fin" using b(2) by (auto simp: fin_def limbs_ok_def dest: set_dropWhileD)
  have vf: "nval fin = nval res" using nval_zeros [of res] by (auto simp: fin_def nval_strip)
  have nf: "normal fin"
    using hd_dropWhile [of "\<lambda>x. x = 0" res] by (auto simp: fin_def normal_def)
  define sg where "sg = (if fin = [0] then 1 else if sign l < 0 then - int (length fin) else int (length fin))"
  define ans where "ans = \<lparr>k_head = d_cells st, head = int p, sign = sg\<rparr>"
  have call: "add_diff l r = Some ans"
  proof (cases "zero st")
    case True
    have z: "z_ptr st = Some (int ?N - 1 - int (length ?rest))" using st(2) True by (simp add: diff_inv_def)
    have hp: "(if int ?N - 1 - int (length ?rest) \<noteq> int ?N - 1 then int ?N - 1 - int (length ?rest) + 1 else int ?N - 1) = int p"
      using rl Suc_leI [OF N] by (auto simp: p_def fin_def of_nat_diff)
    have rd: "get_cell (d_cells st) (int p) = Some (fin ! 0)"
    proof -
      have "fin ! 0 = res ! p" using drp fl st(3) by (metis add.right_neutral nth_drop p_def diff_le_self)
      moreover have "p < length res" using fl(1,2) st(3) unfolding p_def by linarith
      ultimately show ?thesis using cells(1) by (simp add: get_cell_def)
    qed
    have one: "int p = int ?N - 1 \<and> fin ! 0 = 0 \<longleftrightarrow> fin = [0]"
      using fl by (cases fin) (auto simp: p_def)
    have s: "int ?N - 1 - int p + 1 = int (length fin)" using fl by (simp add: p_def)
    show ?thesis
      using st1(1) st(1) True z hp rd one s al ar cells(2)
      by (auto simp: add_diff_def Let_def ans_def sg_def)
  next
    case False
    have "hd res \<noteq> 0" using st(2,3) False N by (auto simp: diff_inv_def)
    hence r: "?rest = res" using st(3) N by (cases res) auto
    hence f: "fin = res" "p = 0" using st(3) N by (auto simp: fin_def p_def)
    have "fin \<noteq> [0]" using f \<open>hd res \<noteq> 0\<close> by auto
    thus ?thesis
      using st1(1) st(1) False f st(3) al ar cells(2)
      by (simp add: add_diff_def Let_def ans_def sg_def)
  qed
  have "has ans fin"
  proof -
    have "p + length fin = ?N" using fl by (simp add: p_def)
    thus ?thesis using drp okf cells st(3) by (simp add: has_def ans_def sg_def drop_map)
  qed
  moreover have "nval fin = 0 \<Longrightarrow> 0 < sign ans"
    using nval_zero_iff [OF okf nf] by (simp add: ans_def sg_def)
  moreover have "sgn_of l * (\<bar>m\<bar> - \<bar>n\<bar>) = sgn_of ans * nval fin"
    using vf val fl nval_zero_iff [OF okf nf] by (auto simp: ans_def sg_def sgn_of_def)
  ultimately show ?thesis using call nf by (intro exI [of _ ans] conjI repI) auto
qed


section \<open>Addition of absolute values\<close>

definition sum_inv :: "nat \<Rightarrow> int list \<Rightarrow> sum_state \<Rightarrow> bool" where
  "sum_inv N res st \<longleftrightarrow> length res \<le> N \<and> length (s_cells st) = N + 1 \<and> s_pos st = int N - int (length res) \<and>
     drop (N + 1 - length res) (s_cells st) = map Some res \<and> limbs_ok res \<and> (carry st = 0 \<or> carry st = 1)"

lemma sum_store_ok:
  assumes I: "sum_inv N res st" and t: "length res < N" and w: "0 \<le> w" "w < 2 * MAX_N_ONE"
  defines "v \<equiv> if MAX_N_ONE \<le> w then w - MAX_N_ONE else w"
  shows "\<exists>st'. sum_store w st = Some st' \<and> sum_inv N (v # res) st' \<and> carry st' = (if MAX_N_ONE \<le> w then 1 else 0)"
proof -
  let ?p = "N - length res"
  have p: "s_pos st = int ?p" "?p < N + 1" "nat (s_pos st) = ?p" using I t by (auto simp: sum_inv_def)
  have len: "length (s_cells st) = N + 1" using I by (simp add: sum_inv_def)
  have v: "0 \<le> v" "v < MAX_N_ONE" using w by (auto simp: v_def)
  have c: "c_int w = Some w" using w by (simp add: MAX_N_ONE_def)
  have d: "w div MAX_N_ONE = (if MAX_N_ONE \<le> w then 1 else 0)" "(if w div MAX_N_ONE \<noteq> 0 then w mod MAX_N_ONE else w) = v"
  proof -
    show D: "w div MAX_N_ONE = (if MAX_N_ONE \<le> w then 1 else 0)"
      using w by (auto simp: div_pos_geq div_pos_pos_trivial)
    have "w mod MAX_N_ONE = w - MAX_N_ONE" if "MAX_N_ONE \<le> w"
      using D that by (simp add: minus_div_mult_eq_mod [symmetric])
    thus "(if w div MAX_N_ONE \<noteq> 0 then w mod MAX_N_ONE else w) = v" using D by (simp add: v_def)
  qed
  define st' where "st' = st\<lparr>s_cells := (s_cells st)[?p := Some v], s_pos := s_pos st - 1,
    carry := (if MAX_N_ONE \<le> w then 1 else 0)\<rparr>"
  have "sum_store w st = Some st'"
    using c p len d(2) unfolding sum_store_def by (simp add: set_cell_def st'_def d(1) Let_def)
  moreover have "drop ?p ((s_cells st)[?p := Some v]) = map Some (v # res)"
  proof -
    have "Suc ?p = N + 1 - length res" using t by simp
    thus ?thesis using I len p(2) by (simp add: drop_update sum_inv_def)
  qed
  ultimately show ?thesis using I t v p len
    by (intro exI [of _ st']) (auto simp: st'_def sum_inv_def)
qed

text \<open>One more limb: the carry moves one place up.\<close>

lemma carry_step:
  assumes "nval res + cy * MAX_N_ONE ^ t = S" "length res = t"
    "v = (if MAX_N_ONE \<le> w then w - MAX_N_ONE else w)" "w = x + cy"
  shows "nval (v # res) + (if MAX_N_ONE \<le> w then 1 else 0) * MAX_N_ONE ^ Suc t = x * MAX_N_ONE ^ t + S"
proof -
  have x: "x = v + (if MAX_N_ONE \<le> w then MAX_N_ONE else 0) - cy" using assms(3,4) by simp
  show ?thesis using assms(1,2) by (cases "MAX_N_ONE \<le> w") (simp_all add: x algebra_simps)
qed

lemma sum_both_ok:
  assumes l: "has l ls" and r: "has r rs" and le: "length rs \<le> length ls"
    and "sum_inv (length ls) res st" "n + length res = length rs" "i = int (length ls) - 1 - int (length res)"
    "nval res + carry st * MAX_N_ONE ^ length res = nval (drop (length ls - length res) ls) + nval (drop n rs)"
  shows "\<exists>st' res'. sum_both l r i n st = Some st' \<and> sum_inv (length ls) res' st' \<and> length res' = length rs \<and>
    nval res' + carry st' * MAX_N_ONE ^ length rs = nval (drop (length ls - length rs) ls) + nval rs"
  using assms(4-)
proof (induction n arbitrary: i st res)
  case 0
  thus ?case by auto
next
  case (Suc n)
  let ?N = "length ls" and ?t = "length res"
  define k where "k = ?N - Suc ?t"
  have t: "?t < ?N" using Suc.prems(2) le by simp
  have k: "k < ?N" "int k = i" "Suc k = ?N - ?t" using t Suc.prems(3) by (auto simp: k_def)
  have n: "n < length rs" using Suc.prems(2) by simp
  have x: "limb l i = Some (ls ! k)" using limb_has [OF l k(1)] k(2) by simp
  have y: "limb r (int n) = Some (rs ! n)" by (rule limb_has [OF r n])
  have xb: "0 \<le> ls ! k" "ls ! k < MAX_N_ONE" using l k(1) by (auto simp: has_def limbs_ok_def)
  have yb: "0 \<le> rs ! n" "rs ! n < MAX_N_ONE" using r n by (auto simp: has_def limbs_ok_def)
  have b: "carry st = 0 \<or> carry st = 1" using Suc.prems(1) by (simp add: sum_inv_def)
  define w where "w = (ls ! k + rs ! n) + carry st"
  have w: "0 \<le> w" "w < 2 * MAX_N_ONE" using xb yb b by (auto simp: w_def)
  have c: "c_int (ls ! k + rs ! n) = Some (ls ! k + rs ! n)" using xb yb by (simp add: MAX_N_ONE_def)
  define v where "v = (if MAX_N_ONE \<le> w then w - MAX_N_ONE else w)"
  obtain st1 where st1: "sum_store w st = Some st1" "sum_inv ?N (v # res) st1" "carry st1 = (if MAX_N_ONE \<le> w then 1 else 0)"
    using sum_store_ok [OF Suc.prems(1) t w] by (auto simp: v_def)
  have d: "drop (?N - Suc ?t) ls = ls ! k # drop (?N - ?t) ls"
    using Cons_nth_drop_Suc [OF k(1)] k(3) by (simp add: k_def)
  have e: "drop n rs = rs ! n # drop (Suc n) rs" using Cons_nth_drop_Suc [OF n] by simp
  have ld: "length (drop (?N - ?t) ls) = ?t" "length (drop (Suc n) rs) = ?t"
    using t Suc.prems(2) by auto
  have "nval (v # res) + (if MAX_N_ONE \<le> w then 1 else 0) * MAX_N_ONE ^ Suc ?t =
      (ls ! k + rs ! n) * MAX_N_ONE ^ ?t + (nval (drop (?N - ?t) ls) + nval (drop (Suc n) rs))"
    by (rule carry_step [OF Suc.prems(4) refl v_def w_def])
  hence V: "nval (v # res) + carry st1 * MAX_N_ONE ^ length (v # res) = nval (drop (?N - length (v # res)) ls) + nval (drop n rs)"
    unfolding length_Cons d e nval.simps ld st1(3) distrib_right by linarith
  have step: "sum_both l r i (Suc n) st = sum_both l r (i - 1) n st1"
    using x y c st1(1) by (simp add: w_def)
  show ?case unfolding step
    by (rule Suc.IH [OF st1(2)]) (use Suc.prems V in auto)
qed

lemma sum_rest_ok:
  assumes l: "has l ls"
    and "sum_inv (length ls) res st" "n + length res = length ls"
    "nval res + carry st * MAX_N_ONE ^ length res = nval (drop n ls) + R"
  shows "\<exists>st' res'. sum_rest l n st = Some st' \<and> sum_inv (length ls) res' st' \<and> length res' = length ls \<and>
    nval res' + carry st' * MAX_N_ONE ^ length ls = nval ls + R"
  using assms(2-)
proof (induction n arbitrary: st res)
  case 0
  thus ?case by auto
next
  case (Suc n)
  let ?N = "length ls" and ?t = "length res"
  have t: "?t < ?N" "n < ?N" using Suc.prems(2) by simp_all
  have x: "limb l (int n) = Some (ls ! n)" by (rule limb_has [OF l t(2)])
  have xb: "0 \<le> ls ! n" "ls ! n < MAX_N_ONE" using l t(2) by (auto simp: has_def limbs_ok_def)
  have b: "carry st = 0 \<or> carry st = 1" using Suc.prems(1) by (simp add: sum_inv_def)
  define w where "w = ls ! n + carry st"
  have w: "0 \<le> w" "w < 2 * MAX_N_ONE" using xb b by (auto simp: w_def MAX_N_ONE_def)
  define v where "v = (if MAX_N_ONE \<le> w then w - MAX_N_ONE else w)"
  obtain st1 where st1: "sum_store w st = Some st1" "sum_inv ?N (v # res) st1" "carry st1 = (if MAX_N_ONE \<le> w then 1 else 0)"
    using sum_store_ok [OF Suc.prems(1) t(1) w] by (auto simp: v_def)
  have e: "drop n ls = ls ! n # drop (Suc n) ls" using Cons_nth_drop_Suc [OF t(2)] by simp
  have ld: "length (drop (Suc n) ls) = ?t" using Suc.prems(2) by auto
  have "nval (v # res) + (if MAX_N_ONE \<le> w then 1 else 0) * MAX_N_ONE ^ Suc ?t =
      ls ! n * MAX_N_ONE ^ ?t + (nval (drop (Suc n) ls) + R)"
    by (rule carry_step [OF Suc.prems(3) refl v_def w_def])
  hence V: "nval (v # res) + carry st1 * MAX_N_ONE ^ length (v # res) = nval (drop n ls) + R"
    unfolding length_Cons e nval.simps ld st1(3) by (simp only: ac_simps)
  have step: "sum_rest l (Suc n) st = sum_rest l n st1"
    using x st1(1) by (simp add: w_def)
  show ?case unfolding step
    by (rule Suc.IH [OF st1(2)]) (use Suc.prems V in auto)
qed

lemma add_same_ok:
  assumes l: "rep l m" and r: "rep r n" and le: "\<bar>n\<bar> \<le> \<bar>m\<bar>"
  shows "\<exists>b. add_same l r = Some b \<and> rep b (sgn_of l * (\<bar>m\<bar> + \<bar>n\<bar>))"
proof -
  obtain ls where ls: "has l ls" "normal ls" "limbs_ok ls" "\<bar>m\<bar> = nval ls" "sign l = sgn_of l * int (length ls)" "ls \<noteq> []"
    "nval ls = 0 \<longrightarrow> 0 < sign l"
    using l by (rule repE)
  obtain rs where rs: "has r rs" "normal rs" "limbs_ok rs" "\<bar>n\<bar> = nval rs" "sign r = sgn_of r * int (length rs)" "rs \<noteq> []"
    using r by (rule repE)
  let ?N = "length ls"
  have al: "nat \<bar>sign l\<bar> = ?N" and ar: "nat \<bar>sign r\<bar> = length rs"
    using ls(1) rs(1) by (simp_all add: has_def)
  have len: "length rs \<le> ?N"
  proof (rule ccontr)
    assume "\<not> length rs \<le> ?N"
    hence "nval ls < nval rs" using nval_longer [OF ls(3) rs(3,2) _ ls(6)] by simp
    thus False using ls(4) rs(4) le by linarith
  qed
  let ?st = "\<lparr>s_cells = new_array (?N + 1), s_pos = int ?N, carry = 0\<rparr>"
  have I: "sum_inv ?N [] ?st" by (simp add: sum_inv_def new_array_def)
  obtain st1 res1 where st1: "sum_both l r (int ?N - 1) (length rs) ?st = Some st1" "sum_inv ?N res1 st1"
    "length res1 = length rs"
    "nval res1 + carry st1 * MAX_N_ONE ^ length rs = nval (drop (?N - length rs) ls) + nval rs"
    using sum_both_ok [OF ls(1) rs(1) len I, of "length rs" "int ?N - 1"] by auto
  obtain st res where st: "(if ?N \<noteq> length rs then sum_rest l (?N - length rs) st1 else Some st1) = Some st"
    "sum_inv ?N res st" "length res = ?N" "nval res + carry st * MAX_N_ONE ^ ?N = nval ls + nval rs"
  proof (cases "?N = length rs")
    case True
    thus ?thesis using that [of st1 res1] st1 by simp
  next
    case False
    have "?N - length rs + length res1 = ?N" using len st1(3) by simp
    from sum_rest_ok [OF ls(1) st1(2) this, of "nval rs"] st1(3,4) False show ?thesis using that by auto
  qed
  have b: "carry st = 0 \<or> carry st = 1" "limbs_ok res" using st(2) by (simp_all add: sum_inv_def)
  have cells: "drop 1 (s_cells st) = map Some res" "s_pos st = 0" "length (s_cells st) = ?N + 1"
    using st(2,3) by (auto simp: sum_inv_def)
  define fin where "fin = (if carry st \<noteq> 0 then carry st # res else res)"
  define ans where "ans = \<lparr>k_head = (if carry st \<noteq> 0 then (s_cells st)[0 := Some (carry st)] else s_cells st),
     head = (if carry st \<noteq> 0 then 0 else 1), sign = (if sign l < 0 then - int (length fin) else int (length fin))\<rparr>"
  have call: "add_same l r = Some ans"
    using st1(1) st(1,3) al ar cells(2,3)
    by (cases "carry st = 0") (simp_all add: add_same_def Let_def ans_def fin_def set_cell_def)
  have vf: "nval fin = \<bar>m\<bar> + \<bar>n\<bar>" using st(3,4) b(1) ls(4) rs(4) by (auto simp: fin_def)
  have okf: "limbs_ok fin" using b by (auto simp: fin_def)
  obtain c cs where sc: "s_cells st = c # cs" using cells(3) by (cases "s_cells st") auto
  have H: "has ans fin"
    using okf cells(1,3) st(3) sc by (auto simp: has_def ans_def fin_def)
  have nf: "normal fin"
  proof (cases "carry st = 0")
    case True
    have "hd res \<noteq> 0" if "length res \<noteq> 1"
    proof
      assume z: "hd res = 0"
      obtain xs where xs: "res = 0 # xs" using z st(3) ls(6) by (cases res) auto
      have "nval res < MAX_N_ONE ^ (?N - 1)" using xs b(2) nval_bound [of xs] st(3) [symmetric] by simp
      moreover have "hd ls \<noteq> 0" using ls(2,6) that st(3) by (auto simp: normal_def)
      hence "MAX_N_ONE ^ (?N - 1) \<le> nval ls" by (rule nval_lower [OF ls(3,6)])
      moreover have "nval res = nval ls + nval rs" using st(4) True by simp
      moreover have "0 \<le> nval rs" using nval_bound [OF rs(3)] by simp
      ultimately show False by linarith
    qed
    thus ?thesis using True st(3) ls(6) by (auto simp: fin_def normal_def)
  qed (use b(1) in \<open>auto simp: fin_def normal_def\<close>)
  have z: "nval fin = 0 \<Longrightarrow> 0 < sign ans"
  proof -
    assume "nval fin = 0"
    hence "nval ls = 0" "nval rs = 0" using vf ls(4) rs(4) by linarith+
    hence "\<not> sign l < 0" using ls(7) by simp
    moreover have "fin \<noteq> []" using nf by (simp add: normal_def)
    ultimately show "0 < sign ans" by (simp add: ans_def)
  qed
  have fl: "fin \<noteq> []" using nf by (simp add: normal_def)
  have "sgn_of l * (\<bar>m\<bar> + \<bar>n\<bar>) = sgn_of ans * nval fin"
    using vf fl by (simp add: ans_def sgn_of_def)
  thus ?thesis using call repI [OF H nf z] by blast
qed

end
