(* ===== verification/Bigint_Ops.thy ===== *)
theory Bigint_Ops
  imports Bigint_Val
begin

text \<open>
  The operators on objects that represent integers: comparison, copies and assignment, negation, sum
  and difference, increment and decrement, and the \<open>int\<close> constructor. None of them reads a cell that
  was never written, and each yields an object for the integer it should.
\<close>

section \<open>Comparison\<close>

lemma read_limbs_has:
  "has b xs \<Longrightarrow> i + n \<le> length xs \<Longrightarrow> read_limbs b (int i) n = Some (take n (drop i xs))"
proof (induction n arbitrary: i)
  case (Suc n)
  have l: "limb b (int i) = Some (xs ! i)" by (rule limb_has [OF Suc.prems(1)]) (use Suc.prems(2) in simp)
  have "read_limbs b (int i + 1) n = Some (take n (drop (Suc i) xs))"
    using Suc.IH [of "Suc i"] Suc.prems by (simp add: add.commute)
  moreover have "drop i xs = xs ! i # drop (Suc i) xs"
    using Suc.prems(2) by (simp add: Cons_nth_drop_Suc)
  ultimately show ?case using l by simp
qed simp

lemma sgn_gap: "\<bar>c\<bar> < p \<Longrightarrow> d \<noteq> 0 \<Longrightarrow> sgn (d * p + c) = sgn (d :: int)"
proof -
  assume c: "\<bar>c\<bar> < p" and d: "d \<noteq> 0"
  hence p: "0 < p" by simp
  show ?thesis
  proof (cases "0 < d")
    case True
    hence "1 * p \<le> d * p" using p by (intro mult_right_mono) simp_all
    thus ?thesis using c True by (simp add: sgn_if)
  next
    case False
    hence "d * p \<le> (- 1) * p" using p d by (intro mult_right_mono) simp_all
    hence "d * p + c < 0" using c by linarith
    thus ?thesis using False d by (simp add: sgn_if)
  qed
qed

text \<open>With as many limbs on both sides, the first pair that differs decides.\<close>

lemma cmp_from_has:
  assumes "has l ls" "has r rs" "length rs = length ls"
  shows "i + n = length ls \<Longrightarrow> cmp_from l r (int i) n = Some (sgn (nval (drop i ls) - nval (drop i rs)))"
proof (induction n arbitrary: i)
  case (Suc n)
  have i: "i < length ls" "i < length rs" using Suc.prems assms(3) by simp_all
  have x: "limb l (int i) = Some (ls ! i)" "limb r (int i) = Some (rs ! i)"
    using limb_has assms(1,2) i by auto
  let ?L = "drop (Suc i) ls" and ?R = "drop (Suc i) rs"
  have d: "drop i ls = ls ! i # ?L" "drop i rs = rs ! i # ?R" using i by (simp_all add: Cons_nth_drop_Suc)
  have len: "length ?R = length ?L" using assms(3) by simp
  have ok: "limbs_ok ?L" "limbs_ok ?R"
    using assms(1,2) by (auto simp: has_def limbs_ok_def dest: in_set_dropD)
  have c: "\<bar>nval ?L - nval ?R\<bar> < MAX_N_ONE ^ length ?L"
    using nval_bound [OF ok(1)] nval_bound [OF ok(2)] unfolding len by linarith
  have v: "nval (drop i ls) - nval (drop i rs) = (ls ! i - rs ! i) * MAX_N_ONE ^ length ?L + (nval ?L - nval ?R)"
    unfolding d nval.simps len left_diff_distrib by linarith
  have rec: "cmp_from l r (int i + 1) n = Some (sgn (nval ?L - nval ?R))"
    using Suc.IH [of "Suc i"] Suc.prems by (simp add: add.commute)
  show ?case unfolding v
  proof (cases "ls ! i = rs ! i")
    case True
    thus "cmp_from l r (int i) (Suc n) = Some (sgn ((ls ! i - rs ! i) * MAX_N_ONE ^ length ?L + (nval ?L - nval ?R)))"
      using x rec by simp
  next
    case False
    thus "cmp_from l r (int i) (Suc n) = Some (sgn ((ls ! i - rs ! i) * MAX_N_ONE ^ length ?L + (nval ?L - nval ?R)))"
      using x by (subst sgn_gap [OF c]) (auto simp: sgn_if)
  qed
qed (use assms(3) in simp)

lemma abs_compare_ok:
  assumes l: "rep l m" and r: "rep r n"
  shows "abs_compare l r = Some (sgn (\<bar>m\<bar> - \<bar>n\<bar>))"
proof -
  obtain ls where ls: "has l ls" "normal ls" "limbs_ok ls" "\<bar>m\<bar> = nval ls" "\<bar>sign l\<bar> = int (length ls)" "ls \<noteq> []"
    using l by (rule repE) (auto simp: has_def)
  obtain rs where rs: "has r rs" "normal rs" "limbs_ok rs" "\<bar>n\<bar> = nval rs" "\<bar>sign r\<bar> = int (length rs)" "rs \<noteq> []"
    using r by (rule repE) (auto simp: has_def)
  consider "length ls < length rs" | "length rs < length ls" | "length rs = length ls" by linarith
  thus ?thesis
  proof cases
    case 1
    hence "nval ls < nval rs" by (rule nval_longer [OF ls(3) rs(3,2) _ ls(6)])
    thus ?thesis using 1 ls(4,5) rs(4,5) by (simp add: abs_compare_def)
  next
    case 2
    hence "nval rs < nval ls" by (rule nval_longer [OF rs(3) ls(3,2) _ rs(6)])
    thus ?thesis using 2 ls(4,5) rs(4,5) by (simp add: abs_compare_def)
  next
    case 3
    have "read_limbs l 0 (length ls) = Some ls" "read_limbs r 0 (length ls) = Some rs"
      using read_limbs_has [OF ls(1), of 0] read_limbs_has [OF rs(1), of 0] 3 by simp_all
    moreover have "cmp_from l r 0 (length ls) = Some (sgn (nval ls - nval rs))"
      using cmp_from_has [OF ls(1) rs(1) 3, of 0] by simp
    ultimately show ?thesis using 3 ls(4,5) rs(4,5) by (auto simp: abs_compare_def Let_def)
  qed
qed

lemma compare_big_ok:
  assumes l: "rep l m" and r: "rep r n"
  shows "compare_big l r = Some (sgn (m - n))"
proof -
  have "abs_compare l r = Some (sgn (\<bar>m\<bar> - \<bar>n\<bar>))" by (rule abs_compare_ok [OF l r])
  thus ?thesis using sgn_pos [OF l] sgn_pos [OF r]
    by (auto simp: compare_big_def sgn_if abs_if split: if_splits)
qed

lemma comparisons_ok:
  assumes "rep l m" "rep r n"
  shows "eq_big l r = Some (m = n)" "neq_big l r = Some (m \<noteq> n)" "less_big l r = Some (m < n)"
    "le_big l r = Some (m \<le> n)" "gt_big l r = Some (m > n)" "ge_big l r = Some (m \<ge> n)"
  using compare_big_ok [OF assms]
  by (auto simp: eq_big_def neq_big_def less_big_def le_big_def gt_big_def ge_big_def sgn_if)

section \<open>Copies\<close>

lemma copy_cells_has:
  assumes "has b xs" "0 \<le> d" "d + int (length xs) \<le> int (length dst)"
  shows "copy_cells (length xs) dst d (k_head b) (head b) =
    Some (take (nat d) dst @ map Some xs @ drop (nat d + length xs) dst)"
proof -
  have "head b + int (length xs) \<le> int (length (k_head b))" using assms(1) by (auto simp: has_def)
  thus ?thesis using assms by (simp add: copy_cells_def has_def)
qed

lemma copy_has:
  assumes "has b xs"
  shows "\<exists>c. bigint_copy b = Some c \<and> has c xs \<and> sign c = sign b"
proof -
  have n: "nat \<bar>sign b\<bar> = length xs" using assms by (simp add: has_def)
  show ?thesis using copy_cells_has [OF assms, of 0 "new_array (length xs)"] assms
    by (simp add: bigint_copy_def n new_array_def has_def)
qed

lemma assign_ok:
  assumes t: "rep this k" and n: "rep number n"
  shows "\<exists>c. bigint_assign this number = Some c \<and> rep c n"
proof -
  obtain ts where ts: "has this ts" "ts \<noteq> []" using t by (rule repE)
  obtain xs where xs: "has number xs" "normal xs" "n = sgn_of number * nval xs" "nval xs = 0 \<longrightarrow> 0 < sign number"
    "limbs_ok xs" using n by (rule repE)
  have len: "nat \<bar>sign number\<bar> = length xs" "\<bar>sign number\<bar> = int (length xs)" "\<bar>sign this\<bar> = int (length ts)"
    using xs(1) ts(1) by (simp_all add: has_def)
  define th where "th = (if \<bar>sign this\<bar> < \<bar>sign number\<bar> then this\<lparr>k_head := new_array (length xs), head := 0\<rparr> else this)"
  have room: "0 \<le> head th" "head th + int (length xs) \<le> int (length (k_head th))"
    using ts(1) len by (auto simp: th_def new_array_def has_def)
  define cs where "cs = take (nat (head th)) (k_head th) @ map Some xs @ drop (nat (head th) + length xs) (k_head th)"
  have "copy_cells (length xs) (k_head th) (head th) (k_head number) (head number) = Some cs"
    using copy_cells_has [OF xs(1) room] by (simp add: cs_def)
  hence a: "bigint_assign this number = Some (th\<lparr>k_head := cs, sign := sign number\<rparr>)"
    by (simp add: bigint_assign_def Let_def len(1) th_def)
  have hl: "nat (head th) + length xs \<le> length (k_head th)" using room by linarith
  have "has (th\<lparr>k_head := cs, sign := sign number\<rparr>) xs"
    using room hl len(2) xs(5) by (simp add: has_def cs_def min_absorb2)
  moreover have "sgn_of (th\<lparr>k_head := cs, sign := sign number\<rparr>) = sgn_of number" by (simp add: sgn_of_def)
  ultimately have "rep (th\<lparr>k_head := cs, sign := sign number\<rparr>) n"
    using xs(2-4) by (intro repI [of _ xs]) auto
  thus ?thesis using a by blast
qed

lemma copy_ok: "rep b n \<Longrightarrow> \<exists>c. bigint_copy b = Some c \<and> rep c n"
proof -
  assume "rep b n"
  then obtain xs where xs: "has b xs" "normal xs" "n = sgn_of b * nval xs" "nval xs = 0 \<longrightarrow> 0 < sign b" by (rule repE)
  obtain c where c: "bigint_copy b = Some c" "has c xs" "sign c = sign b" using copy_has [OF xs(1)] by blast
  hence "rep c n" using xs by (intro repI [of c xs]) (auto simp: sgn_of_def)
  thus ?thesis using c(1) by blast
qed

lemma abs_big_ok: "rep b n \<Longrightarrow> \<exists>c. abs_big b = Some c \<and> rep c \<bar>n\<bar>"
proof -
  assume "rep b n"
  then obtain xs where xs: "has b xs" "normal xs" "\<bar>n\<bar> = nval xs" "xs \<noteq> []" by (rule repE)
  obtain c where c: "bigint_copy b = Some c" "has c xs" "sign c = sign b" using copy_has [OF xs(1)] by blast
  have "rep (c\<lparr>sign := \<bar>sign c\<bar>\<rparr>) \<bar>n\<bar>"
    by (rule repI [of _ xs]) (use xs c(2) in \<open>auto simp: has_def sgn_of_def\<close>)
  thus ?thesis using c(1) by (simp add: abs_big_def)
qed

lemma uminus_ok: "rep b n \<Longrightarrow> \<exists>c. uminus_big b = Some c \<and> rep c (- n)"
proof -
  assume r: "rep b n"
  then obtain xs where xs: "has b xs" "normal xs" "n = sgn_of b * nval xs" "nval xs = 0 \<longrightarrow> 0 < sign b"
    "limbs_ok xs" "xs \<noteq> []" by (rule repE)
  obtain c where c: "bigint_copy b = Some c" "has c xs" "sign c = sign b" using copy_has [OF xs(1)] by blast
  have v: "limb c 0 = Some (hd xs)" using limb_has [OF c(2), of 0] xs(6) by (simp add: hd_conv_nth)
  have s: "sign c \<noteq> 0" using c(2) xs(6) by (auto simp: has_def)
  show ?thesis
  proof (cases "hd xs = 0")
    case True
    hence z: "xs = [0]" using xs(2,6) by (cases xs) (auto simp: normal_def)
    have "rep c (- n)" by (rule repI [of _ xs]) (use xs c z in \<open>auto\<close>)
    thus ?thesis using c(1) v True by (simp add: uminus_big_def)
  next
    case False
    hence "nval xs \<noteq> 0" using nval_zero_iff [OF xs(5,2)] by auto
    hence "rep (c\<lparr>sign := - sign c\<rparr>) (- n)"
      by (intro repI [of _ xs]) (use xs c s in \<open>auto simp: has_def sgn_of_def\<close>)
    thus ?thesis using c(1) v False by (simp add: uminus_big_def)
  qed
qed

section \<open>Sums\<close>

lemma plus_ok:
  assumes l: "rep l m" and r: "rep r n"
  shows "\<exists>c. plus_big l r = Some c \<and> rep c (m + n)"
proof -
  obtain al where al: "abs_big l = Some al" "rep al \<bar>m\<bar>" using abs_big_ok [OF l] by blast
  obtain ar where ar: "abs_big r = Some ar" "rep ar \<bar>n\<bar>" using abs_big_ok [OF r] by blast
  have g: "gt_big al ar = Some (\<bar>m\<bar> > \<bar>n\<bar>)" by (rule comparisons_ok(5) [OF al(2) ar(2)])
  note sg = sgn_pos [OF l] sgn_pos [OF r]
  show ?thesis
  proof (cases "\<bar>m\<bar> > \<bar>n\<bar>")
    case True
    obtain c where c: "add_diff l r = Some c" "rep c (sgn_of l * (\<bar>m\<bar> - \<bar>n\<bar>))"
      using add_diff_ok [OF l r] True by auto
    obtain d where d: "add_same l r = Some d" "rep d (sgn_of l * (\<bar>m\<bar> + \<bar>n\<bar>))"
      using add_same_ok [OF l r] True by auto
    show ?thesis using True al(1) ar(1) g c d sg
      by (auto simp: plus_big_def abs_if add.commute split: if_splits)
  next
    case False
    obtain c where c: "add_diff r l = Some c" "rep c (sgn_of r * (\<bar>n\<bar> - \<bar>m\<bar>))"
      using add_diff_ok [OF r l] False by auto
    obtain d where d: "add_same r l = Some d" "rep d (sgn_of r * (\<bar>n\<bar> + \<bar>m\<bar>))"
      using add_same_ok [OF r l] False by auto
    show ?thesis using False al(1) ar(1) g c d sg
      by (auto simp: plus_big_def abs_if add.commute split: if_splits)
  qed
qed

lemma minus_ok: "rep l m \<Longrightarrow> rep r n \<Longrightarrow> \<exists>c. minus_big l r = Some c \<and> rep c (m - n)"
  using uminus_ok [of r n] plus_ok [of l m _ "- n"] by (fastforce simp: minus_big_def)

lemma plus_assign_ok: "rep l m \<Longrightarrow> rep r n \<Longrightarrow> \<exists>c. plus_assign l r = Some c \<and> rep c (m + n)"
  using plus_ok [of l m r n] assign_ok [of l m _ "m + n"] by (fastforce simp: plus_assign_def)

lemma minus_assign_ok: "rep l m \<Longrightarrow> rep r n \<Longrightarrow> \<exists>c. minus_assign l r = Some c \<and> rep c (m - n)"
  using minus_ok [of l m r n] assign_ok [of l m _ "m - n"]
  by (fastforce simp: minus_assign_def minus_big_def split: bind_splits)

lemma ones: "rep P_ONE 1" "rep N_ONE (- 1)"
  by (rule repI [of _ "[1]"]; simp add: P_ONE_def N_ONE_def has_def normal_def sgn_of_def)+

lemma incr_ok: "rep l m \<Longrightarrow> \<exists>c. incr_big l = Some c \<and> rep c (m + 1)"
  using plus_assign_ok [OF _ ones(1), of l m] by (simp add: incr_big_def plus_assign_def)

lemma decr_ok: "rep l m \<Longrightarrow> \<exists>c. decr_big l = Some c \<and> rep c (m - 1)"
  using plus_assign_ok [OF _ ones(2), of l m] by (simp add: decr_big_def plus_assign_def)

section \<open>The integer constructor\<close>

lemma of_int_ok:
  assumes "sint w \<noteq> - 2147483648"
  shows "\<exists>b. bigint_of_int w = Some b \<and> rep b (sint w)"
proof -
  have b: "- 2147483648 \<le> sint w" "sint w \<le> 2147483647"
    using sint_ge [of w] sint_lt [of w] by simp_all
  hence c: "c_int \<bar>sint w\<bar> = Some \<bar>sint w\<bar>" using assms by (intro c_int_small) auto
  let ?q = "\<bar>sint w\<bar> div MAX_N_ONE" and ?r = "\<bar>sint w\<bar> mod MAX_N_ONE"
  have q: "0 \<le> ?q" "?q < MAX_N_ONE" "0 \<le> ?r" "?r < MAX_N_ONE"
    using b by (auto simp: pos_imp_zdiv_nonneg_iff) (simp add: MAX_N_ONE_def)
  have v: "?q * MAX_N_ONE + ?r = \<bar>sint w\<bar>" by simp
  show ?thesis
  proof (cases "?q = 0")
    case True
    hence s: "\<bar>sint w\<bar> < MAX_N_ONE" using v q by simp
    have "rep \<lparr>k_head = [Some \<bar>sint w\<bar>, None], head = 0, sign = (if sint w < 0 then - 1 else 1)\<rparr> (sint w)"
      by (rule repI [of _ "[\<bar>sint w\<bar>]"]) (use s in \<open>auto simp: has_def normal_def sgn_of_def\<close>)
    thus ?thesis using c True by (simp add: bigint_of_int_def)
  next
    case False
    have "rep \<lparr>k_head = [Some ?q, Some ?r], head = 0, sign = (if sint w < 0 then - 2 else 2)\<rparr> (sint w)"
    proof (rule repI [of _ "[?q, ?r]"])
      show "has \<lparr>k_head = [Some ?q, Some ?r], head = 0, sign = (if sint w < 0 then - 2 else 2)\<rparr> [?q, ?r]"
        using q by (simp add: has_def)
      show "normal [?q, ?r]" using False by (simp add: normal_def)
      have n: "nval [?q, ?r] = \<bar>sint w\<bar>" using v by simp
      show "sint w = sgn_of \<lparr>k_head = [Some ?q, Some ?r], head = 0, sign = (if sint w < 0 then - 2 else 2)\<rparr> * nval [?q, ?r]"
        unfolding n by (simp add: sgn_of_def)
      show "0 < sign \<lparr>k_head = [Some ?q, Some ?r], head = 0, sign = (if sint w < 0 then - 2 else 2 :: int)\<rparr>" if "nval [?q, ?r] = 0"
        using that False unfolding n by simp
    qed
    thus ?thesis using c False by (simp add: bigint_of_int_def Let_def)
  qed
qed

lemma of_int_min: "bigint_of_int (- 2147483648) = None"
  by (simp add: bigint_of_int_def c_int_def)

end
