(* ===== verification/Bigint_Text.thy ===== *)
theory Bigint_Text
  imports Bigint_Ops
begin

text \<open>
  Big integers as text: the string constructor yields the integer a numeral denotes, whatever its
  sign and leading zeros, and the output operator prints the decimal numeral of the integer.
\<close>

section \<open>Decimal numerals\<close>

definition numeral_str :: "string \<Rightarrow> bool" where
  "numeral_str s \<longleftrightarrow> s \<noteq> [] \<and> list_all isdigit s"

lemma digits_val_simps [simp]: "digits_val [] = 0" "digits_val (s @ [c]) = 10 * digits_val s + digit_val c"
  by (simp_all add: digits_val_def)

lemma digits_val_append: "digits_val (s @ t) = digits_val s * 10 ^ length t + digits_val t"
  by (induction t rule: rev_induct) (simp_all add: algebra_simps flip: append_assoc)

lemma digit_val_less: "isdigit c \<Longrightarrow> digit_val c < 10"
  unfolding isdigit_def digit_val_def by linarith

lemma digits_val_less: "list_all isdigit s \<Longrightarrow> digits_val s < 10 ^ length s"
proof (induction s rule: rev_induct)
  case (snoc c s)
  thus ?case using digit_val_less [of c] by simp
qed simp

lemma digits_val_zeros: "(\<forall>c\<in>set s. c = CHR ''0'') \<Longrightarrow> digits_val s = 0"
  by (induction s rule: rev_induct) (auto simp: digit_val_def)

lemma digits_val_strip: "digits_val (dropWhile (\<lambda>c. c = CHR ''0'') s) = digits_val s"
proof -
  have "digits_val (takeWhile (\<lambda>c. c = CHR ''0'') s) = 0"
    by (rule digits_val_zeros) (auto dest: set_takeWhileD)
  thus ?thesis by (subst (2) takeWhile_dropWhile_id [symmetric, of _ "\<lambda>c. c = CHR ''0''"])
    (simp add: digits_val_append del: takeWhile_dropWhile_id)
qed

lemma digits_val_pos:
  assumes "list_all isdigit s" "s \<noteq> []" "hd s \<noteq> CHR ''0''"
  shows "0 < digits_val s"
proof -
  obtain c t where s: "s = [c] @ t" using assms(2) by (cases s) auto
  have "of_char c \<noteq> (0x30 :: nat)"
  proof
    assume "of_char c = (0x30 :: nat)"
    hence "of_char c = (of_char (CHR ''0'') :: nat)" by simp
    hence "c = CHR ''0''" by (simp only: of_char_eq_iff)
    thus False using assms(3) s by simp
  qed
  hence "0 < digit_val c" using assms(1) s by (simp add: isdigit_def digit_val_def)
  thus ?thesis using digits_val_append [of "[c]" t] by (simp add: s digits_val_def)
qed

lemma isdigit_plain:
  assumes "isdigit c"
  shows "\<not> isspace c" "c \<noteq> CHR ''-''" "c \<noteq> CHR ''+''"
  using assms by (auto simp: isdigit_def isspace_def)

lemma atoi_digits: "list_all isdigit s \<Longrightarrow> atoi s = int (digits_val s)"
proof (cases s)
  case (Cons c t)
  assume d: "list_all isdigit s"
  hence "takeWhile isdigit s = s" by (simp add: takeWhile_eq_all_conv list_all_iff)
  moreover have "dropWhile isspace s = s" using d isdigit_plain(1) [of c] Cons by simp
  moreover have "take 1 s \<noteq> ''-''" "take 1 s \<noteq> ''+''" using d isdigit_plain(2,3) [of c] Cons by simp_all
  ultimately show ?thesis by (simp only: atoi_def Let_def if_False)
qed (simp add: atoi_def)

section \<open>The string constructor\<close>

text \<open>The limbs of \<open>k\<close> groups of nine digits.\<close>

fun group_limbs :: "nat \<Rightarrow> string \<Rightarrow> int list" where
  "group_limbs 0 s = []"
| "group_limbs (Suc k) s = int (digits_val (take MAX_DIGITS s)) # group_limbs k (drop MAX_DIGITS s)"

lemma length_group_limbs [simp]: "length (group_limbs k s) = k"
  by (induction k arbitrary: s) simp_all

lemma digits_limb: "list_all isdigit s \<Longrightarrow> length s \<le> 9 \<Longrightarrow> int (digits_val s) < MAX_N_ONE"
proof -
  assume d: "list_all isdigit s" and l: "length s \<le> 9"
  have "digits_val s < 10 ^ length s" by (rule digits_val_less [OF d])
  moreover have "(10 :: nat) ^ length s \<le> 10 ^ 9" by (rule power_increasing [OF l]) simp
  ultimately have "digits_val s < 1000000000" by simp
  thus ?thesis by (simp add: MAX_N_ONE_def)
qed

lemma list_all_take: "list_all P s \<Longrightarrow> list_all P (take n s)"
  and list_all_drop: "list_all P s \<Longrightarrow> list_all P (drop n s)"
  by (auto simp: list_all_iff dest: in_set_takeD in_set_dropD)

lemma base_pow: "int (10 ^ (MAX_DIGITS * k)) = MAX_N_ONE ^ k"
proof -
  have "int (10 ^ MAX_DIGITS) = MAX_N_ONE" by (simp add: MAX_DIGITS_def MAX_N_ONE_def)
  thus ?thesis by (simp add: power_mult)
qed

lemma group_limbs_ok: "list_all isdigit s \<Longrightarrow> limbs_ok (group_limbs k s)"
  by (induction k arbitrary: s) (simp_all add: list_all_take list_all_drop digits_limb MAX_DIGITS_def)

lemma group_limbs_val: "length s = MAX_DIGITS * k \<Longrightarrow> nval (group_limbs k s) = int (digits_val s)"
proof (induction k arbitrary: s)
  case (Suc k)
  have l: "length (drop MAX_DIGITS s) = MAX_DIGITS * k" using Suc.prems by simp
  have "digits_val s = digits_val (take MAX_DIGITS s) * 10 ^ (MAX_DIGITS * k) + digits_val (drop MAX_DIGITS s)"
    using digits_val_append [of "take MAX_DIGITS s" "drop MAX_DIGITS s"] unfolding l by simp
  hence "int (digits_val s) = int (digits_val (take MAX_DIGITS s)) * MAX_N_ONE ^ k + int (digits_val (drop MAX_DIGITS s))"
    by (simp only: of_nat_add of_nat_mult base_pow)
  thus ?case using Suc.IH [OF l] by simp
qed simp

lemma store_groups_ok:
  assumes "\<not> check_zero st" "p_cells st = map Some xs @ rest" "length xs = i" "k \<le> length rest" "list_all isdigit ptr"
  shows "store_groups (int i) k ptr st = Some (st\<lparr>p_cells := map Some (xs @ group_limbs k ptr) @ drop k rest\<rparr>)"
  using assms
proof (induction k arbitrary: i ptr st xs rest)
  case (Suc k)
  obtain r rs where r: "rest = r # rs" using Suc.prems(4) by (cases rest) auto
  let ?v = "int (digits_val (take MAX_DIGITS ptr))"
  let ?st = "st\<lparr>p_cells := map Some (xs @ [?v]) @ rs, check_zero := False\<rparr>"
  have a: "atoi (take MAX_DIGITS ptr) = ?v" by (rule atoi_digits) (rule list_all_take [OF Suc.prems(5)])
  have "store_group (int i) ?v st = Some ?st"
    using Suc.prems(1-3) by (simp add: store_group_def set_cell_def r list_update_append)
  moreover have "store_groups (int i + 1) k (drop MAX_DIGITS ptr) ?st =
      Some (?st\<lparr>p_cells := map Some ((xs @ [?v]) @ group_limbs k (drop MAX_DIGITS ptr)) @ drop k rs\<rparr>)"
    using Suc.IH [of ?st "xs @ [?v]" rs "Suc i" "drop MAX_DIGITS ptr"] Suc.prems
    by (simp add: r list_all_drop add.commute)
  ultimately show ?case using Suc.prems(1) a by (cases st) (simp add: r)
qed (cases st, simp)

text \<open>The groups of a numeral without leading zeros.\<close>

definition str_limbs :: "string \<Rightarrow> int list" where
  "str_limbs s = (let m = length s mod MAX_DIGITS in
     (if m \<noteq> 0 then [int (digits_val (take m s))] else []) @ group_limbs (length s div MAX_DIGITS) (drop m s))"

lemma str_limbs_props:
  assumes "numeral_str s" "hd s \<noteq> CHR ''0''"
  shows "limbs_ok (str_limbs s)" "normal (str_limbs s)" "nval (str_limbs s) = int (digits_val s)"
    "length (str_limbs s) = length s div MAX_DIGITS + (if length s mod MAX_DIGITS \<noteq> 0 then 1 else 0)"
proof -
  let ?m = "length s mod MAX_DIGITS" and ?k = "length s div MAX_DIGITS"
  have d: "list_all isdigit s" "s \<noteq> []" using assms(1) by (simp_all add: numeral_str_def)
  have m9: "?m < 9" by (simp add: MAX_DIGITS_def)
  have lm: "int (digits_val (take ?m s)) < MAX_N_ONE"
    by (rule digits_limb) (use d m9 in \<open>auto simp: list_all_take\<close>)
  have ld: "length (drop ?m s) = MAX_DIGITS * ?k" by (simp add: minus_mod_eq_mult_div)
  show "limbs_ok (str_limbs s)"
    using lm d by (simp add: str_limbs_def Let_def group_limbs_ok list_all_drop)
  show "length (str_limbs s) = ?k + (if ?m \<noteq> 0 then 1 else 0)" by (simp add: str_limbs_def Let_def)
  have g: "nval (group_limbs ?k (drop ?m s)) = int (digits_val (drop ?m s))" by (rule group_limbs_val [OF ld])
  have "nval (str_limbs s) = (if ?m \<noteq> 0 then int (digits_val (take ?m s)) * MAX_N_ONE ^ ?k else 0) + int (digits_val (drop ?m s))"
    using g by (cases "?m = 0") (simp_all add: str_limbs_def Let_def)
  moreover have "digits_val s = digits_val (take ?m s) * 10 ^ (MAX_DIGITS * ?k) + digits_val (drop ?m s)"
    using digits_val_append [of "take ?m s" "drop ?m s"] unfolding ld by simp
  hence "int (digits_val s) = int (digits_val (take ?m s)) * MAX_N_ONE ^ ?k + int (digits_val (drop ?m s))"
    by (simp only: of_nat_add of_nat_mult base_pow)
  ultimately show "nval (str_limbs s) = int (digits_val s)" by simp
  have pos: "0 < digits_val (take j s)" if "0 < j" for j
    by (rule digits_val_pos) (use d assms(2) that in \<open>auto simp: list_all_take\<close>)
  show "normal (str_limbs s)"
  proof (cases "?m = 0")
    case True
    hence "0 < ?k" using d(2) by (metis div_mult_mod_eq gr0I length_0_conv add_0_right mult_0)
    then obtain k where k: "?k = Suc k" by (cases ?k) auto
    have "0 < digits_val (take MAX_DIGITS s)" by (rule pos) (simp add: MAX_DIGITS_def)
    thus ?thesis using True by (simp add: str_limbs_def k normal_def)
  qed (use pos in \<open>simp add: str_limbs_def normal_def Let_def\<close>)
qed

text \<open>The sign and the digits of a numeral with an optional sign.\<close>

definition signed_val :: "string \<Rightarrow> int" where
  "signed_val s = (if take 1 s = ''-'' then - int (digits_val (drop 1 s))
     else if take 1 s = ''+'' then int (digits_val (drop 1 s)) else int (digits_val s))"

definition signed_numeral :: "string \<Rightarrow> bool" where
  "signed_numeral s \<longleftrightarrow> numeral_str (if take 1 s = ''-'' \<or> take 1 s = ''+'' then drop 1 s else s)"

lemma zeros_dropped:
  assumes "drop k s = ds" "ds \<noteq> []" "k \<le> length s"
  defines "z \<equiv> k + length (takeWhile (\<lambda>c. c = CHR ''0'') ds)"
  shows "drop z s = dropWhile (\<lambda>c. c = CHR ''0'') ds"
    "dropWhile (\<lambda>c. c = CHR ''0'') ds = [] \<Longrightarrow> z \<noteq> 0 \<and> drop (z - 1) s = ''0''"
proof -
  show "drop z s = dropWhile (\<lambda>c. c = CHR ''0'') ds"
    by (simp add: z_def assms(1) [symmetric] dropWhile_eq_drop add.commute)
next
  assume e: "dropWhile (\<lambda>c. c = CHR ''0'') ds = []"
  hence all: "\<forall>c\<in>set ds. c = CHR ''0''" by (simp add: dropWhile_eq_Nil_conv)
  hence t: "takeWhile (\<lambda>c. c = CHR ''0'') ds = ds" by (simp add: takeWhile_eq_all_conv)
  have l: "length ds = length s - k" using assms(1) by (metis length_drop)
  have z: "z = k + length ds" "z = length s" using l assms(3) unfolding z_def t by simp_all
  obtain i where i: "length ds = Suc i" using assms(2) by (cases ds) auto
  have "drop (z - 1) s = drop i ds" using z(1) i by (simp add: assms(1) [symmetric] add.commute)
  also have "\<dots> = [ds ! i]" using i by (simp add: Cons_nth_drop_Suc [symmetric])
  also have "ds ! i = CHR ''0''" using all i by simp
  finally show "z \<noteq> 0 \<and> drop (z - 1) s = ''0''" using z i by simp
qed

lemma parse_zero:
  "store_group 0 (atoi (take (length ''0'' mod MAX_DIGITS) ''0'')) \<lparr>p_cells = new_array 1, check_zero = True, zero_count = 0\<rparr>
    = Some \<lparr>p_cells = new_array 1, check_zero = True, zero_count = 1\<rparr>"
  by (simp add: store_group_def atoi_def Let_def isspace_def isdigit_def MAX_DIGITS_def digits_val_def digit_val_def)

text \<open>What the two loops of the constructor leave for a numeral without leading zeros.\<close>

definition parse_groups :: "string \<Rightarrow> parse_state option" where
  "parse_groups ptr = (let flr = length ptr div MAX_DIGITS; m = length ptr mod MAX_DIGITS;
     st = \<lparr>p_cells = new_array (flr + 1), check_zero = True, zero_count = 0\<rparr> in
     Option.bind (if m \<noteq> 0 then store_group 0 (atoi (take m ptr)) st else Some st)
       (\<lambda>st. if flr \<noteq> 0 then store_groups (if m \<noteq> 0 then 1 else 0) flr (drop m ptr) st else Some st))"

lemma parse_groups_ok:
  assumes d: "numeral_str s" and h: "hd s \<noteq> CHR ''0''"
  shows "\<exists>rest. parse_groups s = Some \<lparr>p_cells = map Some (str_limbs s) @ rest, check_zero = False, zero_count = 0\<rparr>"
proof -
  let ?m = "length s mod MAX_DIGITS" and ?k = "length s div MAX_DIGITS"
  have ds: "list_all isdigit s" "s \<noteq> []" using d by (simp_all add: numeral_str_def)
  have pos: "atoi (take j s) = int (digits_val (take j s)) \<and> 0 < digits_val (take j s)" if "0 < j" for j
    using atoi_digits [OF list_all_take [OF ds(1)]] digits_val_pos [of "take j s"] ds h that
    by (simp add: list_all_take)
  have first: "store_group 0 (atoi (take j s)) \<lparr>p_cells = new_array (Suc n), check_zero = True, zero_count = 0\<rparr> =
      Some \<lparr>p_cells = map Some [int (digits_val (take j s))] @ new_array n, check_zero = False, zero_count = 0\<rparr>" if "0 < j" for j n
    using pos [OF that] by (simp add: store_group_def set_cell_def new_array_def)
  show ?thesis
  proof (cases "?m = 0")
    case False
    let ?st = "\<lparr>p_cells = map Some [int (digits_val (take ?m s))] @ new_array ?k, check_zero = False, zero_count = 0\<rparr>"
    have "store_groups (int 1) ?k (drop ?m s) ?st =
        Some (?st\<lparr>p_cells := map Some ([int (digits_val (take ?m s))] @ group_limbs ?k (drop ?m s)) @ drop ?k (new_array ?k)\<rparr>)"
      by (rule store_groups_ok) (simp_all add: new_array_def list_all_drop ds)
    thus ?thesis using False first [of ?m ?k]
      by (cases "?k = 0") (simp_all add: parse_groups_def Let_def str_limbs_def new_array_def)
  next
    case True
    hence "0 < ?k" using ds(2) by (metis div_mult_mod_eq gr0I length_0_conv add_0_right mult_0)
    then obtain k where k: "?k = Suc k" by (cases ?k) auto
    let ?v = "int (digits_val (take MAX_DIGITS s))"
    let ?st = "\<lparr>p_cells = map Some [?v] @ new_array (Suc k), check_zero = False, zero_count = 0\<rparr>"
    have f: "store_group 0 (atoi (take MAX_DIGITS s)) \<lparr>p_cells = new_array (Suc (Suc k)), check_zero = True, zero_count = 0\<rparr> = Some ?st"
      by (rule first) (simp add: MAX_DIGITS_def)
    have "store_groups (int 1) k (drop MAX_DIGITS s) ?st =
        Some (?st\<lparr>p_cells := map Some ([?v] @ group_limbs k (drop MAX_DIGITS s)) @ drop k (new_array (Suc k))\<rparr>)"
      by (rule store_groups_ok) (simp_all add: new_array_def list_all_drop ds)
    thus ?thesis using True f
      by (simp add: parse_groups_def Let_def str_limbs_def k)
  qed
qed

lemma of_string_unfold:
  assumes "(if take 1 s = ''+'' then (1 :: int, 1) else if take 1 s = ''-'' then (- 1, 1) else (1, 0)) = (sg, k)"
    "(if drop (k + length (takeWhile (\<lambda>c. c = CHR ''0'') (drop k s))) s \<noteq> [] then
        Some (drop (k + length (takeWhile (\<lambda>c. c = CHR ''0'') (drop k s))) s)
      else if k + length (takeWhile (\<lambda>c. c = CHR ''0'') (drop k s)) = 0 then None
      else Some (drop (k + length (takeWhile (\<lambda>c. c = CHR ''0'') (drop k s)) - 1) s)) = Some ptr"
    "parse_groups ptr = Some st"
    "n = sg * (int (length ptr div MAX_DIGITS + (if length ptr mod MAX_DIGITS \<noteq> 0 then 1 else 0)) - zero_count st)"
  shows "bigint_of_string s = (if n = 0 then Option.bind (set_cell (p_cells st) 0 0) (\<lambda>cs. Some \<lparr>k_head = cs, head = 0, sign = 1\<rparr>)
     else Some \<lparr>k_head = p_cells st, head = 0, sign = n\<rparr>)"
proof -
  note [split del] = if_split
  let ?f = "length ptr div MAX_DIGITS" and ?m = "length ptr mod MAX_DIGITS"
  have g: "(if ?m \<noteq> 0 then ?f + 1 else ?f) = ?f + (if ?m \<noteq> 0 then 1 else 0)" by (simp split: if_split)
  obtain st0 where st0: "(if ?m \<noteq> 0 then store_group 0 (atoi (take ?m ptr)) \<lparr>p_cells = new_array (?f + 1), check_zero = True, zero_count = 0\<rparr>
      else Some \<lparr>p_cells = new_array (?f + 1), check_zero = True, zero_count = 0\<rparr>) = Some st0"
    "(if ?f \<noteq> 0 then store_groups (if ?m \<noteq> 0 then 1 else 0) ?f (drop ?m ptr) st0 else Some st0) = Some st"
    using assms(3) unfolding parse_groups_def Let_def bind_eq_Some_conv by blast
  show ?thesis
    unfolding bigint_of_string_def assms(1) Let_def prod.case assms(2) bind.bind_lunit st0 g assms(4) [symmetric] ..
qed

lemma of_string_ok:
  assumes "signed_numeral s"
  shows "\<exists>b. bigint_of_string s = Some b \<and> rep b (signed_val s)"
proof -
  obtain sg k where k: "(if take 1 s = ''+'' then (1 :: int, 1) else if take 1 s = ''-'' then (- 1, 1) else (1, 0)) = (sg, k)"
    and sg: "sg = 1 \<or> sg = - 1" and nd: "numeral_str (drop k s)" and v: "signed_val s = sg * int (digits_val (drop k s))"
    using assms by (auto simp: signed_numeral_def signed_val_def split: if_splits)
  let ?d = "drop k s" and ?z = "\<lambda>c. c = CHR ''0''"
  have d: "?d \<noteq> []" "list_all isdigit ?d" using nd by (simp_all add: numeral_str_def)
  have kl: "k \<le> length s" using d(1) by simp
  note zd = zeros_dropped [OF refl d(1) kl]
  show ?thesis
  proof (cases "dropWhile ?z ?d = []")
    case True
    have p: "parse_groups ''0'' = Some \<lparr>p_cells = new_array 1, check_zero = True, zero_count = 1\<rparr>"
      using parse_zero by (simp add: parse_groups_def Let_def MAX_DIGITS_def)
    have "bigint_of_string s = Some \<lparr>k_head = [Some 0], head = 0, sign = 1\<rparr>"
      using zd True by (subst of_string_unfold [OF k _ p refl]) (simp_all add: MAX_DIGITS_def set_cell_def new_array_def)
    moreover have "signed_val s = 0" using v digits_val_strip [of ?d] True by simp
    moreover have "rep \<lparr>k_head = [Some 0], head = 0, sign = 1\<rparr> 0"
      by (rule repI [of _ "[0]"]) (simp_all add: has_def normal_def)
    ultimately show ?thesis by simp
  next
    case False
    let ?p = "dropWhile ?z ?d"
    have n: "numeral_str ?p" using d False by (auto simp: numeral_str_def list_all_iff dest: set_dropWhileD)
    have h: "hd ?p \<noteq> CHR ''0''" using hd_dropWhile [OF False] by simp
    obtain rest where p: "parse_groups ?p = Some \<lparr>p_cells = map Some (str_limbs ?p) @ rest, check_zero = False, zero_count = 0\<rparr>"
      using parse_groups_ok [OF n h] by blast
    note L = str_limbs_props [OF n h]
    have l0: "length (str_limbs ?p) \<noteq> 0" using L(2) by (simp add: normal_def)
    let ?b = "\<lparr>k_head = map Some (str_limbs ?p) @ rest, head = 0, sign = sg * int (length (str_limbs ?p))\<rparr>"
    have "bigint_of_string s = Some ?b"
      using zd False l0 sg
      by (subst of_string_unfold [OF k _ p refl]) (auto simp: L(4))
    moreover have "nval (str_limbs ?p) \<noteq> 0"
      using digits_val_pos [of ?p] n h False L(3) by (simp add: numeral_str_def)
    moreover have "signed_val s = sgn_of ?b * nval (str_limbs ?p)"
      using v sg l0 by (auto simp: sgn_of_def L(3) digits_val_strip)
    moreover have "has ?b (str_limbs ?p)" using L(1) sg by (auto simp: has_def)
    ultimately show ?thesis using repI [of ?b, OF _ L(2)] by blast
  qed
qed

section \<open>Output\<close>

lemma digit_char:
  "n < 10 \<Longrightarrow> isdigit (char_of (0x30 + n :: nat))"
  "n < 10 \<Longrightarrow> digit_val (char_of (0x30 + n)) = n"
  by (simp_all add: isdigit_def digit_val_def)

lemma dec_small: "n < 10 \<Longrightarrow> dec n = [char_of (0x30 + n)]"
  and dec_large: "10 \<le> n \<Longrightarrow> dec n = dec (n div 10) @ [char_of (0x30 + n mod 10)]"
  by (subst dec.simps, simp)+

lemma dec_numeral: "numeral_str (dec n)" "digits_val (dec n) = n"
proof (induction n rule: dec.induct)
  case (1 n)
  case 1
  show ?case using "1.IH"(1) by (cases "n < 10") (simp_all add: dec_small dec_large numeral_str_def digit_char)
next
  case (1 n)
  case 2
  show ?case using "1.IH"(2)
    by (cases "n < 10") (simp_all add: dec_small dec_large digit_char digits_val_def)
qed

definition padded :: "nat \<Rightarrow> nat \<Rightarrow> string" where
  "padded k n = replicate (k - length (dec n)) (CHR ''0'') @ dec n"

lemma length_dec: "n < 10 ^ Suc k \<Longrightarrow> length (dec n) \<le> Suc k"
proof (induction k arbitrary: n)
  case (Suc k)
  show ?case
  proof (cases "n < 10")
    case False
    hence "length (dec (n div 10)) \<le> Suc k" using Suc.prems by (intro Suc.IH) auto
    thus ?thesis using False by (simp add: dec_large)
  qed (simp add: dec_small)
qed (simp add: dec_small)

lemma char_zero: "char_of (0x30 :: nat) = CHR ''0''"
proof -
  have "(0x30 :: nat) = of_char (CHR ''0'')" by simp
  thus ?thesis by (simp only: char_of_char)
qed

lemma padded_Suc: "n < 10 ^ Suc (Suc k) \<Longrightarrow> padded (Suc (Suc k)) n = padded (Suc k) (n div 10) @ [char_of (0x30 + n mod 10)]"
proof (cases "n < 10")
  case True
  hence "n div 10 = 0" by simp
  thus ?thesis using True by (simp add: padded_def dec_small char_zero replicate_append_same [symmetric])
next
  case False
  assume "n < 10 ^ Suc (Suc k)"
  hence "length (dec (n div 10)) \<le> Suc k" by (intro length_dec) auto
  thus ?thesis using False by (simp add: padded_def dec_large Suc_diff_le)
qed

text \<open>A numeral followed by a group of digits.\<close>

lemma dec_shift: "0 < a \<Longrightarrow> r < 10 ^ Suc k \<Longrightarrow> dec (a * 10 ^ Suc k + r) = dec a @ padded (Suc k) r"
proof (induction k arbitrary: r)
  case 0
  hence "10 \<le> a * 10 + r" by simp
  thus ?case using 0 by (simp add: dec_large padded_def dec_small)
next
  case (Suc k)
  have d: "a * 10 ^ Suc (Suc k) + r = (a * 10 ^ Suc k + r div 10) * 10 + r mod 10" by simp
  have "10 \<le> (y + z) * 10 + w" if "0 < y" for y z w :: nat using that by simp
  moreover have "0 < a * 10 ^ Suc k" using Suc.prems(1) by simp
  ultimately have g: "10 \<le> a * 10 ^ Suc (Suc k) + r" unfolding d by blast
  have q: "(a * 10 ^ Suc (Suc k) + r) div 10 = a * 10 ^ Suc k + r div 10" unfolding d by simp
  have m: "(a * 10 ^ Suc (Suc k) + r) mod 10 = r mod 10" unfolding d by (simp only: mod_mult_self3 mod_mod_trivial)
  have "r div 10 < 10 ^ Suc k" using Suc.prems(2) by auto
  hence "dec (a * 10 ^ Suc k + r div 10) = dec a @ padded (Suc k) (r div 10)" by (rule Suc.IH [OF Suc.prems(1)])
  thus ?case unfolding dec_large [OF g] q m padded_Suc [OF Suc.prems(2)] by simp
qed

lemma dec_limb:
  assumes "0 < a" "0 \<le> x" "x < MAX_N_ONE"
  shows "dec (nat (a * MAX_N_ONE + x)) = dec (nat a) @ fmt_09d x"
proof -
  have x: "nat x < 10 ^ Suc 8" using assms(3) by (simp add: MAX_N_ONE_def)
  have "nat (a * MAX_N_ONE + x) = nat a * 10 ^ Suc 8 + nat x"
    using assms by (simp add: nat_add_distrib nat_mult_distrib MAX_N_ONE_def)
  thus ?thesis using dec_shift [OF _ x, of "nat a"] assms by (simp add: fmt_09d_def padded_def Let_def)
qed

lemma dec_limbs:
  "0 < a \<Longrightarrow> limbs_ok xs \<Longrightarrow> dec (nat (a * MAX_N_ONE ^ length xs + nval xs)) = dec (nat a) @ concat (map fmt_09d xs)"
proof (induction xs arbitrary: a)
  case (Cons x xs)
  have "0 < a * MAX_N_ONE + x" using Cons.prems base_pos(1) by (auto intro: add_pos_nonneg)
  moreover have "a * MAX_N_ONE ^ length (x # xs) + nval (x # xs) = (a * MAX_N_ONE + x) * MAX_N_ONE ^ length xs + nval xs"
    by (simp add: algebra_simps)
  note v = this
  ultimately show ?case using Cons.IH [of "a * MAX_N_ONE + x"] Cons.prems dec_limb [of a x]
    unfolding v by simp
qed simp

text \<open>The decimal numeral of an integer.\<close>

definition show_int :: "int \<Rightarrow> string" where
  "show_int n = (if n < 0 then ''-'' else []) @ dec (nat \<bar>n\<bar>)"

lemma print_ok:
  assumes "rep b n"
  shows "print_big b = Some (show_int n)"
proof -
  obtain xs where xs: "has b xs" "normal xs" "n = sgn_of b * nval xs" "limbs_ok xs" "\<bar>n\<bar> = nval xs" "xs \<noteq> []"
    using assms by (rule repE)
  obtain x ys where x: "xs = x # ys" using xs(6) by (cases xs) auto
  have "limb b 0 = Some x" using limb_has [OF xs(1), of 0] x by simp
  moreover have "nat \<bar>sign b\<bar> = length xs" using xs(1) by (simp add: has_def)
  hence "nat \<bar>sign b\<bar> - 1 = length ys" using x by simp
  moreover have "read_limbs b 1 (length ys) = Some ys" using read_limbs_has [OF xs(1), of 1 "length ys"] x by simp
  moreover have "(sign b < 0) = (n < 0)" using sgn_pos [OF assms] by (auto simp: sgn_of_def split: if_splits)
  moreover have "fmt_d x @ concat (map fmt_09d ys) = dec (nat \<bar>n\<bar>)"
  proof (cases "x = 0")
    case True
    thus ?thesis using xs(2,5) x by (simp add: normal_def fmt_d_def)
  next
    case False
    hence "0 < x" "limbs_ok ys" using xs(4) x by auto
    thus ?thesis using dec_limbs [of x ys] xs(5) x by (simp add: fmt_d_def)
  qed
  ultimately show ?thesis by (simp add: print_big_def show_int_def)
qed

lemma show_int_signed: "signed_numeral (show_int n)" "signed_val (show_int n) = n"
proof -
  obtain c t where c: "dec (nat \<bar>n\<bar>) = c # t" "isdigit c"
    using dec_numeral(1) [of "nat \<bar>n\<bar>"] by (cases "dec (nat \<bar>n\<bar>)") (auto simp: numeral_str_def)
  have p: "take 1 (dec (nat \<bar>n\<bar>)) \<noteq> ''-''" "take 1 (dec (nat \<bar>n\<bar>)) \<noteq> ''+''"
    using c isdigit_plain(2,3) [of c] by simp_all
  hence q: "n \<ge> 0 \<Longrightarrow> take 1 (dec (nat n)) \<noteq> ''-'' \<and> take 1 (dec (nat n)) \<noteq> ''+''" by simp
  show "signed_numeral (show_int n)" using q dec_numeral(1) by (auto simp: signed_numeral_def show_int_def)
  show "signed_val (show_int n) = n" using q dec_numeral(2) by (auto simp: signed_val_def show_int_def)
qed

end
