(* ===== verification/Bigint_Driver.thy ===== *)
theory Bigint_Driver
  imports Bigint_Text
begin

text \<open>
  The test driver \<open>bigint.t.c\<close>. Its statements are a small language over variables of type \<open>BigInt\<close>;
  the sections of \<open>main\<close> are lists of them. Executing a statement yields \<open>None\<close> when an operation of
  the class is undefined, \<open>Some Bad_status\<close> when a check fails and \<open>main\<close> returns.

  \<open>EQ (X, Y)\<close> compares what \<open>X\<close> prints with the text of its second argument (the traditional
  preprocessor puts it into the string). An initialisation copies the value into the new object. The
  memory and timing reports use a library that is not part of the repository; what it reports at the
  end is a parameter of \<open>driver_main\<close>.
\<close>

section \<open>Statements\<close>

datatype cmp_op = Eq | Ne | Lt | Le | Gt | Ge

datatype expr = Num int | Str string | V string | Neg expr | Abs expr
  | Plus expr expr | Minus expr expr | Cmp cmp_op expr expr

datatype stmt = Decl string expr | Assign string expr | PlusA string expr | MinusA string expr
  | Inc string | Dec string | EQ string string | ASSERT bool cmp_op string string

datatype 'e outcome = Bad_status | Good 'e

section \<open>Execution with big integers\<close>

type_synonym big_env = "string \<Rightarrow> bigint option"

fun cmp_big :: "cmp_op \<Rightarrow> bigint \<Rightarrow> bigint \<Rightarrow> bool option" where
  "cmp_big Eq = eq_big"
| "cmp_big Ne = neq_big"
| "cmp_big Lt = less_big"
| "cmp_big Le = le_big"
| "cmp_big Gt = gt_big"
| "cmp_big Ge = ge_big"

text \<open>A comparison yields an \<open>int\<close>, which becomes a \<open>BigInt\<close> where one is needed.\<close>

fun eval_big :: "big_env \<Rightarrow> expr \<Rightarrow> bigint option" where
  "eval_big env (Num k) = bigint_of_int (word_of_int k)"
| "eval_big env (Str s) = bigint_of_string s"
| "eval_big env (V x) = env x"
| "eval_big env (Neg e) = Option.bind (eval_big env e) uminus_big"
| "eval_big env (Abs e) = Option.bind (eval_big env e) abs_big"
| "eval_big env (Plus a b) = do { x \<leftarrow> eval_big env a; y \<leftarrow> eval_big env b; plus_big x y }"
| "eval_big env (Minus a b) = do { x \<leftarrow> eval_big env a; y \<leftarrow> eval_big env b; minus_big x y }"
| "eval_big env (Cmp op a b) = do { x \<leftarrow> eval_big env a; y \<leftarrow> eval_big env b; c \<leftarrow> cmp_big op x y;
     bigint_of_int (if c then 1 else 0) }"

definition set_var :: "big_env \<Rightarrow> string \<Rightarrow> bigint option \<Rightarrow> big_env outcome option" where
  "set_var env x v = map_option (\<lambda>b. Good (env(x \<mapsto> b))) v"

fun exec_big :: "stmt \<Rightarrow> big_env \<Rightarrow> big_env outcome option" where
  "exec_big (Decl x e) env = set_var env x (Option.bind (eval_big env e) bigint_copy)"
| "exec_big (Assign x e) env = set_var env x (do { t \<leftarrow> env x; v \<leftarrow> eval_big env e; bigint_assign t v })"
| "exec_big (PlusA x e) env = set_var env x (do { t \<leftarrow> env x; v \<leftarrow> eval_big env e; plus_assign t v })"
| "exec_big (MinusA x e) env = set_var env x (do { t \<leftarrow> env x; v \<leftarrow> eval_big env e; minus_assign t v })"
| "exec_big (Inc x) env = set_var env x (Option.bind (env x) incr_big)"
| "exec_big (Dec x) env = set_var env x (Option.bind (env x) decr_big)"
| "exec_big (EQ x y) env = do { b \<leftarrow> env x; s \<leftarrow> print_big b; Some (if s = y then Good env else Bad_status) }"
| "exec_big (ASSERT b op x y) env = do { l \<leftarrow> env x; r \<leftarrow> env y; c \<leftarrow> cmp_big op l r;
     Some (if b = c then Good env else Bad_status) }"

fun run_big :: "stmt list \<Rightarrow> big_env \<Rightarrow> big_env outcome option" where
  "run_big [] env = Some (Good env)"
| "run_big (s # ss) env = Option.bind (exec_big s env)
     (\<lambda>r. case r of Bad_status \<Rightarrow> Some Bad_status | Good env \<Rightarrow> run_big ss env)"

section \<open>The tests\<close>

definition ctor_tests :: "stmt list" where
  "ctor_tests = [
    Decl ''s1'' (Str ''0''), EQ ''s1'' ''0'', Decl ''s2'' (Str ''00000000000000000000''), EQ ''s2'' ''0'',
    Decl ''s3'' (Str ''-000000000''), EQ ''s3'' ''0'', Decl ''s4'' (Str ''+0000000000''), EQ ''s4'' ''0'',
    Decl ''s5'' (Str ''-00000000000000''), EQ ''s5'' ''0'', Decl ''w1'' (Str ''-0123456789''),
    EQ ''w1'' ''-123456789'', Decl ''w2'' (Str ''000001''), EQ ''w2'' ''1'', Decl ''w3'' (Str ''1000000000''),
    EQ ''w3'' ''1000000000'', Decl ''s6'' (Str ''2147483647''), EQ ''s6'' ''2147483647'',
    Decl ''s7'' (Str ''-2147483648''), EQ ''s7'' ''-2147483648'', Decl ''s8'' (Str ''12345678901234567890''),
    EQ ''s8'' ''12345678901234567890'', Decl ''s9'' (Str ''-98765432109876543210''),
    EQ ''s9'' ''-98765432109876543210'',
    Decl ''w4'' (Str ''213890218308218038291803821038021830921839281308921903821038''),
    EQ ''w4'' ''213890218308218038291803821038021830921839281308921903821038'', Decl ''i1'' (Num (-0)),
    EQ ''i1'' ''0'', Decl ''i2'' (Num 1000), EQ ''i2'' ''1000'', Decl ''i3'' (Num (-1234)), EQ ''i3'' ''-1234'',
    Decl ''w5'' (Num (-1000000001)), EQ ''w5'' ''-1000000001'', Decl ''i4'' (Num 2147483647),
    EQ ''i4'' ''2147483647'', Decl ''i5'' (Num (-2147483647)), EQ ''i5'' ''-2147483647'', Decl ''t1'' (V ''s1''),
    EQ ''t1'' ''0'', Decl ''t2'' (V ''s2''), EQ ''t2'' ''0'', Decl ''t3'' (V ''s3''), EQ ''t3'' ''0'',
    Decl ''t4'' (V ''s4''), EQ ''t4'' ''0'', Decl ''t5'' (V ''s5''), EQ ''t5'' ''0'', Decl ''x1'' (V ''w1''),
    EQ ''x1'' ''-123456789'', Decl ''x2'' (V ''w2''), EQ ''x2'' ''1'', Decl ''x3'' (V ''w3''),
    EQ ''x3'' ''1000000000'', Decl ''t6'' (V ''s6''), EQ ''t6'' ''2147483647'', Decl ''t7'' (V ''s7''),
    EQ ''t7'' ''-2147483648'', Decl ''t8'' (V ''s8''), EQ ''t8'' ''12345678901234567890'', Decl ''t9'' (V ''s9''),
    EQ ''t9'' ''-98765432109876543210'']"

definition assign_tests :: "stmt list" where
  "assign_tests = [
    Decl ''e1'' (Num 0), Decl ''e2'' (Num 0), Decl ''e3'' (Num 0), Decl ''e4'' (Num 0), Decl ''e5'' (Num 0),
    Decl ''e6'' (Num 0), Decl ''e7'' (Num 0), Decl ''e8'' (Num 0), Decl ''e9'' (Num 0), Assign ''e1'' (V ''s1''),
    EQ ''e1'' ''0'', Assign ''e2'' (V ''s2''), EQ ''e2'' ''0'', Assign ''e3'' (V ''s3''), EQ ''e3'' ''0'',
    Assign ''e4'' (V ''s4''), EQ ''e4'' ''0'', Assign ''e5'' (V ''s5''), EQ ''e5'' ''0'', Assign ''x1'' (V ''x1''),
    EQ ''x1'' ''-123456789'', Assign ''x2'' (V ''x2''), EQ ''x2'' ''1'', Assign ''x3'' (V ''x3''),
    EQ ''x3'' ''1000000000'', Assign ''e6'' (V ''s6''), EQ ''e6'' ''2147483647'', Assign ''e7'' (V ''s7''),
    EQ ''e7'' ''-2147483648'', Assign ''e8'' (V ''s8''), EQ ''e8'' ''12345678901234567890'', Assign ''e9'' (V ''s9''),
    EQ ''e9'' ''-98765432109876543210'', Assign ''t6'' (Num (-1)), EQ ''t6'' ''-1'',
    Assign ''t7'' (Str ''+39814821083821039210939210381231283821928120182182098138222832109''),
    EQ ''t7'' ''39814821083821039210939210381231283821928120182182098138222832109'', Assign ''t8'' (Num 1),
    EQ ''t8'' ''1'', Assign ''t9'' (Str ''-0''), EQ ''t9'' ''0'', Assign ''t8'' (V ''t9''), Assign ''t7'' (V ''t8''),
    Assign ''t6'' (Neg (V ''t7'')), EQ ''t9'' ''0'', EQ ''t8'' ''0'', EQ ''t7'' ''0'', EQ ''t6'' ''0'']"

definition plus_assign_tests :: "stmt list" where
  "plus_assign_tests = [
    Decl ''a1'' (Num (-12345678)), EQ ''a1'' ''-12345678'', PlusA ''a1'' (Num 12345678), EQ ''a1'' ''0'',
    PlusA ''a1'' (Num 12345678), EQ ''a1'' ''12345678'', PlusA ''a1'' (Num 90000000), EQ ''a1'' ''102345678'',
    PlusA ''a1'' (Num (-90000000)), EQ ''a1'' ''12345678'', PlusA ''a1'' (Num (-12345678)), EQ ''a1'' ''0'',
    PlusA ''a1'' (Num (-12345678)), EQ ''a1'' ''-12345678'', PlusA ''a1'' (V ''a1''), EQ ''a1'' ''-24691356'']"

definition minus_assign_tests :: "stmt list" where
  "minus_assign_tests = [
    Assign ''a1'' (Num 12345678), EQ ''a1'' ''12345678'', MinusA ''a1'' (Num 12345678), EQ ''a1'' ''0'',
    MinusA ''a1'' (Num 12345678), EQ ''a1'' ''-12345678'', MinusA ''a1'' (Num 90000000), EQ ''a1'' ''-102345678'',
    MinusA ''a1'' (Num (-90000000)), EQ ''a1'' ''-12345678'', MinusA ''a1'' (Num (-12345678)), EQ ''a1'' ''0'',
    MinusA ''a1'' (Num (-12345678)), EQ ''a1'' ''12345678'', MinusA ''a1'' (V ''a1''), EQ ''a1'' ''0'']"

definition incr_tests :: "stmt list" where
  "incr_tests = [
    Assign ''a1'' (Str ''123456789012345''), EQ ''a1'' ''123456789012345'', Inc ''a1'', EQ ''a1'' ''123456789012346'',
    Inc ''a1'', EQ ''a1'' ''123456789012347'', Assign ''a1'' (Str ''-123456789012345''),
    EQ ''a1'' ''-123456789012345'', Inc ''a1'', EQ ''a1'' ''-123456789012344'', Inc ''a1'',
    EQ ''a1'' ''-123456789012343'', Assign ''a1'' (Num (-1)), Inc ''a1'', EQ ''a1'' ''0'', Inc ''a1'',
    EQ ''a1'' ''1'', Assign ''a1'' (Str ''9''), Inc ''a1'', Inc ''a1'', EQ ''a1'' ''11'', Assign ''a1'' (Num (-11)),
    Inc ''a1'', Inc ''a1'', EQ ''a1'' ''-9'', Assign ''a1'' (Str ''999999999''), Inc ''a1'', Inc ''a1'',
    EQ ''a1'' ''1000000001'', Assign ''a1'' (Str ''-1000000001''), Inc ''a1'', Inc ''a1'', EQ ''a1'' ''-999999999'']"

definition decr_tests :: "stmt list" where
  "decr_tests = [
    Assign ''a1'' (Str ''123456789012345''), EQ ''a1'' ''123456789012345'', Dec ''a1'', EQ ''a1'' ''123456789012344'',
    Dec ''a1'', EQ ''a1'' ''123456789012343'', Assign ''a1'' (Str ''-123456789012345''),
    EQ ''a1'' ''-123456789012345'', Dec ''a1'', EQ ''a1'' ''-123456789012346'', Dec ''a1'',
    EQ ''a1'' ''-123456789012347'', Assign ''a1'' (Num 1), Dec ''a1'', EQ ''a1'' ''0'', Dec ''a1'', EQ ''a1'' ''-1'']"

definition plus_tests :: "stmt list" where
  "plus_tests = [
    Decl ''a1'' (Str ''0''), EQ ''a1'' ''0'', Decl ''a2'' (Str ''000000000000000000000''), EQ ''a2'' ''0'',
    Decl ''a3'' (Str ''-00000000000000000000''), EQ ''a3'' ''0'', Assign ''a1'' (Str ''12345678901234567890''),
    EQ ''a1'' ''12345678901234567890'', Assign ''a2'' (Str ''98765432109876543210''),
    EQ ''a2'' ''98765432109876543210'', Assign ''a3'' (Plus (V ''a1'') (V ''a2'')),
    EQ ''a3'' ''111111111011111111100'', Assign ''a1'' (Str ''-12345678901234567890''),
    EQ ''a1'' ''-12345678901234567890'', Assign ''a2'' (Str ''-98765432109876543210''),
    EQ ''a2'' ''-98765432109876543210'', Assign ''a3'' (Plus (V ''a1'') (V ''a2'')),
    EQ ''a3'' ''-111111111011111111100'', Assign ''a1'' (Str ''12345678901234567890''),
    EQ ''a1'' ''12345678901234567890'', Assign ''a2'' (Str ''-98765432109876543210''),
    EQ ''a2'' ''-98765432109876543210'', Assign ''a3'' (Plus (V ''a1'') (V ''a2'')),
    EQ ''a3'' ''-86419753208641975320'', Assign ''a1'' (Str ''-12345678901234567890''),
    EQ ''a1'' ''-12345678901234567890'', Assign ''a2'' (Str ''98765432109876543210''),
    EQ ''a2'' ''98765432109876543210'', Assign ''a3'' (Plus (V ''a1'') (V ''a2'')),
    EQ ''a3'' ''86419753208641975320'', Assign ''a1'' (Str ''12345678901234567890''),
    EQ ''a1'' ''12345678901234567890'', Assign ''a2'' (Str ''98765432109876543210''),
    EQ ''a2'' ''98765432109876543210'', Assign ''a3'' (Plus (V ''a2'') (V ''a1'')),
    EQ ''a3'' ''111111111011111111100'', Assign ''a1'' (Str ''-12345678901234567890''),
    EQ ''a1'' ''-12345678901234567890'', Assign ''a2'' (Str ''-98765432109876543210''),
    EQ ''a2'' ''-98765432109876543210'', Assign ''a3'' (Plus (V ''a2'') (V ''a1'')),
    EQ ''a3'' ''-111111111011111111100'', Assign ''a1'' (Str ''12345678901234567890''),
    EQ ''a1'' ''12345678901234567890'', Assign ''a2'' (Str ''-98765432109876543210''),
    EQ ''a2'' ''-98765432109876543210'', Assign ''a3'' (Plus (V ''a2'') (V ''a1'')),
    EQ ''a3'' ''-86419753208641975320'', Assign ''a1'' (Str ''-12345678901234567890''),
    EQ ''a1'' ''-12345678901234567890'', Assign ''a2'' (Str ''98765432109876543210''),
    EQ ''a2'' ''98765432109876543210'', Assign ''a3'' (Plus (V ''a2'') (V ''a1'')),
    EQ ''a3'' ''86419753208641975320'', Assign ''a1'' (Str ''999999999999999999''), EQ ''a1'' ''999999999999999999'',
    Assign ''a2'' (Plus (V ''a1'') (Num 1)), EQ ''a2'' ''1000000000000000000'',
    Assign ''a3'' (Plus (V ''a1'') (Neg (V ''a2''))), EQ ''a3'' ''-1'',
    Assign ''a2'' (Plus (Plus (Plus (V ''a2'') (V ''a2'')) (V ''a2'')) (V ''a1'')),
    EQ ''a2'' ''3999999999999999999'']"

definition minus_tests :: "stmt list" where
  "minus_tests = [
    Decl ''a1'' (Str ''0''), EQ ''a1'' ''0'', Decl ''a2'' (Str ''000000000000000000000''), EQ ''a2'' ''0'',
    Decl ''a3'' (Str ''-00000000000000000000''), EQ ''a3'' ''0'', Assign ''a1'' (Str ''12345678901234567890''),
    EQ ''a1'' ''12345678901234567890'', Assign ''a2'' (Str ''98765432109876543210''),
    EQ ''a2'' ''98765432109876543210'', Assign ''a3'' (Minus (V ''a1'') (V ''a2'')),
    EQ ''a3'' ''-86419753208641975320'', Assign ''a1'' (Str ''-12345678901234567890''),
    EQ ''a1'' ''-12345678901234567890'', Assign ''a2'' (Str ''-98765432109876543210''),
    EQ ''a2'' ''-98765432109876543210'', Assign ''a3'' (Minus (V ''a1'') (V ''a2'')),
    EQ ''a3'' ''86419753208641975320'', Assign ''a1'' (Str ''12345678901234567890''),
    EQ ''a1'' ''12345678901234567890'', Assign ''a2'' (Str ''-98765432109876543210''),
    EQ ''a2'' ''-98765432109876543210'', Assign ''a3'' (Minus (V ''a1'') (V ''a2'')),
    EQ ''a3'' ''111111111011111111100'', Assign ''a1'' (Str ''-12345678901234567890''),
    EQ ''a1'' ''-12345678901234567890'', Assign ''a2'' (Str ''98765432109876543210''),
    EQ ''a2'' ''98765432109876543210'', Assign ''a3'' (Minus (V ''a1'') (V ''a2'')),
    EQ ''a3'' ''-111111111011111111100'', Assign ''a1'' (Str ''12345678901234567890''),
    EQ ''a1'' ''12345678901234567890'', Assign ''a2'' (Str ''98765432109876543210''),
    EQ ''a2'' ''98765432109876543210'', Assign ''a3'' (Minus (V ''a2'') (V ''a1'')),
    EQ ''a3'' ''86419753208641975320'', Assign ''a1'' (Str ''-12345678901234567890''),
    EQ ''a1'' ''-12345678901234567890'', Assign ''a2'' (Str ''-98765432109876543210''),
    EQ ''a2'' ''-98765432109876543210'', Assign ''a3'' (Minus (V ''a2'') (V ''a1'')),
    EQ ''a3'' ''-86419753208641975320'', Assign ''a1'' (Str ''12345678901234567890''),
    EQ ''a1'' ''12345678901234567890'', Assign ''a2'' (Str ''-98765432109876543210''),
    EQ ''a2'' ''-98765432109876543210'', Assign ''a3'' (Minus (V ''a2'') (V ''a1'')),
    EQ ''a3'' ''-111111111011111111100'', Assign ''a1'' (Str ''-12345678901234567890''),
    EQ ''a1'' ''-12345678901234567890'', Assign ''a2'' (Str ''98765432109876543210''),
    EQ ''a2'' ''98765432109876543210'', Assign ''a3'' (Minus (V ''a2'') (V ''a1'')),
    EQ ''a3'' ''111111111011111111100'', Assign ''a1'' (Minus (Neg (V ''a1'')) (Neg (V ''a1''))), EQ ''a1'' ''0'',
    Assign ''a2'' (Minus (Minus (V ''a1'') (V ''a1'')) (V ''a1'')), EQ ''a2'' ''0'',
    Assign ''a3'' (Minus (Minus
      (Str ''29192819218281281922299999999999999992188222222888888888882'')
      (Str ''29192819218281281922299999999999999992188222222888888888883'')) (Num 2)),
    EQ ''a3'' ''-3'']"

definition neg_abs_tests :: "stmt list" where
  "neg_abs_tests = [
    Decl ''a1'' (Str ''0''), EQ ''a1'' ''0'', Assign ''a1'' (Num 0), EQ ''a1'' ''0'', Assign ''a1'' (Neg (V ''a1'')),
    EQ ''a1'' ''0'', Assign ''a1'' (Num (-1)), EQ ''a1'' ''-1'', Assign ''a1'' (Neg (V ''a1'')), EQ ''a1'' ''1'',
    Assign ''a1'' (Neg (V ''a1'')), EQ ''a1'' ''-1'', Assign ''a1'' (Neg (Neg (V ''a1''))), EQ ''a1'' ''-1'',
    Assign ''a1'' (Neg (Neg (Neg (V ''a1'')))), EQ ''a1'' ''1'', Assign ''a1'' (Str ''-0''), EQ ''a1'' ''0'',
    Assign ''a1'' (Abs (V ''a1'')), EQ ''a1'' ''0'', Assign ''a1'' (Num (-1)), EQ ''a1'' ''-1'',
    Assign ''a1'' (Abs (V ''a1'')), EQ ''a1'' ''1'', Assign ''a1'' (Str ''-98765432109876543210''),
    EQ ''a1'' ''-98765432109876543210'', Assign ''a1'' (Str ''98765432109876543210''),
    EQ ''a1'' ''98765432109876543210'', Assign ''a1'' (Abs (V ''a1'')), EQ ''a1'' ''98765432109876543210'']"

definition zero_cmp_tests :: "stmt list" where
  "zero_cmp_tests = [
    Decl ''z'' (Str ''0''), Decl ''nz'' (Str ''-0''), Decl ''i'' (Num 0), Assign ''i'' (Cmp Eq (V ''z'') (V ''nz'')),
    EQ ''i'' ''1'', Assign ''i'' (Cmp Ne (V ''z'') (V ''nz'')), EQ ''i'' ''0'',
    Assign ''i'' (Cmp Ge (V ''z'') (V ''nz'')), EQ ''i'' ''1'', Assign ''i'' (Cmp Gt (V ''z'') (V ''nz'')),
    EQ ''i'' ''0'', Assign ''i'' (Cmp Le (V ''z'') (V ''nz'')), EQ ''i'' ''1'',
    Assign ''i'' (Cmp Lt (V ''z'') (V ''nz'')), EQ ''i'' ''0'', Assign ''i'' (Cmp Eq (V ''nz'') (V ''z'')),
    EQ ''i'' ''1'', Assign ''i'' (Cmp Ne (V ''nz'') (V ''z'')), EQ ''i'' ''0'',
    Assign ''i'' (Cmp Ge (V ''nz'') (V ''z'')), EQ ''i'' ''1'', Assign ''i'' (Cmp Gt (V ''nz'') (V ''z'')),
    EQ ''i'' ''0'', Assign ''i'' (Cmp Le (V ''nz'') (V ''z'')), EQ ''i'' ''1'',
    Assign ''i'' (Cmp Lt (V ''nz'') (V ''z'')), EQ ''i'' ''0'']"

definition eq_tests :: "stmt list" where
  "eq_tests = [
    Decl ''i'' (Num 0), Assign ''i'' (Cmp Eq (V ''p0'') (V ''p0'')), EQ ''i'' ''1'',
    Assign ''i'' (Cmp Eq (V ''p0'') (V ''p1'')), EQ ''i'' ''0'', Assign ''i'' (Cmp Eq (V ''p0'') (V ''p2'')),
    EQ ''i'' ''0'', Assign ''i'' (Cmp Eq (V ''p0'') (V ''p3'')), EQ ''i'' ''0'',
    Assign ''i'' (Cmp Eq (V ''p0'') (V ''p4'')), EQ ''i'' ''0'', Assign ''i'' (Cmp Eq (V ''p1'') (V ''p0'')),
    EQ ''i'' ''0'', Assign ''i'' (Cmp Eq (V ''p1'') (V ''p1'')), EQ ''i'' ''1'',
    Assign ''i'' (Cmp Eq (V ''p1'') (V ''p2'')), EQ ''i'' ''0'', Assign ''i'' (Cmp Eq (V ''p1'') (V ''p3'')),
    EQ ''i'' ''0'', Assign ''i'' (Cmp Eq (V ''p1'') (V ''p4'')), EQ ''i'' ''0'',
    Assign ''i'' (Cmp Eq (V ''p2'') (V ''p0'')), EQ ''i'' ''0'', Assign ''i'' (Cmp Eq (V ''p2'') (V ''p1'')),
    EQ ''i'' ''0'', Assign ''i'' (Cmp Eq (V ''p2'') (V ''p2'')), EQ ''i'' ''1'',
    Assign ''i'' (Cmp Eq (V ''p2'') (V ''p3'')), EQ ''i'' ''0'', Assign ''i'' (Cmp Eq (V ''p2'') (V ''p4'')),
    EQ ''i'' ''0'', Assign ''i'' (Cmp Eq (V ''p3'') (V ''p0'')), EQ ''i'' ''0'',
    Assign ''i'' (Cmp Eq (V ''p3'') (V ''p1'')), EQ ''i'' ''0'', Assign ''i'' (Cmp Eq (V ''p3'') (V ''p2'')),
    EQ ''i'' ''0'', Assign ''i'' (Cmp Eq (V ''p3'') (V ''p3'')), EQ ''i'' ''1'',
    Assign ''i'' (Cmp Eq (V ''p3'') (V ''p4'')), EQ ''i'' ''0'', Assign ''i'' (Cmp Eq (V ''p4'') (V ''p0'')),
    EQ ''i'' ''0'', Assign ''i'' (Cmp Eq (V ''p4'') (V ''p1'')), EQ ''i'' ''0'',
    Assign ''i'' (Cmp Eq (V ''p4'') (V ''p2'')), EQ ''i'' ''0'', Assign ''i'' (Cmp Eq (V ''p4'') (V ''p3'')),
    EQ ''i'' ''0'', Assign ''i'' (Cmp Eq (V ''p4'') (V ''p4'')), EQ ''i'' ''1'']"

text \<open>The five numbers of the comparison tests, \<open>*p [i]\<close>, in ascending order.\<close>

definition p_var :: "nat \<Rightarrow> string" where
  "p_var i = [CHR ''p'', char_of (0x30 + i)]"

definition p_decls :: "stmt list" where
  "p_decls = [Decl ''p0'' (Num (-99999)), Decl ''p1'' (Num (-99998)), Decl ''p2'' (Num 0), Decl ''p3'' (Num 99998),
    Decl ''p4'' (Num 99999)]"

definition order_tests :: "cmp_op \<Rightarrow> (nat \<Rightarrow> nat \<Rightarrow> bool) \<Rightarrow> stmt list" where
  "order_tests op rel = concat (map (\<lambda>i. map (\<lambda>j. ASSERT (rel i j) op (p_var i) (p_var j)) [0..<5]) [0..<5])"

definition cmp_tests :: "stmt list" where
  "cmp_tests = p_decls @ zero_cmp_tests @ order_tests Eq (=) @ eq_tests @ order_tests Ne (\<noteq>) @
     order_tests Lt (<) @ order_tests Le (\<le>) @ order_tests Gt (>) @ order_tests Ge (\<ge>)"

definition REPEAT_TIMES :: nat where "REPEAT_TIMES = 1000"

definition repeated :: "stmt list \<Rightarrow> stmt list" where
  "repeated ss = concat (replicate REPEAT_TIMES ss)"

definition extended_test :: "stmt list \<Rightarrow> stmt list \<Rightarrow> stmt list" where
  "extended_test up down =
     [Decl ''a'' (Num 0), Decl ''b'' (Str ''1234567890123456789012345678901234567890'')] @
     repeated up @ [EQ ''a'' ''1234567890123456789012345678901234567891000''] @
     repeated down @ [EQ ''a'' ''0''] @
     repeated down @ [EQ ''a'' ''-1234567890123456789012345678901234567891000''] @
     repeated up @ [EQ ''a'' ''0'']"

definition extended_test_1 :: "stmt list" where
  "extended_test_1 = extended_test [PlusA ''a'' (V ''b''), Inc ''a''] [MinusA ''a'' (V ''b''), Dec ''a'']"

definition extended_test_2 :: "stmt list" where
  "extended_test_2 = extended_test [Assign ''a'' (Plus (V ''a'') (V ''b'')), Inc ''a'']
     [Assign ''a'' (Minus (V ''a'') (V ''b'')), Dec ''a'']"

definition sections :: "stmt list list" where
  "sections = [ctor_tests @ assign_tests, plus_assign_tests @ minus_assign_tests @ incr_tests @ decr_tests,
     plus_tests, minus_tests, neg_abs_tests, cmp_tests, extended_test_1, extended_test_2]"

section \<open>The Fibonacci tests\<close>

text \<open>\<open>for (BigInt i = 0; i < 1000; ++i)\<close>\<close>

partial_function (option) fib_loop :: "bigint \<Rightarrow> bigint \<Rightarrow> bigint \<Rightarrow> bigint option" where
  "fib_loop i left right = do {
     n \<leftarrow> bigint_of_int 1000;
     c \<leftarrow> less_big i n;
     if c then do {
       temp \<leftarrow> bigint_copy right;
       s \<leftarrow> plus_big left right;
       right \<leftarrow> bigint_assign right s;
       left \<leftarrow> bigint_assign left temp;
       i \<leftarrow> incr_big i;
       fib_loop i left right
     } else Some left
   }"

definition fib_test :: "bool option" where
  "fib_test = do {
     left \<leftarrow> bigint_of_int 0;
     right \<leftarrow> bigint_of_int 1;
     i \<leftarrow> bigint_of_int 0;
     left \<leftarrow> fib_loop i left right;
     s \<leftarrow> print_big left;
     Some (s = ''43466557686937456435688527675040625802564660517371780402481729089536555417949051890403879840079255169295922593080322634775209689623239873322471161642996440906533187938298969649928516003704476137795166849228875'')
   }"

partial_function (option) fibonacci :: "bigint \<Rightarrow> bigint option" where
  "fibonacci i = do {
     k0 \<leftarrow> bigint_of_int 0;
     c0 \<leftarrow> eq_big i k0;
     if c0 then bigint_of_int 0
     else do {
       k1 \<leftarrow> bigint_of_int 1;
       c1 \<leftarrow> eq_big i k1;
       k2 \<leftarrow> bigint_of_int 2;
       c2 \<leftarrow> (if c1 then Some False else eq_big i k2);
       if c1 \<or> c2 then bigint_of_int 1
       else do {
         i1 \<leftarrow> minus_big i k1;
         x \<leftarrow> fibonacci i1;
         i2 \<leftarrow> minus_big i k2;
         y \<leftarrow> fibonacci i2;
         plus_big x y
       }
     }
   }"

definition fib_rec_test :: "bool option" where
  "fib_rec_test = do { k \<leftarrow> bigint_of_int 20; f \<leftarrow> fibonacci k; s \<leftarrow> print_big f; Some (s = ''6765'') }"

section \<open>The main program\<close>

fun run_sections :: "stmt list list \<Rightarrow> bool option" where
  "run_sections [] = Some True"
| "run_sections (ss # rest) = Option.bind (run_big ss Map.empty)
     (\<lambda>r. case r of Bad_status \<Rightarrow> Some False | Good _ \<Rightarrow> run_sections rest)"

definition BAD_STATUS :: int where "BAD_STATUS = - 1"

text \<open>The result of \<open>main\<close>, given the final status and number of user blocks of the memory table.\<close>

definition driver_main :: "int \<Rightarrow> int \<Rightarrow> int option" where
  "driver_main mem_status user_blocks = do {
     ok \<leftarrow> run_sections sections;
     if \<not> ok then Some BAD_STATUS
     else do {
       ok \<leftarrow> fib_test;
       if \<not> ok then Some BAD_STATUS
       else do {
         ok \<leftarrow> fib_rec_test;
         if \<not> ok then Some BAD_STATUS
         else Some (if mem_status \<noteq> 0 then mem_status else if user_blocks > 0 then - 2 else 0)
       }
     }
   }"

end
