(* ===== verification/Bigint_Driver_Ref.thy ===== *)
theory Bigint_Driver_Ref
  imports Bigint_Driver
begin

text \<open>
  The test driver over the integers. The statements are given their meaning over mathematical
  integers; executing them with big integers refines it, so every check of the driver can be settled
  by integer arithmetic.
\<close>

section \<open>Execution over the integers\<close>

type_synonym int_env = "string \<Rightarrow> int option"

fun cmp_int :: "cmp_op \<Rightarrow> int \<Rightarrow> int \<Rightarrow> bool" where
  "cmp_int Eq = (=)"
| "cmp_int Ne = (\<noteq>)"
| "cmp_int Lt = (<)"
| "cmp_int Le = (\<le>)"
| "cmp_int Gt = (>)"
| "cmp_int Ge = (\<ge>)"

fun eval_int :: "int_env \<Rightarrow> expr \<Rightarrow> int option" where
  "eval_int env (Num k) = (if - 2147483648 < k \<and> k < 2147483648 then Some k else None)"
| "eval_int env (Str s) = (if signed_numeral s then Some (signed_val s) else None)"
| "eval_int env (V x) = env x"
| "eval_int env (Neg e) = map_option uminus (eval_int env e)"
| "eval_int env (Abs e) = map_option abs (eval_int env e)"
| "eval_int env (Plus a b) = do { x \<leftarrow> eval_int env a; y \<leftarrow> eval_int env b; Some (x + y) }"
| "eval_int env (Minus a b) = do { x \<leftarrow> eval_int env a; y \<leftarrow> eval_int env b; Some (x - y) }"
| "eval_int env (Cmp op a b) = do { x \<leftarrow> eval_int env a; y \<leftarrow> eval_int env b; Some (if cmp_int op x y then 1 else 0) }"

definition put_int :: "int_env \<Rightarrow> string \<Rightarrow> int option \<Rightarrow> int_env outcome option" where
  "put_int env x v = map_option (\<lambda>n. Good (env(x \<mapsto> n))) v"

fun exec_int :: "stmt \<Rightarrow> int_env \<Rightarrow> int_env outcome option" where
  "exec_int (Decl x e) env = put_int env x (eval_int env e)"
| "exec_int (Assign x e) env = put_int env x (do { _ \<leftarrow> env x; eval_int env e })"
| "exec_int (PlusA x e) env = put_int env x (do { t \<leftarrow> env x; v \<leftarrow> eval_int env e; Some (t + v) })"
| "exec_int (MinusA x e) env = put_int env x (do { t \<leftarrow> env x; v \<leftarrow> eval_int env e; Some (t - v) })"
| "exec_int (Inc x) env = put_int env x (map_option (\<lambda>n. n + 1) (env x))"
| "exec_int (Dec x) env = put_int env x (map_option (\<lambda>n. n - 1) (env x))"
| "exec_int (EQ x y) env = map_option (\<lambda>n. if show_int n = y then Good env else Bad_status) (env x)"
| "exec_int (ASSERT b op x y) env = do { l \<leftarrow> env x; r \<leftarrow> env y;
     Some (if b = cmp_int op l r then Good env else Bad_status) }"

fun run_int :: "stmt list \<Rightarrow> int_env \<Rightarrow> int_env outcome option" where
  "run_int [] env = Some (Good env)"
| "run_int (s # ss) env = Option.bind (exec_int s env)
     (\<lambda>r. case r of Bad_status \<Rightarrow> Some Bad_status | Good env \<Rightarrow> run_int ss env)"

section \<open>Refinement\<close>

definition env_rep :: "big_env \<Rightarrow> int_env \<Rightarrow> bool" where
  "env_rep E I \<longleftrightarrow> (\<forall>x n. I x = Some n \<longrightarrow> (\<exists>b. E x = Some b \<and> rep b n))"

fun outcome_rep :: "big_env outcome \<Rightarrow> int_env outcome \<Rightarrow> bool" where
  "outcome_rep Bad_status Bad_status = True"
| "outcome_rep (Good E) (Good I) = env_rep E I"
| "outcome_rep _ _ = False"

lemma env_repD: "env_rep E I \<Longrightarrow> I x = Some n \<Longrightarrow> \<exists>b. E x = Some b \<and> rep b n"
  by (simp add: env_rep_def)

lemma env_rep_put: "env_rep E I \<Longrightarrow> rep b n \<Longrightarrow> env_rep (E(x \<mapsto> b)) (I(x \<mapsto> n))"
  by (simp add: env_rep_def)

lemma env_rep_empty: "env_rep Map.empty Map.empty"
  by (simp add: env_rep_def)

lemma cmp_big_ok: "rep l m \<Longrightarrow> rep r n \<Longrightarrow> cmp_big op l r = Some (cmp_int op m n)"
  using comparisons_ok [of l m r n] by (cases op) auto

lemma of_int_literal:
  assumes "- 2147483648 < k" "k < 2147483648"
  shows "\<exists>b. bigint_of_int (word_of_int k) = Some b \<and> rep b k"
proof -
  have "sint (word_of_int k :: 32 word) = k" 
    using assms by (simp add: int_word_sint mod_pos_pos_trivial)
  thus ?thesis using of_int_ok [of "word_of_int k"] assms by simp
qed

lemma of_int_bool: "\<exists>b. bigint_of_int (if c then 1 else 0) = Some b \<and> rep b (if c then 1 else 0)"
  using of_int_ok [of 0] of_int_ok [of 1] by simp

lemma eval_refines: "env_rep E I \<Longrightarrow> eval_int I e = Some n \<Longrightarrow> \<exists>b. eval_big E e = Some b \<and> rep b n"
proof (induction e arbitrary: n)
  case (Num k)
  thus ?case using of_int_literal by (auto split: if_splits)
next
  case (Str s)
  thus ?case using of_string_ok by (auto split: if_splits)
next
  case (V x)
  thus ?case using env_repD by simp
next
  case (Neg e)
  then obtain m b where "eval_big E e = Some b" "rep b m" "n = - m" by auto
  thus ?case using uminus_ok by auto
next
  case (Abs e)
  then obtain m b where "eval_big E e = Some b" "rep b m" "n = \<bar>m\<bar>" by auto
  thus ?case using abs_big_ok by auto
next
  case (Plus a b)
  then obtain x y u v where "eval_big E a = Some u" "rep u x" "eval_big E b = Some v" "rep v y" "n = x + y"
    by (fastforce simp: bind_eq_Some_conv)
  thus ?case using plus_ok by auto
next
  case (Minus a b)
  then obtain x y u v where "eval_big E a = Some u" "rep u x" "eval_big E b = Some v" "rep v y" "n = x - y"
    by (fastforce simp: bind_eq_Some_conv)
  thus ?case using minus_ok by auto
next
  case (Cmp op a b)
  then obtain x y u v where "eval_big E a = Some u" "rep u x" "eval_big E b = Some v" "rep v y"
    "n = (if cmp_int op x y then 1 else 0)"
    by (fastforce simp: bind_eq_Some_conv)
  thus ?case using cmp_big_ok of_int_bool by simp
qed

lemma set_var_refines:
  assumes "env_rep E I" "put_int I x v = Some r" "\<And>n. v = Some n \<Longrightarrow> \<exists>b. w = Some b \<and> rep b n"
  shows "\<exists>R. set_var E x w = Some R \<and> outcome_rep R r"
proof -
  obtain n where n: "v = Some n" "r = Good (I(x \<mapsto> n))" using assms(2) by (auto simp: put_int_def)
  obtain b where "w = Some b" "rep b n" using assms(3) [OF n(1)] by blast
  thus ?thesis using n assms(1) by (simp add: set_var_def env_rep_put)
qed

lemma exec_refines:
  assumes "env_rep E I" "exec_int s I = Some r"
  shows "\<exists>R. exec_big s E = Some R \<and> outcome_rep R r"
proof (cases s)
  case (Decl x e)
  have "\<exists>b. Option.bind (eval_big E e) bigint_copy = Some b \<and> rep b n" if "eval_int I e = Some n" for n
    using eval_refines [OF assms(1) that] copy_ok by auto
  thus ?thesis using set_var_refines [OF assms(1), of x "eval_int I e" r] assms(2) Decl by simp
next
  case (Assign x e)
  have "\<exists>b. do { t \<leftarrow> E x; v \<leftarrow> eval_big E e; bigint_assign t v } = Some b \<and> rep b n"
    if h: "do { _ \<leftarrow> I x; eval_int I e } = Some n" for n
  proof -
    from h obtain m where m: "I x = Some m" "eval_int I e = Some n" by (auto simp: bind_eq_Some_conv)
    thus ?thesis using env_repD [OF assms(1) m(1)] eval_refines [OF assms(1) m(2)] assign_ok by fastforce
  qed
  thus ?thesis using set_var_refines [OF assms(1), of x "do { _ \<leftarrow> I x; eval_int I e }" r] assms(2) Assign by simp
next
  case (PlusA x e)
  have "\<exists>b. do { t \<leftarrow> E x; v \<leftarrow> eval_big E e; plus_assign t v } = Some b \<and> rep b n"
    if h: "do { t \<leftarrow> I x; v \<leftarrow> eval_int I e; Some (t + v) } = Some n" for n
  proof -
    from h obtain m k where m: "I x = Some m" "eval_int I e = Some k" "n = m + k" by (auto simp: bind_eq_Some_conv)
    thus ?thesis using env_repD [OF assms(1) m(1)] eval_refines [OF assms(1) m(2)] plus_assign_ok by fastforce
  qed
  thus ?thesis
    using set_var_refines [OF assms(1), of x "do { t \<leftarrow> I x; v \<leftarrow> eval_int I e; Some (t + v) }" r] assms(2) PlusA by simp
next
  case (MinusA x e)
  have "\<exists>b. do { t \<leftarrow> E x; v \<leftarrow> eval_big E e; minus_assign t v } = Some b \<and> rep b n"
    if h: "do { t \<leftarrow> I x; v \<leftarrow> eval_int I e; Some (t - v) } = Some n" for n
  proof -
    from h obtain m k where m: "I x = Some m" "eval_int I e = Some k" "n = m - k" by (auto simp: bind_eq_Some_conv)
    thus ?thesis using env_repD [OF assms(1) m(1)] eval_refines [OF assms(1) m(2)] minus_assign_ok by fastforce
  qed
  thus ?thesis
    using set_var_refines [OF assms(1), of x "do { t \<leftarrow> I x; v \<leftarrow> eval_int I e; Some (t - v) }" r] assms(2) MinusA by simp
next
  case (Inc x)
  have "\<exists>b. Option.bind (E x) incr_big = Some b \<and> rep b n" if "map_option (\<lambda>n. n + 1) (I x) = Some n" for n
    using that env_repD [OF assms(1)] incr_ok by fastforce
  thus ?thesis using set_var_refines [OF assms(1), of x "map_option (\<lambda>n. n + 1) (I x)" r] assms(2) Inc by simp
next
  case (Dec x)
  have "\<exists>b. Option.bind (E x) decr_big = Some b \<and> rep b n" if "map_option (\<lambda>n. n - 1) (I x) = Some n" for n
    using that env_repD [OF assms(1)] decr_ok by fastforce
  thus ?thesis using set_var_refines [OF assms(1), of x "map_option (\<lambda>n. n - 1) (I x)" r] assms(2) Dec by simp
next
  case (EQ x y)
  obtain n where n: "I x = Some n" "r = (if show_int n = y then Good I else Bad_status)"
    using assms(2) EQ by auto
  thus ?thesis using env_repD [OF assms(1) n(1)] print_ok assms(1) EQ by auto
next
  case (ASSERT b op x y)
  obtain m n where n: "I x = Some m" "I y = Some n" "r = (if b = cmp_int op m n then Good I else Bad_status)"
    using assms(2) ASSERT by (auto simp: bind_eq_Some_conv)
  obtain u where u: "E x = Some u" "rep u m" using env_repD [OF assms(1) n(1)] by blast
  obtain v where v: "E y = Some v" "rep v n" using env_repD [OF assms(1) n(2)] by blast
  show ?thesis using n u v cmp_big_ok [OF u(2) v(2), of op] assms(1) ASSERT by auto
qed

lemma run_refines:
  "env_rep E I \<Longrightarrow> run_int ss I = Some r \<Longrightarrow> \<exists>R. run_big ss E = Some R \<and> outcome_rep R r"
proof (induction ss arbitrary: E I)
  case (Cons s ss)
  obtain r1 where r1: "exec_int s I = Some r1" "(case r1 of Bad_status \<Rightarrow> Some Bad_status | Good I' \<Rightarrow> run_int ss I') = Some r"
    using Cons.prems(2) by (auto simp: bind_eq_Some_conv)
  obtain R1 where R1: "exec_big s E = Some R1" "outcome_rep R1 r1" using exec_refines [OF Cons.prems(1) r1(1)] by blast
  show ?case
  proof (cases r1)
    case Bad_status
    thus ?thesis using R1 r1(2) by (cases R1) auto
  next
    case (Good I')
    then obtain E' where "R1 = Good E'" "env_rep E' I'" using R1(2) by (cases R1) auto
    thus ?thesis using Cons.IH [of E' I'] R1(1) r1(2) Good by simp
  qed
qed auto

end
