(* ===== verification/Bigint_Fib.thy ===== *)
theory Bigint_Fib
  imports Bigint_Driver_Run
begin

text \<open>
  The Fibonacci tests of the driver, a loop and a recursive function over big integers: both return,
  with the Fibonacci number.
\<close>

fun fib :: "nat \<Rightarrow> int" where
  "fib 0 = 0"
| "fib (Suc 0) = 1"
| "fib (Suc (Suc n)) = fib n + fib (Suc n)"

lemma fib_pred: "2 < n \<Longrightarrow> fib n = fib (n - 1) + fib (n - 2)"
proof -
  assume "2 < n"
  then obtain k where "n = Suc (Suc (Suc k))" by (metis add_2_eq_Suc less_imp_Suc_add)
  thus ?thesis by simp
qed

lemma literals:
  "\<exists>b. bigint_of_int 0 = Some b \<and> rep b 0" "\<exists>b. bigint_of_int 1 = Some b \<and> rep b 1"
  "\<exists>b. bigint_of_int 2 = Some b \<and> rep b 2" "\<exists>b. bigint_of_int 20 = Some b \<and> rep b 20"
  "\<exists>b. bigint_of_int 1000 = Some b \<and> rep b 1000"
  using of_int_ok [of 0] of_int_ok [of 1] of_int_ok [of 2] of_int_ok [of 20] of_int_ok [of 1000] by simp_all

section \<open>The loop\<close>

lemma fib_loop_ok:
  "rep i (int k) \<Longrightarrow> k \<le> 1000 \<Longrightarrow> rep l (fib k) \<Longrightarrow> rep r (fib (Suc k)) \<Longrightarrow>
    \<exists>b. fib_loop i l r = Some b \<and> rep b (fib 1000)"
proof (induction "1000 - k" arbitrary: k i l r)
  case 0
  obtain t where t: "bigint_of_int 1000 = Some t" "rep t 1000" using literals(5) by blast
  have "less_big i t = Some False" using comparisons_ok(3) [OF 0(2) t(2)] 0(1) by simp
  thus ?case using 0 t(1) by (subst fib_loop.simps) auto
next
  case (Suc d)
  have k: "k < 1000" using Suc.hyps(2) by simp
  obtain t where t: "bigint_of_int 1000 = Some t" "rep t 1000" using literals(5) by blast
  have c: "less_big i t = Some True" using comparisons_ok(3) [OF Suc.prems(1) t(2)] k by simp
  obtain tmp where tmp: "bigint_copy r = Some tmp" "rep tmp (fib (Suc k))" using copy_ok [OF Suc.prems(4)] by blast
  obtain s where s: "plus_big l r = Some s" "rep s (fib (Suc (Suc k)))"
    using plus_ok [OF Suc.prems(3,4)] by auto
  obtain r' where r': "bigint_assign r s = Some r'" "rep r' (fib (Suc (Suc k)))" using assign_ok [OF Suc.prems(4) s(2)] by blast
  obtain l' where l': "bigint_assign l tmp = Some l'" "rep l' (fib (Suc k))" using assign_ok [OF Suc.prems(3) tmp(2)] by blast
  obtain i' where i': "incr_big i = Some i'" "rep i' (int (Suc k))" using incr_ok [OF Suc.prems(1)] by (auto simp: add.commute)
  have "\<exists>b. fib_loop i' l' r' = Some b \<and> rep b (fib 1000)"
    by (rule Suc.hyps(1) [of "Suc k"]) (use Suc.hyps(2) k i'(2) l'(2) r'(2) in simp_all)
  moreover have "fib_loop i l r = fib_loop i' l' r'"
    using t(1) c tmp(1) s(1) r'(1) l'(1) i'(1) by (subst fib_loop.simps) simp
  ultimately show ?case by simp
qed

text \<open>The thousandth Fibonacci number, by doubling.\<close>

lemma fib_add: "fib (Suc (m + n)) = fib m * fib n + fib (Suc m) * fib (Suc n)"
proof (induction m arbitrary: n)
  case (Suc m)
  have "fib (Suc (Suc m + n)) = fib (Suc (m + Suc n))" by simp
  also have "\<dots> = fib m * fib (Suc n) + fib (Suc m) * fib (Suc (Suc n))" by (rule Suc.IH)
  finally show ?case by (simp add: algebra_simps)
qed simp

definition fib_at :: "nat \<Rightarrow> int \<Rightarrow> int \<Rightarrow> bool" where
  "fib_at n a b \<longleftrightarrow> fib n = a \<and> fib (Suc n) = b"

lemma fib_at_odd: "fib_at n a b \<Longrightarrow> fib_at (Suc (2 * n)) (a * a + b * b) (b * (2 * a + b))"
  using fib_add [of n n] fib_add [of n "Suc n"] unfolding mult_2 fib_at_def
  by (simp add: algebra_simps)

lemma fib_at_even: "fib_at n a b \<Longrightarrow> fib_at (2 * n) (b * (2 * a + b) - (a * a + b * b)) (a * a + b * b)"
  using fib_at_odd [of n a b] by (simp add: fib_at_def)

lemma fib_1000: "fib 1000 = 43466557686937456435688527675040625802564660517371780402481729089536555417949051890403879840079255169295922593080322634775209689623239873322471161642996440906533187938298969649928516003704476137795166849228875"
proof -
  have "fib_at 1 1 1" by (simp add: fib_at_def numeral_2_eq_2)
  note fib_at_odd [OF this, simplified] note fib_at_odd [OF this, simplified]
  note fib_at_odd [OF this, simplified] note fib_at_odd [OF this, simplified]
  note fib_at_even [OF this, simplified] note fib_at_odd [OF this, simplified]
  note fib_at_even [OF this, simplified] note fib_at_even [OF this, simplified]
  note fib_at_even [OF this, simplified]
  thus ?thesis by (simp add: fib_at_def)
qed

lemma fib_test_ok: "fib_test = Some True"
proof -
  obtain z where z: "bigint_of_int 0 = Some z" "rep z 0" using literals(1) by blast
  obtain u where u: "bigint_of_int 1 = Some u" "rep u 1" using literals(2) by blast
  obtain b where b: "fib_loop z z u = Some b" "rep b (fib 1000)"
    using fib_loop_ok [of z 0 z u] z(2) u(2) by auto
  have "show_int (fib 1000) = ''43466557686937456435688527675040625802564660517371780402481729089536555417949051890403879840079255169295922593080322634775209689623239873322471161642996440906533187938298969649928516003704476137795166849228875''"
    unfolding fib_1000 by (simp add: show_int_canonical str_eval)
  thus ?thesis using z(1) u(1) b(1) print_ok [OF b(2)] by (simp add: fib_test_def)
qed

section \<open>The recursive function\<close>

lemma fibonacci_ok: "rep i (int n) \<Longrightarrow> \<exists>b. fibonacci i = Some b \<and> rep b (fib n)"
proof (induction n arbitrary: i rule: less_induct)
  case (less n)
  obtain z where z: "bigint_of_int 0 = Some z" "rep z 0" using literals(1) by blast
  obtain u where u: "bigint_of_int 1 = Some u" "rep u 1" using literals(2) by blast
  obtain t where t: "bigint_of_int 2 = Some t" "rep t 2" using literals(3) by blast
  have c: "eq_big i z = Some (n = 0)" "eq_big i u = Some (n = 1)" "eq_big i t = Some (n = 2)"
    using comparisons_ok(1) [OF less.prems] z(2) u(2) t(2) by auto
  consider "n = 0" | "n = 1 \<or> n = 2" | "2 < n" by linarith
  thus ?case
  proof cases
    case 1
    thus ?thesis using c z by (subst fibonacci.simps) simp
  next
    case 2
    hence "fib n = 1" by (auto simp: numeral_2_eq_2)
    thus ?thesis using 2 c z(1) u t(1) by (subst fibonacci.simps) auto
  next
    case 3
    obtain i1 where i1: "minus_big i u = Some i1" "rep i1 (int (n - 1))"
      using minus_ok [OF less.prems u(2)] 3 by (auto simp: of_nat_diff)
    obtain i2 where i2: "minus_big i t = Some i2" "rep i2 (int (n - 2))"
      using minus_ok [OF less.prems t(2)] 3 by (auto simp: of_nat_diff)
    obtain x where x: "fibonacci i1 = Some x" "rep x (fib (n - 1))" using less.IH [OF _ i1(2)] 3 by auto
    obtain y where y: "fibonacci i2 = Some y" "rep y (fib (n - 2))" using less.IH [OF _ i2(2)] 3 by auto
    obtain s where s: "plus_big x y = Some s" "rep s (fib n)"
      using plus_ok [OF x(2) y(2)] fib_pred [OF 3] by auto
    have "fibonacci i = plus_big x y"
      using 3 c z(1) u(1) t(1) i1(1) i2(1) x(1) y(1) by (subst fibonacci.simps) simp
    thus ?thesis using s by simp
  qed
qed

lemma fib_rec_test_ok: "fib_rec_test = Some True"
proof -
  obtain k where k: "bigint_of_int 20 = Some k" "rep k (int 20)" using literals(4) by auto
  obtain b where b: "fibonacci k = Some b" "rep b (fib 20)" using fibonacci_ok [OF k(2)] by blast
  have f: "fib 20 = 6765" by (simp add: numeral_eq_Suc)
  have "show_int (fib 20) = ''6765''" unfolding f by (simp add: show_int_canonical str_eval)
  thus ?thesis using k(1) b(1) print_ok [OF b(2)] by (simp add: fib_rec_test_def)
qed

end
