(* ===== verification/Bigint_Props.thy ===== *)
theory Bigint_Props
  imports Bigint_Fib
begin

text \<open>
  The properties of the big integers. The interface a client of the class relies on is a locale: a
  representation relation and operations that never fail and are exact. The laws of arithmetic, as a
  client observes them with \<open>operator==\<close>, follow from it once and hold for the class.
\<close>

section \<open>The interface\<close>

locale exact_ints =
  fixes R :: "'b \<Rightarrow> int \<Rightarrow> bool"
    and plus :: "'b \<Rightarrow> 'b \<Rightarrow> 'b option"
    and minus :: "'b \<Rightarrow> 'b \<Rightarrow> 'b option"
    and neg :: "'b \<Rightarrow> 'b option"
    and same :: "'b \<Rightarrow> 'b \<Rightarrow> bool option"
  assumes plus_exact: "R a m \<Longrightarrow> R b n \<Longrightarrow> \<exists>c. plus a b = Some c \<and> R c (m + n)"
    and minus_exact: "R a m \<Longrightarrow> R b n \<Longrightarrow> \<exists>c. minus a b = Some c \<and> R c (m - n)"
    and neg_exact: "R a m \<Longrightarrow> \<exists>c. neg a = Some c \<and> R c (- m)"
    and same_exact: "R a m \<Longrightarrow> R b n \<Longrightarrow> same a b = Some (m = n)"
begin

text \<open>Two computations yield numbers that compare equal.\<close>

definition observed_equal :: "'b option \<Rightarrow> 'b option \<Rightarrow> bool" where
  "observed_equal x y \<longleftrightarrow> (\<exists>a b. x = Some a \<and> y = Some b \<and> same a b = Some True)"

lemma observed_equalI: "\<exists>a. x = Some a \<and> R a m \<Longrightarrow> \<exists>b. y = Some b \<and> R b m \<Longrightarrow> observed_equal x y"
  using same_exact by (auto simp: observed_equal_def)

lemma plus_plus: "\<exists>a. x = Some a \<and> R a m \<Longrightarrow> \<exists>b. y = Some b \<and> R b n \<Longrightarrow>
    \<exists>c. Option.bind x (\<lambda>a. Option.bind y (plus a)) = Some c \<and> R c (m + n)"
  using plus_exact by auto

lemma laws:
  assumes "R a m" "R b n" "R c k"
  shows "observed_equal (plus a b) (plus b a)"
    and "observed_equal (Option.bind (plus a b) (\<lambda>s. plus s c)) (Option.bind (plus b c) (plus a))"
    and "observed_equal (Option.bind (minus a b) (\<lambda>d. plus d b)) (Some a)"
    and "observed_equal (minus a b) (Option.bind (neg b) (plus a))"
    and "observed_equal (Option.bind (minus a b) neg) (minus b a)"
proof -
  note ex = plus_exact [OF assms(1,2)] plus_exact [OF assms(2,1)] plus_exact [OF assms(2,3)]
    minus_exact [OF assms(1,2)] minus_exact [OF assms(2,1)] neg_exact [OF assms(2)]
  show "observed_equal (plus a b) (plus b a)"
    by (rule observed_equalI [of _ "m + n"]) (use ex in \<open>simp_all add: add.commute\<close>)
  show "observed_equal (Option.bind (plus a b) (\<lambda>s. plus s c)) (Option.bind (plus b c) (plus a))"
  proof (rule observed_equalI [of _ "m + n + k"])
    show "\<exists>d. Option.bind (plus a b) (\<lambda>s. plus s c) = Some d \<and> R d (m + n + k)"
      using ex(1) plus_exact [OF _ assms(3)] by auto
    show "\<exists>d. Option.bind (plus b c) (plus a) = Some d \<and> R d (m + n + k)"
      using ex(3) plus_exact [OF assms(1)] by (fastforce simp: add.assoc)
  qed
  show "observed_equal (Option.bind (minus a b) (\<lambda>d. plus d b)) (Some a)"
  proof (rule observed_equalI [of _ m])
    obtain d where d: "minus a b = Some d" "R d (m - n)" using ex(4) by blast
    show "\<exists>e. Option.bind (minus a b) (\<lambda>d. plus d b) = Some e \<and> R e m"
      using plus_exact [OF d(2) assms(2)] d(1) by simp
  qed (use assms(1) in simp)
  show "observed_equal (minus a b) (Option.bind (neg b) (plus a))"
  proof (rule observed_equalI [of _ "m - n"])
    obtain d where d: "neg b = Some d" "R d (- n)" using ex(6) by blast
    show "\<exists>e. Option.bind (neg b) (plus a) = Some e \<and> R e (m - n)"
      using plus_exact [OF assms(1) d(2)] d(1) by simp
  qed (rule ex(4))
  show "observed_equal (Option.bind (minus a b) neg) (minus b a)"
  proof (rule observed_equalI [of _ "n - m"])
    obtain d where d: "minus a b = Some d" "R d (m - n)" using ex(4) by blast
    show "\<exists>e. Option.bind (minus a b) neg = Some e \<and> R e (n - m)"
      using neg_exact [OF d(2)] d(1) by simp
  qed (rule ex(5))
qed

end

interpretation big: exact_ints rep plus_big minus_big uminus_big eq_big
  by unfold_locales (blast intro: plus_ok minus_ok uminus_ok comparisons_ok(1))+

section \<open>Properties\<close>

text \<open>
  C31: The arithmetic of the class is exact. On objects that represent integers, whatever their size,
  sum, difference, negation, absolute value, and the assigning operators return without reading an
  unwritten cell, writing outside an array or overflowing an \<open>int\<close>, and their results represent the
  results over the integers.
\<close>

theorem bigint_arithmetic_exact:
  assumes "rep a m" "rep b n"
  shows "(\<exists>c. plus_big a b = Some c \<and> rep c (m + n)) \<and>
    (\<exists>c. minus_big a b = Some c \<and> rep c (m - n)) \<and>
    (\<exists>c. uminus_big a = Some c \<and> rep c (- m)) \<and>
    (\<exists>c. abs_big a = Some c \<and> rep c \<bar>m\<bar>) \<and>
    (\<exists>c. bigint_assign a b = Some c \<and> rep c n) \<and>
    (\<exists>c. plus_assign a b = Some c \<and> rep c (m + n)) \<and>
    (\<exists>c. minus_assign a b = Some c \<and> rep c (m - n)) \<and>
    (\<exists>c. incr_big a = Some c \<and> rep c (m + 1)) \<and>
    (\<exists>c. decr_big a = Some c \<and> rep c (m - 1))"
  using plus_ok [OF assms] minus_ok [OF assms] uminus_ok [OF assms(1)] abs_big_ok [OF assms(1)] assign_ok [OF assms]
    plus_assign_ok [OF assms] minus_assign_ok [OF assms] incr_ok [OF assms(1)] decr_ok [OF assms(1)]
  by blast

lemma two_limbs: "rep \<lparr>k_head = [None, Some 1, Some 5], head = 1, sign = - 2\<rparr> (- 1000000005)"
  by (rule repI [of _ "[1, 5]"]) (simp_all add: has_def normal_def sgn_of_def MAX_N_ONE_def)

text \<open>The sum of a number of two limbs and one.\<close>

theorem bigint_arithmetic_exact_witness:
  "\<exists>c. plus_big \<lparr>k_head = [None, Some 1, Some 5], head = 1, sign = - 2\<rparr> P_ONE = Some c \<and> rep c (- 1000000004)"
  using bigint_arithmetic_exact [OF two_limbs ones(1)] by simp

text \<open>
  C32: The comparison operators decide the order of the integers represented, across signs and
  lengths; in particular there is one zero.
\<close>

theorem bigint_order:
  assumes "rep a m" "rep b n"
  shows "eq_big a b = Some (m = n) \<and> neq_big a b = Some (m \<noteq> n) \<and> less_big a b = Some (m < n) \<and>
    le_big a b = Some (m \<le> n) \<and> gt_big a b = Some (m > n) \<and> ge_big a b = Some (m \<ge> n)"
  using comparisons_ok [OF assms] by simp

theorem bigint_order_witness: "less_big \<lparr>k_head = [None, Some 1, Some 5], head = 1, sign = - 2\<rparr> P_ONE = Some True"
  using bigint_order [OF two_limbs ones(1)] by simp

text \<open>
  C33: Text in and out. A numeral with an optional sign and any number of leading zeros is read as the
  integer it denotes, printed as the decimal numeral of that integer, and what is printed is read as
  a number that compares equal.
\<close>

theorem bigint_text_roundtrip:
  assumes "signed_numeral s"
  shows "\<exists>b t c. bigint_of_string s = Some b \<and> rep b (signed_val s) \<and>
    print_big b = Some t \<and> t = show_int (signed_val s) \<and>
    bigint_of_string t = Some c \<and> eq_big b c = Some True"
proof -
  obtain b where b: "bigint_of_string s = Some b" "rep b (signed_val s)" using of_string_ok [OF assms] by blast
  obtain c where c: "bigint_of_string (show_int (signed_val s)) = Some c" "rep c (signed_val s)"
    using of_string_ok [OF show_int_signed(1)] show_int_signed(2) by metis
  show ?thesis using b c print_ok [OF b(2)] comparisons_ok(1) [OF b(2) c(2)] by simp
qed

theorem bigint_text_roundtrip_witness:
  "\<exists>b t c. bigint_of_string ''-0012345678901'' = Some b \<and> rep b (- 12345678901) \<and>
    print_big b = Some t \<and> t = ''-12345678901'' \<and> bigint_of_string t = Some c \<and> eq_big b c = Some True"
proof -
  have s: "signed_numeral ''-0012345678901''" by (simp add: str_eval)
  have v: "signed_val ''-0012345678901'' = - 12345678901" by (simp add: str_eval)
  have t: "show_int (- 12345678901) = ''-12345678901''" by (simp add: show_int_canonical str_eval)
  show ?thesis using bigint_text_roundtrip [OF s] unfolding v t .
qed

text \<open>
  C34: Programs over big integers refine programs over the integers: where the statements of the test
  language have a result over mathematical integers (no literal outside \<open>int\<close> or malformed, no
  variable undeclared), they have one with big integers, with the same outcome of every check and
  variables that represent the same values.
\<close>

theorem bigint_programs_refine:
  assumes "env_rep E I" "run_int ss I = Some r"
  shows "\<exists>R. run_big ss E = Some R \<and> outcome_rep R r"
  by (rule run_refines [OF assms])

theorem bigint_programs_refine_witness:
  "\<exists>R. run_big [Decl ''a'' (Str ''999999999''), Inc ''a'', EQ ''a'' ''1000000000''] Map.empty = Some (Good R)"
proof -
  have "run_int [Decl ''a'' (Str ''999999999''), Inc ''a'', EQ ''a'' ''1000000000''] Map.empty =
      Some (Good [''a'' \<mapsto> 1000000000])"
    by (simp add: run_eval str_eval)
  from bigint_programs_refine [OF env_rep_empty this] obtain R where
    R: "run_big [Decl ''a'' (Str ''999999999''), Inc ''a'', EQ ''a'' ''1000000000''] Map.empty = Some R"
      "outcome_rep R (Good [''a'' \<mapsto> 1000000000])"
    by blast
  thus ?thesis by (cases R) auto
qed


text \<open>
  The laws of arithmetic as a client observes them: sums compare equal in any order and
  association, a difference plus the number taken away is the number, subtraction is addition of the
  negation, and the negation of a difference is the opposite difference.
\<close>

theorem bigint_laws:
  assumes "rep a m" "rep b n" "rep c k"
  shows "big.observed_equal (plus_big a b) (plus_big b a)"
    and "big.observed_equal (Option.bind (plus_big a b) (\<lambda>s. plus_big s c)) (Option.bind (plus_big b c) (plus_big a))"
    and "big.observed_equal (Option.bind (minus_big a b) (\<lambda>d. plus_big d b)) (Some a)"
    and "big.observed_equal (minus_big a b) (Option.bind (uminus_big b) (plus_big a))"
    and "big.observed_equal (Option.bind (minus_big a b) uminus_big) (minus_big b a)"
  using big.laws [OF assms] by blast+

theorem bigint_laws_witness:
  "big.observed_equal (Option.bind (minus_big P_ONE N_ONE) (\<lambda>d. plus_big d N_ONE)) (Some P_ONE)"
  by (rule bigint_laws(3) [OF ones(1) ones(2) ones(1)])

end
