(* ===== verification/Proxy.thy ===== *)
theory Proxy
  imports C_Text
begin

text \<open>
  The converter \<open>ProxyTransmission.c\<close> of proxy voting files: records in columns of fixed width become
  lines of values separated by commas.

  A buffer is the list of its cells; a pointer into one is a position. A function yields \<open>None\<close> when
  the code reads or writes outside a buffer, closes a file it has not opened, or \<open>line\<close> overflows. The
  files are the text read and the text written so far. The code is that of \<open>DEBUG\<close> 0.
\<close>

section \<open>Buffers\<close>

definition BUFFER_SZ :: nat where "BUFFER_SZ = 128"
definition YY_SZ :: nat where "YY_SZ = 8"
definition DELIMITER :: char where "DELIMITER = CHR '',''"
definition SPACE :: char where "SPACE = CHR '' ''"
definition DATE_SEPARATOR :: char where "DATE_SEPARATOR = CHR ''/''"
definition EMPTY_VOTING_DETAIL :: string where "EMPTY_VOTING_DETAIL = '',,,,,,,,,,,''"
definition EMPTY_DIRECTOR_EXCEPTION_TOTAL :: string where "EMPTY_DIRECTOR_EXCEPTION_TOTAL = '',,,,,,,''"
definition EMPTY_TOTAL :: string where "EMPTY_TOTAL = '',,,,''"

definition zeros :: "nat \<Rightarrow> string" where
  "zeros n = replicate n NUL"

fun zero_fill :: "nat \<Rightarrow> string \<Rightarrow> nat \<Rightarrow> string option" where
  "zero_fill 0 d q = Some d"
| "zero_fill (Suc n) d q = Option.bind (put_cell d q NUL) (\<lambda>d. zero_fill n d (q + 1))"

text \<open>\<open>strncpy\<close> stops reading at a NUL and pads with NULs.\<close>

fun strncpy_at :: "nat \<Rightarrow> string \<Rightarrow> nat \<Rightarrow> string \<Rightarrow> nat \<Rightarrow> string option" where
  "strncpy_at 0 d q s p = Some d"
| "strncpy_at (Suc n) d q s p = do {
     c \<leftarrow> cell_at s p;
     d \<leftarrow> put_cell d q c;
     if c = NUL then zero_fill n d (q + 1) else strncpy_at n d (q + 1) s (p + 1)
   }"

section \<open>Fields\<close>

text \<open>The entries of \<open>length\<close>, \<open>trailing_sign\<close> and \<open>date\<close>, before the entry of length 0.\<close>

type_synonym field = "nat \<times> bool \<times> bool"

definition solicitor_fields :: "field list" where
  "solicitor_fields = [(3, False, False), (6, False, False), (5, False, False), (40, False, False), (6, False, True),
     (6, False, False), (3, False, False), (7, False, False), (4, False, False)]"

definition cusip_fields :: "field list" where
  "cusip_fields = [(3, False, False), (2, False, False), (9, False, False), (1, False, False), (33, False, False),
     (7, False, False), (6, False, False), (6, False, True), (6, False, True), (6, False, True), (1, False, True)]"

definition client_fields :: "field list" where
  "client_fields = [(3, False, False), (2, False, False), (3, False, False), (10, False, False), (20, False, False),
     (34, False, False), (5, False, False), (3, False, False)]"

definition voting_fields :: "field list" where
  "voting_fields = [(1, False, False), (2, False, False), (2, False, False), (3, False, False), (10, False, False),
     (15, True, False), (1, False, False), (15, True, False), (15, True, False), (15, True, False), (1, False, False)]"

definition exception_fields :: "field list" where
  "exception_fields = [(1, False, False), (2, False, False), (3, False, False), (20, False, False), (9, False, False),
     (15, True, False), (30, False, False)]"

definition total_fields :: "field list" where
  "total_fields = [(3, False, False), (6, False, False), (9, False, False), (62, False, False)]"

definition copy_date :: "string \<Rightarrow> string \<Rightarrow> nat \<Rightarrow> string \<Rightarrow> nat \<Rightarrow> string option" where
  "copy_date d yy q s p = do {
     d \<leftarrow> strncpy_at 2 d q yy 0;
     d \<leftarrow> strncpy_at 2 d (q + 2) s p;
     d \<leftarrow> put_cell d (q + 4) DATE_SEPARATOR;
     d \<leftarrow> strncpy_at 2 d (q + 5) s (p + 2);
     d \<leftarrow> put_cell d (q + 7) DATE_SEPARATOR;
     strncpy_at 2 d (q + 8) s (p + 4)
   }"

text \<open>\<open>for (; *(q - 1) == SPACE; --q)\<close>\<close>

fun strip_spaces :: "string \<Rightarrow> nat \<Rightarrow> nat option" where
  "strip_spaces d 0 = None"
| "strip_spaces d (Suc q) = Option.bind (cell_at d q) (\<lambda>c. if c = SPACE then strip_spaces d q else Some (Suc q))"

definition copy_field :: "field \<Rightarrow> string \<Rightarrow> nat \<Rightarrow> string \<Rightarrow> string \<Rightarrow> nat \<Rightarrow> (nat \<times> string \<times> nat) option" where
  "copy_field f s p yy d q = (case f of (len, _, date) \<Rightarrow> do {
     c \<leftarrow> cell_at s p;
     if c = NUL then Some (p, d, q)
     else if date then Option.bind (copy_date d yy q s p) (\<lambda>d. Some (p + 6, d, q + 10))
     else Option.bind (strncpy_at len d q s p) (\<lambda>d. Some (p + len, d, q + len))
   })"

definition end_field :: "bool \<Rightarrow> string \<Rightarrow> nat \<Rightarrow> (string \<times> nat) option" where
  "end_field sg d q = do {
     q \<leftarrow> (if sg then (if q = 0 then None else Some (q - 1)) else Some q);
     q \<leftarrow> strip_spaces d q;
     d \<leftarrow> put_cell d q DELIMITER;
     d \<leftarrow> put_cell d (q + 1) NUL;
     Some (d, q + 1)
   }"

fun delimit_from :: "field list \<Rightarrow> string \<Rightarrow> nat \<Rightarrow> string \<Rightarrow> string \<Rightarrow> nat \<Rightarrow> (nat \<times> string \<times> nat) option" where
  "delimit_from [] s p yy d q = Some (p, d, q)"
| "delimit_from (f # fs) s p yy d q = do {
     (p, d, q) \<leftarrow> copy_field f s p yy d q;
     (d, q) \<leftarrow> end_field (fst (snd f)) d q;
     delimit_from fs s p yy d q
   }"

definition delimit :: "string \<Rightarrow> string \<Rightarrow> string \<Rightarrow> field list \<Rightarrow> string option" where
  "delimit source destination yy fs =
     Option.bind (delimit_from fs source 0 yy destination 0) (\<lambda>(p, d, q). Some d)"

section \<open>Records\<close>

record proxy =
  flag_solicitor :: bool
  flag_cusip :: bool
  flag_client :: bool
  flag_total :: bool
  ibuffer :: string
  pt_yy :: string
  pt_line :: int
  solicitor :: string
  cusip :: string
  client :: string
  obuffer :: string
  total :: string
  stdout :: string
  outfile :: string

datatype 's progress = Running 's | Failed 's

definition printed :: "string \<Rightarrow> proxy \<Rightarrow> proxy" where
  "printed m s = s\<lparr>stdout := stdout s @ m\<rparr>"

text \<open>The offending line and the message, after which \<open>outta_here\<close> is called.\<close>

definition give_up :: "string \<Rightarrow> proxy \<Rightarrow> proxy progress option" where
  "give_up m s = Some (Failed (printed (cstr (ibuffer s) @ [NL] @ m @ '' in line '' @ fmt_d (pt_line s) @ ''.  Exiting.'' @ [NL]) s))"

definition id_is :: "string \<Rightarrow> proxy \<Rightarrow> bool" where
  "id_is xx s \<longleftrightarrow> take 2 (drop 1 (ibuffer s)) = xx"

text \<open>\<open>atoi\<close> of the two characters after the first.\<close>

definition id_number :: "proxy \<Rightarrow> int" where
  "id_number s = atoi (cstr (take 2 (drop 1 (ibuffer s))))"

definition prefix_out :: "proxy \<Rightarrow> string" where
  "prefix_out s = cstr (solicitor s) @ (if flag_total s then cstr (total s) else EMPTY_TOTAL) @ cstr (cusip s) @ cstr (client s)"

definition unrecognized :: "proxy \<Rightarrow> proxy progress option" where
  "unrecognized s = give_up ''Unrecognized record ID'' s"

text \<open>The cases of the \<open>switch\<close>, from the last to the first: a case whose test fails falls through.\<close>

definition case_9 :: "proxy \<Rightarrow> proxy progress option" where
  "case_9 s = (if id_is ''00'' s then
       if flag_total s then give_up ''Multiple total record found'' s
       else do { d \<leftarrow> delimit (ibuffer s) (total s) (pt_yy s) total_fields;
              Some (Running (s\<lparr>total := d, flag_total := True\<rparr>)) }
     else unrecognized s)"

definition case_5 :: "proxy \<Rightarrow> proxy progress option" where
  "case_5 s = (let i = id_number s in
     if 1 \<le> i \<and> i \<le> 40 then
       if \<not> flag_client s then give_up ''No client record found prior to director exception total record'' s
       else do { d \<leftarrow> delimit (ibuffer s) (obuffer s) (pt_yy s) exception_fields;
              let s = s\<lparr>obuffer := d\<rparr>;
              Some (Running (s\<lparr>outfile := outfile s @ prefix_out s @ EMPTY_VOTING_DETAIL @ EMPTY_VOTING_DETAIL @ cstr (obuffer s) @ [NL]\<rparr>)) }
     else case_9 s)"

definition case_34 :: "proxy \<Rightarrow> proxy progress option" where
  "case_34 s = (let i = id_number s; initial = (take 1 (ibuffer s) = ''3'') in
     if 1 \<le> i \<and> i \<le> 20 then
       if \<not> flag_client s then give_up (''No client record found prior to '' @ (if initial then ''initial'' else ''revised'') @ '' voting detail record'') s
       else do { d \<leftarrow> delimit (ibuffer s) (obuffer s) (pt_yy s) voting_fields;
              let s = s\<lparr>obuffer := d\<rparr>;
              Some (Running (s\<lparr>outfile := outfile s @ prefix_out s @
                (if initial then cstr (obuffer s) @ EMPTY_VOTING_DETAIL else EMPTY_VOTING_DETAIL @ cstr (obuffer s)) @
                EMPTY_DIRECTOR_EXCEPTION_TOTAL @ [NL]\<rparr>)) }
     else case_5 s)"

definition case_2 :: "proxy \<Rightarrow> proxy progress option" where
  "case_2 s = (if id_is ''00'' s then
       if \<not> flag_solicitor s then give_up ''No solicitor record found prior to CUSIP record'' s
       else do { d \<leftarrow> delimit (ibuffer s) (cusip s) (pt_yy s) cusip_fields;
              Some (Running (s\<lparr>cusip := d, flag_cusip := True, flag_client := False\<rparr>)) }
     else if id_is ''50'' s then
       if \<not> flag_cusip s then give_up ''No CUSIP record found prior to client record'' s
       else do { d \<leftarrow> delimit (ibuffer s) (client s) (pt_yy s) client_fields;
              Some (Running (s\<lparr>client := d, flag_client := True\<rparr>)) }
     else case_34 s)"

definition case_1 :: "proxy \<Rightarrow> proxy progress option" where
  "case_1 s = (if id_is ''00'' s then
       if flag_solicitor s then give_up ''Multiple solicitor record found'' s
       else do { d \<leftarrow> delimit (ibuffer s) (solicitor s) (pt_yy s) solicitor_fields;
              Some (Running (s\<lparr>solicitor := d, flag_solicitor := True\<rparr>)) }
     else case_2 s)"

definition process_record :: "proxy \<Rightarrow> proxy progress option" where
  "process_record s = (let c = take 1 (ibuffer s) in
     if c = ''1'' then case_1 s
     else if c = ''2'' then case_2 s
     else if c = ''3'' \<or> c = ''4'' then case_34 s
     else if c = ''5'' then case_5 s
     else if c = ''9'' then case_9 s
     else unrecognized s)"

section \<open>The main loop\<close>

text \<open>What \<open>fgets\<close> reads with room for \<open>n\<close> characters: up to a newline.\<close>

fun fgets_line :: "nat \<Rightarrow> string \<Rightarrow> string" where
  "fgets_line 0 f = []"
| "fgets_line (Suc n) [] = []"
| "fgets_line (Suc n) (c # f) = (if c = NL then [c] else c # fgets_line n f)"

text \<open>\<open>i\<close> is the length of the string before anything is stripped.\<close>

definition strip_at :: "nat \<Rightarrow> nat \<Rightarrow> string \<Rightarrow> string option" where
  "strip_at i j b = (if i < j then None
     else Option.bind (cell_at b (i - j)) (\<lambda>c. if c = CR \<or> c = NL then put_cell b (i - j) NUL else Some b))"

definition strip_crlf :: "string \<Rightarrow> string option" where
  "strip_crlf b = (let i = length (cstr b) in Option.bind (strip_at i 1 b) (strip_at i 2))"

definition next_line :: "int \<Rightarrow> int option" where
  "next_line n = (if n < 2147483647 then Some (n + 1) else None)"

text \<open>One round of the loop, for what \<open>fgets\<close> has read.\<close>

definition one_record :: "string \<Rightarrow> proxy \<Rightarrow> proxy progress option" where
  "one_record l s = do {
     b \<leftarrow> strip_crlf (overwrite (l @ [NUL]) (ibuffer s));
     r \<leftarrow> process_record (s\<lparr>ibuffer := b\<rparr>);
     case r of
       Failed s \<Rightarrow> Some (Failed s)
     | Running s \<Rightarrow> Option.bind (next_line (pt_line s)) (\<lambda>n.
         Some (Running (s\<lparr>ibuffer := zeros BUFFER_SZ, obuffer := zeros BUFFER_SZ, pt_line := n\<rparr>)))
   }"

lemma fgets_line_drop: "f \<noteq> [] \<Longrightarrow> 0 < n \<Longrightarrow> length (drop (length (fgets_line n f)) f) < length f"
  by (cases n; cases f) auto

function records :: "string \<Rightarrow> proxy \<Rightarrow> proxy progress option" where
  "records f s = (if f = [] then Some (Running s)
     else let l = fgets_line (BUFFER_SZ - 1) f in
       Option.bind (one_record l s) (\<lambda>r. case r of
         Failed s \<Rightarrow> Some (Failed s)
       | Running s \<Rightarrow> records (drop (length l) f) s))"
  by pat_completeness auto
termination
  by (relation "measure (\<lambda>(f, s). length f)") (auto simp: BUFFER_SZ_def dest!: fgets_line_drop [of _ 127])

declare records.simps [simp del]

definition EXIT_SUCCESS :: int where "EXIT_SUCCESS = 0"
definition EXIT_FAILURE :: int where "EXIT_FAILURE = 1"

text \<open>\<open>fclose\<close> of a file that was not opened is undefined.\<close>

definition outta_here :: "bool \<Rightarrow> bool \<Rightarrow> int \<Rightarrow> proxy \<Rightarrow> (int \<times> proxy) option" where
  "outta_here in_open out_open status s = (if in_open \<and> out_open then Some (status, s) else None)"

definition proxy_start :: "string \<Rightarrow> proxy" where
  "proxy_start year = \<lparr>flag_solicitor = False, flag_cusip = False, flag_client = False, flag_total = False,
     ibuffer = zeros BUFFER_SZ, pt_yy = (overwrite (year @ [NUL]) (zeros YY_SZ))[2 := NUL], pt_line = 1,
     solicitor = zeros BUFFER_SZ, cusip = zeros BUFFER_SZ, client = zeros BUFFER_SZ, obuffer = zeros BUFFER_SZ,
     total = zeros BUFFER_SZ, stdout = [], outfile = []\<rparr>"

text \<open>
  The program, given its name and arguments, the files that can be read (their contents), whether the
  output can be written, and the year as \<open>strftime\<close> prints it.
\<close>

definition proxy_main :: "string list \<Rightarrow> (string \<Rightarrow> string option) \<Rightarrow> (string \<Rightarrow> bool) \<Rightarrow> string \<Rightarrow> (int \<times> proxy) option" where
  "proxy_main argv read_file can_write year = (let s = proxy_start year in
     if length argv \<noteq> 3 then
       outta_here False False EXIT_FAILURE (printed (''Usage: '' @ argv ! 0 @ '' <input file> <output file>'' @ [NL] @
         ''Example: '' @ argv ! 0 @ '' S457_TESTFILE_30708.TXT S457_TESTFILE_30708.CSV'' @ [NL]) s)
     else case read_file (argv ! 1) of
       None \<Rightarrow> outta_here False False EXIT_FAILURE (printed (''Unable to open '' @ [CHR 0x22] @ argv ! 1 @ [CHR 0x22] @ '' for read.  Exiting.'' @ [NL]) s)
     | Some f \<Rightarrow>
         if \<not> can_write (argv ! 2) then
           outta_here True False EXIT_FAILURE (printed (''Unable to open '' @ [CHR 0x22] @ argv ! 2 @ [CHR 0x22] @ '' for write.  Exiting.'' @ [NL]) s)
         else Option.bind (records f s) (\<lambda>r. case r of
           Failed s \<Rightarrow> outta_here True True EXIT_FAILURE s
         | Running s \<Rightarrow> outta_here True True EXIT_SUCCESS s))"

end
