(* ===== verification/Proxy_Inv.thy ===== *)
theory Proxy_Inv
  imports Proxy
begin

text \<open>
  The converter stays inside its buffers. The widths of the tables bound how far the two positions of
  \<open>delimit\<close> move, and the first character of a record, which is not a space, ends every search for
  trailing spaces.
\<close>

section \<open>Copying\<close>

text \<open>What a write at or after \<open>q\<close> keeps: the length, and the cells before.\<close>

definition keeps :: "nat \<Rightarrow> string \<Rightarrow> string \<Rightarrow> bool" where
  "keeps q d d' \<longleftrightarrow> length d' = length d \<and> (\<forall>i<q. d' ! i = d ! i)"

lemma keeps_refl: "keeps q d d"
  by (simp add: keeps_def)

lemma keeps_trans: "keeps q d e \<Longrightarrow> q \<le> r \<Longrightarrow> keeps r e f \<Longrightarrow> keeps q d f"
  by (simp add: keeps_def)

lemma put_cell_keeps: "q < length d \<Longrightarrow> \<exists>d'. put_cell d q c = Some d' \<and> keeps q d d' \<and> d' ! q = c"
  by (simp add: put_cell_def keeps_def)

lemma zero_fill_keeps: "q + n \<le> length d \<Longrightarrow> \<exists>d'. zero_fill n d q = Some d' \<and> keeps q d d'"
proof (induction n arbitrary: d q)
  case (Suc n)
  obtain e where e: "put_cell d q NUL = Some e" "keeps q d e" using put_cell_keeps [of q d NUL] Suc.prems by auto
  have "q + 1 + n \<le> length e" using e(2) Suc.prems by (simp add: keeps_def)
  from Suc.IH [OF this] obtain f where "zero_fill n e (q + 1) = Some f" "keeps (q + 1) e f" by blast
  thus ?case using e keeps_trans [OF e(2), of "q + 1" f] by simp
qed (simp add: keeps_refl)

lemma strncpy_keeps:
  "q + n \<le> length d \<Longrightarrow> p + n \<le> length s \<Longrightarrow>
    \<exists>d'. strncpy_at n d q s p = Some d' \<and> keeps q d d' \<and> (0 < n \<longrightarrow> d' ! q = s ! p)"
proof (induction n arbitrary: d q p)
  case (Suc n)
  have c: "cell_at s p = Some (s ! p)" using Suc.prems(2) by (simp add: cell_at_def)
  obtain e where e: "put_cell d q (s ! p) = Some e" "keeps q d e" "e ! q = s ! p"
    using put_cell_keeps [of q d "s ! p"] Suc.prems by auto
  have l: "q + 1 + n \<le> length e" "p + 1 + n \<le> length s" using e(2) Suc.prems by (simp_all add: keeps_def)
  have "\<exists>f. strncpy_at (Suc n) d q s p = Some f \<and> keeps (q + 1) e f"
  proof (cases "s ! p = NUL")
    case True
    thus ?thesis using c e(1) zero_fill_keeps [OF l(1)] by simp
  next
    case False
    thus ?thesis using c e(1) Suc.IH [OF l] by auto
  qed
  then obtain f where f: "strncpy_at (Suc n) d q s p = Some f" "keeps (q + 1) e f" by blast
  hence "keeps q d f" "f ! q = s ! p" using e keeps_trans [OF e(2), of "q + 1" f] by (auto simp: keeps_def)
  thus ?case using f by blast
qed (simp add: keeps_refl)

lemma copy_date_keeps:
  assumes "q + 10 \<le> length d" "p + 6 \<le> length s" "2 \<le> length yy"
  shows "\<exists>d'. copy_date d yy q s p = Some d' \<and> keeps q d d'"
proof -
  obtain d1 where d1: "strncpy_at 2 d q yy 0 = Some d1" "keeps q d d1"
    using strncpy_keeps [of q 2 d 0 yy] assms by auto
  obtain d2 where d2: "strncpy_at 2 d1 (q + 2) s p = Some d2" "keeps (q + 2) d1 d2"
    using strncpy_keeps [of "q + 2" 2 d1 p s] assms d1(2) by (auto simp: keeps_def)
  obtain d3 where d3: "put_cell d2 (q + 4) DATE_SEPARATOR = Some d3" "keeps (q + 4) d2 d3"
    using put_cell_keeps [of "q + 4" d2 DATE_SEPARATOR] assms d1(2) d2(2) by (auto simp: keeps_def)
  obtain d4 where d4: "strncpy_at 2 d3 (q + 5) s (p + 2) = Some d4" "keeps (q + 5) d3 d4"
    using strncpy_keeps [of "q + 5" 2 d3 "p + 2" s] assms d1(2) d2(2) d3(2) by (auto simp: keeps_def)
  obtain d5 where d5: "put_cell d4 (q + 7) DATE_SEPARATOR = Some d5" "keeps (q + 7) d4 d5"
    using put_cell_keeps [of "q + 7" d4 DATE_SEPARATOR] assms d1(2) d2(2) d3(2) d4(2) by (auto simp: keeps_def)
  obtain d6 where d6: "strncpy_at 2 d5 (q + 8) s (p + 4) = Some d6" "keeps (q + 8) d5 d6"
    using strncpy_keeps [of "q + 8" 2 d5 "p + 4" s] assms d1(2) d2(2) d3(2) d4(2) d5(2) by (auto simp: keeps_def)
  have "keeps q d d6" using d1(2) d2(2) d3(2) d4(2) d5(2) d6(2) by (simp add: keeps_def)
  thus ?thesis using d1 d2 d3 d4 d5 d6 by (simp add: copy_date_def)
qed

section \<open>Widths\<close>

text \<open>How far a field moves the position in the record, and in the output.\<close>

definition width_in :: "field \<Rightarrow> nat" where
  "width_in f = (case f of (len, _, date) \<Rightarrow> if date then 6 else len)"

definition width_out :: "field \<Rightarrow> nat" where
  "width_out f = (case f of (len, _, date) \<Rightarrow> if date then 10 else len)"

definition total_in :: "field list \<Rightarrow> nat" where "total_in fs = sum_list (map width_in fs)"
definition total_out :: "field list \<Rightarrow> nat" where "total_out fs = sum_list (map (\<lambda>f. width_out f + 1) fs)"

lemma total_simps: "total_in [] = 0" "total_in (f # fs) = width_in f + total_in fs"
  "total_out [] = 0" "total_out (f # fs) = width_out f + 1 + total_out fs"
  by (simp_all add: total_in_def total_out_def)

lemma copy_field_ok:
  assumes "q + width_out f \<le> length d" "p + width_in f \<le> length s" "p < length s" "2 \<le> length yy"
  shows "\<exists>p' d' q'. copy_field f s p yy d q = Some (p', d', q') \<and> keeps q d d' \<and>
    p \<le> p' \<and> p' \<le> p + width_in f \<and> q \<le> q' \<and> q' \<le> q + width_out f"
proof -
  obtain len sg dt where f: "f = (len, sg, dt)" by (cases f) auto
  have c: "cell_at s p = Some (s ! p)" using assms(3) by (simp add: cell_at_def)
  show ?thesis
  proof (cases "s ! p = NUL")
    case True
    thus ?thesis using c by (simp add: copy_field_def f keeps_refl)
  next
    case False
    show ?thesis
    proof (cases dt)
      case True
      obtain e where "copy_date d yy q s p = Some e" "keeps q d e"
        using copy_date_keeps [of q d p s yy] assms f True by (auto simp: width_in_def width_out_def)
      thus ?thesis using c False True by (simp add: copy_field_def f width_in_def width_out_def)
    next
      case nd: False
      obtain e where "strncpy_at len d q s p = Some e" "keeps q d e"
        using strncpy_keeps [of q len d p s] assms f nd by (auto simp: width_in_def width_out_def)
      thus ?thesis using c False nd by (simp add: copy_field_def f width_in_def width_out_def)
    qed
  qed
qed

lemma strip_spaces_ok:
  "0 < q \<Longrightarrow> q \<le> length d \<Longrightarrow> d ! 0 \<noteq> SPACE \<Longrightarrow> \<exists>q'. strip_spaces d q = Some q' \<and> 0 < q' \<and> q' \<le> q"
proof (induction q)
  case (Suc q)
  have c: "cell_at d q = Some (d ! q)" using Suc.prems by (simp add: cell_at_def)
  show ?case
  proof (cases "d ! q = SPACE")
    case True
    hence "0 < q" using Suc.prems(3) by (cases q) auto
    thus ?thesis using Suc c True by fastforce
  qed (use c in simp)
qed simp

lemma end_field_ok:
  assumes "1 \<le> q" "sg \<Longrightarrow> 2 \<le> q" "q + 1 < length d" "d ! 0 \<noteq> SPACE"
  shows "\<exists>d' q'. end_field sg d q = Some (d', q') \<and> length d' = length d \<and> d' ! 0 = d ! 0 \<and> 2 \<le> q' \<and> q' \<le> q + 1"
proof -
  define r where "r = (if sg then q - 1 else q)"
  have r: "0 < r" "r \<le> q" "(if sg then (if q = 0 then None else Some (q - 1)) else Some q) = Some r"
    using assms(1,2) by (auto simp: r_def)
  obtain t where t: "strip_spaces d r = Some t" "0 < t" "t \<le> r"
    using strip_spaces_ok [of r d] r(1,2) assms(3,4) by auto
  obtain e where e: "put_cell d t DELIMITER = Some e" "keeps t d e"
    using put_cell_keeps [of t d DELIMITER] t(3) r(2) assms(3) by auto
  obtain g where g: "put_cell e (t + 1) NUL = Some g" "keeps (t + 1) e g"
    using put_cell_keeps [of "t + 1" e NUL] t(3) r(2) assms(3) e(2) by (auto simp: keeps_def)
  have "length g = length d" "g ! 0 = d ! 0" using e(2) g(2) t(2) by (auto simp: keeps_def)
  thus ?thesis using r t e(1) g(1) by (simp add: end_field_def)
qed

lemma delimit_from_ok:
  "2 \<le> q \<Longrightarrow> q + total_out fs < length d \<Longrightarrow> p + total_in fs < length s \<Longrightarrow> 2 \<le> length yy \<Longrightarrow> d ! 0 \<noteq> SPACE \<Longrightarrow>
    \<exists>p' d' q'. delimit_from fs s p yy d q = Some (p', d', q') \<and> length d' = length d"
proof (induction fs arbitrary: p d q)
  case (Cons f fs)
  obtain p1 d1 q1 where c: "copy_field f s p yy d q = Some (p1, d1, q1)" "keeps q d d1"
    "p1 \<le> p + width_in f" "q \<le> q1" "q1 \<le> q + width_out f"
    using copy_field_ok [of q f d p s yy] Cons.prems by (auto simp: total_simps)
  have "d1 ! 0 \<noteq> SPACE" "length d1 = length d" using c(2) Cons.prems(1,5) by (auto simp: keeps_def)
  then obtain d2 q2 where e: "end_field (fst (snd f)) d1 q1 = Some (d2, q2)" "length d2 = length d" "d2 ! 0 \<noteq> SPACE"
    "2 \<le> q2" "q2 \<le> q1 + 1"
    using end_field_ok [of q1 "fst (snd f)" d1] c(4,5) Cons.prems(1,2) by (auto simp: total_simps)
  have "\<exists>p' d' q'. delimit_from fs s p1 yy d2 q2 = Some (p', d', q') \<and> length d' = length d2"
    by (rule Cons.IH) (use Cons.prems c e in \<open>simp_all add: total_simps\<close>)
  thus ?case using c(1) e(1,2) by simp
qed simp

text \<open>The tables: the first field is plain, and record and output fit the buffers.\<close>

definition fits :: "field list \<Rightarrow> bool" where
  "fits fs \<longleftrightarrow> (case fs of [] \<Rightarrow> False | (len, sg, dt) # _ \<Rightarrow> 0 < len \<and> \<not> sg \<and> \<not> dt) \<and>
     total_in fs < BUFFER_SZ \<and> total_out fs < BUFFER_SZ"

lemma tables_fit: "fits solicitor_fields" "fits cusip_fields" "fits client_fields" "fits voting_fields"
  "fits exception_fields" "fits total_fields"
  by (simp_all add: fits_def solicitor_fields_def cusip_fields_def client_fields_def voting_fields_def
      exception_fields_def total_fields_def total_in_def total_out_def width_in_def width_out_def BUFFER_SZ_def)

lemma delimit_ok:
  assumes "fits fs" "length s = BUFFER_SZ" "length d = BUFFER_SZ" "2 \<le> length yy" "s ! 0 \<noteq> NUL" "s ! 0 \<noteq> SPACE"
  shows "\<exists>d'. delimit s d yy fs = Some d' \<and> length d' = BUFFER_SZ"
proof -
  obtain len gs where f: "fs = (len, False, False) # gs" "0 < len"
    using assms(1) by (auto simp: fits_def split: list.splits)
  have w: "len + total_in gs < BUFFER_SZ" "len + 1 + total_out gs < BUFFER_SZ"
    using assms(1) by (simp_all add: fits_def f total_simps width_in_def width_out_def)
  have c: "cell_at s 0 = Some (s ! 0)" using assms(2) by (simp add: cell_at_def BUFFER_SZ_def)
  obtain e where e: "strncpy_at len d 0 s 0 = Some e" "length e = BUFFER_SZ" "e ! 0 = s ! 0"
    using strncpy_keeps [of 0 len d 0 s] w assms(2,3) f(2) by (auto simp: keeps_def)
  obtain d1 q1 where d1: "end_field False e len = Some (d1, q1)" "length d1 = BUFFER_SZ" "d1 ! 0 \<noteq> SPACE" "2 \<le> q1" "q1 \<le> len + 1"
    using end_field_ok [of len False e] f(2) w(2) e assms(6) by auto
  obtain p' d' q' where "delimit_from gs s len yy d1 q1 = Some (p', d', q')" "length d' = BUFFER_SZ"
    using delimit_from_ok [of q1 gs d1 len s yy] d1 w assms(2,4) by auto
  thus ?thesis using c e(1) d1(1) assms(5) by (simp add: delimit_def f(1) copy_field_def)
qed

section \<open>The loop\<close>

definition buffers_ok :: "proxy \<Rightarrow> bool" where
  "buffers_ok s \<longleftrightarrow> length (ibuffer s) = BUFFER_SZ \<and> length (solicitor s) = BUFFER_SZ \<and> length (cusip s) = BUFFER_SZ \<and>
     length (client s) = BUFFER_SZ \<and> length (obuffer s) = BUFFER_SZ \<and> length (total s) = BUFFER_SZ \<and> 2 \<le> length (pt_yy s)"

text \<open>What a step keeps: the buffers, and the line number.\<close>

definition progress_ok :: "int \<Rightarrow> proxy progress \<Rightarrow> bool" where
  "progress_ok n r \<longleftrightarrow> (case r of Failed s \<Rightarrow> True | Running s \<Rightarrow> buffers_ok s \<and> pt_line s = n)"

lemma cases_ok:
  assumes "buffers_ok s" "ibuffer s ! 0 \<noteq> NUL" "ibuffer s ! 0 \<noteq> SPACE"
  shows "ok (progress_ok (pt_line s)) (case_9 s)" "ok (progress_ok (pt_line s)) (case_5 s)"
    "ok (progress_ok (pt_line s)) (case_34 s)" "ok (progress_ok (pt_line s)) (case_2 s)"
    "ok (progress_ok (pt_line s)) (case_1 s)"
proof -
  have d: "\<exists>d'. delimit (ibuffer s) d (pt_yy s) fs = Some d' \<and> length d' = BUFFER_SZ"
    if "fits fs" "length d = BUFFER_SZ" for fs d
    by (rule delimit_ok) (use assms that in \<open>auto simp: buffers_ok_def\<close>)
  note b = assms(1) [unfolded buffers_ok_def]
  have g: "ok (progress_ok (pt_line s)) (give_up m s)" for m
    by (simp add: give_up_def progress_ok_def)
  show 9: "ok (progress_ok (pt_line s)) (case_9 s)"
    using d [OF tables_fit(6), of "total s"] b g
    by (auto simp: case_9_def unrecognized_def progress_ok_def buffers_ok_def)
  show 5: "ok (progress_ok (pt_line s)) (case_5 s)"
    using d [OF tables_fit(5), of "obuffer s"] b g 9
    by (auto simp: case_5_def progress_ok_def buffers_ok_def Let_def)
  show 34: "ok (progress_ok (pt_line s)) (case_34 s)"
    using d [OF tables_fit(4), of "obuffer s"] b g 5
    by (auto simp: case_34_def progress_ok_def buffers_ok_def Let_def)
  show 2: "ok (progress_ok (pt_line s)) (case_2 s)"
    using d [OF tables_fit(2), of "cusip s"] d [OF tables_fit(3), of "client s"] b g 34
    by (auto simp: case_2_def progress_ok_def buffers_ok_def)
  show "ok (progress_ok (pt_line s)) (case_1 s)"
    using d [OF tables_fit(1), of "solicitor s"] b g 2
    by (auto simp: case_1_def progress_ok_def buffers_ok_def)
qed

lemma process_record_ok: "buffers_ok s \<Longrightarrow> ok (progress_ok (pt_line s)) (process_record s)"
proof -
  assume b: "buffers_ok s"
  have t: "ibuffer s ! 0 \<noteq> NUL \<and> ibuffer s ! 0 \<noteq> SPACE" if "take 1 (ibuffer s) = [c]" "c \<noteq> NUL" "c \<noteq> SPACE" for c
    using that by (cases "ibuffer s") auto
  have g: "ok (progress_ok (pt_line s)) (unrecognized s)"
    by (simp add: unrecognized_def give_up_def progress_ok_def)
  show ?thesis
    using g t [of "CHR ''1''"] t [of "CHR ''2''"] t [of "CHR ''3''"] t [of "CHR ''4''"] t [of "CHR ''5''"] t [of "CHR ''9''"]
      cases_ok [OF b]
    by (auto simp: process_record_def Let_def NUL_def SPACE_def)
qed

lemma strip_at_ok: "j \<le> i \<Longrightarrow> i - j < length b \<Longrightarrow> \<exists>b'. strip_at i j b = Some b' \<and> length b' = length b"
  by (simp add: strip_at_def cell_at_def put_cell_def)

lemma strip_crlf_ok: "2 \<le> length (cstr b) \<Longrightarrow> \<exists>b'. strip_crlf b = Some b' \<and> length b' = length b"
proof -
  assume l: "2 \<le> length (cstr b)"
  have "length (cstr b) \<le> length b" by (simp add: cstr_def length_takeWhile_le)
  hence m: "length (cstr b) - 1 < length b" "length (cstr b) - 2 < length b" using l by linarith+
  obtain b1 where b1: "strip_at (length (cstr b)) 1 b = Some b1" "length b1 = length b"
    using strip_at_ok [OF _ m(1)] l by auto
  obtain b2 where "strip_at (length (cstr b)) 2 b1 = Some b2" "length b2 = length b"
    using strip_at_ok [of 2 "length (cstr b)" b1] l m(2) b1(2) by auto
  thus ?thesis using b1 by (simp add: strip_crlf_def Let_def)
qed

lemma cstr_read: "cstr (overwrite (l @ [NUL]) b) = cstr l"
  by (simp add: overwrite_def cstr_NUL)

lemma one_record_ok:
  assumes "buffers_ok s" "length l < BUFFER_SZ" "2 \<le> length (cstr l)" "pt_line s < 2147483647"
  shows "ok (progress_ok (pt_line s + 1)) (one_record l s)"
proof -
  have "length (overwrite (l @ [NUL]) (ibuffer s)) = BUFFER_SZ"
    using assms(1,2) by (simp add: overwrite_def buffers_ok_def)
  moreover have "2 \<le> length (cstr (overwrite (l @ [NUL]) (ibuffer s)))" using assms(3) by (simp add: cstr_read)
  ultimately obtain b where b: "strip_crlf (overwrite (l @ [NUL]) (ibuffer s)) = Some b" "length b = BUFFER_SZ"
    using strip_crlf_ok by metis
  have "buffers_ok (s\<lparr>ibuffer := b\<rparr>)" using assms(1) b(2) by (simp add: buffers_ok_def)
  from process_record_ok [OF this] obtain r where r: "process_record (s\<lparr>ibuffer := b\<rparr>) = Some r" "progress_ok (pt_line s) r"
    by (auto simp: ok_iff)
  show ?thesis using b(1) r assms(4)
    by (cases r) (auto simp: one_record_def progress_ok_def next_line_def buffers_ok_def zeros_def)
qed

text \<open>The pieces of the file that \<open>fgets\<close> delivers.\<close>

function pieces :: "string \<Rightarrow> string list" where
  "pieces f = (if f = [] then [] else let l = fgets_line (BUFFER_SZ - 1) f in l # pieces (drop (length l) f))"
  by pat_completeness auto
termination
  by (relation "measure length") (auto simp: BUFFER_SZ_def dest!: fgets_line_drop [of _ 127])

declare pieces.simps [simp del]

lemma fgets_line_length: "length (fgets_line n f) \<le> n"
  by (induction n f rule: fgets_line.induct) auto

lemma records_ok:
  assumes "buffers_ok s" "\<forall>l\<in>set (pieces f). 2 \<le> length (cstr l)" "pt_line s + int (length (pieces f)) \<le> 2147483647"
  shows "\<exists>r. records f s = Some r"
  using assms
proof (induction f s rule: records.induct)
  case (1 f s)
  show ?case
  proof (cases "f = []")
    case True
    thus ?thesis by (simp add: records.simps)
  next
    case False
    let ?l = "fgets_line (BUFFER_SZ - 1) f"
    have p: "pieces f = ?l # pieces (drop (length ?l) f)" using False by (simp add: pieces.simps [of f] Let_def)
    have len: "length ?l < BUFFER_SZ"
      using fgets_line_length [of "BUFFER_SZ - 1" f] by (simp add: BUFFER_SZ_def)
    have "ok (progress_ok (pt_line s + 1)) (one_record ?l s)"
      by (rule one_record_ok) (use "1.prems" p len in auto)
    then obtain r where r: "one_record ?l s = Some r" "progress_ok (pt_line s + 1) r" by (auto simp: ok_iff)
    show ?thesis
    proof (cases r)
      case (Failed t)
      thus ?thesis using r(1) False by (simp add: records.simps [of f s] Let_def)
    next
      case (Running t)
      have "\<exists>x. records (drop (length ?l) f) t = Some x"
        by (rule "1.IH" [OF False refl r(1) Running]) (use "1.prems" p r(2) Running in \<open>auto simp: progress_ok_def\<close>)
      thus ?thesis using r(1) False Running by (simp add: records.simps [of f s] Let_def)
    qed
  qed
qed

lemma proxy_start_ok: "length year = 4 \<Longrightarrow> buffers_ok (proxy_start year) \<and> pt_line (proxy_start year) = 1"
  by (simp add: buffers_ok_def proxy_start_def zeros_def overwrite_def YY_SZ_def)

end
