(* ===== verification/Proxy_Csv.thy ===== *)
theory Proxy_Csv
  imports Proxy_Inv
begin

text \<open>
  What \<open>delimit\<close> computes for a record that fills all its columns: the columns, without the trailing
  sign and trailing spaces, dates with century and separators, each followed by a comma.
\<close>

section \<open>The reference\<close>

definition rstrip :: "string \<Rightarrow> string" where
  "rstrip s = rev (dropWhile (\<lambda>c. c = SPACE) (rev s))"

definition field_text :: "string \<Rightarrow> field \<Rightarrow> string \<Rightarrow> string" where
  "field_text yy f c = (case f of (_, sg, date) \<Rightarrow>
     let t = (if date then yy @ take 2 c @ ''/'' @ take 2 (drop 2 c) @ ''/'' @ drop 4 c else c)
     in rstrip (if sg then butlast t else t))"

fun csv :: "string \<Rightarrow> field list \<Rightarrow> string \<Rightarrow> string" where
  "csv yy [] t = []"
| "csv yy (f # fs) t = field_text yy f (take (width_in f) t) @ '','' @ csv yy fs (drop (width_in f) t)"

section \<open>Copying, by parts of the buffers\<close>

lemma rstrip_append: "a = [] \<or> last a \<noteq> SPACE \<Longrightarrow> rstrip (a @ c) = a @ rstrip c"
proof -
  assume a: "a = [] \<or> last a \<noteq> SPACE"
  have "dropWhile (\<lambda>c. c = SPACE) (rev c @ rev a) = dropWhile (\<lambda>c. c = SPACE) (rev c) @ rev a"
  proof (cases "\<forall>x\<in>set c. x = SPACE")
    case True
    have "dropWhile (\<lambda>c. c = SPACE) (rev a) = rev a" using a by (cases a rule: rev_cases) auto
    moreover have "dropWhile (\<lambda>c. c = SPACE) (rev c @ rev a) = dropWhile (\<lambda>c. c = SPACE) (rev a)"
      by (rule dropWhile_append2) (use True in simp)
    moreover have "dropWhile (\<lambda>c. c = SPACE) (rev c) = []" using True by (simp add: dropWhile_eq_Nil_conv)
    ultimately show ?thesis by simp
  next
    case False
    thus ?thesis by (auto simp: dropWhile_append1)
  qed
  thus ?thesis by (simp add: rstrip_def)
qed

lemma rstrip_length: "length (rstrip s) \<le> length s"
  using length_dropWhile_le [of _ "rev s"] by (simp add: rstrip_def)

lemma rstrip_nonempty: "c \<noteq> [] \<Longrightarrow> hd c \<noteq> SPACE \<Longrightarrow> rstrip c \<noteq> []"
  by (cases c) (auto simp: rstrip_def dropWhile_eq_Nil_conv)

lemma strncpy_whole:
  "length c = n \<Longrightarrow> NUL \<notin> set c \<Longrightarrow> n \<le> length b \<Longrightarrow>
    strncpy_at n (a @ b) (length a) (x @ c @ y) (length x) = Some (a @ c @ drop n b)"
proof (induction n arbitrary: a b c x)
  case (Suc n)
  obtain c0 cs where c: "c = c0 # cs" "length cs = n" "c0 \<noteq> NUL" "NUL \<notin> set cs" using Suc.prems by (cases c) auto
  obtain b0 bs where b: "b = b0 # bs" "n \<le> length bs" using Suc.prems(3) by (cases b) auto
  have "strncpy_at n ((a @ [c0]) @ bs) (length (a @ [c0])) ((x @ [c0]) @ cs @ y) (length (x @ [c0])) =
      Some ((a @ [c0]) @ cs @ drop n bs)"
    by (rule Suc.IH [OF c(2,4) b(2)])
  thus ?case using c b by (simp add: cell_at_def put_cell_def)
qed simp

lemma cell_next: "cell_at (a @ b0 # bs) (length a) = Some b0"
  by (simp add: cell_at_def)

lemma two_cells: "2 \<le> length b \<Longrightarrow> \<exists>u v w. b = u # v # w"
  by (cases b; cases "tl b") auto

lemma strncpy_two:
  assumes "c0 \<noteq> NUL" "c1 \<noteq> NUL" "2 \<le> length b" "q = length a" "p = length x"
  shows "strncpy_at 2 (a @ b) q (x @ c0 # c1 # y) p = Some (a @ [c0, c1] @ drop 2 b)"
  using strncpy_whole [of "[c0, c1]" 2 b a x y] assms by simp

lemma copy_date_whole:
  assumes "length c = 6" "NUL \<notin> set c" "10 \<le> length b" "y0 \<noteq> NUL" "y1 \<noteq> NUL"
  shows "copy_date (a @ b) (y0 # y1 # yr) (length a) (x @ c @ y) (length x) =
    Some (a @ [y0, y1] @ take 2 c @ ''/'' @ take 2 (drop 2 c) @ ''/'' @ drop 4 c @ drop 10 b)"
proof -
  obtain c0 c1 c2 c3 c4 c5 where c: "c = [c0, c1, c2, c3, c4, c5]"
    using assms(1) by (auto simp: numeral_eq_Suc length_Suc_conv)
  have n: "c0 \<noteq> NUL" "c1 \<noteq> NUL" "c2 \<noteq> NUL" "c3 \<noteq> NUL" "c4 \<noteq> NUL" "c5 \<noteq> NUL" using assms(2) c by auto
  obtain b0 b1 b2 b3 b4 b5 b6 b7 b8 b9 bs where b: "b = [b0, b1, b2, b3, b4, b5, b6, b7, b8, b9] @ bs"
    using assms(3) by (auto simp: numeral_eq_Suc Suc_le_length_iff)
  have s: "DATE_SEPARATOR = CHR ''/''" by (simp add: DATE_SEPARATOR_def)
  have 1: "strncpy_at 2 (a @ b) (length a) (y0 # y1 # yr) 0 = Some ((a @ [y0, y1]) @ drop 2 b)"
    using strncpy_two [of y0 y1 b "length a" a 0 "[]" yr] assms(3-5) by simp
  have 2: "strncpy_at 2 ((a @ [y0, y1]) @ drop 2 b) (length a + 2) (x @ c @ y) (length x) =
      Some ((a @ [y0, y1, c0, c1]) @ b4 # drop 5 b)"
    using strncpy_two [of c0 c1 "drop 2 b" "length a + 2" "a @ [y0, y1]" "length x" x "c2 # c3 # c4 # c5 # y"] n b c by simp
  have 3: "put_cell ((a @ [y0, y1, c0, c1]) @ b4 # drop 5 b) (length a + 4) DATE_SEPARATOR =
      Some ((a @ [y0, y1, c0, c1, CHR ''/'']) @ drop 5 b)"
    using put_next [of "length a + 4" "a @ [y0, y1, c0, c1]" b4 "drop 5 b"] s by simp
  have 4: "strncpy_at 2 ((a @ [y0, y1, c0, c1, CHR ''/'']) @ drop 5 b) (length a + 5) (x @ c @ y) (length x + 2) =
      Some ((a @ [y0, y1, c0, c1, CHR ''/'', c2, c3]) @ b7 # drop 8 b)"
    using strncpy_two [of c2 c3 "drop 5 b" "length a + 5" "a @ [y0, y1, c0, c1, CHR ''/'']" "length x + 2" "x @ [c0, c1]" "c4 # c5 # y"] n b c by simp
  have 5: "put_cell ((a @ [y0, y1, c0, c1, CHR ''/'', c2, c3]) @ b7 # drop 8 b) (length a + 7) DATE_SEPARATOR =
      Some ((a @ [y0, y1, c0, c1, CHR ''/'', c2, c3, CHR ''/'']) @ drop 8 b)"
    using put_next [of "length a + 7" "a @ [y0, y1, c0, c1, CHR ''/'', c2, c3]" b7 "drop 8 b"] s by simp
  have 6: "strncpy_at 2 ((a @ [y0, y1, c0, c1, CHR ''/'', c2, c3, CHR ''/'']) @ drop 8 b) (length a + 8) (x @ c @ y) (length x + 4) =
      Some ((a @ [y0, y1, c0, c1, CHR ''/'', c2, c3, CHR ''/'', c4, c5]) @ drop 10 b)"
    using strncpy_two [of c4 c5 "drop 8 b" "length a + 8" "a @ [y0, y1, c0, c1, CHR ''/'', c2, c3, CHR ''/'']" "length x + 4" "x @ [c0, c1, c2, c3]" y] n b c by simp
  show ?thesis unfolding copy_date_def 1 bind.bind_lunit 2 3 4 5 6 by (simp add: c)
qed

lemma strip_spaces_rstrip:
  "rstrip a \<noteq> [] \<Longrightarrow> strip_spaces (a @ b) (length a) = Some (length (rstrip a))"
proof (induction a arbitrary: b rule: rev_induct)
  case (snoc c a)
  show ?case
  proof (cases "c = SPACE")
    case True
    hence r: "rstrip (a @ [c]) = rstrip a" by (simp add: rstrip_def)
    thus ?thesis using snoc True by (simp add: cell_at_def)
  next
    case False
    hence "rstrip (a @ [c]) = a @ [c]" by (simp add: rstrip_def)
    thus ?thesis using False by (simp add: cell_at_def)
  qed
qed (simp add: rstrip_def)

lemma rstrip_prefix: "\<exists>e. a = rstrip a @ e"
  unfolding rstrip_def by (metis rev_append rev_rev_ident takeWhile_dropWhile_id)

text \<open>The end of a field: everything after it in the output is lost.\<close>

lemma end_field_whole:
  assumes "rstrip (if sg then butlast a else a) \<noteq> []" "2 \<le> length b"
  shows "\<exists>b'. end_field sg (a @ b) (length a) =
    Some (rstrip (if sg then butlast a else a) @ '','' @ NUL # b', length (rstrip (if sg then butlast a else a)) + 1) \<and>
    length (rstrip (if sg then butlast a else a) @ '','' @ NUL # b') = length (a @ b)"
proof -
  define a1 where "a1 = (if sg then butlast a else a)"
  have ne: "a \<noteq> []" using assms(1) by (auto simp: rstrip_def)
  obtain b1 where b1: "a @ b = a1 @ b1" "2 \<le> length b1" "length a1 = (if sg then length a - 1 else length a)"
    using ne assms(2) that [of "last a # b"] that [of b] by (cases sg) (auto simp: a1_def)
  have q: "(if sg then if length a = 0 then None else Some (length a - 1) else Some (length a)) = Some (length a1)"
    using ne b1(3) by simp
  obtain e where e: "a1 = rstrip a1 @ e" using rstrip_prefix by blast
  obtain u v w where w: "e @ b1 = u # v # w" using two_cells [of "e @ b1"] b1(2) by auto
  have d: "a @ b = rstrip a1 @ u # v # w" using e b1(1) w by (metis append_assoc)
  have s: "strip_spaces (a @ b) (length a1) = Some (length (rstrip a1))"
    unfolding b1(1) by (rule strip_spaces_rstrip) (use assms(1) in \<open>simp add: a1_def\<close>)
  have p1: "put_cell (a @ b) (length (rstrip a1)) DELIMITER = Some ((rstrip a1 @ '','') @ v # w)"
    unfolding d put_next [OF refl] by (simp add: DELIMITER_def)
  have p2: "put_cell ((rstrip a1 @ '','') @ v # w) (length (rstrip a1) + 1) NUL = Some (rstrip a1 @ '','' @ NUL # w)"
    using put_next [of "length (rstrip a1) + 1" "rstrip a1 @ '',''" v w NUL] by simp
  have "length (rstrip a1 @ '','' @ NUL # w) = length (a @ b)" unfolding d by simp
  thus ?thesis unfolding end_field_def q bind.bind_lunit s p1 p2 a1_def [symmetric] by auto
qed

section \<open>The fields of a record\<close>

text \<open>
  From \<open>a\<close>, what has been written, to \<open>a @ csv\<close>. A record that fills its columns has no NUL in them;
  the first column, where nothing has been written, does not start with a space and has no sign.
\<close>

definition plain_start :: "string \<Rightarrow> field list \<Rightarrow> string \<Rightarrow> bool" where
  "plain_start a fs t \<longleftrightarrow> (if a = [] then (case fs of [] \<Rightarrow> True | (len, sg, date) # _ \<Rightarrow> \<not> sg \<and> \<not> date \<and> 0 < len \<and> hd t \<noteq> SPACE)
     else last a \<noteq> SPACE)"

definition proper :: "field list \<Rightarrow> bool" where
  "proper fs \<longleftrightarrow> (\<forall>(len, sg, date)\<in>set fs. 0 < len)"

lemma copy_field_whole:
  assumes "length c = width_in f" "NUL \<notin> set c" "0 < width_in f" "width_out f \<le> length b" "y0 \<noteq> NUL" "y1 \<noteq> NUL"
  shows "\<exists>e. copy_field f (x @ c @ y) (length x) (y0 # y1 # yr) (a @ b) (length a) =
      Some (length x + width_in f, (a @ e) @ drop (width_out f) b, length (a @ e)) \<and> e \<noteq> [] \<and> hd e = (if snd (snd f) then y0 else hd c) \<and>
      length e = width_out f \<and>
      field_text [y0, y1] f c = rstrip (if fst (snd f) then butlast e else e)"
proof -
  obtain len sg dt where f: "f = (len, sg, dt)" by (cases f) auto
  have ne: "c \<noteq> []" using assms(1,3) by auto
  have at: "cell_at (x @ c @ y) (length x) = Some (hd c)"
    using ne by (cases c) (simp_all add: cell_at_def)
  have nn: "hd c \<noteq> NUL" using ne assms(2) by (cases c) auto
  show ?thesis
  proof (cases dt)
    case True
    let ?e = "[y0, y1] @ take 2 c @ ''/'' @ take 2 (drop 2 c) @ ''/'' @ drop 4 c"
    have c6: "length c = 6" and b: "10 \<le> length b" using assms(1,4) by (simp_all add: f True width_in_def width_out_def)
    have "length ?e = 10" using c6 by simp
    thus ?thesis using at nn True copy_date_whole [OF c6 assms(2) b assms(5,6), of a yr x y] c6
      by (intro exI [of _ ?e]) (simp add: copy_field_def f width_in_def width_out_def field_text_def Let_def)
  next
    case False
    have b: "len \<le> length b" and c: "length c = len" using assms(1,4) by (simp_all add: f False width_in_def width_out_def)
    show ?thesis using at nn False strncpy_whole [OF c assms(2) b, of a x y] c ne
      by (intro exI [of _ c]) (simp add: copy_field_def f width_in_def width_out_def field_text_def)
  qed
qed

lemma delimit_from_csv:
  assumes "proper fs" "plain_start a fs t" "NUL \<notin> set t" "length t = total_in fs"
    "total_out fs < length b" "y0 \<noteq> NUL" "y1 \<noteq> NUL"
  shows "\<exists>b'. delimit_from fs (x @ t @ y) (length x) (y0 # y1 # yr) (a @ b) (length a) =
    Some (length x + total_in fs, a @ csv [y0, y1] fs t @ b', length (a @ csv [y0, y1] fs t)) \<and>
    length (a @ csv [y0, y1] fs t @ b') = length (a @ b) \<and> (fs \<noteq> [] \<longrightarrow> b' \<noteq> [] \<and> hd b' = NUL)"
  using assms(1-5)
proof (induction fs arbitrary: a b x t)
  case Nil
  thus ?case by (simp add: total_simps)
next
  case (Cons f fs)
  obtain len sg dt where f: "f = (len, sg, dt)" by (cases f) auto
  define c where "c = take (width_in f) t"
  define t' where "t' = drop (width_in f) t"
  have t: "t = c @ t'" by (simp add: c_def t'_def)
  have w: "0 < width_in f" using Cons.prems(1) by (simp add: f proper_def width_in_def)
  have lc: "length c = width_in f" "length t' = total_in fs" using Cons.prems(4) by (simp_all add: c_def t'_def total_simps)
  have nc: "NUL \<notin> set c" "NUL \<notin> set t'" using Cons.prems(3) by (simp_all add: t)
  have wb: "width_out f + 1 + total_out fs < length b" using Cons.prems(5) by (simp add: total_simps)
  obtain e where e: "copy_field f (x @ c @ t' @ y) (length x) (y0 # y1 # yr) (a @ b) (length a) =
      Some (length x + width_in f, (a @ e) @ drop (width_out f) b, length (a @ e))"
    "e \<noteq> []" "hd e = (if dt then y0 else hd c)" "length e = width_out f"
    "field_text [y0, y1] f c = rstrip (if sg then butlast e else e)"
    using copy_field_whole [OF lc(1) nc(1) w _ assms(6,7), of b x "t' @ y" yr a] wb by (auto simp: f)
  have pa: "rstrip (if sg then butlast (a @ e) else a @ e) = a @ field_text [y0, y1] f c"
    using Cons.prems(2) e(2,5) rstrip_append [of a] by (auto simp: plain_start_def f butlast_append split: if_splits)
  have ne: "a @ field_text [y0, y1] f c \<noteq> []"
  proof (cases "a = []")
    case True
    hence s: "\<not> sg" "\<not> dt" "hd t \<noteq> SPACE" using Cons.prems(2) by (auto simp: plain_start_def f)
    have "c \<noteq> []" using lc(1) w by auto
    hence "hd e \<noteq> SPACE" using s e(3) by (simp add: t)
    thus ?thesis using e(2,5) s(1) rstrip_nonempty [of e] by simp
  qed simp
  define a' where "a' = a @ field_text [y0, y1] f c @ '',''"
  have "rstrip (if sg then butlast (a @ e) else a @ e) \<noteq> []" "2 \<le> length (drop (width_out f) b)"
    using ne wb by (simp_all only: pa) auto
  from end_field_whole [OF this] obtain b2 where b2: "end_field sg ((a @ e) @ drop (width_out f) b) (length (a @ e)) =
      Some (a' @ NUL # b2, length a')" "length (a' @ NUL # b2) = length ((a @ e) @ drop (width_out f) b)"
    unfolding pa a'_def by auto
  have keep: "length (a' @ NUL # b2) = length (a @ b)" using b2(2) e(4) wb by simp
  have "length (a @ field_text [y0, y1] f c) \<le> length (a @ e)"
    unfolding pa [symmetric] by (rule order_trans [OF rstrip_length]) simp
  hence la: "length a' \<le> length a + width_out f + 1" using e(4) by (simp add: a'_def)
  have ps: "plain_start a' fs t'" by (simp add: plain_start_def a'_def SPACE_def)
  have "\<exists>b'. delimit_from fs ((x @ c) @ t' @ y) (length (x @ c)) (y0 # y1 # yr) (a' @ NUL # b2) (length a') =
      Some (length (x @ c) + total_in fs, a' @ csv [y0, y1] fs t' @ b', length (a' @ csv [y0, y1] fs t')) \<and>
      length (a' @ csv [y0, y1] fs t' @ b') = length (a' @ NUL # b2) \<and> (fs \<noteq> [] \<longrightarrow> b' \<noteq> [] \<and> hd b' = NUL)"
    by (rule Cons.IH [OF _ ps nc(2) lc(2)]) (use Cons.prems(1) keep la wb in \<open>auto simp: proper_def\<close>)
  then obtain b' where b': "delimit_from fs (x @ t @ y) (length x + width_in f) (y0 # y1 # yr) (a' @ NUL # b2) (length a') =
      Some (length x + width_in f + total_in fs, a' @ csv [y0, y1] fs t' @ b', length (a' @ csv [y0, y1] fs t'))"
    "length (a' @ csv [y0, y1] fs t' @ b') = length (a @ b)" "fs \<noteq> [] \<Longrightarrow> b' \<noteq> [] \<and> hd b' = NUL"
    using keep lc(1) by (auto simp: t)
  have n: "fs = [] \<Longrightarrow> b' = NUL # b2" using b'(1) by (simp add: lc)
  have v: "a @ csv [y0, y1] (f # fs) t = a' @ csv [y0, y1] fs t'" by (simp add: a'_def c_def t'_def)
  have "delimit_from (f # fs) (x @ t @ y) (length x) (y0 # y1 # yr) (a @ b) (length a) =
      Some (length x + total_in (f # fs), (a' @ csv [y0, y1] fs t') @ b', length (a' @ csv [y0, y1] fs t'))"
    using e(1) b2(1) b'(1) by (simp add: t f total_simps add.assoc)
  moreover have "b' \<noteq> [] \<and> hd b' = NUL" using b'(3) n by (cases "fs = []") auto
  ultimately show ?case unfolding append_assoc [symmetric] v using b'(2) by auto
qed

section \<open>Whole records\<close>

lemma rstrip_set: "set (rstrip s) \<subseteq> set s"
  using set_dropWhileD [of _ "\<lambda>c. c = SPACE" "rev s"] by (auto simp: rstrip_def)

lemma field_text_set: "set (field_text yy f c) \<subseteq> set yy \<union> set c \<union> {CHR ''/''}"
proof -
  obtain len sg dt where f: "f = (len, sg, dt)" by (cases f) auto
  define t where "t = (if dt then yy @ take 2 c @ ''/'' @ take 2 (drop 2 c) @ ''/'' @ drop 4 c else c)"
  have "set t \<subseteq> set yy \<union> set c \<union> {CHR ''/''}" by (auto simp: t_def dest: in_set_takeD in_set_dropD)
  moreover have "set (field_text yy f c) \<subseteq> set t"
    using rstrip_set [of t] rstrip_set [of "butlast t"] by (auto simp: f field_text_def t_def [symmetric] dest: in_set_butlastD)
  ultimately show ?thesis by blast
qed

lemma csv_set: "set (csv yy fs t) \<subseteq> set yy \<union> set t \<union> {CHR ''/'', CHR '',''}"
proof (induction fs arbitrary: t)
  case (Cons f fs)
  have "set (take (width_in f) t) \<subseteq> set t" "set (drop (width_in f) t) \<subseteq> set t"
    by (auto dest: in_set_takeD in_set_dropD)
  thus ?case using field_text_set [of yy f "take (width_in f) t"] Cons.IH [of "drop (width_in f) t"] by auto
qed simp

lemma csv_no_NUL: "NUL \<notin> set yy \<Longrightarrow> NUL \<notin> set t \<Longrightarrow> NUL \<notin> set (csv yy fs t)"
  using csv_set [of yy fs t] by (auto simp: NUL_def)

lemma cstr_prefix: "NUL \<notin> set v \<Longrightarrow> b \<noteq> [] \<Longrightarrow> hd b = NUL \<Longrightarrow> cstr (v @ b) = v"
  by (cases b) (auto simp: cstr_NUL cstr_id)

lemma delimit_csv:
  assumes "fits fs" "proper fs" "length t = total_in fs" "NUL \<notin> set t" "hd t \<noteq> SPACE" "length d = BUFFER_SZ"
    "y0 \<noteq> NUL" "y1 \<noteq> NUL"
  shows "\<exists>d'. delimit (t @ y) d (y0 # y1 # yr) fs = Some d' \<and> cstr d' = csv [y0, y1] fs t"
proof -
  have ne: "fs \<noteq> []" using assms(1) by (auto simp: fits_def)
  have p: "plain_start [] fs t" using assms(1,5) by (auto simp: plain_start_def fits_def split: list.splits)
  have w: "total_out fs < length d" using assms(1,6) by (simp add: fits_def)
  obtain b' where b': "delimit_from fs (t @ y) 0 (y0 # y1 # yr) d 0 =
      Some (total_in fs, csv [y0, y1] fs t @ b', length (csv [y0, y1] fs t))" "b' \<noteq> []" "hd b' = NUL"
    using delimit_from_csv [OF assms(2) p assms(4,3) w assms(7,8), of "[]" y yr] ne by auto
  have "NUL \<notin> set (csv [y0, y1] fs t)" by (rule csv_no_NUL) (use assms(4,7,8) in auto)
  thus ?thesis using b' cstr_prefix by (simp add: delimit_def)
qed

lemma delimit_from_append:
  "delimit_from (fs @ gs) s p yy d q = Option.bind (delimit_from fs s p yy d q) (\<lambda>(p, d, q). delimit_from gs s p yy d q)"
proof (induction fs arbitrary: p d q)
  case (Cons f fs)
  show ?case
    by (cases "copy_field f s p yy d q") (auto simp: Cons.IH split: prod.splits bind_splits)
qed simp

text \<open>
  The last column of a CUSIP record is one character wide but marked as a date. It is printed with the
  century before it, and the rest of the date ends the string before the comma.
\<close>

lemma copy_date_short:
  assumes "c \<noteq> NUL" "11 < length b" "y0 \<noteq> NUL" "y1 \<noteq> NUL"
  shows "\<exists>b'. copy_date (a @ b) (y0 # y1 # yr) (length a) (x @ c # zeros (Suc (Suc (Suc (Suc (Suc n)))))) (length x) =
    Some (a @ [y0, y1, c, NUL] @ b') \<and> length b' = length b - 4 \<and> b' ! 5 = NUL"
proof -
  obtain b0 b1 b2 b3 b4 b5 b6 b7 b8 b9 bs where b: "b = b0 # b1 # b2 # b3 # b4 # b5 # b6 # b7 # b8 # b9 # bs"
    using assms(2) by (auto simp: numeral_eq_Suc Suc_less_eq2 length_Suc_conv less_iff_Suc_add)
  show ?thesis using assms(1,3,4)
    by (simp add: copy_date_def b numeral_eq_Suc cell_at_def put_cell_def zeros_def nth_append list_update_append)
qed

lemma field_text_length: "length c = width_in f \<Longrightarrow> length (field_text [y0, y1] f c) \<le> width_out f"
proof -
  assume c: "length c = width_in f"
  obtain len sg dt where f: "f = (len, sg, dt)" by (cases f) auto
  define t where "t = (if dt then [y0, y1] @ take 2 c @ ''/'' @ take 2 (drop 2 c) @ ''/'' @ drop 4 c else c)"
  have "length t = width_out f" using c by (simp add: t_def f width_in_def width_out_def)
  moreover have "length (rstrip (if sg then butlast t else t)) \<le> length t"
    using rstrip_length [of "butlast t"] rstrip_length [of t] by (cases sg; simp; linarith)
  ultimately show ?thesis by (simp add: f field_text_def t_def [symmetric])
qed

lemma csv_length: "length t = total_in fs \<Longrightarrow> length (csv [y0, y1] fs t) \<le> total_out fs"
proof (induction fs arbitrary: t)
  case (Cons f fs)
  have l: "length (take (width_in f) t) = width_in f" "length (drop (width_in f) t) = total_in fs"
    using Cons.prems by (simp_all add: total_simps)
  show ?case using field_text_length [OF l(1), of y0 y1] Cons.IH [OF l(2)] by (simp add: total_simps)
qed (simp add: total_simps)

lemma cusip_delimiter_lost:
  assumes "length t = 79" "NUL \<notin> set t" "hd t \<noteq> SPACE" "c \<noteq> NUL" "length d = BUFFER_SZ" "y0 \<noteq> NUL" "y1 \<noteq> NUL"
  shows "\<exists>d'. delimit ((t @ [c]) @ zeros 48) d (y0 # y1 # yr) cusip_fields = Some d' \<and>
    cstr d' = csv [y0, y1] (butlast cusip_fields) t @ [y0, y1, c]"
proof -
  let ?fs = "butlast cusip_fields" and ?s = "t @ c # zeros 48" and ?f = "(1, False, True) :: field"
  have split: "cusip_fields = ?fs @ [?f]" by (simp add: cusip_fields_def)
  have io: "total_in ?fs = 79" "total_out ?fs = 101"
    by (simp_all add: cusip_fields_def total_in_def total_out_def width_in_def width_out_def)
  have pr: "proper ?fs" "plain_start [] ?fs t" using assms(3)
    by (simp_all add: cusip_fields_def proper_def plain_start_def)
  define a where "a = csv [y0, y1] ?fs t"
  obtain b where b: "delimit_from ?fs ?s 0 (y0 # y1 # yr) d 0 = Some (79, a @ b, length a)" "length (a @ b) = 128"
    using delimit_from_csv [OF pr assms(2) _ _ assms(6,7), of d "[]" "c # zeros 48" yr] assms(1,5) io
    by (auto simp: BUFFER_SZ_def a_def)
  have la: "length a \<le> 101" using csv_length [of t ?fs y0 y1] assms(1) io by (simp add: a_def)
  hence lb: "11 < length b" using b(2) by simp
  have z: "zeros 48 = zeros (Suc (Suc (Suc (Suc (Suc 43)))))" by simp
  obtain b1 where b1: "copy_date (a @ b) (y0 # y1 # yr) (length a) ?s 79 = Some (a @ [y0, y1, c, NUL] @ b1)"
    "length b1 = length b - 4" "b1 ! 5 = NUL"
    using copy_date_short [OF assms(4) lb assms(6,7), of a yr t 43] assms(1) unfolding z by auto
  have "cell_at ?s 79 = Some c" using assms(1) by (simp add: cell_at_def nth_append)
  hence cf: "copy_field ?f ?s 79 (y0 # y1 # yr) (a @ b) (length a) = Some (85, a @ [y0, y1, c, NUL] @ b1, length a + 10)"
    using b1(1) assms(4) by (simp add: copy_field_def)
  have st: "strip_spaces (a @ [y0, y1, c, NUL] @ b1) (length a + 10) = Some (length a + 10)"
    using b1(2,3) lb by (simp add: numeral_eq_Suc cell_at_def nth_append NUL_def SPACE_def)
  have "\<exists>b2. end_field False (a @ [y0, y1, c, NUL] @ b1) (length a + 10) = Some (a @ [y0, y1, c, NUL] @ b2, length a + 11)"
    using b1(2) lb st by (simp add: end_field_def put_cell_def list_update_append numeral_eq_Suc)
  then obtain b2 where b2: "end_field False (a @ [y0, y1, c, NUL] @ b1) (length a + 10) = Some (a @ [y0, y1, c, NUL] @ b2, length a + 11)"
    by blast
  have "delimit_from (?fs @ [?f]) ?s 0 (y0 # y1 # yr) d 0 = Some (85, a @ [y0, y1, c, NUL] @ b2, length a + 11)"
    using b(1) cf b2 by (simp add: delimit_from_append)
  hence "delimit ((t @ [c]) @ zeros 48) d (y0 # y1 # yr) cusip_fields = Some ((a @ [y0, y1, c]) @ NUL # b2)"
    unfolding split [symmetric] by (simp add: delimit_def)
  moreover have "NUL \<notin> set (a @ [y0, y1, c])"
    using csv_no_NUL [of "[y0, y1]" t ?fs] assms(2,4,6,7) by (auto simp: a_def)
  hence "cstr ((a @ [y0, y1, c]) @ NUL # b2) = a @ [y0, y1, c]" by (intro cstr_prefix) simp_all
  ultimately show ?thesis by (simp add: a_def)
qed

end
