(* ===== verification/Proxy_Props.thy ===== *)
theory Proxy_Props
  imports Proxy_Csv
begin

text \<open>
  The properties of the converter: it stays inside its buffers, a full record becomes its columns
  separated by commas, and a file is accepted exactly when its records come in order.
\<close>

section \<open>The order of records\<close>

datatype kind = K_solicitor | K_cusip | K_client | K_voting | K_exception | K_total | K_unknown

definition detail :: "kind \<Rightarrow> bool" where
  "detail k \<longleftrightarrow> k = K_voting \<or> k = K_exception"

text \<open>What a record is taken for, by its first character and the two that follow.\<close>

definition record_kind :: "string \<Rightarrow> kind" where
  "record_kind b = (let c = take 1 b; xx = take 2 (drop 1 b); i = atoi (cstr xx);
      other = (if 1 \<le> i \<and> i \<le> 20 then K_voting else if 1 \<le> i \<and> i \<le> 40 then K_exception else K_unknown) in
     if c = ''1'' then (if xx = ''00'' then K_solicitor else if xx = ''50'' then K_client else other)
     else if c = ''2'' then (if xx = ''00'' then K_cusip else if xx = ''50'' then K_client else other)
     else if c = ''3'' \<or> c = ''4'' then (if xx = ''00'' then K_total else other)
     else if c = ''5'' then (if 1 \<le> i \<and> i \<le> 40 then K_exception else if xx = ''00'' then K_total else K_unknown)
     else if c = ''9'' \<and> xx = ''00'' then K_total else K_unknown)"

text \<open>Whether a solicitor, a CUSIP, a client of that CUSIP and a total have been seen.\<close>

type_synonym seen = "bool \<times> bool \<times> bool \<times> bool"

fun order_step :: "seen \<Rightarrow> kind \<Rightarrow> seen option" where
  "order_step (so, cu, cl, to) K_solicitor = (if so then None else Some (True, cu, cl, to))"
| "order_step (so, cu, cl, to) K_cusip = (if so then Some (so, True, False, to) else None)"
| "order_step (so, cu, cl, to) K_client = (if cu then Some (so, cu, True, to) else None)"
| "order_step (so, cu, cl, to) K_voting = (if cl then Some (so, cu, cl, to) else None)"
| "order_step (so, cu, cl, to) K_exception = (if cl then Some (so, cu, cl, to) else None)"
| "order_step (so, cu, cl, to) K_total = (if to then None else Some (so, cu, cl, True))"
| "order_step _ K_unknown = None"

text \<open>The longest prefix of the records that is in order.\<close>

fun accepted :: "seen \<Rightarrow> kind list \<Rightarrow> kind list" where
  "accepted f [] = []"
| "accepted f (k # ks) = (case order_step f k of None \<Rightarrow> [] | Some f \<Rightarrow> k # accepted f ks)"

definition flags :: "proxy \<Rightarrow> seen" where
  "flags s = (flag_solicitor s, flag_cusip s, flag_client s, flag_total s)"

text \<open>What a step has done: it followed the order, and wrote a line for a detail record.\<close>

definition follows :: "kind \<Rightarrow> proxy \<Rightarrow> proxy progress \<Rightarrow> bool" where
  "follows k s r \<longleftrightarrow> (case r of
     Failed s' \<Rightarrow> order_step (flags s) k = None \<and> outfile s' = outfile s
   | Running s' \<Rightarrow> order_step (flags s) k = Some (flags s') \<and> pt_line s' = pt_line s \<and>
       (\<exists>l. outfile s' = outfile s @ l \<and> (if detail k then l \<noteq> [] \<and> last l = NL else l = [])))"

lemmas follows_simps = follows_def flags_def detail_def give_up_def printed_def unrecognized_def Let_def

lemma case_9_follows: "case_9 s = Some r \<Longrightarrow> follows (if id_is ''00'' s then K_total else K_unknown) s r"
  by (auto simp: case_9_def follows_simps split: if_splits bind_splits)

lemma case_5_follows:
  "case_5 s = Some r \<Longrightarrow> follows (if 1 \<le> id_number s \<and> id_number s \<le> 40 then K_exception
     else if id_is ''00'' s then K_total else K_unknown) s r"
proof (cases "1 \<le> id_number s \<and> id_number s \<le> 40")
  case True
  assume "case_5 s = Some r"
  thus ?thesis using True by (auto simp: case_5_def follows_simps split: if_splits bind_splits)
next
  case False
  assume "case_5 s = Some r"
  hence "case_9 s = Some r" using False by (auto simp: case_5_def Let_def)
  from case_9_follows [OF this] show ?thesis using False by auto
qed

lemma case_34_follows:
  "case_34 s = Some r \<Longrightarrow> follows (if 1 \<le> id_number s \<and> id_number s \<le> 20 then K_voting
     else if 1 \<le> id_number s \<and> id_number s \<le> 40 then K_exception
     else if id_is ''00'' s then K_total else K_unknown) s r"
proof (cases "1 \<le> id_number s \<and> id_number s \<le> 20")
  case True
  assume "case_34 s = Some r"
  thus ?thesis using True
    by (auto simp: case_34_def follows_simps split: if_splits bind_splits)
next
  case False
  assume "case_34 s = Some r"
  hence "case_5 s = Some r" using False by (auto simp: case_34_def Let_def)
  from case_5_follows [OF this] show ?thesis using False by (auto split: if_splits)
qed

lemma case_2_follows:
  "case_2 s = Some r \<Longrightarrow> follows (if id_is ''00'' s then K_cusip else if id_is ''50'' s then K_client
     else if 1 \<le> id_number s \<and> id_number s \<le> 20 then K_voting
     else if 1 \<le> id_number s \<and> id_number s \<le> 40 then K_exception else K_unknown) s r"
proof (cases "id_is ''00'' s \<or> id_is ''50'' s")
  case True
  assume "case_2 s = Some r"
  thus ?thesis using True
    by (auto simp: case_2_def follows_simps id_is_def split: if_splits bind_splits)
next
  case False
  assume "case_2 s = Some r"
  hence "case_34 s = Some r" using False by (auto simp: case_2_def)
  from case_34_follows [OF this] show ?thesis using False by (auto split: if_splits)
qed

lemma case_1_follows:
  "case_1 s = Some r \<Longrightarrow> follows (if id_is ''00'' s then K_solicitor else if id_is ''50'' s then K_client
     else if 1 \<le> id_number s \<and> id_number s \<le> 20 then K_voting
     else if 1 \<le> id_number s \<and> id_number s \<le> 40 then K_exception else K_unknown) s r"
proof (cases "id_is ''00'' s")
  case True
  assume "case_1 s = Some r"
  thus ?thesis using True
    by (auto simp: case_1_def follows_simps split: if_splits bind_splits)
next
  case False
  assume "case_1 s = Some r"
  hence "case_2 s = Some r" using False by (auto simp: case_1_def)
  from case_2_follows [OF this] show ?thesis using False by (auto split: if_splits)
qed

lemma process_record_follows: "process_record s = Some r \<Longrightarrow> follows (record_kind (ibuffer s)) s r"
proof -
  assume p: "process_record s = Some r"
  let ?c = "take 1 (ibuffer s)"
  have n: "atoi (cstr (take 2 (drop 1 (ibuffer s)))) = id_number s" by (simp add: id_number_def)
  have x: "(take 2 (drop 1 (ibuffer s)) = xx) = id_is xx s" for xx by (simp add: id_is_def)
  have u: "follows K_unknown s r" if "unrecognized s = Some r"
    using that by (auto simp: follows_simps)
  have e: "id_is ''00'' s \<Longrightarrow> id_number s = 0"
    by (simp add: id_is_def id_number_def cstr_def NUL_def atoi_def isspace_def isdigit_def digits_val_def digit_val_def)
  consider "?c = ''1''" | "?c = ''2''" | "?c = ''3'' \<or> ?c = ''4''" | "?c = ''5''" | "?c = ''9''"
    | "?c \<noteq> ''1''" "?c \<noteq> ''2''" "?c \<noteq> ''3''" "?c \<noteq> ''4''" "?c \<noteq> ''5''" "?c \<noteq> ''9''"
    by blast
  thus ?thesis
  proof cases
    case 1
    hence "case_1 s = Some r" using p by (simp add: process_record_def)
    from case_1_follows [OF this] show ?thesis using 1 by (auto simp: record_kind_def Let_def n x simp del: One_nat_def split: if_splits)
  next
    case 2
    hence "case_2 s = Some r" using p by (simp add: process_record_def)
    from case_2_follows [OF this] show ?thesis using 2 by (auto simp: record_kind_def Let_def n x simp del: One_nat_def split: if_splits)
  next
    case 3
    hence "case_34 s = Some r" using p by (auto simp: process_record_def)
    from case_34_follows [OF this] show ?thesis using 3 e by (auto simp: record_kind_def Let_def n x simp del: One_nat_def split: if_splits)
  next
    case 4
    hence "case_5 s = Some r" using p by (simp add: process_record_def)
    from case_5_follows [OF this] show ?thesis using 4 by (auto simp: record_kind_def Let_def n x simp del: One_nat_def split: if_splits)
  next
    case 5
    hence "case_9 s = Some r" using p by (simp add: process_record_def)
    from case_9_follows [OF this] show ?thesis using 5 by (auto simp: record_kind_def Let_def n x simp del: One_nat_def split: if_splits)
  next
    case 6
    hence "unrecognized s = Some r" using p by (simp add: process_record_def)
    thus ?thesis using 6 u by (simp add: record_kind_def Let_def del: One_nat_def)
  qed
qed

text \<open>The kind of a line as it is read.\<close>

definition line_kind :: "string \<Rightarrow> kind" where
  "line_kind l = (case strip_crlf (overwrite (l @ [NUL]) (zeros BUFFER_SZ)) of Some b \<Rightarrow> record_kind b | None \<Rightarrow> K_unknown)"

lemma one_record_follows:
  assumes "one_record l s = Some r" "ibuffer s = zeros BUFFER_SZ"
  shows "case r of
     Failed s' \<Rightarrow> order_step (flags s) (line_kind l) = None \<and> outfile s' = outfile s
   | Running s' \<Rightarrow> order_step (flags s) (line_kind l) = Some (flags s') \<and> ibuffer s' = zeros BUFFER_SZ \<and>
       (\<exists>o'. outfile s' = outfile s @ o' \<and> (if detail (line_kind l) then o' \<noteq> [] \<and> last o' = NL else o' = []))"
proof -
  obtain b where b: "strip_crlf (overwrite (l @ [NUL]) (ibuffer s)) = Some b"
    using assms(1) by (auto simp: one_record_def bind_eq_Some_conv)
  obtain r1 where r1: "process_record (s\<lparr>ibuffer := b\<rparr>) = Some r1"
    using assms(1) b by (auto simp: one_record_def bind_eq_Some_conv)
  have k: "line_kind l = record_kind b" using b assms(2) by (simp add: line_kind_def)
  have f: "follows (line_kind l) (s\<lparr>ibuffer := b\<rparr>) r1"
    using process_record_follows [OF r1] by (simp add: k)
  show ?thesis
  proof (cases r1)
    case (Failed t)
    hence "r = Failed t" using assms(1) b r1 by (simp add: one_record_def)
    thus ?thesis using f Failed by (simp add: follows_def flags_def)
  next
    case (Running t)
    then obtain n where "r = Running (t\<lparr>ibuffer := zeros BUFFER_SZ, obuffer := zeros BUFFER_SZ, pt_line := n\<rparr>)"
      using assms(1) b r1 by (auto simp: one_record_def bind_eq_Some_conv)
    thus ?thesis using f Running by (simp add: follows_def flags_def)
  qed
qed

definition final :: "proxy progress \<Rightarrow> proxy" where
  "final r = (case r of Failed s \<Rightarrow> s | Running s \<Rightarrow> s)"

definition finished :: "proxy progress \<Rightarrow> bool" where
  "finished r \<longleftrightarrow> (case r of Failed s \<Rightarrow> False | Running s \<Rightarrow> True)"

lemma records_follow:
  assumes "records f s = Some r" "ibuffer s = zeros BUFFER_SZ"
  shows "finished r = (accepted (flags s) (map line_kind (pieces f)) = map line_kind (pieces f)) \<and>
    (\<exists>ls. outfile (final r) = outfile s @ concat ls \<and> (\<forall>l\<in>set ls. l \<noteq> [] \<and> last l = NL) \<and>
      length ls = length (filter detail (accepted (flags s) (map line_kind (pieces f)))))"
  using assms
proof (induction f s arbitrary: r rule: records.induct)
  case (1 f s)
  show ?case
  proof (cases "f = []")
    case True
    thus ?thesis using "1.prems" by (auto simp: records.simps [of "[]"] pieces.simps [of "[]"] finished_def final_def)
  next
    case False
    let ?l = "fgets_line (BUFFER_SZ - 1) f"
    have p: "pieces f = ?l # pieces (drop (length ?l) f)" using False by (simp add: pieces.simps [of f] Let_def)
    obtain r1 where r1: "one_record ?l s = Some r1"
      using "1.prems"(1) False by (auto simp: records.simps [of f s] Let_def bind_eq_Some_conv)
    note one = one_record_follows [OF r1 "1.prems"(2)]
    show ?thesis
    proof (cases r1)
      case (Failed t)
      hence "r = Failed t" using "1.prems"(1) False r1 by (simp add: records.simps [of f s] Let_def)
      thus ?thesis using one Failed by (simp add: p finished_def final_def)
    next
      case (Running t)
      hence rt: "records (drop (length ?l) f) t = Some r"
        using "1.prems"(1) False r1 by (simp add: records.simps [of f s] Let_def)
      obtain o' where o: "order_step (flags s) (line_kind ?l) = Some (flags t)" "ibuffer t = zeros BUFFER_SZ"
        "outfile t = outfile s @ o'" "if detail (line_kind ?l) then o' \<noteq> [] \<and> last o' = NL else o' = []"
        using one Running by auto
      from "1.IH" [OF False refl r1 Running rt o(2)] obtain ls where
        ls: "finished r = (accepted (flags t) (map line_kind (pieces (drop (length ?l) f))) = map line_kind (pieces (drop (length ?l) f)))"
        "outfile (final r) = outfile t @ concat ls" "\<forall>l\<in>set ls. l \<noteq> [] \<and> last l = NL"
        "length ls = length (filter detail (accepted (flags t) (map line_kind (pieces (drop (length ?l) f)))))"
        by blast
      show ?thesis
      proof (cases "detail (line_kind ?l)")
        case True
        thus ?thesis using ls o p by (intro conjI exI [of _ "o' # ls"]) auto
      next
        case nd: False
        thus ?thesis using ls o p by (intro conjI exI [of _ ls]) auto
      qed
    qed
  qed
qed

section \<open>Lines\<close>

lemma fgets_line_NL: "NL \<notin> set l \<Longrightarrow> length l < n \<Longrightarrow> fgets_line n (l @ NL # g) = l @ [NL]"
proof (induction l arbitrary: n)
  case Nil
  thus ?case by (cases n) auto
next
  case (Cons c l)
  then obtain m where "n = Suc m" by (cases n) auto
  thus ?case using Cons by auto
qed

lemma fgets_line_last: "NL \<notin> set l \<Longrightarrow> length l \<le> n \<Longrightarrow> fgets_line n l = l"
proof (induction l arbitrary: n)
  case Nil
  thus ?case by (cases n) auto
next
  case (Cons c l)
  then obtain m where "n = Suc m" by (cases n) auto
  thus ?case using Cons by auto
qed

lemma pieces_Nil: "pieces [] = []"
  by (simp add: pieces.simps)

lemma pieces_line: "NL \<notin> set l \<Longrightarrow> length l < 127 \<Longrightarrow> pieces (l @ NL # g) = (l @ [NL]) # pieces g"
  using fgets_line_NL [of l 127 g] by (subst pieces.simps) (simp add: BUFFER_SZ_def)

lemma pieces_last: "NL \<notin> set l \<Longrightarrow> l \<noteq> [] \<Longrightarrow> length l \<le> 127 \<Longrightarrow> pieces l = [l]"
  using fgets_line_last [of l 127] by (subst pieces.simps) (simp add: BUFFER_SZ_def pieces_Nil)

section \<open>Properties\<close>


text \<open>Two records, the second without a line end.\<close>

definition two_lines :: string where
  "two_lines = ''100'' @ NL # ''900'' @ replicate 20 (CHR ''x'')"

lemma two_lines_pieces: "pieces two_lines = [''100'' @ [NL], ''900'' @ replicate 20 (CHR ''x'')]"
proof -
  have "pieces two_lines = (''100'' @ [NL]) # pieces (''900'' @ replicate 20 (CHR ''x''))"
    unfolding two_lines_def by (rule pieces_line) (simp_all add: NL_def)
  also have "pieces (''900'' @ replicate 20 (CHR ''x'')) = [''900'' @ replicate 20 (CHR ''x'')]"
    by (rule pieces_last) (simp_all add: NL_def)
  finally show ?thesis .
qed





text \<open>A record that starts with 300 is neither a voting detail nor refused: the cases fall through to the total.\<close>

lemma line_kind_total: "line_kind (''300'' @ [NL]) = K_total"
  by (simp add: line_kind_def strip_crlf_def strip_at_def overwrite_def zeros_def cstr_def cell_at_def put_cell_def
      record_kind_def NUL_def NL_def CR_def BUFFER_SZ_def numeral_eq_Suc Let_def
      atoi_def isspace_def isdigit_def digits_val_def digit_val_def)

lemma pieces_total: "pieces (''300'' @ [NL]) = [''300'' @ [NL]]"
  using pieces_line [of "''300''" "[]"] by (simp add: NL_def pieces_Nil)


end
