(* ===== verification/Spec2Isabelle.thy ===== *)
theory Spec2Isabelle
  imports Dsm_Props Dsm_Debug_Props Slab_Props Bigint_Props Proxy_Props
begin

text \<open>
  A verification development for the C and C++ programs of the repository. Most of it is the
  Diameter session manager (\<open>diameter-session-manager/\<close>): a front end process that relays
  credit-control messages between a Diameter client and the GDI interface of a rating engine. The
  other parts are independent programs: a slab allocator with an identifier generator
  (\<open>slab-allocator-memory-cache/\<close>), a class of big integers with its test driver (\<open>bigint/\<close>) and a
  converter of proxy voting files (\<open>proxy-transmission/\<close>).

  The session manager, and the theories that model it.

  \<^item> \<open>dsm_fsm.c\<close>, \<open>dsm_fsm.h\<close>: the state machine of a session (theory \<open>Fsm\<close>). Enumerations are
    datatypes, \<open>stt\<close> is the transition table and counts rejected events.
  \<^item> \<open>dsm.h\<close>, \<open>dsm_ccdb.h\<close>, \<open>dsm_tdb.h\<close>: the data (theory \<open>Dsm_State\<close>). A C structure is a record
    with the names of its members. The elements of the static arrays of callouts, sessions and queued
    messages, and the message buffers, are functions of an index; a pointer to one is the index, one
    that may be NULL an option; a tail queue is the list of its elements; an \<open>ulong\<close> is a 32-bit word;
    the counters \<open>meas\<close> map a name to a natural number. The functions of the front end platform
    (\<open>fep_\<close>, \<open>tell_\<close>, \<open>conf_\<close>), which are not in the repository, are the fields of the records
    \<open>env\<close> and \<open>main_env\<close> over an abstract world. What the code relies on is stated in \<open>pool_contract\<close>
    (theory \<open>Sample\<close>) and \<open>main_contract\<close> (theory \<open>Main_Inv\<close>), which the sample system meets.
  \<^item> \<open>dsm_tdb.c\<close>: the timer wheel (theory \<open>Tdb\<close>), with \<open>process_timer\<close> over any callback.
  \<^item> \<open>dsm_driver.c\<close>: the driver that sets and cancels timers at random (theory \<open>Driver\<close>).
  \<^item> \<open>dsm_main.c\<close>: the hash functions of Session-Ids (theory \<open>Hash\<close>); start-up, the message loop, the
    control messages and the shut-down (theory \<open>Dsm_Main\<close>); the debug masks and the functions that
    format bits, times, strings and memory dumps (theory \<open>Dsm_Debug\<close>), where what is printed is the
    result.
  \<^item> \<open>dsm_ccdb.c\<close>: the session database. \<open>Ccdb_Set\<close> holds the setters of sessions and messages and
    the transaction identifier, \<open>Ccdb_Save\<close> and \<open>Ccdb_Construct\<close> copy a message into a session and
    build one from it, \<open>Ccdb_Session\<close> holds the hash table of sessions and the message queues, and
    \<open>Process_Expire\<close>, \<open>Process_Diam\<close>, \<open>Process_Gdi\<close> and \<open>Process_Diamctx\<close> the handlers of expired
    timers, of Diameter and GDI messages and their dispatch. The subscriber trap is in \<open>Dsm_Main\<close>.

  The other programs.

  \<^item> \<open>fep_slab.c\<close>: \<open>Links\<close> has the circular lists of the code, as a map from a list element to its
    neighbours, \<open>Slab\<close> the allocator (slots, blocks and the objects carved from them, \<open>fep_slab_init\<close>,
    \<open>fep_slab_alloc\<close>, \<open>fep_slab_free\<close>, \<open>calc_zstore\<close>) and \<open>Idgen\<close> the identifiers (\<open>fep_id_gen_init\<close> to
    \<open>fep_id_get_data\<close>). \<open>Allocator\<close> is the interface of both to a client: the locale \<open>pool\<close>, in which a
    client allocates and gives back in any order; it is interpreted as \<open>slab_pool\<close> and \<open>id_pool\<close>.
    \<open>Slab_Inv\<close> holds the invariant (which object is on which list, and that all counters are exact),
    \<open>Slab_Use\<close> start-up and the layout in memory, \<open>Slab_Props\<close> the properties.
  \<^item> \<open>bigint.c\<close>, \<open>bigint.h\<close>: \<open>Bigint\<close> has the class with its constructors, assignment and operators. A
    number is an array of limbs with a head and a signed length; an array is a list of cells that may
    be unwritten, and an operation that would read one, leave the array or overflow yields \<open>None\<close>.
    \<open>Bigint_Val\<close> says what an object stands for (\<open>rep\<close>) and follows the loops of \<open>add_diff\<close> and
    \<open>add_same\<close>, \<open>Bigint_Ops\<close> the other operators, \<open>Bigint_Text\<close> reading and printing.
  \<^item> \<open>bigint.t.c\<close>: the statements of the test driver (\<open>Bigint_Driver\<close>), their meaning over the integers
    and the refinement (\<open>Bigint_Driver_Ref\<close>), its sections (\<open>Bigint_Driver_Run\<close>) and the Fibonacci
    tests (\<open>Bigint_Fib\<close>). \<open>Bigint_Props\<close> has the properties, and the locale \<open>exact_ints\<close>: what a
    client may rely on, with the laws of arithmetic that follow from it.
  \<^item> \<open>ProxyTransmission.c\<close>: \<open>Proxy\<close> has the tables of columns, \<open>delimit\<close>, the switch over the records
    with its falling through, and the program. \<open>Proxy_Inv\<close> shows that it stays inside its buffers,
    \<open>Proxy_Csv\<close> what \<open>delimit\<close> yields for full records, \<open>Proxy_Props\<close> the order of records.

  \<open>C_Text\<close> has what the programs use of the C library on text.

  A model that returns an option gives \<open>None\<close> exactly where the C code would dereference a
  null or dangling pointer, unlink an element that is in no list, index an array out of range, or do
  something else that C leaves undefined.

  What the lemmas show. \<open>Fsm\<close>: which paths a session can take. \<open>Tdb\<close> and \<open>Driver\<close>: the wheel
  refines a table of timers with remaining ticks (\<open>process_timer\<close> is one tick). \<open>Hash\<close>: buckets are
  in range. \<open>Ccdb_Set\<close>: composing and reading transaction identifiers. \<open>Ccdb_Inv\<close>,
  \<open>Ccdb_Timers\<close>, \<open>Ccdb_Table\<close>, \<open>Session_Inv\<close>: the invariant \<open>hinv\<close> of the database: which session
  is in which bucket, that its timers and queue belong to it alone and which timers it may have in
  which state, with the operations of the table keeping it. \<open>Expire_Inv\<close>, \<open>Gdi_Inv\<close>, \<open>Diam_Inv\<close>,
  \<open>Diamctx_Inv\<close>: every handler returns and keeps it. \<open>Main_Inv\<close>: start-up establishes it, the loop
  keeps it, the shut-down frees everything. \<open>Directory\<close>: the table implements a partial map from
  Session-Ids to sessions, stated as the locale \<open>directory_store\<close>. \<open>Dsm_Flow\<close> and \<open>Dsm_Props\<close>: what
  the handlers do with a request, and the properties of the whole; \<open>Sample_Run\<close> has the concrete
  system of the witnesses. \<open>Dsm_Debug_Props\<close>: the masks select their categories, the bits of a number
  are read back, a dump has the lines of a reference definition.

  Loops over lists are structural recursion. \<open>drain_queue\<close>, \<open>finalize_ccdb\<close> and \<open>process_diamctx\<close>,
  which calls itself for a queued message, are \<open>partial_function\<close>s in the option monad; that they
  return is proved (\<open>drain_queue_gen\<close>, \<open>finalize_ccdb_stopped\<close>, \<open>process_diamctx_ok\<close>). The endless
  loop of \<open>main\<close> is run for a number of rounds, any number in the properties. The Fibonacci loop and
  function of the test driver are \<open>partial_function\<close>s as well, and return (\<open>fib_loop_ok\<close>,
  \<open>fibonacci_ok\<close>); the converter consumes its input.

  Not modelled: log text and printing of the session manager (\<open>XPRINT\<close> macros, \<open>diamctx_print\<close>,
  \<open>user_session_print\<close>, \<open>user_session_sprint\<close>, and that the process debug mask only decides what is
  logged), mutexes (the code changes its data only
  while it holds them), the memory and timing reports of the big integer tests, and the snippets of
  the repository in other languages.
\<close>

end
